(* ===== verification/Prelude.thy ===== *)
theory Prelude
  imports Main "HOL-Library.Sublist"
begin

text \<open>
  Shared vocabulary of the development: the collections of rewrite rules the components
  declare their facts into, association lists read as the insertion-ordered objects of
  JavaScript, and the string operations of the ECMAScript standard library that the modelled
  code calls. A string of the source is a \<^typ>\<open>string\<close>, one \<^typ>\<open>char\<close> per code unit.
\<close>

named_theorems inv_defs \<open>definitions of the component invariants\<close>
named_theorems op_defs \<open>definitions of the operations of the components\<close>

type_synonym key = string

subsection \<open>Lists\<close>

text \<open>\<open>Array.prototype.filter((k) => k !== x)\<close>, the idiom by which the code deletes a key.\<close>

abbreviation without :: "'a \<Rightarrow> 'a list \<Rightarrow> 'a list" where
  "without x xs \<equiv> filter (\<lambda>k. k \<noteq> x) xs"

lemma distinct_snoc_without [simp, intro]: "distinct xs \<Longrightarrow> distinct (without x xs @ [x])"
  by simp

lemma length_without_le: "length (without x xs) \<le> length xs"
  by simp

lemma without_hd [simp]: "distinct (x # xs) \<Longrightarrow> without x (x # xs) = xs"
  by (auto simp: filter_id_conv)

lemma without_idem [simp]: "x \<notin> set xs \<Longrightarrow> without x xs = xs"
  by (auto simp: filter_id_conv)

subsection \<open>Maps\<close>

lemma restrict_map_superset [simp]: "dom m \<subseteq> A \<Longrightarrow> m |` A = m"
proof (rule ext)
  fix x
  assume "dom m \<subseteq> A"
  then show "(m |` A) x = m x"
    by (cases "m x") (auto simp: restrict_map_def)
qed

end
