(* ===== verification/Cache.thy ===== *)
theory Cache
  imports Prelude
begin

text \<open>
  The expiring, bounded cache of \<open>utils/useCache.ts\<close> (class \<open>CacheMgr\<close>). The clock
  \<open>new Date().valueOf()\<close> is the argument \<open>now\<close> of the operations that read it. The private
  object \<open>cache\<close> is a map from keys, \<open>cacheItemKeys\<close> the list of keys by age of the last
  \<open>set\<close>.
\<close>

record 'v CacheItem =
  expireAt :: int
  data :: 'v

record 'v CacheMgr =
  cache :: "key \<rightharpoonup> 'v CacheItem"
  cacheItemKeys :: "key list"
  capacity :: int
  globalExpire :: int

definition ONE_HOUR_TIME :: int where
  "ONE_HOUR_TIME = 1 * 60 * 60 * 1000"

definition newCacheMgr :: "int \<Rightarrow> int \<Rightarrow> 'v CacheMgr" where
  "newCacheMgr cap ge =
     \<lparr>cache = Map.empty, cacheItemKeys = [], capacity = cap, globalExpire = ge\<rparr>"

definition cache_remove :: "key \<Rightarrow> 'v CacheMgr \<Rightarrow> 'v CacheMgr" where
  "cache_remove k c =
     c\<lparr>cache := (cache c)(k := None), cacheItemKeys := without k (cacheItemKeys c)\<rparr>"

definition cache_clear :: "'v CacheMgr \<Rightarrow> 'v CacheMgr" where
  "cache_clear c = c\<lparr>cache := Map.empty, cacheItemKeys := []\<rparr>"

definition cache_get :: "int \<Rightarrow> key \<Rightarrow> 'v CacheMgr \<Rightarrow> 'v option \<times> 'v CacheMgr" where
  "cache_get now k c =
     (case cache c k of
        None \<Rightarrow> (None, c)
      | Some item \<Rightarrow>
          if expireAt item < now then (None, cache_remove k c) else (Some (data item), c))"

text \<open>The \<open>while\<close> loop at the end of \<open>set\<close>: drop the oldest key until the list fits.\<close>

function cache_evict :: "'v CacheMgr \<Rightarrow> 'v CacheMgr" where
  "cache_evict c =
     (case cacheItemKeys c of
        [] \<Rightarrow> c
      | k # ks \<Rightarrow>
          if 0 < capacity c \<and> capacity c < int (length (cacheItemKeys c))
          then cache_evict (cache_remove k c) else c)"
  by pat_completeness auto
termination
  by (relation "measure (\<lambda>c. length (cacheItemKeys c))")
    (auto simp: cache_remove_def less_Suc_eq_le)

declare cache_evict.simps [simp del]

definition cache_set :: "int \<Rightarrow> key \<Rightarrow> 'v \<Rightarrow> int option \<Rightarrow> 'v CacheMgr \<Rightarrow> 'v CacheMgr" where
  "cache_set now k v expire c =
     (let at = (case expire of
                  Some e \<Rightarrow> if e \<noteq> 0 then now + e else now + globalExpire c
                | None \<Rightarrow> now + globalExpire c);
          c1 = c\<lparr>cache := (cache c)(k \<mapsto> \<lparr>expireAt = at, data = v\<rparr>),
                 cacheItemKeys := without k (cacheItemKeys c) @ [k]\<rparr>
      in cache_evict c1)"


subsection \<open>Invariant\<close>

definition cache_inv :: "'v CacheMgr \<Rightarrow> bool" where
  [inv_defs]: "cache_inv c \<longleftrightarrow>
     distinct (cacheItemKeys c) \<and> dom (cache c) = set (cacheItemKeys c) \<and>
     (0 < capacity c \<longrightarrow> int (length (cacheItemKeys c)) \<le> capacity c)"

text \<open>What \<open>set\<close> establishes before the eviction loop: the invariant without the bound.\<close>

definition cache_keys_ok :: "'v CacheMgr \<Rightarrow> bool" where
  [inv_defs]: "cache_keys_ok c \<longleftrightarrow>
     distinct (cacheItemKeys c) \<and> dom (cache c) = set (cacheItemKeys c)"

lemma capacity_cache_remove [simp]:
  "capacity (cache_remove k c) = capacity c" "globalExpire (cache_remove k c) = globalExpire c"
  by (simp_all add: cache_remove_def)

lemma cache_inv_keys_ok [intro]: "cache_inv c \<Longrightarrow> cache_keys_ok c"
  by (simp add: inv_defs)

lemma cache_keys_ok_remove [intro]: "cache_keys_ok c \<Longrightarrow> cache_keys_ok (cache_remove k c)"
  by (auto simp: inv_defs cache_remove_def)

lemma cache_inv_new: "cache_inv (newCacheMgr cap ge)"
  by (simp add: inv_defs newCacheMgr_def)

lemma cache_inv_clear: "cache_inv c \<Longrightarrow> cache_inv (cache_clear c)"
  by (simp add: inv_defs cache_clear_def)

lemma cache_inv_remove [intro]: "cache_inv c \<Longrightarrow> cache_inv (cache_remove k c)"
  using length_without_le [of k "cacheItemKeys c"]
  by (auto simp: inv_defs cache_remove_def simp del: length_filter_le)

lemma cache_inv_get: "cache_inv c \<Longrightarrow> cache_inv (snd (cache_get now k c))"
  by (auto simp: cache_get_def split: option.splits)

text \<open>
  The eviction loop in closed form: it keeps the youngest \<open>capacity\<close> keys, in order, and the
  items of exactly those keys.
\<close>

definition kept_keys :: "int \<Rightarrow> key list \<Rightarrow> key list" where
  "kept_keys cap ks = (if 0 < cap then drop (length ks - nat cap) ks else ks)"

lemma kept_keys_fits: "int (length ks) \<le> cap \<Longrightarrow> kept_keys cap ks = ks"
  by (simp add: kept_keys_def)

lemma kept_keys_drop_oldest:
  assumes "0 < cap" and "cap < int (length (k # ks))"
  shows "kept_keys cap (k # ks) = kept_keys cap ks"
proof -
  have "length (k # ks) - nat cap = Suc (length ks - nat cap)"
    using assms by auto
  with assms show ?thesis by (simp add: kept_keys_def)
qed

lemma cache_evict_closed_form:
  assumes "cache_keys_ok c"
  shows "cacheItemKeys (cache_evict c) = kept_keys (capacity c) (cacheItemKeys c) \<and>
    cache (cache_evict c) = cache c |` set (kept_keys (capacity c) (cacheItemKeys c)) \<and>
    capacity (cache_evict c) = capacity c \<and> globalExpire (cache_evict c) = globalExpire c"
  using assms
proof (induction c rule: cache_evict.induct)
  case (1 c)
  let ?go = "0 < capacity c \<and> capacity c < int (length (cacheItemKeys c))"
  show ?case
  proof (cases "cacheItemKeys c")
    case Nil
    with "1.prems" show ?thesis
      by (auto simp: cache_evict.simps [of c] kept_keys_def inv_defs)
  next
    case (Cons k ks)
    let ?c' = "cache_remove k c"
    show ?thesis
    proof (cases ?go)
      case True
      have k: "k \<notin> set ks" using "1.prems" Cons by (simp add: inv_defs)
      have ks': "cacheItemKeys ?c' = ks"
        using Cons k by (simp add: cache_remove_def)
      have kept: "kept_keys (capacity c) (cacheItemKeys c) = kept_keys (capacity c) ks"
        using True Cons by (simp add: kept_keys_drop_oldest)
      have sub: "set (kept_keys (capacity c) ks) \<subseteq> set ks"
        by (auto simp: kept_keys_def dest: in_set_dropD)
      have m: "cache ?c' |` set (kept_keys (capacity c) ks)
          = cache c |` set (kept_keys (capacity c) ks)"
        using k sub by (auto simp: cache_remove_def restrict_map_def fun_eq_iff)
      have unf: "cache_evict c = cache_evict ?c'"
        using Cons True by (simp add: cache_evict.simps [of c])
      from "1.IH" [OF Cons True] "1.prems" ks' kept m unf show ?thesis
        by (simp add: cache_keys_ok_remove)
    next
      case False
      have unf: "cache_evict c = c"
        using Cons False by (auto simp: cache_evict.simps [of c])
      have "kept_keys (capacity c) (cacheItemKeys c) = cacheItemKeys c"
        using False by (auto simp: kept_keys_def)
      moreover have "cache c |` set (cacheItemKeys c) = cache c"
        using "1.prems" by (simp add: inv_defs)
      ultimately show ?thesis using unf by simp
    qed
  qed
qed


lemma kept_keys_snoc:
  assumes "distinct (ks @ [k])"
  shows "k \<in> set (kept_keys cap (ks @ [k]))" and "distinct (kept_keys cap (ks @ [k]))"
    and "0 < cap \<Longrightarrow> int (length (kept_keys cap (ks @ [k]))) \<le> cap"
  using assms by (auto simp: kept_keys_def drop_append distinct_drop dest: in_set_dropD)

text \<open>\<open>set\<close> in closed form, before the invariant is read off.\<close>

definition expiry :: "int \<Rightarrow> int option \<Rightarrow> 'v CacheMgr \<Rightarrow> int" where
  "expiry now expire c =
     (case expire of Some e \<Rightarrow> if e \<noteq> 0 then now + e else now + globalExpire c
      | None \<Rightarrow> now + globalExpire c)"

lemma cache_set_closed_form:
  fixes c :: "'v CacheMgr" and k :: key
  assumes "cache_inv c"
  defines "ks \<equiv> kept_keys (capacity c) (without k (cacheItemKeys c) @ [k])"
  shows "cacheItemKeys (cache_set now k v e c) = ks"
    and "cache (cache_set now k v e c) =
      (cache c)(k \<mapsto> \<lparr>expireAt = expiry now e c, data = v\<rparr>) |` set ks"
    and "capacity (cache_set now k v e c) = capacity c"
    and "globalExpire (cache_set now k v e c) = globalExpire c"
proof -
  define c1 where "c1 = c\<lparr>cache := (cache c)(k \<mapsto> \<lparr>expireAt = expiry now e c, data = v\<rparr>),
    cacheItemKeys := without k (cacheItemKeys c) @ [k]\<rparr>"
  have "cache_keys_ok c1"
    using assms(1) by (auto simp: inv_defs c1_def)
  note cf = cache_evict_closed_form [OF this]
  have set_eq: "cache_set now k v e c = cache_evict c1"
    by (simp add: cache_set_def c1_def expiry_def Let_def)
  show "cacheItemKeys (cache_set now k v e c) = ks"
    and "cache (cache_set now k v e c) =
      (cache c)(k \<mapsto> \<lparr>expireAt = expiry now e c, data = v\<rparr>) |` set ks"
    and "capacity (cache_set now k v e c) = capacity c"
    and "globalExpire (cache_set now k v e c) = globalExpire c"
    using cf by (simp_all add: set_eq ks_def) (simp_all add: c1_def)
qed

lemma set_kept_keys_subset: "set (kept_keys cap ks) \<subseteq> set ks"
  by (auto simp: kept_keys_def dest: in_set_dropD)

lemma cache_inv_set [intro]:
  assumes "cache_inv c"
  shows "cache_inv (cache_set now k v e c)"
proof -
  have d: "distinct (without k (cacheItemKeys c) @ [k])"
    using assms by (simp add: inv_defs)
  have "set (kept_keys (capacity c) (without k (cacheItemKeys c) @ [k]))
      \<subseteq> insert k (dom (cache c))"
    using set_kept_keys_subset [of "capacity c" "without k (cacheItemKeys c) @ [k]"] assms
    by (auto simp: inv_defs)
  with kept_keys_snoc [OF d, of "capacity c"] show ?thesis
    by (auto simp: cache_inv_def cache_set_closed_form [OF assms])
qed

lemma cache_get_set_same:
  assumes "cache_inv c"
  shows "cache_get now' k (cache_set now k v e c) =
    (if expiry now e c < now' then (None, cache_remove k (cache_set now k v e c))
     else (Some v, cache_set now k v e c))"
proof -
  have "distinct (without k (cacheItemKeys c) @ [k])"
    using assms by (simp add: inv_defs)
  from kept_keys_snoc(1) [OF this] show ?thesis
    by (simp add: cache_get_def cache_set_closed_form(2) [OF assms])
qed

subsection \<open>The interface of the cache\<close>

text \<open>
  What the clients of the cache rely on: a lookup returns what is stored under the key, a lookup
  and a store add nothing else, clearing removes everything. A client states with \<open>entries P\<close> that
  all stored values satisfy \<open>P\<close>.
\<close>

locale expiring_store =
  fixes fetch :: "int \<Rightarrow> key \<Rightarrow> 's \<Rightarrow> 'v option \<times> 's"
    and store :: "int \<Rightarrow> key \<Rightarrow> 'v \<Rightarrow> int option \<Rightarrow> 's \<Rightarrow> 's"
    and wipe :: "'s \<Rightarrow> 's"
    and content :: "'s \<Rightarrow> key \<Rightarrow> 'v option"
    and ok :: "'s \<Rightarrow> bool"
  assumes fetch_val: "fst (fetch t k s) = Some v \<Longrightarrow> content s k = Some v"
    and fetch_content: "content (snd (fetch t k s)) k' = Some v \<Longrightarrow> content s k' = Some v"
    and store_content: "ok s \<Longrightarrow> content (store t k v e s) k' = Some w \<Longrightarrow>
      (k' = k \<and> w = v) \<or> content s k' = Some w"
    and wipe_content: "content (wipe s) k = None"
    and ok_fetch: "ok s \<Longrightarrow> ok (snd (fetch t k s))"
    and ok_store: "ok s \<Longrightarrow> ok (store t k v e s)"
    and ok_wipe: "ok s \<Longrightarrow> ok (wipe s)"
begin

definition entries :: "(key \<Rightarrow> 'v \<Rightarrow> bool) \<Rightarrow> 's \<Rightarrow> bool" where
  "entries P s \<longleftrightarrow> ok s \<and> (\<forall>k v. content s k = Some v \<longrightarrow> P k v)"

lemma entries_hit: "entries P s \<Longrightarrow> fst (fetch t k s) = Some v \<Longrightarrow> P k v"
  by (simp add: entries_def fetch_val)

lemma entries_fetch: "entries P s \<Longrightarrow> entries P (snd (fetch t k s))"
  by (auto simp: entries_def ok_fetch dest: fetch_content)

lemma entries_store: "entries P s \<Longrightarrow> P k v \<Longrightarrow> entries P (store t k v e s)"
  by (auto simp: entries_def ok_store dest: store_content)

lemma entries_wipe: "entries P s \<Longrightarrow> entries P (wipe s)"
  by (simp add: entries_def ok_wipe wipe_content)

end

definition cache_content :: "'v CacheMgr \<Rightarrow> key \<Rightarrow> 'v option" where
  "cache_content c k = map_option data (cache c k)"

interpretation cs: expiring_store cache_get cache_set cache_clear cache_content cache_inv
proof
  fix c :: "'v CacheMgr" and t k k' v w e
  show "fst (cache_get t k c) = Some v \<Longrightarrow> cache_content c k = Some v"
    by (auto simp: cache_get_def cache_content_def split: option.splits if_splits)
  show "cache_content (snd (cache_get t k c)) k' = Some v \<Longrightarrow> cache_content c k' = Some v"
    by (auto simp: cache_get_def cache_content_def cache_remove_def split: option.splits if_splits)
  show "(k' = k \<and> w = v) \<or> cache_content c k' = Some w"
    if "cache_inv c" "cache_content (cache_set t k v e c) k' = Some w"
    using that(2) cache_set_closed_form(2) [OF that(1), of t k v e]
    by (auto simp: cache_content_def restrict_map_def split: if_splits)
  show "cache_content (cache_clear c) k = None" by (simp add: cache_content_def cache_clear_def)
qed (auto intro: cache_inv_get cache_inv_clear)

lemma cache_new_entries: "cs.entries P (newCacheMgr cap ge)"
  using cache_inv_new [of cap ge] by (simp add: cs.entries_def cache_content_def newCacheMgr_def)

subsection \<open>Runs of the cache\<close>

datatype 'v cache_op =
    Get int key
  | Set int key 'v "int option"
  | Remove key
  | Clear

fun cache_step :: "'v cache_op \<Rightarrow> 'v CacheMgr \<Rightarrow> 'v CacheMgr" where
  "cache_step (Get now k) c = snd (cache_get now k c)"
| "cache_step (Set now k v e) c = cache_set now k v e c"
| "cache_step (Remove k) c = cache_remove k c"
| "cache_step Clear c = cache_clear c"

lemma cache_inv_step: "cache_inv c \<Longrightarrow> cache_inv (cache_step op c)"
  by (cases op) (auto intro: cache_inv_get cache_inv_clear)

lemma cache_inv_run: "cache_inv c \<Longrightarrow> cache_inv (fold cache_step ops c)"
  by (induction ops arbitrary: c) (auto intro: cache_inv_step)

lemma cache_get_remaining [simp]:
  "capacity (snd (cache_get now k c)) = capacity c"
  "globalExpire (snd (cache_get now k c)) = globalExpire c"
  by (auto simp: cache_get_def split: option.splits)

lemma capacity_evict [simp]:
  "capacity (cache_evict c) = capacity c \<and> globalExpire (cache_evict c) = globalExpire c"
proof (induction c rule: cache_evict.induct)
  case (1 c)
  then show ?case
    by (cases "cacheItemKeys c") (auto simp: cache_evict.simps [of c])
qed

lemma capacity_step [simp]: "capacity (cache_step op c) = capacity c"
  by (cases op) (simp_all add: cache_set_def cache_clear_def Let_def)

lemma capacity_run [simp]: "capacity (fold cache_step ops c) = capacity c"
  by (induction ops arbitrary: c) simp_all

subsection \<open>Properties\<close>

text \<open>
  In every state the cache reaches by any sequence of its operations, the list of keys and the
  stored items agree, no key is listed twice, and a positive capacity is never exceeded.
\<close>

theorem cache_reachable:
  fixes ops :: "'v cache_op list" and cap ge :: int
  defines "c \<equiv> fold cache_step ops (newCacheMgr cap ge)"
  shows "distinct (cacheItemKeys c) \<and> dom (cache c) = set (cacheItemKeys c) \<and>
    (0 < cap \<longrightarrow> int (length (cacheItemKeys c)) \<le> cap)"
  using cache_inv_run [OF cache_inv_new, of ops cap ge]
  by (simp add: c_def cache_inv_def newCacheMgr_def)

theorem cache_reachable_witness:
  "int (length (cacheItemKeys (fold cache_step [Set 0 ''a'' (1 :: int) None, Set 1 ''b'' 2 None]
     (newCacheMgr 1 10)))) \<le> 1"
  using cache_reachable [of "[Set 0 ''a'' (1 :: int) None, Set 1 ''b'' 2 None]" 1 10] by simp

text \<open>
  Storing a value makes it the youngest entry and evicts exactly the oldest ones beyond the
  capacity: the keys are the last \<open>capacity\<close> of the previous keys without the stored one, followed by
  it, and every entry that stays keeps its value and its expiry time.
\<close>

theorem cache_set_evicts_oldest:
  fixes k :: key
  assumes "cache_inv c"
  defines "ks \<equiv> without k (cacheItemKeys c) @ [k]"
  defines "kept \<equiv> if 0 < capacity c then drop (length ks - nat (capacity c)) ks else ks"
  shows "cacheItemKeys (cache_set now k v e c) = kept \<and> k \<in> set kept \<and>
    (\<forall>k'. cache (cache_set now k v e c) k' =
       (if k' = k then Some \<lparr>expireAt = expiry now e c, data = v\<rparr>
        else if k' \<in> set kept then cache c k' else None))"
proof -
  have "distinct ks" using assms(1) by (simp add: ks_def inv_defs)
  from kept_keys_snoc(1) [OF this [unfolded ks_def], of "capacity c"]
  have "k \<in> set kept" by (simp add: kept_def ks_def kept_keys_def)
  then show ?thesis
    using cache_set_closed_form(1,2) [OF assms(1), of now k v e]
    by (auto simp: kept_def ks_def kept_keys_def restrict_map_def)
qed

theorem cache_set_evicts_oldest_witness:
  "cacheItemKeys (cache_set 2 ''c'' (3 :: int) None
     (cache_set 1 ''b'' 2 None (cache_set 0 ''a'' 1 None (newCacheMgr 2 10)))) = [''b'', ''c'']"
proof -
  let ?a = "cache_set 0 ''a'' (1 :: int) None (newCacheMgr 2 10)"
  let ?b = "cache_set 1 ''b'' 2 None ?a"
  have inv: "cache_inv ?a" "cache_inv ?b" by (intro cache_inv_set cache_inv_new)+
  have "cacheItemKeys ?a = [''a'']" "capacity ?a = 2"
    using cache_set_closed_form(1,3) [OF cache_inv_new, of 0 "''a''" "1 :: int" None 2 10]
    by (simp_all add: newCacheMgr_def kept_keys_def)
  with inv(1) have "cacheItemKeys ?b = [''a'', ''b'']" "capacity ?b = 2"
    using cache_set_closed_form(1,3) [OF inv(1), of 1 "''b''" 2 None] by (simp_all add: kept_keys_def)
  with cache_set_evicts_oldest [OF inv(2), of 2 "''c''" 3 None] show ?thesis by simp
qed

text \<open>
  A value that was just stored is returned until its expiry time, whatever the capacity, and
  from then on the lookup returns nothing and drops the entry; an expiry of zero counts as absent.
\<close>

theorem cache_get_after_set:
  assumes "cache_inv c"
  shows "fst (cache_get now' k (cache_set now k v e c)) =
      (if now' \<le> now + (case e of Some t \<Rightarrow> if t \<noteq> 0 then t else globalExpire c | None \<Rightarrow> globalExpire c)
       then Some v else None) \<and>
    (fst (cache_get now' k (cache_set now k v e c)) = None \<longrightarrow>
       k \<notin> set (cacheItemKeys (snd (cache_get now' k (cache_set now k v e c)))))"
  using cache_get_set_same [OF assms, of now' k now v e]
  by (auto simp: expiry_def cache_remove_def split: option.splits)

theorem cache_get_after_set_witness:
  "fst (cache_get 7 ''a'' (cache_set 5 ''a'' (1 :: int) (Some 3) (newCacheMgr 1 10))) = Some 1"
  using cache_get_after_set [OF cache_inv_new, of 7 "''a''" 5 "1 :: int" "Some 3" 1 10] by simp

end
