(* ===== verification/JsNum.thy ===== *)
theory JsNum
  imports Complex_Main Prelude
begin

text \<open>
  The \<open>Number\<close> values of the source: not-a-number, the two infinities and the finite numbers.
  Finite numbers are exact rationals; the rounding of IEEE doubles is not modelled. Comparisons
  with \<open>NaN\<close> are false and arithmetic on it is \<open>NaN\<close>, as in ECMAScript. The library's classes
  \<open>plus\<close>, \<open>minus\<close>, \<open>times\<close>, \<open>divide\<close>, \<open>zero\<close>, \<open>one\<close> and \<open>ord\<close> are instantiated, so that the
  models read like the source.
\<close>

datatype jsnum = NaN | PosInf | NegInf | Fin rat

instantiation jsnum :: "{zero, one, uminus, plus, minus, times, ord}"
begin

definition zero_jsnum :: jsnum where "0 = Fin 0"

definition one_jsnum :: jsnum where "1 = Fin 1"

fun uminus_jsnum :: "jsnum \<Rightarrow> jsnum" where
  "- NaN = NaN"
| "- PosInf = NegInf"
| "- NegInf = PosInf"
| "- (Fin a) = Fin (- a)"

fun plus_jsnum :: "jsnum \<Rightarrow> jsnum \<Rightarrow> jsnum" where
  "NaN + y = NaN"
| "x + NaN = NaN"
| "PosInf + NegInf = NaN"
| "NegInf + PosInf = NaN"
| "PosInf + y = PosInf"
| "x + PosInf = PosInf"
| "NegInf + y = NegInf"
| "x + NegInf = NegInf"
| "Fin a + Fin b = Fin (a + b)"

definition minus_jsnum :: "jsnum \<Rightarrow> jsnum \<Rightarrow> jsnum" where
  "x - y = x + (- y :: jsnum)"

definition sign_inf :: "rat \<Rightarrow> jsnum" where
  "sign_inf a = (if a = 0 then NaN else if 0 < a then PosInf else NegInf)"

fun times_jsnum :: "jsnum \<Rightarrow> jsnum \<Rightarrow> jsnum" where
  "NaN * y = NaN"
| "x * NaN = NaN"
| "Fin a * Fin b = Fin (a * b)"
| "Fin a * PosInf = sign_inf a"
| "Fin a * NegInf = sign_inf (- a)"
| "PosInf * Fin b = sign_inf b"
| "NegInf * Fin b = sign_inf (- b)"
| "PosInf * PosInf = PosInf"
| "PosInf * NegInf = NegInf"
| "NegInf * PosInf = NegInf"
| "NegInf * NegInf = PosInf"

fun less_jsnum :: "jsnum \<Rightarrow> jsnum \<Rightarrow> bool" where
  "NaN < y = False"
| "x < NaN = False"
| "x < NegInf = False"
| "PosInf < y = False"
| "NegInf < y = True"
| "x < PosInf = True"
| "Fin a < Fin b = (a < b)"

definition less_eq_jsnum :: "jsnum \<Rightarrow> jsnum \<Rightarrow> bool" where
  "x \<le> y \<longleftrightarrow> x < y \<or> (x = y \<and> x \<noteq> (NaN :: jsnum))"

instance ..

end

text \<open>
  Division by zero gives an infinity or \<open>NaN\<close>. There is one zero only: a result that depends on
  the sign of zero is outside the model.
\<close>

fun js_div :: "jsnum \<Rightarrow> jsnum \<Rightarrow> jsnum" where
  "js_div NaN y = NaN"
| "js_div x NaN = NaN"
| "js_div (Fin a) (Fin b) = (if b = 0 then sign_inf a else Fin (a / b))"
| "js_div (Fin a) y = Fin 0"
| "js_div PosInf (Fin b) = (if b < 0 then NegInf else PosInf)"
| "js_div NegInf (Fin b) = (if b < 0 then PosInf else NegInf)"
| "js_div x y = NaN"

text \<open>\<open>Math.floor\<close>, \<open>Math.ceil\<close>, \<open>Math.max\<close>, \<open>Math.min\<close> and truthiness of a number.\<close>

fun js_floor :: "jsnum \<Rightarrow> jsnum" where
  "js_floor (Fin a) = Fin (of_int \<lfloor>a\<rfloor>)"
| "js_floor x = x"

fun js_ceil :: "jsnum \<Rightarrow> jsnum" where
  "js_ceil (Fin a) = Fin (of_int \<lceil>a\<rceil>)"
| "js_ceil x = x"

definition js_max :: "jsnum \<Rightarrow> jsnum \<Rightarrow> jsnum" where
  "js_max x y = (if x = NaN \<or> y = NaN then NaN else if x < y then y else x)"

definition js_min :: "jsnum \<Rightarrow> jsnum \<Rightarrow> jsnum" where
  "js_min x y = (if x = NaN \<or> y = NaN then NaN else if y < x then y else x)"

definition truthy :: "jsnum \<Rightarrow> bool" where
  "truthy x \<longleftrightarrow> x \<noteq> NaN \<and> x \<noteq> Fin 0"

abbreviation js_int :: "int \<Rightarrow> jsnum" where
  "js_int i \<equiv> Fin (of_int i)"

lemma minus_Fin [simp]: "Fin a - Fin b = Fin (a - b)"
  by (simp add: minus_jsnum_def)

lemma Fin_le [simp]: "Fin a \<le> Fin b \<longleftrightarrow> a \<le> b"
  by (auto simp: less_eq_jsnum_def)

lemma NaN_arith [simp]:
  "x + NaN = NaN" "x - NaN = NaN" "NaN - x = NaN" "x * NaN = NaN" "\<not> x < NaN"
  "\<not> x \<le> NaN" "\<not> NaN \<le> x"
  by (cases x; simp add: minus_jsnum_def less_eq_jsnum_def)+

lemma js_max_Fin [simp]: "js_max (Fin a) (Fin b) = Fin (max a b)"
  by (simp add: js_max_def max_def)

lemma js_min_Fin [simp]: "js_min (Fin a) (Fin b) = Fin (min a b)"
  by (simp add: js_min_def min_def)

lemma truthy_NaN [simp]: "\<not> truthy NaN"
  by (simp add: truthy_def)

lemma truthy_js_int [simp]: "truthy (js_int i) \<longleftrightarrow> i \<noteq> 0"
  by (simp add: truthy_def)

end
