(* ===== verification/JsString.thy ===== *)
theory JsString
  imports JsNum
begin

text \<open>
  Strings of the source, as lists of code units, and the methods of \<open>String.prototype\<close> and the
  conversions between strings and numbers that the modelled code calls.
\<close>

subsection \<open>Searching, slicing, splitting\<close>

text \<open>\<open>s.startsWith(p)\<close> is \<^term>\<open>prefix p s\<close>.\<close>

fun index_aux :: "string \<Rightarrow> string \<Rightarrow> nat \<Rightarrow> nat option" where
  "index_aux p [] i = (if p = [] then Some i else None)"
| "index_aux p (c # s) i = (if prefix p (c # s) then Some i else index_aux p s (Suc i))"

text \<open>\<open>s.indexOf(p, pos)\<close>, with \<^term>\<open>None\<close> for \<open>-1\<close>.\<close>

definition indexOf :: "string \<Rightarrow> string \<Rightarrow> nat \<Rightarrow> nat option" where
  "indexOf s p pos = index_aux p (drop pos s) (min pos (length s))"

text \<open>\<open>s.slice(a, b)\<close>: negative positions count from the end.\<close>

definition slice_pos :: "string \<Rightarrow> int \<Rightarrow> nat" where
  "slice_pos s i = (if i < 0 then nat (int (length s) + i) else min (nat i) (length s))"

definition slice :: "string \<Rightarrow> int \<Rightarrow> int \<Rightarrow> string" where
  "slice s a b = take (slice_pos s b - slice_pos s a) (drop (slice_pos s a) s)"

text \<open>\<open>s.split(c)\<close> for a separator of one code unit, and \<open>xs.join(sep)\<close>.\<close>

fun split_on :: "char \<Rightarrow> string \<Rightarrow> string list" where
  "split_on c [] = [[]]"
| "split_on c (x # xs) =
     (if x = c then [] # split_on c xs
      else (case split_on c xs of [] \<Rightarrow> [[x]] | y # ys \<Rightarrow> (x # y) # ys))"

fun join :: "string \<Rightarrow> string list \<Rightarrow> string" where
  "join sep [] = []"
| "join sep [x] = x"
| "join sep (x # y # ys) = x @ sep @ join sep (y # ys)"

text \<open>\<open>s.replaceAll(p, r)\<close> for a non-empty \<open>p\<close> and a replacement without \<open>$\<close> patterns.\<close>

fun replace_from :: "nat \<Rightarrow> string \<Rightarrow> string \<Rightarrow> string \<Rightarrow> string" where
  "replace_from skip p r [] = []"
| "replace_from (Suc skip) p r (c # s) = replace_from skip p r s"
| "replace_from 0 p r (c # s) =
     (if prefix p (c # s) then r @ replace_from (length p - 1) p r s
      else c # replace_from 0 p r s)"

definition replaceAll :: "string \<Rightarrow> string \<Rightarrow> string \<Rightarrow> string" where
  "replaceAll s p r = replace_from 0 p r s"

subsection \<open>White space and case\<close>

definition code :: "char \<Rightarrow> nat" where
  "code c = of_char c"

definition is_space :: "char \<Rightarrow> bool" where
  "is_space c \<longleftrightarrow> code c \<in> {9, 10, 11, 12, 13, 32, 160}"

definition trimStart :: "string \<Rightarrow> string" where
  "trimStart s = dropWhile is_space s"

definition trimEnd :: "string \<Rightarrow> string" where
  "trimEnd s = rev (dropWhile is_space (rev s))"

definition trim :: "string \<Rightarrow> string" where
  "trim s = trimEnd (trimStart s)"

definition lower_char :: "char \<Rightarrow> char" where
  "lower_char c =
     (if 65 \<le> code c \<and> code c \<le> 90 \<or> 192 \<le> code c \<and> code c \<le> 222 \<and> code c \<noteq> 215
      then char_of (code c + 32) else c)"

definition toLowerCase :: "string \<Rightarrow> string" where
  "toLowerCase s = map lower_char s"

subsection \<open>Numbers as strings\<close>

definition digit_char :: "nat \<Rightarrow> char" where
  "digit_char d = char_of (48 + d)"

definition is_digit :: "char \<Rightarrow> bool" where
  "is_digit c \<longleftrightarrow> 48 \<le> code c \<and> code c \<le> 57"

definition digit_val :: "char \<Rightarrow> nat" where
  "digit_val c = code c - 48"

fun show_nat :: "nat \<Rightarrow> string" where
  "show_nat n =
     (if n < 10 then [digit_char n] else show_nat (n div 10) @ [digit_char (n mod 10)])"

declare show_nat.simps [simp del]

definition show_int :: "int \<Rightarrow> string" where
  "show_int i = (if i < 0 then CHR ''-'' # show_nat (nat (- i)) else show_nat (nat i))"

fun show_frac :: "nat \<Rightarrow> rat \<Rightarrow> string" where
  "show_frac 0 f = []"
| "show_frac (Suc n) f =
     (if f = 0 then [] else digit_char (nat \<lfloor>10 * f\<rfloor>) # show_frac n (10 * f - of_int \<lfloor>10 * f\<rfloor>))"

text \<open>
  \<open>String(n)\<close>: integers in decimal digits, other numbers with up to 17 fractional digits.
\<close>

fun show_num :: "jsnum \<Rightarrow> string" where
  "show_num NaN = ''NaN''"
| "show_num PosInf = ''Infinity''"
| "show_num NegInf = ''-Infinity''"
| "show_num (Fin a) =
     (if of_int \<lfloor>a\<rfloor> = a then show_int \<lfloor>a\<rfloor>
      else (if a < 0 then ''-'' else '''') @ show_nat (nat \<lfloor>\<bar>a\<bar>\<rfloor>) @ ''.'' @
           show_frac 17 (\<bar>a\<bar> - of_int \<lfloor>\<bar>a\<bar>\<rfloor>))"

definition digits_val :: "string \<Rightarrow> nat" where
  "digits_val s = foldl (\<lambda>n c. 10 * n + digit_val c) 0 s"

text \<open>Hexadecimal digits, for the \<open>0x\<close> prefix \<open>parseInt\<close> and \<open>Number\<close> accept.\<close>

definition hex_val :: "char \<Rightarrow> nat option" where
  "hex_val c =
     (if is_digit c then Some (digit_val c)
      else if 97 \<le> code (lower_char c) \<and> code (lower_char c) \<le> 102
      then Some (code (lower_char c) - 87) else None)"

definition hexs_val :: "string \<Rightarrow> nat" where
  "hexs_val s = foldl (\<lambda>n c. 16 * n + the (hex_val c)) 0 s"

definition strip_sign :: "string \<Rightarrow> bool \<times> string" where
  "strip_sign s =
     (case s of c # r \<Rightarrow>
        if c = CHR ''-'' then (True, r) else if c = CHR ''+'' then (False, r) else (False, s)
      | [] \<Rightarrow> (False, []))"

definition has_hex_prefix :: "string \<Rightarrow> bool" where
  "has_hex_prefix s \<longleftrightarrow> prefix ''0x'' s \<or> prefix ''0X'' s"

text \<open>\<open>parseInt(s)\<close>, with \<^term>\<open>None\<close> for \<open>NaN\<close>.\<close>

definition parseInt :: "string \<Rightarrow> int option" where
  "parseInt s =
     (let (neg, t) = strip_sign (trimStart s);
          signed = (\<lambda>n::nat. if neg then - int n else int n)
      in if has_hex_prefix t
         then (let hs = takeWhile (\<lambda>c. hex_val c \<noteq> None) (drop 2 t)
               in if hs = [] then None else Some (signed (hexs_val hs)))
         else (let ds = takeWhile is_digit t
               in if ds = [] then None else Some (signed (digits_val ds))))"

text \<open>
  The unsigned decimal literal at the front of a string and what follows it: digits, an optional
  fraction and, when it is complete, an exponent.
\<close>

definition scale10 :: "rat \<Rightarrow> int \<Rightarrow> rat" where
  "scale10 m e = (if 0 \<le> e then m * 10 ^ nat e else m / 10 ^ nat (- e))"

definition scan_exponent :: "string \<Rightarrow> int \<times> string" where
  "scan_exponent s =
     (case s of
        [] \<Rightarrow> (0, [])
      | c # r \<Rightarrow>
          if c = CHR ''e'' \<or> c = CHR ''E''
          then (let (neg, t) = strip_sign r; ds = takeWhile is_digit t
                in if ds = [] then (0, s)
                   else (if neg then - int (digits_val ds) else int (digits_val ds),
                         drop (length ds) t))
          else (0, s))"

definition scan_decimal :: "string \<Rightarrow> (rat \<times> string) option" where
  "scan_decimal s =
     (let ip = takeWhile is_digit s; r = drop (length ip) s;
          (fp, r2) = (case r of
                        c # t \<Rightarrow> if c = CHR ''.'' then (takeWhile is_digit t, dropWhile is_digit t)
                                else ([], r)
                      | [] \<Rightarrow> ([], []));
          (e, r3) = scan_exponent r2
      in if ip = [] \<and> fp = [] then None
         else Some (scale10 (of_nat (digits_val (ip @ fp))) (e - int (length fp)), r3))"

definition sign_num :: "bool \<Rightarrow> jsnum \<Rightarrow> jsnum" where
  "sign_num neg x = (if neg then - x else x)"

text \<open>\<open>Number(s)\<close> (binary and octal literals left out) and \<open>parseFloat(s)\<close>.\<close>

definition js_Number :: "string \<Rightarrow> jsnum" where
  "js_Number s =
     (let t = trim s
      in if t = [] then Fin 0
         else if has_hex_prefix t
         then (if drop 2 t \<noteq> [] \<and> list_all (\<lambda>c. hex_val c \<noteq> None) (drop 2 t)
               then Fin (of_nat (hexs_val (drop 2 t))) else NaN)
         else (let (neg, u) = strip_sign t
               in if u = ''Infinity'' then sign_num neg PosInf
                  else (case scan_decimal u of
                          Some (v, []) \<Rightarrow> sign_num neg (Fin v)
                        | _ \<Rightarrow> NaN)))"

definition parseFloat :: "string \<Rightarrow> jsnum" where
  "parseFloat s =
     (let (neg, u) = strip_sign (trimStart s)
      in if prefix ''Infinity'' u then sign_num neg PosInf
         else (case scan_decimal u of Some (v, _) \<Rightarrow> sign_num neg (Fin v) | None \<Rightarrow> NaN))"


subsection \<open>Splitting and joining\<close>

lemma split_on_nonempty [simp]: "split_on c s \<noteq> []"
  by (induction s) (auto split: list.split)

lemma split_on_no_sep: "c \<notin> set s \<Longrightarrow> split_on c s = [s]"
  by (induction s) auto

lemma split_on_append_sep: "c \<notin> set x \<Longrightarrow> split_on c (x @ c # y) = x # split_on c y"
  by (induction x) auto

lemma split_join:
  "xs \<noteq> [] \<Longrightarrow> \<forall>x \<in> set xs. c \<notin> set x \<Longrightarrow> split_on c (join [c] xs) = xs"
  by (induction "[c]" xs rule: join.induct) (auto simp: split_on_no_sep split_on_append_sep)

lemma join_split: "join [c] (split_on c s) = s"
proof (induction s)
  case (Cons x xs)
  obtain y ys where "split_on c xs = y # ys"
    by (meson neq_Nil_conv split_on_nonempty)
  with Cons show ?case by (cases ys) auto
qed simp

lemma split_on_elems: "x \<in> set (split_on c s) \<Longrightarrow> c \<notin> set x"
proof (induction s arbitrary: x)
  case (Cons a s)
  obtain y ys where ys: "split_on c s = y # ys"
    by (meson neq_Nil_conv split_on_nonempty)
  with Cons.IH have "c \<notin> set y" and "\<forall>z \<in> set ys. c \<notin> set z" by auto
  with Cons.prems ys show ?case by (auto split: if_splits)
qed auto

lemma join_eq_Nil: "join [c] xs = [] \<longleftrightarrow> xs = [] \<or> xs = [[]]"
  by (induction "[c]" xs rule: join.induct) auto

subsection \<open>Searching\<close>

lemma index_aux_Some:
  "index_aux p s i = Some j \<Longrightarrow> i \<le> j \<and> j - i \<le> length s \<and> prefix p (drop (j - i) s)"
proof (induction s arbitrary: i)
  case (Cons c s)
  show ?case
  proof (cases "prefix p (c # s)")
    case False
    with Cons.prems have "index_aux p s (Suc i) = Some j" by simp
    with Cons.IH have "Suc i \<le> j" "j - Suc i \<le> length s" "prefix p (drop (j - Suc i) s)"
      by auto
    then show ?thesis by (simp add: drop_Cons' Suc_diff_Suc flip: Suc_diff_le)
  qed (use Cons.prems in auto)
qed (auto split: if_splits)

lemma indexOf_Some:
  assumes "indexOf s p pos = Some j"
  shows "prefix p (drop j s)" and "j \<le> length s" and "min pos (length s) \<le> j"
  using index_aux_Some [of p "drop pos s" "min pos (length s)" j] assms
  by (auto simp: indexOf_def min_def split: if_splits)

lemma indexOf_char_Some:
  assumes "indexOf s [c] pos = Some j"
  shows "j < length s" and "pos \<le> j" and "s ! j = c"
proof -
  note h = indexOf_Some [OF assms]
  from h(1) obtain t where t: "drop j s = c # t"
    by (auto simp: prefix_def)
  then show j: "j < length s" by (metis drop_all leI list.distinct(1))
  with t show "s ! j = c" by (metis Cons_nth_drop_Suc list.inject)
  from h(3) j show "pos \<le> j" by simp
qed

subsection \<open>Decimal digits\<close>

lemma code_digit_char [simp]: "d < 10 \<Longrightarrow> code (digit_char d) = 48 + d"
  by (simp add: code_def digit_char_def)

lemma is_digit_digit_char [simp]: "d < 10 \<Longrightarrow> is_digit (digit_char d)"
  by (simp add: is_digit_def)

lemma digit_val_digit_char [simp]: "d < 10 \<Longrightarrow> digit_val (digit_char d) = d"
  by (simp add: digit_val_def)

lemma is_digit_not_space: "is_digit c \<Longrightarrow> \<not> is_space c"
  by (auto simp: is_digit_def is_space_def)

lemma is_digit_neq:
  assumes "is_digit c"
  shows "c \<noteq> CHR ''-''" "c \<noteq> CHR ''+''" "c \<noteq> CHR ''.''" "c \<noteq> CHR ''x''" "c \<noteq> CHR ''X''"
    "c \<noteq> CHR ''I''" "c \<noteq> CHR '',''" "c \<noteq> CHR '';''" "c \<noteq> CHR ''n''" "c \<noteq> CHR ''e''" "c \<noteq> CHR ''E''"
  using assms by (auto simp: is_digit_def code_def)

lemma show_nat_digits: "c \<in> set (show_nat n) \<Longrightarrow> is_digit c"
proof (induction n rule: show_nat.induct)
  case (1 n)
  then show ?case by (auto simp: show_nat.simps [of n] split: if_splits)
qed

lemma show_nat_nonempty [simp]: "show_nat n \<noteq> []"
  by (subst show_nat.simps) simp

lemma digits_val_snoc: "digits_val (s @ [c]) = 10 * digits_val s + digit_val c"
  by (simp add: digits_val_def)

lemma digits_val_show_nat [simp]: "digits_val (show_nat n) = n"
proof (induction n rule: show_nat.induct)
  case (1 n)
  show ?case
  proof (cases "n < 10")
    case True
    then show ?thesis by (simp add: show_nat.simps [of n] digits_val_def)
  next
    case False
    with 1 have "digits_val (show_nat (n div 10)) = n div 10" by simp
    with False show ?thesis by (simp add: show_nat.simps [of n] digits_val_snoc)
  qed
qed

lemma takeWhile_show_nat [simp]: "takeWhile is_digit (show_nat n) = show_nat n"
  by (simp add: takeWhile_eq_all_conv show_nat_digits)

lemma trimStart_no_space: "s = [] \<or> \<not> is_space (hd s) \<Longrightarrow> trimStart s = s"
  by (cases s) (auto simp: trimStart_def)

lemma trimEnd_no_space: "s = [] \<or> \<not> is_space (last s) \<Longrightarrow> trimEnd s = s"
  by (cases s rule: rev_cases) (auto simp: trimEnd_def)

lemma show_nat_hd_last:
  shows "is_digit (hd (show_nat n))" and "is_digit (last (show_nat n))"
  by (rule show_nat_digits [of _ n], simp)+

lemma trim_show_nat [simp]: "trim (show_nat n) = show_nat n" "trimStart (show_nat n) = show_nat n"
  by (simp_all add: trim_def trimStart_no_space trimEnd_no_space is_digit_not_space
      show_nat_hd_last)

lemma is_space_minus [simp]: "\<not> is_space (CHR ''-'')"
  by (simp add: is_space_def code_def)

lemma trim_show_int [simp]: "trim (show_int i) = show_int i" "trimStart (show_int i) = show_int i"
proof -
  have "trimEnd (CHR ''-'' # show_nat n) = CHR ''-'' # show_nat n" for n
    by (rule trimEnd_no_space) (simp add: is_digit_not_space show_nat_hd_last)
  moreover have "trimStart (CHR ''-'' # show_nat n) = CHR ''-'' # show_nat n" for n
    by (rule trimStart_no_space) simp
  ultimately show "trim (show_int i) = show_int i" "trimStart (show_int i) = show_int i"
    by (simp_all add: show_int_def) (simp_all add: trim_def)
qed

lemma strip_sign_show_nat [simp]: "strip_sign (show_nat n) = (False, show_nat n)"
proof -
  obtain c r where cr: "show_nat n = c # r" by (meson neq_Nil_conv show_nat_nonempty)
  with show_nat_digits [of c n] is_digit_neq [of c] show ?thesis
    by (simp add: strip_sign_def)
qed

lemma strip_sign_show_int: "strip_sign (show_int i) = (i < 0, show_nat (nat \<bar>i\<bar>))"
proof (cases "i < 0")
  case True
  then show ?thesis by (simp add: show_int_def strip_sign_def)
next
  case False
  then show ?thesis by (simp add: show_int_def)
qed

lemma not_hex_show_nat [simp]: "\<not> has_hex_prefix (show_nat n)"
proof
  assume "has_hex_prefix (show_nat n)"
  then obtain c where "c \<in> set (show_nat n)" and "c = CHR ''x'' \<or> c = CHR ''X''"
    unfolding has_hex_prefix_def prefix_def by fastforce
  with show_nat_digits [of c n] is_digit_neq [of c] show False by blast
qed

lemma not_hex_show_int [simp]: "\<not> has_hex_prefix (show_int i)"
  by (simp add: show_int_def) (simp add: has_hex_prefix_def)

text \<open>Printing an integer and reading it back with \<open>parseInt\<close> or \<open>Number\<close> is the identity.\<close>

lemma parseInt_show_int [simp]: "parseInt (show_int i) = Some i"
  by (auto simp: parseInt_def strip_sign_show_int Let_def)

lemma scan_decimal_show_nat [simp]: "scan_decimal (show_nat n) = Some (of_nat n, [])"
  by (simp add: scan_decimal_def Let_def scan_exponent_def scale10_def)

lemma show_nat_not_Infinity [simp]: "show_nat n \<noteq> ''Infinity''"
  using show_nat_digits [of "CHR ''I''" n] is_digit_neq(6) by fastforce

lemma show_int_nonempty [simp]: "show_int i \<noteq> []"
  by (simp add: show_int_def)

lemma Number_show_int [simp]: "js_Number (show_int i) = js_int i"
  by (auto simp: js_Number_def strip_sign_show_int Let_def sign_num_def)

lemma show_num_js_int [simp]: "show_num (js_int i) = show_int i"
  by simp

lemma show_int_chars: "c \<in> set (show_int i) \<Longrightarrow> is_digit c \<or> c = CHR ''-''"
  by (auto simp: show_int_def dest: show_nat_digits split: if_splits)

subsection \<open>Replacing\<close>

text \<open>
  No occurrence of \<open>p\<close> is left when the replacement is non-empty, starts with a character that is
  not in \<open>p\<close> and does not contain the first character of \<open>p\<close>.
\<close>

lemma prefix_replace_from:
  "r \<noteq> [] \<Longrightarrow> hd r \<notin> set q \<Longrightarrow> prefix q (replace_from 0 p r s) \<Longrightarrow> prefix q s"
proof (induction s arbitrary: q)
  case (Cons c s)
  show ?case
  proof (cases q)
    case (Cons d q')
    show ?thesis
    proof (cases "prefix p (c # s)")
      case True
      with Cons.prems Cons have "d = hd r" by (cases r) auto
      with Cons.prems(2) Cons show ?thesis by simp
    next
      case False
      with Cons.prems Cons Cons.IH [of q'] show ?thesis by auto
    qed
  qed simp
qed simp

lemma index_aux_append_None:
  assumes "p \<noteq> []" and "hd p \<notin> set r"
  shows "index_aux p (r @ s) i = None \<longleftrightarrow> index_aux p s (i + length r) = None"
  using assms(2)
proof (induction r arbitrary: i)
  case (Cons c r)
  with assms(1) have "\<not> prefix p (c # r @ s)" by (cases p) auto
  with Cons Cons.IH [of "Suc i"] show ?case by simp
qed simp

lemma index_aux_None_shift: "index_aux p s i = None \<longleftrightarrow> index_aux p s j = None"
  by (induction s arbitrary: i j) auto

lemma index_aux_replace_from:
  assumes "p \<noteq> []" "r \<noteq> []" "hd p \<notin> set r" "hd r \<notin> set p"
  shows "index_aux p (replace_from k p r s) i = None"
proof (induction s arbitrary: k i)
  case (Cons c s)
  show ?case
  proof (cases k)
    case 0
    show ?thesis
    proof (cases "prefix p (c # s)")
      case True
      with 0 Cons.IH assms show ?thesis by (simp add: index_aux_append_None)
    next
      case False
      then have "\<not> prefix p (replace_from 0 p r (c # s))"
        using prefix_replace_from assms by blast
      with 0 False Cons.IH show ?thesis by simp
    qed
  qed (use Cons in simp)
qed (use assms in simp)

lemma replaceAll_complete:
  assumes "p \<noteq> []" "r \<noteq> []" "hd p \<notin> set r" "hd r \<notin> set p"
  shows "indexOf (replaceAll s p r) p 0 = None"
  using index_aux_replace_from [OF assms] by (simp add: indexOf_def replaceAll_def)

lemma replace_from_unchanged: "index_aux p s i = None \<Longrightarrow> replace_from 0 p r s = s"
  by (induction s arbitrary: i) (auto split: if_splits)

lemma replaceAll_unchanged: "indexOf s p 0 = None \<Longrightarrow> replaceAll s p r = s"
  by (simp add: indexOf_def replaceAll_def replace_from_unchanged)

end
