(* ===== verification/TimeRange.thy ===== *)
theory TimeRange
  imports JsString
begin

text \<open>
  Time ranges: \<open>components/TimeRangeSelector/index.tsx\<close> and \<open>WithZoomOut.tsx\<close> of the dashboard
  library, and their successor \<open>1-utils/src/time-range.ts\<close> of the second generation user
  interface (names with the suffix \<open>_v2\<close>). The clock \<open>dayjs().unix()\<close> is the argument \<open>now\<close>.
  A selected range travels in the URL as the two strings \<open>from\<close> and \<open>to\<close>; the locale
  \<open>url_codec\<close> states what the pages rely on, and both versions are interpretations of it.
\<close>

type_synonym TimeRangeValue = "jsnum \<times> jsnum"

subsection \<open>The dashboard library\<close>

datatype TimeRange = Recent jsnum | Absolute jsnum jsnum

definition DEFAULT_TIME_RANGE :: TimeRange where
  "DEFAULT_TIME_RANGE = Recent (Fin (30 * 60))"

definition DEFAULT_RECENT_SECONDS :: "int list" where
  "DEFAULT_RECENT_SECONDS =
     [5 * 60, 15 * 60, 30 * 60, 60 * 60, 3 * 60 * 60, 6 * 60 * 60, 12 * 60 * 60, 24 * 60 * 60,
      2 * 24 * 60 * 60, 7 * 24 * 60 * 60, 30 * 24 * 60 * 60, 90 * 24 * 60 * 60]"

definition toTimeRangeValue :: "jsnum \<Rightarrow> TimeRange option \<Rightarrow> jsnum \<Rightarrow> TimeRangeValue" where
  "toTimeRangeValue now timeRange offset =
     (case (case timeRange of Some t \<Rightarrow> t | None \<Rightarrow> DEFAULT_TIME_RANGE) of
        Absolute a b \<Rightarrow> (a + offset, b + offset)
      | Recent v \<Rightarrow> (now - v + offset, now + 1 + offset))"

definition fromTimeRangeValue :: "TimeRangeValue \<Rightarrow> TimeRange" where
  "fromTimeRangeValue v = Absolute (fst v) (snd v)"

type_synonym URLTimeRange = "string \<times> string"

definition toURLTimeRange :: "jsnum \<Rightarrow> TimeRange \<Rightarrow> URLTimeRange" where
  "toURLTimeRange now timeRange =
     (case timeRange of
        Recent v \<Rightarrow> (show_num v, ''now'')
      | Absolute a b \<Rightarrow>
          (let v = toTimeRangeValue now (Some timeRange) 0 in (show_num (fst v), show_num (snd v))))"

definition urlToTimeRange :: "URLTimeRange \<Rightarrow> TimeRange" where
  "urlToTimeRange u =
     (if snd u = ''now'' then Recent (js_Number (fst u))
      else Absolute (js_Number (fst u)) (js_Number (snd u)))"

definition urlToTimeRangeValue :: "jsnum \<Rightarrow> URLTimeRange \<Rightarrow> TimeRangeValue" where
  "urlToTimeRangeValue now u = toTimeRangeValue now (Some (urlToTimeRange u)) 0"

definition calcTimeRange :: "jsnum \<Rightarrow> TimeRange option \<Rightarrow> TimeRangeValue" where
  "calcTimeRange now timeRange = toTimeRangeValue now timeRange 0"

definition stringifyTimeRange :: "TimeRange option \<Rightarrow> string" where
  "stringifyTimeRange timeRange =
     (case (case timeRange of Some t \<Rightarrow> t | None \<Rightarrow> DEFAULT_TIME_RANGE) of
        Absolute a b \<Rightarrow> ''absolute_'' @ show_num a @ ''_'' @ show_num b
      | Recent v \<Rightarrow> ''recent_'' @ show_num v)"

text \<open>
  The state of the selector: its controlled \<open>value\<close> and whether the dropdown is open. A handler
  returns the new dropdown state and the range it passes to \<open>onChange\<close>.
\<close>

definition handleRecentChange :: "jsnum \<Rightarrow> bool \<times> TimeRange" where
  "handleRecentChange seconds = (False, Recent seconds)"

definition handleRangePickerChange :: "TimeRangeValue option \<Rightarrow> bool \<times> TimeRange" where
  "handleRangePickerChange values =
     (False, case values of None \<Rightarrow> DEFAULT_TIME_RANGE | Some (a, b) \<Rightarrow> Absolute a b)"

definition rangePickerValue :: "TimeRange option \<Rightarrow> TimeRangeValue option" where
  "rangePickerValue value =
     (case value of Some (Absolute a b) \<Rightarrow> Some (a * Fin 1000, b * Fin 1000) | _ \<Rightarrow> None)"

text \<open>The effect of the selector: an absent value is replaced by the default range.\<close>

definition selector_effect :: "TimeRange option \<Rightarrow> TimeRange option" where
  "selector_effect value = (case value of None \<Rightarrow> Some DEFAULT_TIME_RANGE | Some _ \<Rightarrow> None)"

text \<open>
  \<open>handleZoomOut\<close>: without an \<open>onChange\<close> handler nothing happens; otherwise \<open>onZoomOutClick\<close> is
  called with the new bounds, which throws when the optional handler is absent, and \<open>onChange\<close> is
  called with the new range.
\<close>

datatype zoom_result = Ignored | TypeError | Zoomed TimeRangeValue TimeRange

definition handleZoomOut ::
    "jsnum \<Rightarrow> jsnum \<Rightarrow> jsnum \<Rightarrow> bool \<Rightarrow> bool \<Rightarrow> TimeRange option \<Rightarrow> zoom_result" where
  "handleZoomOut now zoomOutRate minRange hasOnChange hasOnZoomOutClick value =
     (if \<not> hasOnChange then Ignored
      else (let (start, end) = toTimeRangeValue now value 0;
                expand = (end - start) * zoomOutRate;
                expand = (if expand < minRange then minRange else expand);
                computedStart = start - expand;
                computedEnd = end + expand;
                newRange = fromTimeRangeValue (computedStart, computedEnd)
            in if \<not> hasOnZoomOutClick then TypeError
               else Zoomed (computedStart, computedEnd) newRange))"

subsection \<open>The second generation\<close>

datatype TimeRange_v2 =
    Relative jsnum
  | BeforeToNow jsnum
  | NowToFuture jsnum
  | Absolute_v2 jsnum jsnum

definition toTimeRangeValue_v2 :: "jsnum \<Rightarrow> TimeRange_v2 \<Rightarrow> jsnum \<Rightarrow> TimeRangeValue" where
  "toTimeRangeValue_v2 now timeRange offset =
     (case timeRange of
        Absolute_v2 a b \<Rightarrow> (a + offset, b + offset)
      | NowToFuture v \<Rightarrow> (now + offset, now + v + offset)
      | Relative v \<Rightarrow> (now - v + offset, now + offset)
      | BeforeToNow v \<Rightarrow> (now - v + offset, now + offset))"

definition fromTimeRangeValue_v2 :: "TimeRangeValue \<Rightarrow> TimeRange_v2" where
  "fromTimeRangeValue_v2 v = Absolute_v2 (fst v) (snd v)"

definition toURLTimeRange_v2 :: "TimeRange_v2 \<Rightarrow> URLTimeRange" where
  "toURLTimeRange_v2 timeRange =
     (case timeRange of
        Absolute_v2 a b \<Rightarrow> (show_num a, show_num b)
      | NowToFuture v \<Rightarrow> (''now'', show_num v)
      | Relative v \<Rightarrow> (show_num v, ''now'')
      | BeforeToNow v \<Rightarrow> (show_num v, ''now''))"

definition urlToTimeRange_v2 :: "URLTimeRange \<Rightarrow> TimeRange_v2" where
  "urlToTimeRange_v2 u =
     (if fst u = ''now'' then NowToFuture (js_Number (snd u))
      else if snd u = ''now'' then Relative (js_Number (fst u))
      else Absolute_v2 (js_Number (fst u)) (js_Number (snd u)))"

definition urlToTimeRangeValue_v2 :: "jsnum \<Rightarrow> URLTimeRange \<Rightarrow> TimeRangeValue" where
  "urlToTimeRangeValue_v2 now u = toTimeRangeValue_v2 now (urlToTimeRange_v2 u) 0"

subsection \<open>The interface the pages rely on\<close>

text \<open>
  What a page computes from the parameters \<open>from\<close> and \<open>to\<close> of its URL: the range they encode
  when both are present and non-empty, a default range otherwise.
\<close>

definition page_range :: "(URLTimeRange \<Rightarrow> 'r) \<Rightarrow> 'r \<Rightarrow> string option \<Rightarrow> string option \<Rightarrow> 'r" where
  "page_range dec dflt f t =
     (case (f, t) of (Some f', Some t') \<Rightarrow> if f' \<noteq> [] \<and> t' \<noteq> [] then dec (f', t') else dflt
      | _ \<Rightarrow> dflt)"

text \<open>
  A codec writes a well-formed range as two non-empty strings and reads the range back, up to
  the meaning \<open>sem\<close> of a range (the interval it denotes at a given time).
\<close>

locale url_codec =
  fixes wf :: "'r \<Rightarrow> bool"
    and sem :: "jsnum \<Rightarrow> 'r \<Rightarrow> TimeRangeValue"
    and enc :: "'r \<Rightarrow> URLTimeRange"
    and dec :: "URLTimeRange \<Rightarrow> 'r"
  assumes enc_nonempty: "wf r \<Longrightarrow> fst (enc r) \<noteq> [] \<and> snd (enc r) \<noteq> []"
    and sem_dec_enc: "wf r \<Longrightarrow> sem now (dec (enc r)) = sem now r"
    and wf_dec_enc: "wf r \<Longrightarrow> wf (dec (enc r))"
begin

lemma page_range_written:
  "wf r \<Longrightarrow> sem now (page_range dec dflt (Some (fst (enc r))) (Some (snd (enc r)))) = sem now r"
  using enc_nonempty [of r] by (simp add: page_range_def sem_dec_enc)

lemma page_range_wf:
  "wf r \<Longrightarrow> wf (page_range dec dflt (Some (fst (enc r))) (Some (snd (enc r))))"
  using enc_nonempty [of r] by (simp add: page_range_def wf_dec_enc)

lemma page_range_default:
  "f = None \<or> t = None \<or> f = Some [] \<or> t = Some [] \<Longrightarrow> page_range dec dflt f t = dflt"
  by (auto simp: page_range_def split: option.splits)

end

text \<open>Well-formed ranges hold whole seconds, as \<open>dayjs().unix()\<close> and the presets give them.\<close>

definition whole :: "jsnum \<Rightarrow> bool" where
  "whole x \<longleftrightarrow> (case x of Fin a \<Rightarrow> of_int \<lfloor>a\<rfloor> = a | _ \<Rightarrow> False)"

definition wf_range :: "TimeRange \<Rightarrow> bool" where
  "wf_range r = (case r of Recent v \<Rightarrow> whole v | Absolute a b \<Rightarrow> whole a \<and> whole b)"

definition wf_range_v2 :: "TimeRange_v2 \<Rightarrow> bool" where
  "wf_range_v2 r =
     (case r of
        Relative v \<Rightarrow> whole v | BeforeToNow v \<Rightarrow> whole v | NowToFuture v \<Rightarrow> whole v
      | Absolute_v2 a b \<Rightarrow> whole a \<and> whole b)"

lemma whole_js_int [simp]: "whole (js_int i)"
  by (simp add: whole_def)

lemma whole_cases [elim!]:
  assumes "whole x"
  obtains i where "x = js_int i"
  using assms by (cases x) (simp_all add: whole_def, metis)

lemma show_int_neq_now [simp]: "show_int i \<noteq> ''now''"
  using show_int_chars [of "CHR ''n''" i] is_digit_neq(9) by fastforce

lemma plus_zero_js_int [simp]: "js_int a + 0 = js_int a"
  by (simp add: zero_jsnum_def)

lemma urlToTimeRange_toURL [simp]:
  "wf_range r \<Longrightarrow> urlToTimeRange (toURLTimeRange now r) = r"
  by (cases r)
    (auto simp: wf_range_def toURLTimeRange_def urlToTimeRange_def toTimeRangeValue_def Let_def
      simp del: show_num.simps)

lemma wf_range_cases:
  assumes "wf_range_v2 r"
  obtains i where "r = Relative (js_int i)" | i where "r = BeforeToNow (js_int i)"
    | i where "r = NowToFuture (js_int i)" | i j where "r = Absolute_v2 (js_int i) (js_int j)"
  using assms by (cases r) (auto simp: wf_range_v2_def)

lemmas codec_v2_defs = toURLTimeRange_v2_def urlToTimeRange_v2_def toTimeRangeValue_v2_def

lemma wf_toURL_nonempty:
  "wf_range r \<Longrightarrow> fst (toURLTimeRange now r) \<noteq> [] \<and> snd (toURLTimeRange now r) \<noteq> []"
  by (cases r)
    (auto simp: wf_range_def toURLTimeRange_def toTimeRangeValue_def Let_def
      simp del: show_num.simps)

interpretation lib_codec: url_codec wf_range "\<lambda>now r. toTimeRangeValue now (Some r) 0"
  "toURLTimeRange 0" urlToTimeRange
  by unfold_locales (simp_all add: wf_toURL_nonempty)

interpretation v2_codec: url_codec wf_range_v2 "\<lambda>now r. toTimeRangeValue_v2 now r 0"
  toURLTimeRange_v2 urlToTimeRange_v2
proof unfold_locales
  fix r :: TimeRange_v2 and now :: jsnum
  assume wf: "wf_range_v2 r"
  show "fst (toURLTimeRange_v2 r) \<noteq> [] \<and> snd (toURLTimeRange_v2 r) \<noteq> []"
    using wf by (cases rule: wf_range_cases) (auto simp: codec_v2_defs simp del: show_num.simps)
  show "toTimeRangeValue_v2 now (urlToTimeRange_v2 (toURLTimeRange_v2 r)) 0 =
      toTimeRangeValue_v2 now r 0"
    using wf by (cases rule: wf_range_cases) (auto simp: codec_v2_defs simp del: show_num.simps)
  show "wf_range_v2 (urlToTimeRange_v2 (toURLTimeRange_v2 r))"
    using wf by (cases rule: wf_range_cases)
      (auto simp: codec_v2_defs wf_range_v2_def simp del: show_num.simps)
qed

subsection \<open>Properties\<close>

text \<open>
  A time range survives the URL. In both versions of the console, writing a range of whole
  seconds to the URL and reading it back denotes the same interval at every moment; the first
  version gets the very same range back, so relative ranges stay relative.
\<close>

theorem time_range_url_roundtrip:
  "(wf_range r \<longrightarrow> urlToTimeRange (toURLTimeRange now r) = r \<and>
      urlToTimeRangeValue t (toURLTimeRange now r) = toTimeRangeValue t (Some r) 0) \<and>
   (wf_range_v2 q \<longrightarrow>
      urlToTimeRangeValue_v2 t (toURLTimeRange_v2 q) = toTimeRangeValue_v2 t q 0)"
  by (simp add: urlToTimeRangeValue_def urlToTimeRangeValue_v2_def v2_codec.sem_dec_enc)

theorem time_range_url_roundtrip_witness:
  "urlToTimeRange (toURLTimeRange 0 (Recent (js_int 1800))) = Recent (js_int 1800) \<and>
   urlToTimeRangeValue_v2 (js_int 5000) (toURLTimeRange_v2 (NowToFuture (js_int 600))) =
     toTimeRangeValue_v2 (js_int 5000) (NowToFuture (js_int 600)) 0"
  using time_range_url_roundtrip [of "Recent (js_int 1800)" 0 "js_int 5000" "NowToFuture (js_int 600)"]
  by (simp add: wf_range_def wf_range_v2_def whole_def)

text \<open>
  Zooming out of a finite range with a rate that is not negative widens it by the same amount on
  both sides: by the rate times its length, and by at least \<open>minRange\<close>; both handlers receive the
  same bounds. A component without \<open>onZoomOutClick\<close> throws instead and never changes the range.
\<close>

theorem zoom_out_widens:
  fixes m :: rat
  assumes "toTimeRangeValue now value 0 = (Fin a, Fin b)" and "0 \<le> rate"
  defines "w \<equiv> max m ((b - a) * rate)"
  shows "handleZoomOut now (Fin rate) (Fin m) True True value =
      Zoomed (Fin (a - w), Fin (b + w)) (Absolute (Fin (a - w)) (Fin (b + w))) \<and>
    handleZoomOut now (Fin rate) (Fin m) True False value = TypeError \<and>
    (a \<le> b \<and> 0 \<le> m \<longrightarrow> a - w \<le> a \<and> b \<le> b + w \<and> (b - a) + 2 * m \<le> (b + w) - (a - w))"
  using assms
  by (auto simp: handleZoomOut_def fromTimeRangeValue_def max_def Let_def algebra_simps)

theorem zoom_out_widens_witness:
  "handleZoomOut 0 (Fin (1 / 2)) (Fin 300) True True (Some (Absolute (Fin 1000) (Fin 1100))) =
     Zoomed (Fin 700, Fin 1400) (Absolute (Fin 700) (Fin 1400))"
  using zoom_out_widens [of 0 "Some (Absolute (Fin 1000) (Fin 1100))" 1000 1100 "1/2" 300]
  by (simp add: toTimeRangeValue_def zero_jsnum_def)

end
