(* ===== verification/UrlCodec.thy ===== *)
theory UrlCodec
  imports JsString
begin

text \<open>
  The percent encodings of the web platform the URL state goes through: \<open>encodeURIComponent\<close>
  and \<open>decodeURIComponent\<close>, and the \<open>application/x-www-form-urlencoded\<close> form of
  \<open>URLSearchParams\<close>. Here a \<^typ>\<open>char\<close> is one byte of the UTF-8 form of the string.
\<close>

subsection \<open>Percent encoding\<close>

definition hex_digit :: "nat \<Rightarrow> char" where
  "hex_digit n = (if n < 10 then char_of (48 + n) else char_of (55 + n))"

definition is_alnum :: "char \<Rightarrow> bool" where
  "is_alnum c \<longleftrightarrow>
     is_digit c \<or> 65 \<le> code c \<and> code c \<le> 90 \<or> 97 \<le> code c \<and> code c \<le> 122"

definition uri_unreserved :: "char \<Rightarrow> bool" where
  "uri_unreserved c \<longleftrightarrow> is_alnum c \<or> c \<in> set ''-_.!~*()'' \<or> code c = 39"

definition form_safe :: "char \<Rightarrow> bool" where
  "form_safe c \<longleftrightarrow> is_alnum c \<or> c \<in> set ''*-._''"

definition percent :: "char \<Rightarrow> string" where
  "percent c = [CHR ''%'', hex_digit (code c div 16), hex_digit (code c mod 16)]"

definition encodeURIComponent :: "string \<Rightarrow> string" where
  "encodeURIComponent s = concat (map (\<lambda>c. if uri_unreserved c then [c] else percent c) s)"

definition form_encode :: "string \<Rightarrow> string" where
  "form_encode s =
     concat (map (\<lambda>c. if c = CHR '' '' then ''+'' else if form_safe c then [c] else percent c) s)"

definition unpercent :: "char \<Rightarrow> char \<Rightarrow> char option" where
  "unpercent a b =
     (case (hex_val a, hex_val b) of (Some x, Some y) \<Rightarrow> Some (char_of (16 * x + y)) | _ \<Rightarrow> None)"

text \<open>\<open>decodeURIComponent\<close> throws on a malformed escape: \<^term>\<open>None\<close>.\<close>

fun decodeURIComponent :: "string \<Rightarrow> string option" where
  "decodeURIComponent [] = Some []"
| "decodeURIComponent (c # s) =
     (if c = CHR ''%''
      then (case s of
              a # b # r \<Rightarrow>
                (case unpercent a b of
                   Some d \<Rightarrow> map_option ((#) d) (decodeURIComponent r)
                 | None \<Rightarrow> None)
            | _ \<Rightarrow> None)
      else map_option ((#) c) (decodeURIComponent s))"

text \<open>The decoder of \<open>URLSearchParams\<close> keeps a malformed escape as it is.\<close>

fun form_decode :: "string \<Rightarrow> string" where
  "form_decode [] = []"
| "form_decode (c # s) =
     (if c = CHR ''+'' then CHR '' '' # form_decode s
      else if c = CHR ''%''
      then (case s of
              a # b # r \<Rightarrow>
                (case unpercent a b of
                   Some d \<Rightarrow> d # form_decode r
                 | None \<Rightarrow> c # form_decode s)
            | _ \<Rightarrow> c # form_decode s)
      else c # form_decode s)"

subsection \<open>URLSearchParams\<close>

type_synonym search_params = "(string \<times> string) list"

definition parse_pair :: "string \<Rightarrow> string \<times> string" where
  "parse_pair s =
     (form_decode (takeWhile (\<lambda>c. c \<noteq> CHR ''='') s),
      form_decode (drop 1 (dropWhile (\<lambda>c. c \<noteq> CHR ''='') s)))"

definition parse_search :: "string \<Rightarrow> search_params" where
  "parse_search q =
     (let q' = (case q of c # r \<Rightarrow> if c = CHR ''?'' then r else q | [] \<Rightarrow> [])
      in map parse_pair (filter (\<lambda>s. s \<noteq> []) (split_on (CHR ''&'') q')))"

definition show_pair :: "string \<times> string \<Rightarrow> string" where
  "show_pair kv = form_encode (fst kv) @ ''='' @ form_encode (snd kv)"

definition show_search :: "search_params \<Rightarrow> string" where
  "show_search ps = join ''&'' (map show_pair ps)"

fun search_set :: "string \<Rightarrow> string \<Rightarrow> search_params \<Rightarrow> search_params" where
  "search_set k v [] = [(k, v)]"
| "search_set k v ((k', v') # ps) =
     (if k' = k then (k, v) # filter (\<lambda>p. fst p \<noteq> k) ps else (k', v') # search_set k v ps)"

definition search_delete :: "string \<Rightarrow> search_params \<Rightarrow> search_params" where
  "search_delete k ps = filter (\<lambda>p. fst p \<noteq> k) ps"

subsection \<open>Round trips\<close>

lemma code_less_256: "code c < 256"
  by (simp add: code_def)

lemma hex_val_hex_digit [simp]: "n < 16 \<Longrightarrow> hex_val (hex_digit n) = Some n"
  by (auto simp: hex_val_def hex_digit_def is_digit_def digit_val_def code_def lower_char_def)

lemma char_of_code [simp]: "char_of (code c) = c"
  by (simp add: code_def)

lemma unpercent_percent [simp]:
  "unpercent (hex_digit (code c div 16)) (hex_digit (code c mod 16)) = Some c"
proof -
  have "code c div 16 < 16" using code_less_256 [of c] by simp
  then show ?thesis by (simp add: unpercent_def)
qed

lemma not_percent_safe [simp]:
  "\<not> uri_unreserved (CHR ''%'')" "\<not> form_safe (CHR ''%'')" "\<not> form_safe (CHR ''+'')"
  "\<not> form_safe (CHR ''&'')" "\<not> form_safe (CHR ''='')" "\<not> form_safe (CHR ''?'')"
  "\<not> uri_unreserved (CHR '','')" "\<not> uri_unreserved (CHR '';'')"
  by (simp_all add: uri_unreserved_def form_safe_def is_alnum_def is_digit_def code_def)

lemma decode_encodeURIComponent [simp]:
  "decodeURIComponent (encodeURIComponent s) = Some s"
proof (induction s)
  case (Cons c s)
  then show ?case
    by (cases "c = CHR ''%''") (auto simp: encodeURIComponent_def percent_def)
qed (simp add: encodeURIComponent_def)

lemma form_decode_encode [simp]: "form_decode (form_encode s) = s"
proof (induction s)
  case (Cons c s)
  then show ?case
    by (cases "c = CHR ''%'' \<or> c = CHR ''+''") (auto simp: form_encode_def percent_def)
qed (simp add: form_encode_def)

lemma hex_digit_alnum: "n < 16 \<Longrightarrow> is_alnum (hex_digit n)"
  by (auto simp: hex_digit_def is_alnum_def is_digit_def code_def)

lemma percent_chars: "x \<in> set (percent c) \<Longrightarrow> x = CHR ''%'' \<or> is_alnum x"
  using code_less_256 [of c] by (auto simp: percent_def hex_digit_alnum)

lemma form_encode_chars:
  "x \<in> set (form_encode s) \<Longrightarrow> x = CHR ''%'' \<or> x = CHR ''+'' \<or> form_safe x"
  by (auto simp: form_encode_def form_safe_def dest!: percent_chars split: if_splits)

lemma encodeURIComponent_chars:
  "x \<in> set (encodeURIComponent s) \<Longrightarrow> x = CHR ''%'' \<or> uri_unreserved x"
  by (auto simp: encodeURIComponent_def uri_unreserved_def dest!: percent_chars split: if_splits)

lemma encodeURIComponent_no_sep [simp]:
  "CHR '','' \<notin> set (encodeURIComponent s)" "CHR '';'' \<notin> set (encodeURIComponent s)"
  using encodeURIComponent_chars by fastforce+

lemma encodeURIComponent_empty [simp]: "encodeURIComponent s = [] \<longleftrightarrow> s = []"
  by (cases s) (auto simp: encodeURIComponent_def percent_def)

lemma form_encode_no_sep [simp]:
  "CHR ''&'' \<notin> set (form_encode s)" "CHR ''='' \<notin> set (form_encode s)"
  "CHR ''?'' \<notin> set (form_encode s)"
  using form_encode_chars by fastforce+

lemma parse_pair_show_pair [simp]: "parse_pair (show_pair kv) = kv"
proof -
  have ne: "c \<noteq> CHR ''=''" if "c \<in> set (form_encode k)" for c k
    using that form_encode_no_sep(2) by metis
  have keep: "takeWhile (\<lambda>c. c \<noteq> CHR ''='') (form_encode k @ CHR ''='' # r) = form_encode k" for k r
    by (subst takeWhile_append2) (auto dest: ne)
  have rest: "dropWhile (\<lambda>c. c \<noteq> CHR ''='') (form_encode k @ CHR ''='' # r) = CHR ''='' # r" for k r
    by (subst dropWhile_append2) (auto dest: ne)
  show ?thesis by (cases kv) (simp add: parse_pair_def show_pair_def keep rest)
qed

lemma show_pair_no_amp [simp]: "CHR ''&'' \<notin> set (show_pair kv)"
  by (simp add: show_pair_def)

lemma show_pair_nonempty [simp]: "show_pair kv \<noteq> []"
  by (simp add: show_pair_def)

lemma split_show_search:
  "filter (\<lambda>s. s \<noteq> []) (split_on (CHR ''&'') (show_search ps)) = map show_pair ps"
proof (cases "ps = []")
  case False
  then have "split_on (CHR ''&'') (show_search ps) = map show_pair ps"
    unfolding show_search_def by (intro split_join) auto
  then show ?thesis by (simp add: filter_id_conv)
qed (simp add: show_search_def)

lemma show_search_no_question: "show_search ps = c # r \<Longrightarrow> c \<noteq> CHR ''?''"
proof (cases ps)
  case (Cons kv qs)
  assume eq: "show_search ps = c # r"
  have "c \<in> set (show_pair kv)"
    using eq Cons by (cases qs) (auto simp: show_search_def append_eq_Cons_conv)
  then show ?thesis by (auto simp: show_pair_def)
qed (simp add: show_search_def)

lemma parse_show_search [simp]: "parse_search (show_search ps) = ps"
proof -
  have "(case show_search ps of c # r \<Rightarrow> if c = CHR ''?'' then r else show_search ps | [] \<Rightarrow> [])
      = show_search ps"
    using show_search_no_question [of ps] by (cases "show_search ps") auto
  then show ?thesis
    by (simp add: parse_search_def split_show_search o_def)
qed

end
