(* ===== verification/UrlState.thy ===== *)
theory UrlState
  imports TimeRange UrlCodec
begin

text \<open>
  The state the pages keep in the query string of the URL. Second generation: the provider and
  the hook \<open>useUrlState\<close> of \<open>1-utils/src/url-state/use-url-state.tsx\<close>, and the hooks built on it
  for pagination, sorting, search, time range and advanced filters. A hook reads the record of
  query parameters (\<open>queryParams\<close>, a map) and writes a patch: the object literal passed to
  \<open>setQueryParams\<close>, as an association list in which \<^term>\<open>None\<close> is \<open>undefined\<close>.

  The locale \<open>url_store\<close> is the contract between the hooks and the store they read and write;
  every round trip of a hook is proved once in it.
\<close>

type_synonym params = "string \<Rightarrow> string option"
type_synonym patch = "(string \<times> string option) list"

subsection \<open>useUrlState\<close>

definition queryParams :: "string \<Rightarrow> params" where
  "queryParams urlQuery k = map_of (rev (parse_search urlQuery)) k"

fun apply_param :: "string \<times> string option \<Rightarrow> search_params \<Rightarrow> search_params" where
  "apply_param (k, Some v) ps = (if v \<noteq> [] then search_set k v ps else search_delete k ps)"
| "apply_param (k, None) ps = search_delete k ps"

definition setQueryParams :: "string \<Rightarrow> patch \<Rightarrow> string" where
  "setQueryParams urlQuery s = show_search (fold apply_param s (parse_search urlQuery))"

text \<open>
  The provider: the browser location and the query kept in React state. \<open>setUrlQuery\<close> replaces
  the location first and then triggers the re-render with the same string.
\<close>

record url_provider =
  pathname :: string
  location_search :: string
  urlQuery :: string

definition mount_provider :: "string \<Rightarrow> string \<Rightarrow> url_provider" where
  "mount_provider path srch = \<lparr>pathname = path, location_search = srch, urlQuery = srch\<rparr>"

definition setUrlQuery :: "string \<Rightarrow> url_provider \<Rightarrow> url_provider" where
  "setUrlQuery v p =
     p\<lparr>location_search := (if v = [] then [] else CHR ''?'' # v), urlQuery := v\<rparr>"

definition provider_get :: "url_provider \<Rightarrow> params" where
  "provider_get p = queryParams (urlQuery p)"

definition provider_put :: "url_provider \<Rightarrow> patch \<Rightarrow> url_provider" where
  "provider_put p s = setUrlQuery (setQueryParams (urlQuery p) s) p"

subsection \<open>Hooks of the second generation\<close>

text \<open>\<open>P.k ?? ""\<close> and \<open>P.k || d\<close>.\<close>

definition val :: "params \<Rightarrow> string \<Rightarrow> string" where
  "val P k = (case P k of Some v \<Rightarrow> v | None \<Rightarrow> [])"

definition val_or :: "params \<Rightarrow> string \<Rightarrow> string \<Rightarrow> string" where
  "val_or P k d = (if val P k = [] then d else val P k)"

definition num_or :: "string option \<Rightarrow> jsnum \<Rightarrow> jsnum" where
  "num_or s d =
     (let n = (case s of Some v \<Rightarrow> js_Number v | None \<Rightarrow> NaN) in if truthy n then n else d)"

record Pagination =
  pageIndex :: jsnum
  pageSize :: jsnum

definition pagination :: "jsnum \<Rightarrow> params \<Rightarrow> Pagination" where
  "pagination defPageSize P =
     \<lparr>pageIndex = num_or (P ''pageIndex'') 0, pageSize = num_or (P ''pageSize'') defPageSize\<rparr>"

definition setPagination :: "jsnum \<Rightarrow> Pagination \<Rightarrow> patch" where
  "setPagination defPageSize p =
     [(''pageIndex'', if pageIndex p = 0 then None else Some (show_num (pageIndex p))),
      (''pageSize'', if pageSize p = defPageSize then None else Some (show_num (pageSize p)))]"

record SortRule =
  orderBy :: string
  desc :: bool

definition sortRule :: "string \<Rightarrow> params \<Rightarrow> SortRule" where
  "sortRule defOrderBy P =
     \<lparr>orderBy = (case P ''orderBy'' of Some o' \<Rightarrow> o' | None \<Rightarrow> defOrderBy),
      desc = (P ''desc'' \<noteq> Some ''false'')\<rparr>"

definition setSortRule :: "SortRule \<Rightarrow> patch" where
  "setSortRule r =
     [(''orderBy'', if orderBy r = [] then None else Some (orderBy r)),
      (''desc'', if desc r then None else Some ''false''),
      (''pageIndex'', None)]"

text \<open>\<open>useProTableSortState\<close>: \<open>same\<close> says the updater returned the very same array.\<close>

definition sortingState :: "SortRule \<Rightarrow> (string \<times> bool) list" where
  "sortingState r = (if orderBy r \<noteq> [] then [(orderBy r, desc r)] else [])"

definition setSortingState :: "bool \<Rightarrow> (string \<times> bool) list \<Rightarrow> SortRule option" where
  "setSortingState same newSort =
     (if same then None
      else (case newSort of
              (i, d) # _ \<Rightarrow> Some \<lparr>orderBy = i, desc = d\<rparr>
            | [] \<Rightarrow> Some \<lparr>orderBy = [], desc = True\<rparr>))"

definition setPaginationState :: "(Pagination \<Rightarrow> Pagination) + Pagination \<Rightarrow> Pagination \<Rightarrow> Pagination" where
  "setPaginationState updater paginationState =
     (case updater of Inl f \<Rightarrow> f paginationState | Inr p \<Rightarrow> p)"

text \<open>\<open>decodeURIComponent\<close> throws on a malformed term: \<^term>\<open>None\<close>.\<close>

definition search_term :: "params \<Rightarrow> string option" where
  "search_term P = decodeURIComponent (val P ''term'')"

definition setTerm :: "string option \<Rightarrow> patch" where
  "setTerm v =
     [(''term'', case v of Some t \<Rightarrow> Some (if t \<noteq> [] then encodeURIComponent t else t) | None \<Rightarrow> None),
      (''pageIndex'', None)]"

definition DEF_TIME_RANGE :: TimeRange_v2 where
  "DEF_TIME_RANGE = Relative (Fin (30 * 60))"

definition timeRange_v2 :: "TimeRange_v2 option \<Rightarrow> params \<Rightarrow> TimeRange_v2" where
  "timeRange_v2 defTimeRange P =
     page_range urlToTimeRange_v2 (case defTimeRange of Some d \<Rightarrow> d | None \<Rightarrow> DEF_TIME_RANGE)
       (P ''from'') (P ''to'')"

definition setTimeRange_v2 :: "TimeRange_v2 \<Rightarrow> patch" where
  "setTimeRange_v2 r =
     [(''from'', Some (fst (toURLTimeRange_v2 r))), (''to'', Some (snd (toURLTimeRange_v2 r))),
      (''pageIndex'', None)]"

record AdvancedFilterItem =
  filter_name :: string
  operator :: string
  filter_values :: "string list"

fun decode_all :: "string list \<Rightarrow> string list option" where
  "decode_all [] = Some []"
| "decode_all (v # vs) =
     (case decodeURIComponent v of
        None \<Rightarrow> None
      | Some d \<Rightarrow> map_option ((#) d) (decode_all vs))"

text \<open>One filter of the list: \<open>Some None\<close> when it is skipped, \<^term>\<open>None\<close> when decoding throws.\<close>

definition parse_filter :: "string \<Rightarrow> AdvancedFilterItem option option" where
  "parse_filter s =
     (case split_on (CHR '','') s of
        n # opr # vs \<Rightarrow>
          if n \<noteq> [] \<and> opr \<noteq> []
          then (case (decodeURIComponent n, decodeURIComponent opr, decode_all vs) of
                  (Some n', Some o', Some vs') \<Rightarrow>
                    Some (Some \<lparr>filter_name = n', operator = o', filter_values = vs'\<rparr>)
                | _ \<Rightarrow> None)
          else Some None
      | _ \<Rightarrow> Some None)"

fun parse_filters :: "string list \<Rightarrow> AdvancedFilterItem list option" where
  "parse_filters [] = Some []"
| "parse_filters (s # ss) =
     (case parse_filter s of
        None \<Rightarrow> None
      | Some None \<Rightarrow> parse_filters ss
      | Some (Some f) \<Rightarrow> map_option ((#) f) (parse_filters ss))"

definition advancedFilters :: "params \<Rightarrow> AdvancedFilterItem list option" where
  "advancedFilters P =
     (if val P ''af'' \<noteq> [] then parse_filters (split_on (CHR '';'') (val P ''af'')) else Some [])"

definition show_filter :: "AdvancedFilterItem \<Rightarrow> string" where
  "show_filter f =
     encodeURIComponent (filter_name f) @ '','' @ encodeURIComponent (operator f) @ '','' @
     join '','' (map encodeURIComponent (filter_values f))"

definition setAdvancedFilters :: "AdvancedFilterItem list \<Rightarrow> patch" where
  "setAdvancedFilters fs =
     [(''af'', Some (join '';'' (map show_filter fs))), (''pageIndex'', None)]"

subsection \<open>The contract of the store\<close>

locale url_store =
  fixes get :: "'s \<Rightarrow> params"
    and put :: "'s \<Rightarrow> patch \<Rightarrow> 's"
  assumes val_put: "distinct (map fst ps) \<Longrightarrow>
      val (get (put s ps)) k =
        (case map_of ps k of None \<Rightarrow> val (get s) k | Some None \<Rightarrow> [] | Some (Some v) \<Rightarrow> v)"
    and get_put_undefined: "distinct (map fst ps) \<Longrightarrow> map_of ps k = Some None \<Longrightarrow>
      get (put s ps) k = None"
    and get_put_other: "k \<notin> fst ` set ps \<Longrightarrow> get (put s ps) k = get s k"
begin

lemma get_put_some:
  assumes "distinct (map fst ps)" and "map_of ps k = Some (Some v)" and "v \<noteq> []"
  shows "get (put s ps) k = Some v"
  using val_put [OF assms(1), of s k] assms(2,3) by (auto simp: val_def split: option.splits)

lemmas store_simps = val_put get_put_undefined get_put_some get_put_other


lemma sortRule_setSortRule:
  "sortRule d (get (put s (setSortRule r))) =
     (if orderBy r = [] then r\<lparr>orderBy := d\<rparr> else r)"
  by (cases r) (auto simp: sortRule_def setSortRule_def store_simps)

lemma pagination_setPagination:
  assumes "whole (pageIndex p)" and "whole (pageSize p)" and "pageSize p \<noteq> 0"
  shows "pagination d (get (put s (setPagination d p))) = p"
  using assms
  by (cases p) (auto simp: pagination_def setPagination_def num_or_def store_simps zero_jsnum_def
      Let_def simp del: show_num.simps)

lemma search_term_setTerm: "search_term (get (put s (setTerm (Some t)))) = Some t"
  by (cases "t = []") (auto simp: search_term_def setTerm_def store_simps)

lemma search_term_cleared: "search_term (get (put s (setTerm None))) = Some []"
  by (simp add: search_term_def setTerm_def store_simps)

lemma timeRange_setTimeRange_v2:
  assumes "wf_range_v2 r"
  shows "toTimeRangeValue_v2 now (timeRange_v2 dflt (get (put s (setTimeRange_v2 r)))) 0 =
    toTimeRangeValue_v2 now r 0"
  using v2_codec.page_range_written [OF assms] v2_codec.enc_nonempty [OF assms]
  by (simp add: timeRange_v2_def setTimeRange_v2_def store_simps)

text \<open>Every setter of a filter or of the order drops \<open>pageIndex\<close>: the list restarts on page 0.\<close>

lemma put_resets_page:
  assumes "distinct (map fst ps)" and "map_of ps ''pageIndex'' = Some None"
  shows "pageIndex (pagination d (get (put s ps))) = 0"
  using assms by (simp add: pagination_def num_or_def store_simps)

text \<open>A setter leaves every parameter it does not mention as it was.\<close>

lemma put_frame: "k \<notin> fst ` set ps \<Longrightarrow> get (put s ps) k = get s k"
  by (rule get_put_other)

end

subsection \<open>Advanced filters\<close>

definition norm_filter :: "AdvancedFilterItem \<Rightarrow> AdvancedFilterItem" where
  "norm_filter f = f\<lparr>filter_values := (if filter_values f = [] then [[]] else filter_values f)\<rparr>"

definition named_filter :: "AdvancedFilterItem \<Rightarrow> bool" where
  "named_filter f \<longleftrightarrow> filter_name f \<noteq> [] \<and> operator f \<noteq> []"

lemma decode_all_encode [simp]: "decode_all (map encodeURIComponent vs) = Some vs"
  by (induction vs) auto

lemma join_no_char: "c \<notin> set sep \<Longrightarrow> \<forall>x \<in> set xs. c \<notin> set x \<Longrightarrow> c \<notin> set (join sep xs)"
  by (induction sep xs rule: join.induct) auto

lemma show_filter_no_semicolon [simp]: "CHR '';'' \<notin> set (show_filter f)"
  by (simp add: show_filter_def join_no_char)

lemma show_filter_nonempty [simp]: "show_filter f \<noteq> []"
  by (simp add: show_filter_def)

lemma split_values:
  "split_on (CHR '','') (join '','' (map encodeURIComponent vs)) =
     (if vs = [] then [[]] else map encodeURIComponent vs)"
  by (cases "vs = []") (simp_all add: split_join)

lemma parse_filter_show_filter:
  assumes "named_filter f"
  shows "parse_filter (show_filter f) = Some (Some (norm_filter f))"
proof -
  let ?n = "encodeURIComponent (filter_name f)" and ?o = "encodeURIComponent (operator f)"
  have "split_on (CHR '','') (show_filter f) =
      ?n # ?o # (if filter_values f = [] then [[]] else map encodeURIComponent (filter_values f))"
    by (simp add: show_filter_def split_on_append_sep split_values)
  with assms show ?thesis
    by (cases f) (simp add: parse_filter_def norm_filter_def named_filter_def)
qed

lemma parse_filters_show:
  "\<forall>f \<in> set fs. named_filter f \<Longrightarrow>
     parse_filters (map show_filter fs) = Some (map norm_filter fs)"
  by (induction fs) (auto simp: parse_filter_show_filter)

context url_store
begin

lemma advancedFilters_set:
  assumes "\<forall>f \<in> set fs. named_filter f"
  shows "advancedFilters (get (put s (setAdvancedFilters fs))) = Some (map norm_filter fs)"
proof (cases "fs = []")
  case True
  then show ?thesis by (simp add: advancedFilters_def setAdvancedFilters_def store_simps)
next
  case False
  then have "join '';'' (map show_filter fs) \<noteq> []"
    by (cases fs) (auto simp: join_eq_Nil)
  moreover have "split_on (CHR '';'') (join '';'' (map show_filter fs)) = map show_filter fs"
    using False by (intro split_join) auto
  ultimately show ?thesis
    by (simp add: advancedFilters_def setAdvancedFilters_def store_simps parse_filters_show assms)
qed

end

subsection \<open>The search parameters implement the contract\<close>

lemma map_of_filter_key [simp]:
  "map_of (filter (\<lambda>p. fst p \<noteq> k) ps) k' = (if k' = k then None else map_of ps k')"
  by (induction ps) auto

lemma lookup_search_delete [simp]:
  "map_of (rev (search_delete k ps)) k' = (if k' = k then None else map_of (rev ps) k')"
  by (simp add: search_delete_def rev_filter)

lemma lookup_search_set [simp]:
  "map_of (rev (search_set k v ps)) k' = (if k' = k then Some v else map_of (rev ps) k')"
proof (induction k v ps rule: search_set.induct)
  case (2 k v k1 v1 ps)
  then show ?case
    by (auto simp: rev_filter map_add_def split: option.splits)
qed auto

lemma lookup_apply_param:
  "map_of (rev (apply_param p ps)) k =
     (if k = fst p then (case snd p of Some v \<Rightarrow> if v = [] then None else Some v | None \<Rightarrow> None)
      else map_of (rev ps) k)"
  by (cases "(p, ps)" rule: apply_param.cases) auto

lemma lookup_fold_apply_param_other:
  "k \<notin> fst ` set s \<Longrightarrow> map_of (rev (fold apply_param s ps)) k = map_of (rev ps) k"
  by (induction s arbitrary: ps) (auto simp: lookup_apply_param)

text \<open>What a parameter of the patch leaves behind.\<close>

definition stored :: "string option \<Rightarrow> string option" where
  "stored v = (case v of Some x \<Rightarrow> if x = [] then None else Some x | None \<Rightarrow> None)"

lemma lookup_fold_apply_param:
  "distinct (map fst s) \<Longrightarrow>
     map_of (rev (fold apply_param s ps)) k =
       (case map_of s k of None \<Rightarrow> map_of (rev ps) k | Some v \<Rightarrow> stored v)"
proof (induction s arbitrary: ps)
  case (Cons p s)
  show ?case
  proof (cases "fst p = k")
    case True
    with Cons.prems have "k \<notin> fst ` set s" by auto
    with True show ?thesis
      by (cases p) (simp add: lookup_fold_apply_param_other lookup_apply_param stored_def)
  next
    case False
    with Cons show ?thesis
      by (cases p) (simp add: lookup_apply_param split: option.split)
  qed
qed simp

lemma queryParams_setQueryParams:
  "distinct (map fst s) \<Longrightarrow>
     queryParams (setQueryParams q s) k =
       (case map_of s k of None \<Rightarrow> queryParams q k | Some v \<Rightarrow> stored v)"
  unfolding queryParams_def setQueryParams_def by (simp add: lookup_fold_apply_param)

lemma queryParams_setQueryParams_other:
  "k \<notin> fst ` set s \<Longrightarrow> queryParams (setQueryParams q s) k = queryParams q k"
  by (simp add: queryParams_def setQueryParams_def lookup_fold_apply_param_other)

lemma val_setQueryParams:
  "distinct (map fst s) \<Longrightarrow>
     val (queryParams (setQueryParams q s)) k =
       (case map_of s k of None \<Rightarrow> val (queryParams q) k | Some None \<Rightarrow> [] | Some (Some v) \<Rightarrow> v)"
  by (cases "map_of s k")
    (auto simp: val_def stored_def queryParams_setQueryParams split: option.splits)

interpretation url: url_store queryParams setQueryParams
  by unfold_locales
    (simp_all add: val_setQueryParams queryParams_setQueryParams stored_def
      queryParams_setQueryParams_other)

lemma urlQuery_provider_put [simp]:
  "urlQuery (provider_put p s) = setQueryParams (urlQuery p) s"
  by (simp add: provider_put_def setUrlQuery_def)

interpretation provider: url_store provider_get provider_put
  unfolding provider_get_def
  by unfold_locales (simp_all add: url.val_put url.get_put_undefined url.get_put_other)

subsection \<open>Properties\<close>

text \<open>
  The search string in the URL is a faithful store. Whatever the current search string, after
  \<open>setQueryParams\<close> with distinct names every parameter reads back as written (an empty or undefined
  value is removed) and every other parameter is unchanged; percent-encoding in between loses
  nothing. The provider of the URL state has the same behaviour, since it reads what it last wrote.
\<close>

theorem query_params_roundtrip:
  assumes "distinct (map fst s)"
  shows "(\<forall>k. queryParams (setQueryParams q s) k =
      (case map_of s k of
         None \<Rightarrow> queryParams q k
       | Some v \<Rightarrow> (case v of Some x \<Rightarrow> if x = [] then None else Some x | None \<Rightarrow> None))) \<and>
    provider_get (provider_put p s) = queryParams (setQueryParams (urlQuery p) s)"
  using queryParams_setQueryParams [OF assms]
  by (auto simp: stored_def provider_get_def split: option.split)

theorem query_params_roundtrip_witness:
  "queryParams (setQueryParams ''?a=1&b=2'' [(''b'', Some ''x&y=z %''), (''c'', None)]) ''b'' =
     Some ''x&y=z %''"
  using query_params_roundtrip [of "[(''b'', Some ''x&y=z %''), (''c'', None)]" "''?a=1&b=2''"] by simp

text \<open>
  The list state of a page survives the URL. For every store with the contract of the search
  string, pagination (whole numbers, page size not zero), sort rule, search term and time range read
  back as they were set; setting the sort rule, the term or the filters returns to page 0.
\<close>

theorem list_state_roundtrip:
  assumes "url_store get put"
  shows "(whole (pageIndex p) \<and> whole (pageSize p) \<and> pageSize p \<noteq> 0 \<longrightarrow>
       pagination d (get (put s (setPagination d p))) = p) \<and>
    sortRule dflt (get (put s (setSortRule r))) = (if orderBy r = [] then r\<lparr>orderBy := dflt\<rparr> else r) \<and>
    search_term (get (put s (setTerm (Some t)))) = Some t \<and>
    (wf_range_v2 tr \<longrightarrow>
       toTimeRangeValue_v2 now (timeRange_v2 dtr (get (put s (setTimeRange_v2 tr)))) 0 =
       toTimeRangeValue_v2 now tr 0) \<and>
    pageIndex (pagination d (get (put s (setSortRule r)))) = 0 \<and>
    pageIndex (pagination d (get (put s (setTerm (Some t))))) = 0 \<and>
    pageIndex (pagination d (get (put s (setAdvancedFilters fs)))) = 0"
  using url_store.pagination_setPagination [OF assms] url_store.sortRule_setSortRule [OF assms]
    url_store.search_term_setTerm [OF assms] url_store.timeRange_setTimeRange_v2 [OF assms]
    url_store.put_resets_page [OF assms]
  by (simp add: setSortRule_def setTerm_def setAdvancedFilters_def)

theorem list_state_roundtrip_witness:
  "pagination (js_int 10) (queryParams (setQueryParams ''?a=1''
     (setPagination (js_int 10) \<lparr>pageIndex = js_int 3, pageSize = js_int 20\<rparr>))) =
     \<lparr>pageIndex = js_int 3, pageSize = js_int 20\<rparr>"
proof -
  have "whole (js_int 3)" "whole (js_int 20)" "js_int 20 \<noteq> (0 :: jsnum)"
    by (simp_all only: whole_js_int) (simp add: zero_jsnum_def)
  with list_state_roundtrip [OF url.url_store_axioms, of "\<lparr>pageIndex = js_int 3, pageSize = js_int 20\<rparr>"]
  show ?thesis by (simp del: of_int_numeral)
qed

text \<open>
  Advanced filters survive the URL: filters with a name and an operator, whatever characters
  their names and values contain, read back as they were written, except that an empty list of
  values reads back as one empty value.
\<close>

theorem advanced_filters_roundtrip:
  assumes "url_store get put" and "\<forall>f \<in> set fs. filter_name f \<noteq> [] \<and> operator f \<noteq> []"
  shows "advancedFilters (get (put s (setAdvancedFilters fs))) =
    Some (map (\<lambda>f. f\<lparr>filter_values := (if filter_values f = [] then [[]] else filter_values f)\<rparr>) fs)"
  using url_store.advancedFilters_set [OF assms(1), of fs s] assms(2)
  by (simp add: named_filter_def norm_filter_def [abs_def])

theorem advanced_filters_roundtrip_witness:
  "advancedFilters (queryParams (setQueryParams ''''
     (setAdvancedFilters [\<lparr>filter_name = ''a;b'', operator = ''in'', filter_values = [''1,2'', ''%'']\<rparr>]))) =
   Some [\<lparr>filter_name = ''a;b'', operator = ''in'', filter_values = [''1,2'', ''%'']\<rparr>]"
  using advanced_filters_roundtrip [OF url.url_store_axioms,
    of "[\<lparr>filter_name = ''a;b'', operator = ''in'', filter_values = [''1,2'', ''%'']\<rparr>]" "''''"]
  by simp

end
