(* ===== verification/ListUrlState.thy ===== *)
theory ListUrlState
  imports UrlState
begin

text \<open>
  The URL state of the list pages. First generation (on the hook \<open>@ahooksjs/use-url-state\<close>, a
  store that meets the contract \<open>url_store\<close>): \<open>SlowQuery/utils/list-url-state.ts\<close>,
  \<open>TopSlowQuery/uilts/url-state.ts\<close> with its \<open>helpers.ts\<close>, and
  \<open>ResourceManager/uilts/url-state.ts\<close>. Second generation (on the store of the theory
  \<open>UrlState\<close>): the slow query and statement lists of \<open>4-apps\<close>.
\<close>

subsection \<open>Comma-separated lists\<close>

definition csv :: "params \<Rightarrow> string \<Rightarrow> string list" where
  "csv P k = (if val P k \<noteq> [] then split_on (CHR '','') (val P k) else [])"

definition setCsv :: "string \<Rightarrow> string list \<Rightarrow> patch" where
  "setCsv k v = [(k, Some (join '','' v))]"

definition setCsv_page :: "string \<Rightarrow> string list \<Rightarrow> patch" where
  "setCsv_page k v = [(k, Some (join '','' v)), (''pageIndex'', None)]"

subsection \<open>Slow query list, first generation\<close>

definition sq_timeRange :: "params \<Rightarrow> TimeRange" where
  "sq_timeRange P = page_range urlToTimeRange DEFAULT_TIME_RANGE (P ''from'') (P ''to'')"

definition sq_setTimeRange :: "TimeRange \<Rightarrow> patch" where
  "sq_setTimeRange r =
     [(''from'', Some (fst (toURLTimeRange 0 r))), (''to'', Some (snd (toURLTimeRange 0 r)))]"

definition sq_dbs :: "params \<Rightarrow> string list" where
  "sq_dbs P = csv P ''dbs''"

definition sq_setDbs :: "string list \<Rightarrow> patch" where
  "sq_setDbs v = setCsv ''dbs'' v"

definition sq_digest :: "params \<Rightarrow> string" where
  "sq_digest P = val P ''digest''"

definition sq_setDigest :: "string \<Rightarrow> patch" where
  "sq_setDigest v = [(''digest'', Some v)]"

definition sq_ruGroups :: "params \<Rightarrow> string list" where
  "sq_ruGroups P = csv P ''ru_groups''"

definition sq_setRuGroups :: "string list \<Rightarrow> patch" where
  "sq_setRuGroups v = setCsv ''ru_groups'' v"

definition sq_term :: "params \<Rightarrow> string" where
  "sq_term P = val P ''term''"

definition sq_setTerm :: "string \<Rightarrow> patch" where
  "sq_setTerm v = [(''term'', Some v)]"

text \<open>\<open>limit\<close> may be \<open>NaN\<close> (\<^term>\<open>None\<close>): the code does not check it.\<close>

definition sq_limit :: "params \<Rightarrow> int option" where
  "sq_limit P = parseInt (case P ''limit'' of Some v \<Rightarrow> v | None \<Rightarrow> ''100'')"

definition sq_setLimit :: "int \<Rightarrow> patch" where
  "sq_setLimit v = [(''limit'', Some (show_int v))]"

datatype order_type = Asc | Desc

record OrderOpt =
  col :: string
  type_of :: order_type

definition sq_order :: "params \<Rightarrow> OrderOpt" where
  "sq_order P =
     (let o' = (case P ''order'' of Some v \<Rightarrow> v | None \<Rightarrow> ''-timestamp'')
      in if prefix ''-'' o' then \<lparr>col = slice o' 1 (int (length o')), type_of = Desc\<rparr>
         else \<lparr>col = o', type_of = Asc\<rparr>)"

definition sq_setOrder :: "OrderOpt \<Rightarrow> patch" where
  "sq_setOrder v =
     [(''order'', Some (if type_of v = Asc then col v else ''-'' @ col v))]"

definition sq_resetOrder :: patch where
  "sq_resetOrder = [(''order'', None)]"

definition sq_rowIdx :: "params \<Rightarrow> int" where
  "sq_rowIdx P =
     (case P ''row'' of
        None \<Rightarrow> -1
      | Some v \<Rightarrow> (case parseInt v of Some r \<Rightarrow> if 0 \<le> r then r else -1 | None \<Rightarrow> -1))"

definition sq_setRowIdx :: "int \<Rightarrow> patch" where
  "sq_setRowIdx v = [(''row'', Some (show_int v))]"

definition sq_showInternal :: "params \<Rightarrow> bool" where
  "sq_showInternal P =
     (let s = toLowerCase (val P ''show_internal'') in s = ''1'' \<or> s = ''true'')"

definition sq_setShowInternal :: "bool \<Rightarrow> patch" where
  "sq_setShowInternal b = [(''show_internal'', Some (if b then ''true'' else ''false''))]"

subsection \<open>Top slow queries, first generation\<close>

definition TIME_RANGE_RECENT_SECONDS :: "int list" where
  "TIME_RANGE_RECENT_SECONDS =
     [60 * 60, 3 * 60 * 60, 6 * 60 * 60, 12 * 60 * 60, 24 * 60 * 60, 7 * 24 * 60 * 60,
      30 * 24 * 60 * 60]"

definition tsq_DEFAULT_TIME_RANGE :: TimeRange where
  "tsq_DEFAULT_TIME_RANGE = Recent (js_int (TIME_RANGE_RECENT_SECONDS ! 6))"

definition DURATIONS :: "(string \<times> int) list" where
  "DURATIONS =
     [(''1 hour'', 60 * 60), (''3 hours'', 3 * 60 * 60), (''6 hours'', 6 * 60 * 60),
      (''12 hours'', 12 * 60 * 60), (''1 day'', 24 * 60 * 60), (''3 days'', 3 * 24 * 60 * 60)]"

definition STMT_KINDS :: "string list" where
  "STMT_KINDS =
     [''AlterTable'', ''AnalyzeTable'', ''Begin'', ''Change'', ''Insert'', ''Update'',
      ''Commit'', ''Delete'', ''Select'', ''Show'', ''Set'', ''Others'']"

definition ORDER_BY :: "(string \<times> string) list" where
  "ORDER_BY =
     [(''Total Latency'', ''sum_latency''), (''Max Latency'', ''max_latency''),
      (''Avg Latency'', ''avg_latency''), (''Total Memory'', ''sum_memory''),
      (''Max Memory'', ''max_memory''), (''Avg Memory'', ''avg_memory''),
      (''Total Count'', ''count'')]"

definition tsq_timeRange :: "params \<Rightarrow> TimeRange" where
  "tsq_timeRange P = page_range urlToTimeRange tsq_DEFAULT_TIME_RANGE (P ''from'') (P ''to'')"

definition tsq_setTimeRange :: "TimeRange \<Rightarrow> patch" where
  "tsq_setTimeRange r =
     [(''from'', Some (fst (toURLTimeRange 0 r))), (''to'', Some (snd (toURLTimeRange 0 r)))]"

definition tsq_duration :: "params \<Rightarrow> int" where
  "tsq_duration P =
     (case P ''duration'' of
        None \<Rightarrow> snd (DURATIONS ! 0)
      | Some s \<Rightarrow>
          (case parseInt s of
             None \<Rightarrow> snd (DURATIONS ! 0)
           | Some v \<Rightarrow> if v \<in> snd ` set DURATIONS then v else snd (DURATIONS ! 0)))"

definition tsq_setDuration :: "int \<Rightarrow> patch" where
  "tsq_setDuration v = [(''duration'', Some (show_int v))]"

definition tsq_tw :: "params \<Rightarrow> int \<times> int" where
  "tsq_tw P =
     (case P ''tw'' of
        None \<Rightarrow> (0, 0)
      | Some s \<Rightarrow>
          (case split_on (CHR ''-'') s of
             [a, b] \<Rightarrow> (case (parseInt a, parseInt b) of (Some x, Some y) \<Rightarrow> (x, y) | _ \<Rightarrow> (0, 0))
           | _ \<Rightarrow> (0, 0)))"

definition tsq_setTw :: "string \<Rightarrow> patch" where
  "tsq_setTw v = [(''tw'', Some v)]"

definition tsq_order :: "params \<Rightarrow> string" where
  "tsq_order P = val_or P ''order'' (snd (ORDER_BY ! 0))"

definition tsq_setOrder :: "string \<Rightarrow> patch" where
  "tsq_setOrder v = [(''order'', Some v)]"

definition tsq_dbs :: "params \<Rightarrow> string list" where
  "tsq_dbs P = csv P ''dbs''"

definition tsq_setDbs :: "string list \<Rightarrow> patch" where
  "tsq_setDbs v = setCsv ''dbs'' v"

definition tsq_stmtKinds :: "params \<Rightarrow> string list" where
  "tsq_stmtKinds P = csv P ''stmt_kinds''"

definition tsq_setStmtKinds :: "string list \<Rightarrow> patch" where
  "tsq_setStmtKinds v = setCsv ''stmt_kinds'' v"

definition tsq_internal :: "params \<Rightarrow> string" where
  "tsq_internal P = val_or P ''internal'' ''no''"

definition tsq_setInternal :: "string \<Rightarrow> patch" where
  "tsq_setInternal v = [(''internal'', Some v)]"

subsection \<open>Resource manager, first generation\<close>

definition TIME_WINDOW_RECENT_SECONDS :: "int list" where
  "TIME_WINDOW_RECENT_SECONDS =
     [15 * 60, 30 * 60, 60 * 60, 3 * 60 * 60, 6 * 60 * 60, 12 * 60 * 60, 24 * 60 * 60]"

definition DEFAULT_TIME_WINDOW :: TimeRange where
  "DEFAULT_TIME_WINDOW = Recent (js_int (TIME_WINDOW_RECENT_SECONDS ! 1))"

definition WORKLOAD_TYPES :: "string list" where
  "WORKLOAD_TYPES = [''oltp_read_write'', ''oltp_read_only'', ''oltp_write_only'', ''tpcc'']"

definition rm_timeRange :: "params \<Rightarrow> TimeRange" where
  "rm_timeRange P = page_range urlToTimeRange DEFAULT_TIME_WINDOW (P ''from'') (P ''to'')"

definition rm_setTimeRange :: "TimeRange \<Rightarrow> patch" where
  "rm_setTimeRange r =
     [(''from'', Some (fst (toURLTimeRange 0 r))), (''to'', Some (snd (toURLTimeRange 0 r)))]"

definition rm_workload :: "params \<Rightarrow> string" where
  "rm_workload P = val_or P ''workload'' (WORKLOAD_TYPES ! 0)"

definition rm_setWorkload :: "string \<Rightarrow> patch" where
  "rm_setWorkload w = [(''workload'', if w = [] then None else Some w)]"


subsection \<open>Slow query list, second generation\<close>

definition v2_sq_dbs :: "params \<Rightarrow> string list" where
  "v2_sq_dbs P = csv P ''dbs''"

definition v2_sq_setDbs :: "string list \<Rightarrow> patch" where
  "v2_sq_setDbs v = setCsv_page ''dbs'' v"

definition v2_sq_ruGroups :: "params \<Rightarrow> string list" where
  "v2_sq_ruGroups P = csv P ''ruGroups''"

definition v2_sq_setRuGroups :: "string list \<Rightarrow> patch" where
  "v2_sq_setRuGroups v = setCsv_page ''ruGroups'' v"

definition v2_sq_sqlDigest :: "params \<Rightarrow> string" where
  "v2_sq_sqlDigest P = val P ''sqlDigest''"

definition v2_sq_setSqlDigest :: "string option \<Rightarrow> patch" where
  "v2_sq_setSqlDigest v = [(''sqlDigest'', v), (''pageIndex'', None)]"

definition v2_sq_limit :: "params \<Rightarrow> int" where
  "v2_sq_limit P =
     (case parseInt (case P ''limit'' of Some v \<Rightarrow> v | None \<Rightarrow> ''100'') of
        None \<Rightarrow> 100 | Some v \<Rightarrow> v)"

definition v2_sq_setLimit :: "string \<Rightarrow> patch" where
  "v2_sq_setLimit v = [(''limit'', Some v), (''pageIndex'', None)]"

definition cols_of :: "string \<Rightarrow> params \<Rightarrow> string list" where
  "cols_of dflt P =
     (let c = val_or P ''cols'' dflt in if c \<noteq> [] then split_on (CHR '','') c else [])"

definition v2_sq_cols :: "params \<Rightarrow> string list" where
  "v2_sq_cols P = cols_of ''query,timestamp,query_time,memory_max'' P"

definition v2_setCols :: "string list \<Rightarrow> patch" where
  "v2_setCols v = setCsv ''cols'' v"

definition v2_sq_resetFilters :: patch where
  "v2_sq_resetFilters =
     [(''from'', None), (''to'', None), (''dbs'', None), (''ruGroups'', None),
      (''sqlDigest'', None), (''af'', None), (''limit'', None), (''term'', None),
      (''pageIndex'', None)]"

text \<open>The effect on \<open>resetVal\<close>: a positive counter resets the filters.\<close>

definition v2_sq_reset_effect :: "int \<Rightarrow> patch option" where
  "v2_sq_reset_effect resetVal = (if 0 < resetVal then Some v2_sq_resetFilters else None)"

subsection \<open>Statement list and details, second generation\<close>

definition v2_st_dbs :: "params \<Rightarrow> string list" where
  "v2_st_dbs P = csv P ''dbs''"

definition v2_st_setDbs :: "string list \<Rightarrow> patch" where
  "v2_st_setDbs v = setCsv_page ''dbs'' v"

definition v2_st_ruGroups :: "params \<Rightarrow> string list" where
  "v2_st_ruGroups P = csv P ''ruGroups''"

definition v2_st_setRuGroups :: "string list \<Rightarrow> patch" where
  "v2_st_setRuGroups v = setCsv_page ''ruGroups'' v"

definition v2_st_kinds :: "params \<Rightarrow> string list" where
  "v2_st_kinds P = csv P ''kinds''"

definition v2_st_setKinds :: "string list \<Rightarrow> patch" where
  "v2_st_setKinds v = setCsv_page ''kinds'' v"

definition v2_st_cols :: "params \<Rightarrow> string list" where
  "v2_st_cols P = cols_of ''digest_text,sum_latency,avg_latency,exec_count,plan_count'' P"

definition v2_st_resetFilters :: patch where
  "v2_st_resetFilters =
     [(''from'', None), (''to'', None), (''dbs'', None), (''ruGroups'', None),
      (''kinds'', None), (''term'', None), (''af'', None), (''pageIndex'', None)]"

definition v2_st_plan :: "params \<Rightarrow> string" where
  "v2_st_plan P = val P ''plan''"

definition v2_st_setPlan :: "string \<Rightarrow> patch" where
  "v2_st_setPlan p = [(''plan'', if p = [] then None else Some p)]"

definition v2_metric_panel :: "params \<Rightarrow> string" where
  "v2_metric_panel P = val P ''panel''"

definition v2_metric_setPanel :: "string \<Rightarrow> patch" where
  "v2_metric_setPanel p = [(''panel'', if p = [] then None else Some p)]"

definition v2_metric_refresh :: "params \<Rightarrow> string" where
  "v2_metric_refresh P = val P ''refresh''"

definition v2_metric_setRefresh :: "int \<Rightarrow> string option \<Rightarrow> patch" where
  "v2_metric_setRefresh now v =
     [(''refresh'', Some ((case v of Some x \<Rightarrow> x | None \<Rightarrow> []) @ show_int now))]"

subsection \<open>Round trips, proved against the contract of the store\<close>

text \<open>Lists that survive the comma-separated form: no comma inside, and not the list of one empty string.\<close>

definition csv_safe :: "string list \<Rightarrow> bool" where
  "csv_safe v \<longleftrightarrow> v \<noteq> [[]] \<and> (\<forall>x \<in> set v. CHR '','' \<notin> set x)"

lemma split_join_csv: "csv_safe v \<Longrightarrow> v \<noteq> [] \<Longrightarrow> split_on (CHR '','') (join '','' v) = v"
  unfolding csv_safe_def by (intro split_join) auto

lemma csv_read:
  assumes "csv_safe v" and "val P k = join '','' v"
  shows "csv P k = v"
  using assms by (cases "v = []") (auto simp: csv_def csv_safe_def join_eq_Nil split_join_csv)

definition order_safe :: "OrderOpt \<Rightarrow> bool" where
  "order_safe v \<longleftrightarrow> (type_of v = Asc \<longrightarrow> col v \<noteq> [] \<and> \<not> prefix ''-'' (col v))"

lemma slice_tail [simp]: "slice (c # s) 1 (1 + int (length s)) = s"
  by (simp add: slice_def slice_pos_def nat_add_distrib)

context url_store
begin

lemma csv_setCsv: "csv_safe v \<Longrightarrow> csv (get (put s (setCsv k v))) k = v"
  by (rule csv_read) (simp_all add: setCsv_def store_simps)

lemma csv_setCsv_page:
  "csv_safe v \<Longrightarrow> k \<noteq> ''pageIndex'' \<Longrightarrow> csv (get (put s (setCsv_page k v))) k = v"
  by (rule csv_read) (simp_all add: setCsv_page_def store_simps)

lemma order_setOrder: "order_safe v \<Longrightarrow> sq_order (get (put s (sq_setOrder v))) = v"
  by (cases v; cases "type_of v")
    (auto simp: order_safe_def sq_order_def sq_setOrder_def store_simps Let_def)

lemma order_reset: "sq_order (get (put s sq_resetOrder)) = \<lparr>col = ''timestamp'', type_of = Desc\<rparr>"
  by (simp add: sq_order_def sq_resetOrder_def store_simps slice_def slice_pos_def)

lemma limit_setLimit: "sq_limit (get (put s (sq_setLimit v))) = Some v"
  by (simp add: sq_limit_def sq_setLimit_def store_simps)

lemma rowIdx_setRowIdx: "sq_rowIdx (get (put s (sq_setRowIdx v))) = (if 0 \<le> v then v else -1)"
  by (simp add: sq_rowIdx_def sq_setRowIdx_def store_simps)

lemma showInternal_set: "sq_showInternal (get (put s (sq_setShowInternal b))) = b"
  by (simp add: sq_showInternal_def sq_setShowInternal_def store_simps toLowerCase_def
      lower_char_def code_def)

lemma sq_timeRange_set: "wf_range r \<Longrightarrow> sq_timeRange (get (put s (sq_setTimeRange r))) = r"
  using wf_toURL_nonempty [of r 0]
  by (simp add: sq_timeRange_def sq_setTimeRange_def store_simps page_range_def)

lemma tsq_timeRange_set: "wf_range r \<Longrightarrow> tsq_timeRange (get (put s (tsq_setTimeRange r))) = r"
  using wf_toURL_nonempty [of r 0]
  by (simp add: tsq_timeRange_def tsq_setTimeRange_def store_simps page_range_def)

lemma rm_timeRange_set: "wf_range r \<Longrightarrow> rm_timeRange (get (put s (rm_setTimeRange r))) = r"
  using wf_toURL_nonempty [of r 0]
  by (simp add: rm_timeRange_def rm_setTimeRange_def store_simps page_range_def)

lemma duration_setDuration:
  "tsq_duration (get (put s (tsq_setDuration v))) =
     (if v \<in> snd ` set DURATIONS then v else 60 * 60)"
  by (simp add: tsq_duration_def tsq_setDuration_def store_simps DURATIONS_def)

lemma rm_workload_set:
  "rm_workload (get (put s (rm_setWorkload w))) = (if w = [] then WORKLOAD_TYPES ! 0 else w)"
  by (simp add: rm_workload_def rm_setWorkload_def store_simps val_or_def)

end

lemma tw_show:
  "tsq_tw P = (int a, int b)" if "P ''tw'' = Some (show_nat a @ ''-'' @ show_nat b)"
proof -
  have "CHR ''-'' \<notin> set (show_nat n)" for n
    using show_nat_digits is_digit_neq(1) by blast
  then have "split_on (CHR ''-'') (show_nat a @ ''-'' @ show_nat b) = [show_nat a, show_nat b]"
    by (simp add: split_on_append_sep split_on_no_sep)
  moreover have "parseInt (show_nat n) = Some (int n)" for n
    using parseInt_show_int [of "int n"] by (simp add: show_int_def)
  ultimately show ?thesis using that by (simp add: tsq_tw_def)
qed

text \<open>The duration read from any URL is one of the presets.\<close>

lemma tsq_duration_preset: "tsq_duration P \<in> snd ` set DURATIONS"
  by (auto simp: tsq_duration_def DURATIONS_def split: option.splits)

subsection \<open>Properties\<close>

text \<open>
  The state of the slow query list survives the URL, for every store with the contract of the
  search string: databases and resource groups (comma-separated lists whose entries contain no
  comma), the order (descending orders are marked by a minus sign), the limit, the row index, the
  internal-queries switch and the time range read back as set, and resetting the order gives the
  default order.
\<close>

theorem slow_query_state_roundtrip:
  assumes "url_store get put"
  shows "(csv_safe v \<longrightarrow> sq_dbs (get (put s (sq_setDbs v))) = v \<and>
      sq_ruGroups (get (put s (sq_setRuGroups v))) = v) \<and>
    (order_safe ord \<longrightarrow> sq_order (get (put s (sq_setOrder ord))) = ord) \<and>
    sq_order (get (put s sq_resetOrder)) = \<lparr>col = ''timestamp'', type_of = Desc\<rparr> \<and>
    sq_limit (get (put s (sq_setLimit n))) = Some n \<and>
    sq_rowIdx (get (put s (sq_setRowIdx n))) = (if 0 \<le> n then n else -1) \<and>
    sq_showInternal (get (put s (sq_setShowInternal b))) = b \<and>
    (wf_range r \<longrightarrow> sq_timeRange (get (put s (sq_setTimeRange r))) = r)"
  using url_store.csv_setCsv [OF assms] url_store.order_setOrder [OF assms]
    url_store.order_reset [OF assms] url_store.limit_setLimit [OF assms]
    url_store.rowIdx_setRowIdx [OF assms] url_store.showInternal_set [OF assms]
    url_store.sq_timeRange_set [OF assms]
  by (simp add: sq_dbs_def sq_setDbs_def sq_ruGroups_def sq_setRuGroups_def)

theorem slow_query_state_roundtrip_witness:
  "sq_order (queryParams (setQueryParams ''?db=x'' (sq_setOrder \<lparr>col = ''query_time'', type_of = Desc\<rparr>))) =
     \<lparr>col = ''query_time'', type_of = Desc\<rparr> \<and>
   sq_dbs (queryParams (setQueryParams ''?db=x'' (sq_setDbs [''a b'', ''c&d'']))) = [''a b'', ''c&d'']"
  using slow_query_state_roundtrip [OF url.url_store_axioms, of "[''a b'', ''c&d'']" "''?db=x''"
      "\<lparr>col = ''query_time'', type_of = Desc\<rparr>"]
  by (simp add: order_safe_def csv_safe_def)

text \<open>
  Comma-separated lists lose what the separator cannot carry: a list of one empty string reads
  back as the empty list, and an entry with a comma reads back as two entries.
\<close>

theorem csv_lossy:
  "sq_dbs (queryParams (setQueryParams q (sq_setDbs [[]]))) = [] \<and>
   sq_dbs (queryParams (setQueryParams q (sq_setDbs [''a,b'']))) = [''a'', ''b'']"
  by (simp add: sq_dbs_def sq_setDbs_def csv_def setCsv_def url.val_put)

text \<open>
  The top slow query and resource manager pages only ever work with settings they offer: the
  duration read from any URL is one of the presets and reads back as set when it is one, the time
  window reads back as the two numbers written, and an empty workload means the first kind.
\<close>

theorem top_slow_query_state:
  assumes "url_store get put"
  shows "tsq_duration P \<in> snd ` set DURATIONS \<and>
    tsq_duration (get (put s (tsq_setDuration n))) = (if n \<in> snd ` set DURATIONS then n else 60 * 60) \<and>
    tsq_tw (get (put s (tsq_setTw (show_nat a @ ''-'' @ show_nat b)))) = (int a, int b) \<and>
    rm_workload (get (put s (rm_setWorkload w))) = (if w = [] then WORKLOAD_TYPES ! 0 else w)"
proof -
  have "get (put s (tsq_setTw (show_nat a @ ''-'' @ show_nat b))) ''tw'' =
      Some (show_nat a @ ''-'' @ show_nat b)"
    using url_store.get_put_some [OF assms, of "tsq_setTw (show_nat a @ ''-'' @ show_nat b)" "''tw''"]
    by (simp add: tsq_setTw_def)
  then have "tsq_tw (get (put s (tsq_setTw (show_nat a @ ''-'' @ show_nat b)))) = (int a, int b)"
    by (rule tw_show)
  then show ?thesis
    using tsq_duration_preset url_store.duration_setDuration [OF assms]
      url_store.rm_workload_set [OF assms] by blast
qed

theorem top_slow_query_state_witness:
  "tsq_tw (queryParams (setQueryParams '''' (tsq_setTw (show_nat 17 @ ''-'' @ show_nat 42)))) = (17, 42)"
  using top_slow_query_state [OF url.url_store_axioms, of "\<lambda>_. None" "''''" 0 17 42 "[]"] by simp

end
