(* ===== verification/ClientRequest.thy ===== *)
theory ClientRequest
  imports Prelude
begin

text \<open>
  The request hooks of \<open>utils/useClientRequest.ts\<close> as a state machine. JavaScript runs one task
  at a time, so the interleaving happens only at \<open>await\<close>: an event of the machine is one task
  (mount, a call of \<open>sendRequest\<close>, the settlement of the awaited promise, unmount, the polling
  timer, the flush of React's passive effects). \<open>pending\<close> holds the identifiers of the requests
  whose continuation has not run yet. The callbacks \<open>beforeRequest\<close> and \<open>afterRequest\<close> of the
  caller are the marks of \<open>log\<close>.
\<close>

subsection \<open>useClientRequest\<close>

datatype mark = Before | After

record ('d, 'e) req =
  isLoading :: bool
  resp :: "'d option"
  err :: "'e option"
  cancelTokenSource :: "nat option"
  mounted :: bool
  nextToken :: nat
  pending :: "nat list"
  cancelled :: "nat list"
  log :: "mark list"

definition init_req :: "bool \<Rightarrow> ('d, 'e) req" where
  "init_req immediate =
     \<lparr>isLoading = immediate, resp = None, err = None, cancelTokenSource = None, mounted = False,
      nextToken = 0, pending = [], cancelled = [], log = []\<rparr>"

text \<open>
  The synchronous part of \<open>sendRequest\<close>: everything up to the \<open>await\<close>, or the whole function when
  there is no request factory.
\<close>

definition sendRequest :: "bool \<Rightarrow> ('d, 'e) req \<Rightarrow> ('d, 'e) req" where
  "sendRequest hasFactory s =
     (if \<not> mounted s then s
      else if cancelTokenSource s \<noteq> None then s
      else (let t = nextToken s;
                s1 = s\<lparr>log := log s @ [Before], cancelTokenSource := Some t, nextToken := Suc t,
                       isLoading := True, err := None\<rparr>
            in if \<not> hasFactory
               then s1\<lparr>isLoading := False, resp := None, err := None, cancelTokenSource := None,
                       log := log s1 @ [After]\<rparr>
               else s1\<lparr>pending := pending s1 @ [t]\<rparr>))"

text \<open>The continuation after the \<open>await\<close>, when request \<open>t\<close> was answered or failed.\<close>

definition settle :: "nat \<Rightarrow> 'e + 'd \<Rightarrow> ('d, 'e) req \<Rightarrow> ('d, 'e) req" where
  "settle t r s =
     (if t \<notin> set (pending s) then s
      else (let s1 = (if mounted s
                      then (case r of
                              Inr d \<Rightarrow> s\<lparr>resp := Some d, err := None, isLoading := False\<rparr>
                            | Inl e \<Rightarrow> s\<lparr>resp := None, err := Some e, isLoading := False\<rparr>)
                      else s)
            in s1\<lparr>pending := without t (pending s1), cancelTokenSource := None,
                  log := log s1 @ [After]\<rparr>))"

definition on_mount :: "bool \<Rightarrow> bool \<Rightarrow> ('d, 'e) req \<Rightarrow> ('d, 'e) req" where
  "on_mount immediate hasFactory s =
     (let s1 = s\<lparr>mounted := True\<rparr> in if immediate then sendRequest hasFactory s1 else s1)"

definition on_unmount :: "('d, 'e) req \<Rightarrow> ('d, 'e) req" where
  "on_unmount s =
     (let s1 = s\<lparr>mounted := False\<rparr>
      in case cancelTokenSource s1 of
           Some t \<Rightarrow> s1\<lparr>cancelled := t # cancelled s1, cancelTokenSource := None\<rparr>
         | None \<Rightarrow> s1)"

datatype ('d, 'e) req_event =
    Send
  | Settle nat "'e + 'd"
  | Unmount

fun req_step :: "bool \<Rightarrow> ('d, 'e) req_event \<Rightarrow> ('d, 'e) req \<Rightarrow> ('d, 'e) req" where
  "req_step hasFactory Send s = sendRequest hasFactory s"
| "req_step hasFactory (Settle t r) s = settle t r s"
| "req_step hasFactory Unmount s = on_unmount s"

text \<open>A component mounts once; any sequence of events may follow.\<close>

definition req_run :: "bool \<Rightarrow> bool \<Rightarrow> ('d, 'e) req_event list \<Rightarrow> ('d, 'e) req" where
  "req_run immediate hasFactory es =
     fold (req_step hasFactory) es (on_mount immediate hasFactory (init_req immediate))"

subsection \<open>Invariant of the request hook\<close>

fun balanced :: "nat \<Rightarrow> mark list \<Rightarrow> nat option" where
  "balanced n [] = Some n"
| "balanced n (Before # ms) = (if n = 0 then balanced 1 ms else None)"
| "balanced n (After # ms) = (case n of 0 \<Rightarrow> None | Suc m \<Rightarrow> balanced m ms)"

lemma balanced_append: "balanced n (xs @ ys) = Option.bind (balanced n xs) (\<lambda>m. balanced m ys)"
  by (induction n xs rule: balanced.induct) (auto split: nat.splits)

definition req_inv :: "('d, 'e) req \<Rightarrow> bool" where
  [inv_defs]: "req_inv s \<longleftrightarrow>
     length (pending s) \<le> 1 \<and>
     (mounted s \<longrightarrow> (cancelTokenSource s = None \<longleftrightarrow> pending s = []) \<and>
                   (\<forall>t. cancelTokenSource s = Some t \<longrightarrow> pending s = [t]) \<and>
                   (isLoading s \<longleftrightarrow> pending s \<noteq> [])) \<and>
     (\<not> mounted s \<longrightarrow> cancelTokenSource s = None \<and> set (pending s) \<subseteq> set (cancelled s)) \<and>
     balanced 0 (log s) = Some (length (pending s))"

lemmas req_ops = sendRequest_def settle_def on_mount_def on_unmount_def

lemma length_le_one_cases:
  assumes "length xs \<le> 1"
  obtains "xs = []" | x where "xs = [x]"
  using assms by (cases xs) auto

lemma req_inv_send: "req_inv s \<Longrightarrow> req_inv (sendRequest f s)"
  by (auto simp: inv_defs sendRequest_def Let_def balanced_append)

lemma req_inv_settle: "req_inv s \<Longrightarrow> req_inv (settle t r s)"
proof -
  assume inv: "req_inv s"
  then have "length (pending s) \<le> 1" by (simp add: inv_defs)
  then show ?thesis
  proof (cases rule: length_le_one_cases)
    case 1
    with inv show ?thesis by (simp add: settle_def)
  next
    case (2 x)
    with inv show ?thesis
      by (auto simp: inv_defs settle_def Let_def balanced_append split: sum.split)
  qed
qed

lemma req_inv_unmount: "req_inv s \<Longrightarrow> req_inv (on_unmount s)"
  by (auto simp: inv_defs on_unmount_def Let_def split: option.split)

lemma req_inv_step: "req_inv s \<Longrightarrow> req_inv (req_step f e s)"
  by (cases e) (auto intro: req_inv_send req_inv_settle req_inv_unmount)

lemma req_inv_fold: "req_inv s \<Longrightarrow> req_inv (fold (req_step f) es s)"
  by (induction es arbitrary: s) (auto intro: req_inv_step)

lemma req_inv_mount: "req_inv (on_mount i f (init_req i))"
  by (auto simp: inv_defs on_mount_def init_req_def sendRequest_def Let_def)

lemma req_run_inv: "req_inv (req_run i f es)"
  unfolding req_run_def by (intro req_inv_fold req_inv_mount)

text \<open>After unmounting, no event changes what the component would render.\<close>

definition view :: "('d, 'e) req \<Rightarrow> bool \<times> 'd option \<times> 'e option" where
  "view s = (isLoading s, resp s, err s)"

lemma unmounted_step:
  "\<not> mounted s \<Longrightarrow> \<not> mounted (req_step f e s) \<and> view (req_step f e s) = view s"
  by (cases e) (auto simp: view_def req_ops Let_def split: option.split)

lemma unmounted_run:
  "\<not> mounted s \<Longrightarrow>
     \<not> mounted (fold (req_step f) es s) \<and> view (fold (req_step f) es s) = view s"
proof (induction es arbitrary: s)
  case (Cons e es)
  with unmounted_step [of s f e] show ?case by simp
qed simp


subsection \<open>useClientRequestWithPolling\<close>

text \<open>
  \<open>retErr\<close> and \<open>retResp\<close> are the fields of \<open>retRef.current\<close>, which a passive effect copies from
  the rendered state: the event \<open>Flush\<close>. \<open>shouldPoll\<close> is the option of the same name.
\<close>

record ('d, 'e) poll =
  base :: "('d, 'e) req"
  pollingTimer :: bool
  pollMounted :: bool
  retErr :: "'e option"
  retResp :: "'d option"

definition init_poll :: "bool \<Rightarrow> ('d, 'e) poll" where
  "init_poll immediate =
     \<lparr>base = init_req immediate, pollingTimer = False, pollMounted = False, retErr = None,
      retResp = None\<rparr>"

definition scheduleNextPoll :: "('d, 'e) poll \<Rightarrow> ('d, 'e) poll" where
  "scheduleNextPoll s =
     (if \<not> pollingTimer s \<and> pollMounted s then s\<lparr>pollingTimer := True\<rparr> else s)"

definition cancelNextPoll :: "('d, 'e) poll \<Rightarrow> ('d, 'e) poll" where
  "cancelNextPoll s = (if pollingTimer s then s\<lparr>pollingTimer := False\<rparr> else s)"

definition triggerPoll :: "('d \<Rightarrow> bool) option \<Rightarrow> ('d, 'e) poll \<Rightarrow> bool" where
  "triggerPoll shouldPoll s =
     (if retErr s \<noteq> None then False
      else (case (retResp s, shouldPoll) of (Some d, Some f) \<Rightarrow> f d | _ \<Rightarrow> True))"

definition myAfterRequest :: "('d \<Rightarrow> bool) option \<Rightarrow> ('d, 'e) poll \<Rightarrow> ('d, 'e) poll" where
  "myAfterRequest shouldPoll s = (if triggerPoll shouldPoll s then scheduleNextPoll s else s)"

text \<open>\<open>sendRequest\<close> of the inner hook with \<open>myBeforeRequest\<close> as its \<open>beforeRequest\<close>.\<close>

definition poll_send :: "('d, 'e) poll \<Rightarrow> ('d, 'e) poll" where
  "poll_send s =
     (if mounted (base s) \<and> cancelTokenSource (base s) = None
      then (let s1 = cancelNextPoll s in s1\<lparr>base := sendRequest True (base s1)\<rparr>) else s)"

definition poll_settle ::
    "('d \<Rightarrow> bool) option \<Rightarrow> nat \<Rightarrow> 'e + 'd \<Rightarrow> ('d, 'e) poll \<Rightarrow> ('d, 'e) poll" where
  "poll_settle shouldPoll t r s =
     (if t \<in> set (pending (base s))
      then myAfterRequest shouldPoll (s\<lparr>base := settle t r (base s)\<rparr>) else s)"

definition poll_timeout :: "('d, 'e) poll \<Rightarrow> ('d, 'e) poll" where
  "poll_timeout s = (if pollingTimer s then (poll_send s)\<lparr>pollingTimer := False\<rparr> else s)"

definition poll_flush :: "('d, 'e) poll \<Rightarrow> ('d, 'e) poll" where
  "poll_flush s =
     (if mounted (base s) then s\<lparr>retErr := err (base s), retResp := resp (base s)\<rparr> else s)"

definition poll_mount :: "bool \<Rightarrow> ('d, 'e) poll \<Rightarrow> ('d, 'e) poll" where
  "poll_mount immediate s =
     s\<lparr>base := on_mount immediate True (base s), pollMounted := True\<rparr>"

definition poll_unmount :: "('d, 'e) poll \<Rightarrow> ('d, 'e) poll" where
  "poll_unmount s = cancelNextPoll (s\<lparr>base := on_unmount (base s), pollMounted := False\<rparr>)"

datatype ('d, 'e) poll_event =
    PSend
  | PSettle nat "'e + 'd"
  | PTimeout
  | PFlush
  | PUnmount

fun poll_step ::
    "('d \<Rightarrow> bool) option \<Rightarrow> ('d, 'e) poll_event \<Rightarrow> ('d, 'e) poll \<Rightarrow> ('d, 'e) poll" where
  "poll_step sp PSend s = poll_send s"
| "poll_step sp (PSettle t r) s = poll_settle sp t r s"
| "poll_step sp PTimeout s = poll_timeout s"
| "poll_step sp PFlush s = poll_flush s"
| "poll_step sp PUnmount s = poll_unmount s"

definition poll_run ::
    "('d \<Rightarrow> bool) option \<Rightarrow> bool \<Rightarrow> ('d, 'e) poll_event list \<Rightarrow> ('d, 'e) poll" where
  "poll_run sp immediate es = fold (poll_step sp) es (poll_mount immediate (init_poll immediate))"

subsection \<open>Invariant of the polling hook\<close>

definition poll_inv :: "('d, 'e) poll \<Rightarrow> bool" where
  "poll_inv s \<longleftrightarrow>
     req_inv (base s) \<and> pollMounted s = mounted (base s) \<and>
     (pollingTimer s \<longrightarrow> pollMounted s \<and> pending (base s) = [])"

lemmas poll_ops = poll_send_def poll_settle_def poll_timeout_def poll_flush_def poll_unmount_def
  cancelNextPoll_def scheduleNextPoll_def myAfterRequest_def

lemma mounted_ops [simp]:
  "mounted (sendRequest f s) = mounted s" "mounted (settle t r s) = mounted s"
  "mounted (on_unmount s) = False"
  by (auto simp: req_ops Let_def split: sum.split option.split)

lemma poll_inv_send: "poll_inv s \<Longrightarrow> poll_inv (poll_send s)"
  by (auto simp: poll_inv_def poll_send_def cancelNextPoll_def Let_def req_inv_send)

lemma pending_settle:
  "req_inv s \<Longrightarrow> t \<in> set (pending s) \<Longrightarrow> pending (settle t r s) = []"
  by (cases "pending s") (auto simp: inv_defs settle_def Let_def split: sum.split)

lemma poll_inv_settle: "poll_inv s \<Longrightarrow> poll_inv (poll_settle sp t r s)"
  by (auto simp: poll_inv_def poll_settle_def myAfterRequest_def scheduleNextPoll_def
      req_inv_settle pending_settle)

lemma poll_inv_step: "poll_inv s \<Longrightarrow> poll_inv (poll_step sp e s)"
proof (cases e)
  case PTimeout
  assume "poll_inv s"
  then have "poll_inv (poll_send s)" by (rule poll_inv_send)
  with PTimeout \<open>poll_inv s\<close> show ?thesis by (auto simp: poll_timeout_def poll_inv_def)
next
  case PUnmount
  assume "poll_inv s"
  with PUnmount show ?thesis
    by (auto simp: poll_inv_def poll_unmount_def cancelNextPoll_def req_inv_unmount)
next
  case PFlush
  assume "poll_inv s"
  with PFlush show ?thesis by (auto simp: poll_inv_def poll_flush_def)
qed (simp_all add: poll_inv_send poll_inv_settle)

lemma mounted_on_mount [simp]: "mounted (on_mount i f s)"
  by (simp add: on_mount_def Let_def)

lemma poll_inv_mount: "poll_inv (poll_mount i (init_poll i))"
  by (auto simp: poll_inv_def poll_mount_def init_poll_def req_inv_mount)

lemma poll_inv_fold: "poll_inv s \<Longrightarrow> poll_inv (fold (poll_step sp) es s)"
  by (induction es arbitrary: s) (auto intro: poll_inv_step)

lemma poll_run_inv: "poll_inv (poll_run sp i es)"
  unfolding poll_run_def by (intro poll_inv_fold poll_inv_mount)

text \<open>A timer that fires starts exactly one request and leaves no timer behind.\<close>

lemma poll_timeout_sends:
  assumes "poll_inv s" and "pollingTimer s"
  shows "pending (base (poll_timeout s)) = [nextToken (base s)] \<and> \<not> pollingTimer (poll_timeout s)"
proof -
  from assms have "mounted (base s)" and "pending (base s) = []"
    and "cancelTokenSource (base s) = None"
    by (auto simp: poll_inv_def inv_defs)
  with assms(2) show ?thesis
    by (simp add: poll_timeout_def poll_send_def cancelNextPoll_def sendRequest_def Let_def)
qed

subsection \<open>Properties\<close>

text \<open>
  C25: At every moment of the life of a component, whatever the interleaving of its calls, the
  answers and its unmounting, at most one request of the hook is in flight, the loading flag of a
  mounted component is set exactly while one is, the callbacks before and after a request alternate,
  and the request in flight at unmount has been cancelled.
\<close>

theorem single_request_in_flight:
  fixes es :: "('d, 'e) req_event list" and immediate hasFactory :: bool
  defines "s \<equiv> req_run immediate hasFactory es"
  shows "length (pending s) \<le> 1 \<and> (mounted s \<longrightarrow> (isLoading s \<longleftrightarrow> pending s \<noteq> [])) \<and>
    balanced 0 (log s) = Some (length (pending s)) \<and>
    (\<not> mounted s \<longrightarrow> set (pending s) \<subseteq> set (cancelled s))"
  using req_run_inv [of immediate hasFactory es] by (simp add: s_def req_inv_def)

theorem single_request_in_flight_witness:
  "pending (req_run True True [Send, Unmount, Send] :: (int, int) req) = [0] \<and>
   set (pending (req_run True True [Send, Unmount, Send] :: (int, int) req)) \<subseteq>
     set (cancelled (req_run True True [Send, Unmount, Send] :: (int, int) req))"
proof
  show "pending (req_run True True [Send, Unmount, Send] :: (int, int) req) = [0]"
    by (simp add: req_run_def req_ops init_req_def)
  have "\<not> mounted (req_run True True [Send, Unmount, Send] :: (int, int) req)"
    by (simp add: req_run_def req_ops init_req_def)
  with single_request_in_flight
  show "set (pending (req_run True True [Send, Unmount, Send] :: (int, int) req)) \<subseteq>
     set (cancelled (req_run True True [Send, Unmount, Send] :: (int, int) req))" by blast
qed

text \<open>
  After the component is unmounted, nothing it would render changes any more: late answers and
  late calls are ignored.
\<close>

theorem unmounted_is_final:
  "view (req_run immediate hasFactory (es @ Unmount # es')) =
     view (req_run immediate hasFactory es)"
proof -
  let ?s = "req_run immediate hasFactory es"
  have "view (fold (req_step hasFactory) es' (on_unmount ?s)) = view (on_unmount ?s)"
    using unmounted_run [of "on_unmount ?s" hasFactory es'] by (auto simp: on_unmount_def Let_def split: option.split)
  moreover have "view (on_unmount ?s) = view ?s"
    by (auto simp: view_def on_unmount_def Let_def split: option.split)
  ultimately show ?thesis by (simp add: req_run_def)
qed

text \<open>
  C23: Polling never overlaps: at every moment of the life of a polling component, a polling timer is
  armed only while the component is mounted and no request is in flight, and when it fires exactly
  one request starts and no timer is left.
\<close>

theorem polling_never_overlaps:
  fixes es :: "('d, 'e) poll_event list" and immediate :: bool and sp :: "('d \<Rightarrow> bool) option"
  defines "s \<equiv> poll_run sp immediate es"
  shows "length (pending (base s)) \<le> 1 \<and>
    (pollingTimer s \<longrightarrow> mounted (base s) \<and> pending (base s) = [] \<and>
       pending (base (poll_timeout s)) = [nextToken (base s)] \<and> \<not> pollingTimer (poll_timeout s))"
  using poll_run_inv [of sp immediate es] poll_timeout_sends [of s]
  by (auto simp: s_def poll_inv_def req_inv_def)

theorem polling_never_overlaps_witness:
  "pollingTimer (poll_run None True [PSettle 0 (Inr 5)] :: (int, int) poll) \<and>
   pending (base (poll_timeout (poll_run None True [PSettle 0 (Inr 5)] :: (int, int) poll))) = [1]"
proof -
  let ?s = "poll_run None True [PSettle 0 (Inr 5)] :: (int, int) poll"
  have "pollingTimer ?s" "nextToken (base ?s) = 1"
    by (simp_all add: poll_run_def poll_mount_def init_poll_def init_req_def poll_ops req_ops
        triggerPoll_def)
  with polling_never_overlaps [where es = "[PSettle 0 (Inr 5)]" and sp = None and immediate = True]
  show ?thesis by auto
qed

end
