(* ===== verification/InstanceTable.thy ===== *)
theory InstanceTable
  imports JsString
begin

text \<open>
  The instance table of \<open>utils/instanceTable.ts\<close>: the instances of a cluster, grouped by kind.
  \<open>'x\<close> stands for the remaining fields of the topology records; \<open>kindName\<close> for the translated
  name \<open>i18next.t\<close> looks up.
\<close>

datatype InstanceKind = PD | TIDB | TIKV | TIFLASH | TICDC | TIPROXY | TSO | SCHEDULING

definition InstanceKinds :: "InstanceKind list" where
  "InstanceKinds = [PD, TIDB, TIKV, TIFLASH, TICDC, TIPROXY, TSO, SCHEDULING]"

fun kind_str :: "InstanceKind \<Rightarrow> string" where
  "kind_str PD = ''pd''"
| "kind_str TIDB = ''tidb''"
| "kind_str TIKV = ''tikv''"
| "kind_str TIFLASH = ''tiflash''"
| "kind_str TICDC = ''ticdc''"
| "kind_str TIPROXY = ''tiproxy''"
| "kind_str TSO = ''tso''"
| "kind_str SCHEDULING = ''scheduling''"

datatype InstanceStatus = Unreachable | Up | Tombstone | Offline | Down

fun status_code :: "InstanceStatus \<Rightarrow> int" where
  "status_code Unreachable = 0"
| "status_code Up = 1"
| "status_code Tombstone = 2"
| "status_code Offline = 3"
| "status_code Down = 4"

text \<open>The order of the kinds is their position in \<open>InstanceKinds\<close>.\<close>

fun kind_pos :: "InstanceKind \<Rightarrow> nat" where
  "kind_pos PD = 0"
| "kind_pos TIDB = 1"
| "kind_pos TIKV = 2"
| "kind_pos TIFLASH = 3"
| "kind_pos TICDC = 4"
| "kind_pos TIPROXY = 5"
| "kind_pos TSO = 6"
| "kind_pos SCHEDULING = 7"

lemma kind_pos_inj: "kind_pos a = kind_pos b \<Longrightarrow> a = b"
  by (cases a; cases b) simp_all

instantiation InstanceKind :: linorder
begin

definition less_eq_InstanceKind :: "InstanceKind \<Rightarrow> InstanceKind \<Rightarrow> bool" where
  "a \<le> b \<longleftrightarrow> kind_pos a \<le> kind_pos b"

definition less_InstanceKind :: "InstanceKind \<Rightarrow> InstanceKind \<Rightarrow> bool" where
  "a < b \<longleftrightarrow> kind_pos a < kind_pos b"

instance
  by standard (auto simp: less_eq_InstanceKind_def less_InstanceKind_def intro: kind_pos_inj)

end

record 'x topo_instance =
  ip :: string
  port :: int
  rest :: 'x

record 'x IInstanceTableItem = "'x topo_instance" +
  item_key :: string
  instanceKind :: InstanceKind

record IGroup =
  group_key :: InstanceKind
  group_name :: string
  startIndex :: nat
  count :: nat
  level :: nat

record 'x IBuildInstanceTableProps =
  dataPD :: "'x topo_instance list option"
  dataTiDB :: "'x topo_instance list option"
  dataTiKV :: "'x topo_instance list option"
  dataTiFlash :: "'x topo_instance list option"
  dataTiCDC :: "'x topo_instance list option"
  dataTiProxy :: "'x topo_instance list option"
  dataTSO :: "'x topo_instance list option"
  dataScheduling :: "'x topo_instance list option"
  includeTiFlash :: bool

definition kinds_of :: "'x IBuildInstanceTableProps \<Rightarrow> InstanceKind \<Rightarrow> 'x topo_instance list option" where
  "kinds_of p k =
     (case k of
        PD \<Rightarrow> dataPD p | TIDB \<Rightarrow> dataTiDB p | TIKV \<Rightarrow> dataTiKV p
      | TICDC \<Rightarrow> dataTiCDC p | TIPROXY \<Rightarrow> dataTiProxy p | TSO \<Rightarrow> dataTSO p
      | SCHEDULING \<Rightarrow> dataScheduling p
      | TIFLASH \<Rightarrow> if includeTiFlash p then dataTiFlash p else None)"

definition mk_item :: "InstanceKind \<Rightarrow> 'x topo_instance \<Rightarrow> 'x IInstanceTableItem" where
  "mk_item k i =
     \<lparr>ip = ip i, port = port i, rest = rest i, item_key = ip i @ '':'' @ show_int (port i),
      instanceKind = k\<rparr>"

text \<open>
  The loop over \<open>InstanceKinds\<close> both functions run: \<open>rows k\<close> are the table rows of kind \<open>k\<close>. It
  carries the table, the groups and the next start index.
\<close>

type_synonym 'r grouped = "'r list \<times> IGroup list"

fun group_loop ::
    "(InstanceKind \<Rightarrow> string) \<Rightarrow> (InstanceKind \<Rightarrow> 'r list) \<Rightarrow> InstanceKind list \<Rightarrow>
     'r list \<Rightarrow> IGroup list \<Rightarrow> nat \<Rightarrow> 'r grouped" where
  "group_loop kindName rows [] tableData groupData start = (tableData, groupData)"
| "group_loop kindName rows (k # ks) tableData groupData start =
     (if rows k = [] then group_loop kindName rows ks tableData groupData start
      else group_loop kindName rows ks (tableData @ rows k)
             (groupData @ [\<lparr>group_key = k, group_name = kindName k, startIndex = start,
                           count = length (rows k), level = 0\<rparr>])
             (start + length (rows k)))"

definition buildInstanceTable ::
    "(InstanceKind \<Rightarrow> string) \<Rightarrow> 'x IBuildInstanceTableProps \<Rightarrow> 'x IInstanceTableItem grouped" where
  "buildInstanceTable kindName p =
     group_loop kindName
       (\<lambda>k. case kinds_of p k of None \<Rightarrow> [] | Some is \<Rightarrow> map (mk_item k) is)
       InstanceKinds [] [] 0"

definition contains :: "string \<Rightarrow> string \<Rightarrow> bool" where
  "contains s kw \<longleftrightarrow> indexOf s kw 0 \<noteq> None"

definition item_matches :: "string \<Rightarrow> 'x IInstanceTableItem \<Rightarrow> bool" where
  "item_matches filterKeyword i \<longleftrightarrow>
     filterKeyword = [] \<or>
     contains (toLowerCase (item_key i)) (toLowerCase filterKeyword) \<or>
     contains (kind_str (instanceKind i)) (toLowerCase filterKeyword)"

definition filterInstanceTable ::
    "(InstanceKind \<Rightarrow> string) \<Rightarrow> 'x IInstanceTableItem list \<Rightarrow> string \<Rightarrow>
     'x IInstanceTableItem grouped" where
  "filterInstanceTable kindName items filterKeyword =
     (let filteredItems = filter (item_matches filterKeyword) items
      in group_loop kindName (\<lambda>k. filter (\<lambda>i. instanceKind i = k) filteredItems)
           InstanceKinds [] [] 0)"

subsection \<open>The loop\<close>

lemma group_loop_rows:
  "fst (group_loop n rows ks td gd s) = td @ concat (map rows ks)"
  by (induction ks arbitrary: td gd s) auto

text \<open>A group describes the slice of the table that holds the rows of its kind.\<close>

definition group_ok :: "(InstanceKind \<Rightarrow> 'r list) \<Rightarrow> 'r list \<Rightarrow> IGroup \<Rightarrow> bool" where
  "group_ok rows table g \<longleftrightarrow>
     0 < count g \<and> startIndex g + count g \<le> length table \<and>
     take (count g) (drop (startIndex g) table) = rows (group_key g) \<and> level g = 0"

lemma group_ok_append: "group_ok rows td g \<Longrightarrow> group_ok rows (td @ xs) g"
  by (auto simp: group_ok_def)

lemma group_loop_groups:
  assumes "\<forall>g \<in> set gd. group_ok rows td g" and "s = length td"
    and "sum_list (map count gd) = length td"
  shows "(\<forall>g \<in> set (snd (group_loop n rows ks td gd s)).
      group_ok rows (fst (group_loop n rows ks td gd s)) g) \<and>
    sum_list (map count (snd (group_loop n rows ks td gd s))) =
      length (fst (group_loop n rows ks td gd s))"
  using assms
proof (induction ks arbitrary: td gd s)
  case (Cons k ks)
  show ?case
  proof (cases "rows k = []")
    case False
    let ?g = "\<lparr>group_key = k, group_name = n k, startIndex = s, count = length (rows k), level = 0\<rparr>"
    have new: "group_ok rows (td @ rows k) ?g"
      using False Cons.prems(2) by (simp add: group_ok_def)
    show ?thesis
      using Cons.IH [of "gd @ [?g]" "td @ rows k" "s + length (rows k)"] Cons.prems False new
      by (auto intro: group_ok_append)
  qed (use Cons in auto)
qed auto

lemma group_loop_keys:
  "map group_key (snd (group_loop n rows ks td gd s)) =
     map group_key gd @ filter (\<lambda>k. rows k \<noteq> []) ks"
  by (induction ks arbitrary: td gd s) auto

lemma InstanceKinds_complete: "k \<in> set InstanceKinds"
  by (cases k) (simp_all add: InstanceKinds_def)

lemma InstanceKinds_sorted: "sorted InstanceKinds \<and> distinct InstanceKinds"
  by (simp add: InstanceKinds_def less_eq_InstanceKind_def)

lemma group_loop_ok:
  "\<forall>g \<in> set (snd (group_loop n rows ks [] [] 0)). group_ok rows (fst (group_loop n rows ks [] [] 0)) g"
  "sum_list (map count (snd (group_loop n rows ks [] [] 0))) =
     length (fst (group_loop n rows ks [] [] 0))"
  using group_loop_groups [of "[]" rows "[]" 0 n ks] by simp_all

text \<open>Regrouping rows that are already grouped by kind changes nothing.\<close>

lemma filter_concat_kinds:
  assumes "distinct ks" and "\<And>k i. i \<in> set (rows k) \<Longrightarrow> instanceKind i = k" and "k \<in> set ks"
  shows "filter (\<lambda>i. instanceKind i = k) (concat (map rows ks)) = rows k"
  using assms(1,3)
proof (induction ks)
  case (Cons a ks)
  have other: "filter (\<lambda>i. instanceKind i = k) (rows b) = []" if "b \<noteq> k" for b
    using that assms(2) by (auto simp: filter_empty_conv)
  have same: "filter (\<lambda>i. instanceKind i = k) (rows k) = rows k"
    using assms(2) by (auto simp: filter_id_conv)
  show ?case
  proof (cases "a = k")
    case True
    with Cons.prems have "\<forall>b \<in> set ks. b \<noteq> k" by auto
    then have "filter (\<lambda>i. instanceKind i = k) (concat (map rows ks)) = []"
      using other by (simp add: filter_concat)
    with True same show ?thesis by simp
  next
    case False
    with Cons other show ?thesis by simp
  qed
qed simp

lemma group_loop_cong:
  "\<forall>k \<in> set ks. rows k = rows' k \<Longrightarrow>
     group_loop n rows ks td gd s = group_loop n rows' ks td gd s"
  by (induction ks arbitrary: td gd s) auto

lemma set_filter_kinds:
  "set (concat (map (\<lambda>k. filter (\<lambda>i. instanceKind i = k) items) InstanceKinds)) = set items"
  using InstanceKinds_complete by auto

lemma mset_filter_kinds_length:
  "length (concat (map (\<lambda>k. filter (\<lambda>i. instanceKind i = k) items) InstanceKinds)) = length items"
proof (induction items)
  case (Cons i items)
  then show ?case by (cases "instanceKind i") (simp_all add: InstanceKinds_def)
qed (simp add: InstanceKinds_def)

lemma sorted_by_kind:
  assumes "\<And>k i. i \<in> set (rows k) \<Longrightarrow> instanceKind i = k" and "sorted ks"
  shows "sorted (map instanceKind (concat (map rows ks)))"
  using assms(2)
proof (induction ks)
  case (Cons k ks)
  have "map instanceKind (rows k) = replicate (length (rows k)) k"
    using assms(1) by (auto simp: map_replicate_const [symmetric] intro!: map_cong)
  with Cons assms(1) show ?case
    by (auto simp: sorted_append)
qed simp

lemma mk_item_kind [simp]: "instanceKind (mk_item k i) = k"
  by (simp add: mk_item_def)

lemma contains_Nil [simp]: "contains s []"
proof -
  have "indexOf s [] 0 = Some 0"
    by (cases s) (simp_all add: indexOf_def)
  then show ?thesis by (simp add: contains_def)
qed

definition build_rows ::
    "'x IBuildInstanceTableProps \<Rightarrow> InstanceKind \<Rightarrow> 'x IInstanceTableItem list" where
  "build_rows p k = (case kinds_of p k of None \<Rightarrow> [] | Some is \<Rightarrow> map (mk_item k) is)"

lemma buildInstanceTable_alt:
  "buildInstanceTable n p = group_loop n (build_rows p) InstanceKinds [] [] 0"
  by (simp add: buildInstanceTable_def build_rows_def [abs_def])

lemma build_rows_kind: "i \<in> set (build_rows p k) \<Longrightarrow> instanceKind i = k"
  by (auto simp: build_rows_def split: option.splits)

subsection \<open>Properties\<close>

text \<open>
  The groups built for the table partition it: each group is non-empty and describes the slice
  of the table that holds exactly the instances of its kind, the group sizes add up to the length
  of the table, and the groups stand in the order of \<open>InstanceKinds\<close>, one per kind.
\<close>

theorem buildInstanceTable_groups:
  fixes p :: "'x IBuildInstanceTableProps"
  shows "(\<forall>g. g \<in> set (snd (buildInstanceTable kindName p)) \<longrightarrow>
        0 < count g \<and> startIndex g + count g \<le> length (fst (buildInstanceTable kindName p)) \<and>
        take (count g) (drop (startIndex g) (fst (buildInstanceTable kindName p))) =
          map (mk_item (group_key g)) (the (kinds_of p (group_key g)))) \<and>
     sum_list (map count (snd (buildInstanceTable kindName p))) =
       length (fst (buildInstanceTable kindName p)) \<and>
     map group_key (snd (buildInstanceTable kindName p)) =
       filter (\<lambda>k. kinds_of p k \<noteq> None \<and> kinds_of p k \<noteq> Some []) InstanceKinds"
proof -
  have keys: "map group_key (snd (buildInstanceTable kindName p)) =
      filter (\<lambda>k. build_rows p k \<noteq> []) InstanceKinds"
    by (simp add: buildInstanceTable_alt group_loop_keys)
  have ok: "\<forall>g \<in> set (snd (buildInstanceTable kindName p)).
      group_ok (build_rows p) (fst (buildInstanceTable kindName p)) g"
    unfolding buildInstanceTable_alt by (rule group_loop_ok)
  have rows: "build_rows p k = map (mk_item k) (the (kinds_of p k))" if "build_rows p k \<noteq> []" for k
    using that by (auto simp: build_rows_def split: option.splits)
  have "build_rows p (group_key g) \<noteq> []" if "g \<in> set (snd (buildInstanceTable kindName p))" for g
  proof -
    have "group_key g \<in> set (map group_key (snd (buildInstanceTable kindName p)))"
      using that by simp
    then show ?thesis unfolding keys by simp
  qed
  with ok rows have "\<forall>g. g \<in> set (snd (buildInstanceTable kindName p)) \<longrightarrow>
        0 < count g \<and> startIndex g + count g \<le> length (fst (buildInstanceTable kindName p)) \<and>
        take (count g) (drop (startIndex g) (fst (buildInstanceTable kindName p))) =
          map (mk_item (group_key g)) (the (kinds_of p (group_key g)))"
    by (auto simp: group_ok_def)
  moreover have "(\<lambda>k. build_rows p k \<noteq> []) =
      (\<lambda>k. kinds_of p k \<noteq> None \<and> kinds_of p k \<noteq> Some [])"
    by (auto simp: build_rows_def fun_eq_iff split: option.splits)
  moreover have "sum_list (map count (snd (buildInstanceTable kindName p))) =
      length (fst (buildInstanceTable kindName p))"
    unfolding buildInstanceTable_alt by (rule group_loop_ok)
  ultimately show ?thesis
    using keys by presburger
qed

definition sample_cluster :: "nat IBuildInstanceTableProps" where
  "sample_cluster =
     \<lparr>dataPD = Some [\<lparr>ip = ''10.0.0.1'', port = 2379, rest = 1\<rparr>],
      dataTiDB = Some [], dataTiKV = Some [\<lparr>ip = ''10.0.0.2'', port = 20160, rest = 2\<rparr>,
        \<lparr>ip = ''10.0.0.3'', port = 20160, rest = 3\<rparr>],
      dataTiFlash = Some [\<lparr>ip = ''10.0.0.4'', port = 3930, rest = 4\<rparr>], dataTiCDC = None,
      dataTiProxy = None, dataTSO = None, dataScheduling = None, includeTiFlash = False\<rparr>"

theorem buildInstanceTable_groups_witness:
  "map (\<lambda>g. (startIndex g, count g)) (snd (buildInstanceTable kind_str sample_cluster)) =
     [(0, 1), (1, 2)] \<and>
   sum_list (map count (snd (buildInstanceTable kind_str sample_cluster))) =
     length (fst (buildInstanceTable kind_str sample_cluster))"
proof
  show "map (\<lambda>g. (startIndex g, count g)) (snd (buildInstanceTable kind_str sample_cluster)) =
     [(0, 1), (1, 2)]"
    by (simp add: buildInstanceTable_def sample_cluster_def kinds_of_def InstanceKinds_def)
qed (use buildInstanceTable_groups [of kind_str sample_cluster] in blast)

text \<open>
  Filtering the built table with the empty keyword gives back the table and its groups, so the
  table needs no separate unfiltered path.
\<close>

theorem filterInstanceTable_all:
  "filterInstanceTable kindName (fst (buildInstanceTable kindName p)) [] =
     buildInstanceTable kindName p"
proof -
  have "filter (\<lambda>i. instanceKind i = k) (concat (map (build_rows p) InstanceKinds)) = build_rows p k"
    for k
    using InstanceKinds_sorted InstanceKinds_complete
    by (intro filter_concat_kinds) (auto simp: build_rows_kind)
  then show ?thesis
    by (simp add: filterInstanceTable_def buildInstanceTable_alt group_loop_rows
        item_matches_def)
qed

text \<open>
  The filtered table holds exactly the rows whose address or kind contains the lower-cased
  keyword, as many as the input has, ordered by kind; and filtering it again with the same keyword
  changes nothing.
\<close>

theorem filterInstanceTable_rows:
  "set (fst (filterInstanceTable kindName items kw)) = {i \<in> set items. item_matches kw i} \<and>
   length (fst (filterInstanceTable kindName items kw)) = length (filter (item_matches kw) items) \<and>
   sorted (map instanceKind (fst (filterInstanceTable kindName items kw))) \<and>
   filterInstanceTable kindName (fst (filterInstanceTable kindName items kw)) kw =
     filterInstanceTable kindName items kw"
proof -
  define rows where "rows k = filter (\<lambda>i. instanceKind i = k) (filter (item_matches kw) items)" for k
  have f: "filterInstanceTable kindName items kw = group_loop kindName rows InstanceKinds [] [] 0"
    by (simp add: filterInstanceTable_def rows_def [abs_def])
  have table: "fst (filterInstanceTable kindName items kw) = concat (map rows InstanceKinds)"
    by (simp add: f group_loop_rows)
  have kind: "instanceKind i = k" if "i \<in> set (rows k)" for i k
    using that by (simp add: rows_def)
  have all: "filter (item_matches kw) (concat (map rows InstanceKinds)) =
      concat (map rows InstanceKinds)"
    by (rule filter_True) (auto simp: rows_def)
  have again: "filter (\<lambda>i. instanceKind i = k) (concat (map rows InstanceKinds)) = rows k" for k
    using InstanceKinds_sorted InstanceKinds_complete kind by (intro filter_concat_kinds) auto
  have idem: "filterInstanceTable kindName (fst (filterInstanceTable kindName items kw)) kw =
      filterInstanceTable kindName items kw"
    unfolding table unfolding filterInstanceTable_def [of _ "concat _"] Let_def all again f ..
  have elems: "set (concat (map rows InstanceKinds)) = {i \<in> set items. item_matches kw i}"
    unfolding rows_def using set_filter_kinds [of "filter (item_matches kw) items"] by simp
  have len: "length (concat (map rows InstanceKinds)) = length (filter (item_matches kw) items)"
    unfolding rows_def by (rule mset_filter_kinds_length)
  show ?thesis
    using idem elems len sorted_by_kind [of rows InstanceKinds] kind InstanceKinds_sorted
    by (simp add: table)
qed

end
