(* ===== verification/Prometheus.thy ===== *)
theory Prometheus
  imports TimeRange "HOL-Library.Monad_Syntax"
begin

text \<open>
  Time series of the monitoring charts: \<open>utils/prometheus/{data,types,index}.ts\<close> and the range and
  step computations of \<open>utils/charts.ts\<close> in the library, and \<open>1-utils/src/prom.ts\<close> in ui-v2.
  Loops over time are \<^theory_text>\<open>partial_function (option)\<close>: \<^term>\<open>None\<close> is a loop that never ends.
\<close>

subsection \<open>Data\<close>

text \<open>A matrix result has \<open>values\<close>, a vector result one \<open>value\<close>.\<close>

type_synonym PromValue = "jsnum \<times> string"
type_synonym DataPoint = "jsnum \<times> jsnum option"

datatype MatrixOrVectorResult = Matrix "PromValue list" | Vector PromValue

fun isMatrixData :: "MatrixOrVectorResult \<Rightarrow> bool" where
  "isMatrixData (Matrix _) = True"
| "isMatrixData (Vector _) = False"

datatype TransformNullValue = NULL | AS_ZERO

record QueryOptions =
  q_step :: jsnum
  q_start :: jsnum
  q_end :: jsnum

definition DEFAULT_MIN_INTERVAL_SEC :: jsnum where
  "DEFAULT_MIN_INTERVAL_SEC = Fin 30"

definition parseSampleValue :: "string \<Rightarrow> jsnum" where
  "parseSampleValue value =
     (if value = ''+Inf'' then PosInf else if value = ''-Inf'' then NegInf else parseFloat value)"

definition dpValue :: "string \<Rightarrow> jsnum option" where
  "dpValue value = (let v = parseSampleValue value in if v = NaN then None else Some v)"

subsection \<open>Filling the gaps of a series\<close>

text \<open>\<open>for (let t = base; cond t; t += stepMs) dps.push([t, null])\<close>\<close>

partial_function (option) fill ::
    "(jsnum \<Rightarrow> bool) \<Rightarrow> jsnum \<Rightarrow> jsnum \<Rightarrow> DataPoint list option" where
  "fill cond t stepMs =
     (if cond t then do { dps \<leftarrow> fill cond (t + stepMs) stepMs; Some ((t, None) # dps) }
      else Some [])"

fun process_values :: "jsnum \<Rightarrow> jsnum \<Rightarrow> PromValue list \<Rightarrow> (DataPoint list \<times> jsnum) option" where
  "process_values stepMs base [] = Some ([], base)"
| "process_values stepMs base (value # values) =
     (let timestamp = fst value * Fin 1000
      in do {
        nulls \<leftarrow> fill (\<lambda>t. t < timestamp) base stepMs;
        (dps, base') \<leftarrow> process_values stepMs (timestamp + stepMs) values;
        Some (nulls @ (timestamp, dpValue (snd value)) # dps, base') })"

definition processRawData :: "MatrixOrVectorResult \<Rightarrow> QueryOptions \<Rightarrow> DataPoint list option option" where
  "processRawData data options =
     (case data of
        Matrix values \<Rightarrow>
          (let stepMs = if truthy (q_step options) then q_step options * Fin 1000 else NaN
           in do {
             (dps, base) \<leftarrow> process_values stepMs (q_start options * Fin 1000) values;
             nulls \<leftarrow> fill (\<lambda>t. t \<le> q_end options * Fin 1000) base stepMs;
             Some (Some (dps @ nulls)) })
      | Vector _ \<Rightarrow> Some None)"

definition rate_interval :: string where
  "rate_interval = ''$__rate_interval''"

definition resolveQueryTemplate :: "string \<Rightarrow> QueryOptions \<Rightarrow> string" where
  "resolveQueryTemplate template options =
     replaceAll template rate_interval
       (show_num (js_max (q_step options) (Fin 4 * DEFAULT_MIN_INTERVAL_SEC)) @ ''s'')"

subsection \<open>Ranges and steps of a chart\<close>

definition niceTimeFormatByDay :: "jsnum \<Rightarrow> string" where
  "niceTimeFormatByDay days =
     (if Fin (5 * 60 * 24) < days then ''MM-DD''
      else if Fin (1 * 60 * 24) < days then ''MM-DD HH:mm''
      else if Fin 5 < days then ''HH:mm''
      else ''HH:mm:ss'')"

definition alignRange :: "TimeRangeValue \<Rightarrow> jsnum \<Rightarrow> jsnum \<Rightarrow> TimeRangeValue" where
  "alignRange tr minIntervalSec minRangeSec =
     (let (mn, mx) = tr;
          mn = (if mx - mn < minRangeSec then mx - minRangeSec else mn)
      in (js_floor (js_div mn minIntervalSec) * minIntervalSec,
          js_ceil (js_div mx minIntervalSec) * minIntervalSec))"

text \<open>\<open>offsetWidth\<close> is \<^term>\<open>None\<close> before the container is mounted.\<close>

definition calcIntervalSec ::
    "jsnum option \<Rightarrow> jsnum \<Rightarrow> jsnum \<Rightarrow> TimeRangeValue \<Rightarrow> jsnum \<Rightarrow> jsnum" where
  "calcIntervalSec offsetWidth legendWidth minBinWidth tr minIntervalSec =
     (let maxDataPoints =
            js_div ((case offsetWidth of None \<Rightarrow> Fin 0 | Some w \<Rightarrow> w) - legendWidth) minBinWidth
      in if maxDataPoints \<le> Fin 0 then minIntervalSec
         else (let interval = js_div (snd tr - fst tr) maxDataPoints;
                   roundedInterval = js_floor (js_div interval minIntervalSec) * minIntervalSec
               in js_max minIntervalSec roundedInterval))"

subsection \<open>Series in ui-v2\<close>

definition DEF_SCRAPE_INTERVAL :: jsnum where
  "DEF_SCRAPE_INTERVAL = Fin 30"

definition transformStrVal :: "string \<Rightarrow> TransformNullValue option \<Rightarrow> jsnum option" where
  "transformStrVal value nullValue =
     (let v = parseSampleValue value
      in if v = NaN then (if nullValue = Some AS_ZERO then Some (Fin 0) else None) else Some v)"

datatype PromSample = ArrSample jsnum string | ObjSample jsnum string

fun sample_parts :: "PromSample \<Rightarrow> jsnum \<times> string" where
  "sample_parts (ArrSample ts v) = (ts, v)"
| "sample_parts (ObjSample timestamp value) = (timestamp, value)"

record PromResultItem =
  metric :: "(string \<times> string) list"
  samples :: "PromSample list"

record PromSeriesItem =
  series_name :: string
  series_data :: "DataPoint list"

text \<open>\<open>interpolate\<close> is the package string-template.\<close>

definition transformPromResultItem ::
    "(string \<Rightarrow> (string \<times> string) list \<Rightarrow> string) \<Rightarrow>
     PromResultItem \<Rightarrow> string \<Rightarrow> TransformNullValue option \<Rightarrow> PromSeriesItem" where
  "transformPromResultItem interpolate item nameTemplate nullValue =
     (let name = interpolate nameTemplate (metric item);
          name = (if name = []
                  then (let labels = join '','' (map (\<lambda>(k, v). k @ ''='' @ v)
                                       (filter (\<lambda>(k, v). v \<noteq> []) (metric item)))
                        in if labels \<noteq> [] then ''{'' @ labels @ ''}'' else labels)
                  else name);
          name = (if name = [] then ''value'' else name)
      in \<lparr>series_name = name,
          series_data = map (\<lambda>v. case sample_parts v of (ts, s) \<Rightarrow>
                               (ts * Fin 1000, transformStrVal s nullValue)) (samples item)\<rparr>)"

definition resolvePromQLTemplate :: "string \<Rightarrow> jsnum \<Rightarrow> jsnum \<Rightarrow> string" where
  "resolvePromQLTemplate promql stp scrapeInterval =
     replaceAll promql rate_interval
       (show_num (js_max (stp + scrapeInterval) (Fin 4 * scrapeInterval)) @ ''s'')"

definition calcPromQueryStep :: "TimeRangeValue \<Rightarrow> jsnum \<Rightarrow> jsnum \<Rightarrow> jsnum \<Rightarrow> jsnum" where
  "calcPromQueryStep tr width scrapeInterval minBinWidth =
     (if width \<le> Fin 0 then scrapeInterval
      else (let points = js_div width minBinWidth;
                stp = js_div (snd tr - fst tr) points
            in js_ceil (js_div stp scrapeInterval) * scrapeInterval))"

subsection \<open>The filling loop\<close>

text \<open>The loop emits exactly the points before the first one at which its condition fails.\<close>

definition steps_from :: "rat \<Rightarrow> rat \<Rightarrow> nat \<Rightarrow> DataPoint list" where
  "steps_from t s n = map (\<lambda>i. (Fin (t + of_nat i * s), None)) [0..<n]"

lemma steps_from_Suc: "steps_from t s (Suc n) = (Fin t, None) # steps_from (t + s) s n"
proof -
  have "map f [0..<Suc n] = f 0 # map (\<lambda>i. f (Suc i)) [0..<n]" for f :: "nat \<Rightarrow> DataPoint"
    by (simp add: upt_conv_Cons map_Suc_upt [symmetric] del: upt_Suc)
  from this [of "\<lambda>i. (Fin (t + of_nat i * s), None)"] show ?thesis
    by (simp add: steps_from_def algebra_simps del: upt_Suc)
qed

lemma fill_steps:
  assumes "\<forall>i < n. cond (Fin (t + of_nat i * s))" and "\<not> cond (Fin (t + of_nat n * s))"
  shows "fill cond (Fin t) (Fin s) = Some (steps_from t s n)"
  using assms
proof (induction n arbitrary: t)
  case 0
  then show ?case by (subst fill.simps) (simp add: steps_from_def)
next
  case (Suc n)
  have *: "t + s + of_nat i * s = t + of_nat (Suc i) * s" for i
    by (simp add: algebra_simps)
  have "fill cond (Fin (t + s)) (Fin s) = Some (steps_from (t + s) s n)"
    using Suc.prems by (intro Suc.IH) (auto simp: *)
  moreover have "cond (Fin t)" using Suc.prems(1) by force
  ultimately show ?case by (subst fill.simps) (simp add: steps_from_Suc)
qed

lemma steps_exceed:
  assumes "0 < (s :: rat)"
  obtains n where "b < t + of_nat n * s"
proof -
  obtain n where "(b - t) / s < of_nat n" using reals_Archimedean2 by blast
  with assms have "b < t + of_nat n * s" by (simp add: field_simps)
  then show ?thesis by (rule that)
qed

lemma fill_reaches:
  assumes "0 < s" and "\<And>x. b < x \<Longrightarrow> \<not> cond (Fin x)"
  obtains n where "fill cond (Fin t) (Fin s) = Some (steps_from t s n)"
    and "\<forall>i < n. cond (Fin (t + of_nat i * s))" and "\<not> cond (Fin (t + of_nat n * s))"
proof -
  obtain m where m: "b < t + of_nat m * s" using steps_exceed [OF assms(1)] by blast
  define n where "n = (LEAST n. \<not> cond (Fin (t + of_nat n * s)))"
  have n: "\<not> cond (Fin (t + of_nat n * s))"
    unfolding n_def by (rule LeastI [of _ m]) (simp add: assms(2) m)
  have before: "\<forall>i < n. cond (Fin (t + of_nat i * s))"
    unfolding n_def using not_less_Least by blast
  show ?thesis by (rule that [OF fill_steps [OF before n] before n])
qed

text \<open>With a negative step the loop below a bound never ends.\<close>

lemma fill_diverges:
  assumes "s < 0" and "t \<le> b"
  shows "fill (\<lambda>t. t \<le> Fin b) (Fin t) (Fin s) = None"
proof (rule ccontr)
  assume "fill (\<lambda>t. t \<le> Fin b) (Fin t) (Fin s) \<noteq> None"
  then obtain dps where "fill (\<lambda>t. t \<le> Fin b) (Fin t) (Fin s) = Some dps" by blast
  moreover have "\<not> (c = (\<lambda>t. t \<le> Fin b) \<and> st = Fin s \<and> (\<exists>u \<le> b. x = Fin u))"
    if "fill c x st = Some y" for c x st y
  proof (rule fill.raw_induct [OF _ that])
    fix f c x st y
    assume IH: "\<And>c x st y. f c x st = Some y \<Longrightarrow>
        \<not> (c = (\<lambda>t. t \<le> Fin b) \<and> st = Fin s \<and> (\<exists>u \<le> b. x = Fin u))"
      and run: "(if c x then do { dps \<leftarrow> f c (x + st) st; Some ((x, None) # dps) } else Some []) = Some y"
    show "\<not> (c = (\<lambda>t. t \<le> Fin b) \<and> st = Fin s \<and> (\<exists>u \<le> b. x = Fin u))"
    proof
      assume "c = (\<lambda>t. t \<le> Fin b) \<and> st = Fin s \<and> (\<exists>u \<le> b. x = Fin u)"
      then obtain u where u: "c = (\<lambda>t. t \<le> Fin b)" "st = Fin s" "u \<le> b" "x = Fin u" by blast
      with run obtain dps where "f c (Fin (u + s)) st = Some dps"
        by (auto simp: bind_eq_Some_conv)
      from IH [OF this] u assms(1) show False by auto
    qed
  qed
  ultimately show False using assms(2) by blast
qed

text \<open>With a \<open>NaN\<close> step the loop stops after one point.\<close>

lemma fill_NaN: "\<not> cond NaN \<Longrightarrow> fill cond t NaN = Some (if cond t then [(t, None)] else [])"
  by (subst fill.simps, subst fill.simps) simp

subsection \<open>Series without gaps\<close>

text \<open>
  \<open>gapless s\<close>: the timestamps increase, by at most \<open>s\<close> from one point to the next. \<open>samples_of\<close> are
  the points of the samples the server returned.
\<close>

definition near :: "rat \<Rightarrow> DataPoint \<Rightarrow> DataPoint \<Rightarrow> bool" where
  "near s p q \<longleftrightarrow> fst p < fst q \<and> fst q \<le> fst p + Fin s"

abbreviation gapless :: "rat \<Rightarrow> DataPoint list \<Rightarrow> bool" where
  "gapless s \<equiv> successively (near s)"

definition finite_values :: "(rat \<times> string) list \<Rightarrow> PromValue list" where
  "finite_values vs = map (\<lambda>(t, v). (Fin t, v)) vs"

definition samples_of :: "(rat \<times> string) list \<Rightarrow> DataPoint list" where
  "samples_of vs = map (\<lambda>(t, v). (Fin (t * 1000), dpValue v)) vs"

definition fills :: "(rat \<times> string) list \<Rightarrow> DataPoint list \<Rightarrow> bool" where
  "fills vs dps \<longleftrightarrow>
     subseq (samples_of vs) dps \<and> (\<forall>p \<in> set dps. p \<in> set (samples_of vs) \<or> snd p = None)"

lemma steps_from_nth [simp]: "i < n \<Longrightarrow> steps_from t s n ! i = (Fin (t + of_nat i * s), None)"
  by (simp add: steps_from_def)

lemma length_steps_from [simp]: "length (steps_from t s n) = n"
  by (simp add: steps_from_def)

lemma steps_from_0 [simp]: "steps_from t s 0 = []"
  by (simp add: steps_from_def)

lemma steps_from_null: "p \<in> set (steps_from t s n) \<Longrightarrow> snd p = None"
  by (auto simp: steps_from_def)

lemma steps_from_ends:
  "0 < n \<Longrightarrow> hd (steps_from t s n) = (Fin t, None)"
  "0 < n \<Longrightarrow> last (steps_from t s n) = (Fin (t + of_nat (n - 1) * s), None)"
  "steps_from t s n = [] \<longleftrightarrow> n = 0"
  by (simp_all add: steps_from_def hd_map last_map)

lemma gapless_steps: "0 < s \<Longrightarrow> gapless s (steps_from t s n)"
  by (auto simp: successively_conv_nth near_def algebra_simps)

lemma fill_before:
  assumes "0 < s"
  obtains n where "fill (\<lambda>t. t < Fin b) (Fin t) (Fin s) = Some (steps_from t s n)"
    and "0 < n \<Longrightarrow> t + of_nat (n - 1) * s < b \<and> b \<le> t + of_nat n * s"
    and "n = 0 \<longleftrightarrow> b \<le> t"
proof -
  obtain n where n: "fill (\<lambda>t. t < Fin b) (Fin t) (Fin s) = Some (steps_from t s n)"
      "\<forall>i < n. t + of_nat i * s < b" "b \<le> t + of_nat n * s"
    by (rule fill_reaches [of s b "\<lambda>t. t < Fin b" t]) (use assms in auto)
  show ?thesis
  proof (rule that [OF n(1)])
    assume "0 < n"
    with n(2) have "t + of_nat (n - 1) * s < b" by (metis diff_less zero_less_one)
    with n(3) show "t + of_nat (n - 1) * s < b \<and> b \<le> t + of_nat n * s" by simp
  next
    show "n = 0 \<longleftrightarrow> b \<le> t"
      using n(2) [rule_format, of 0] n(3) by force
  qed
qed

lemma fill_upto:
  assumes "0 < s"
  obtains n where "fill (\<lambda>t. t \<le> Fin b) (Fin t) (Fin s) = Some (steps_from t s n)"
    and "b < t + of_nat n * s"
  by (rule fill_reaches [of s b "\<lambda>t. t \<le> Fin b" t]) (use assms in auto)

lemma gapless_to_sample:
  assumes "0 < s" and "0 < n \<Longrightarrow> t + of_nat (n - 1) * s < b \<and> b \<le> t + of_nat n * s"
  shows "gapless s (steps_from t s n @ [(Fin b, v)])"
proof (cases "n = 0")
  case False
  then have "of_nat n * s = of_nat (n - 1) * s + s" by (simp add: of_nat_diff algebra_simps)
  with False assms show ?thesis
    using gapless_steps [OF assms(1), of t n]
    by (auto simp: successively_append_iff steps_from_ends near_def)
qed simp

lemma process_values_ok:
  assumes "0 < s" and "sorted_wrt (<) (map fst vs)"
  shows "\<exists>dps. process_values (Fin s) (Fin b) (finite_values vs) =
      Some (dps, Fin (if vs = [] then b else fst (last vs) * 1000 + s)) \<and>
    gapless s dps \<and> fills vs dps \<and> (dps = [] \<longleftrightarrow> vs = []) \<and>
    (vs \<noteq> [] \<longrightarrow> fst (hd dps) = Fin (min b (fst (hd vs) * 1000)) \<and>
       fst (last dps) = Fin (fst (last vs) * 1000))"
  using assms(2)
proof (induction vs arbitrary: b)
  case Nil
  then show ?case by (simp add: finite_values_def fills_def samples_of_def)
next
  case (Cons x vs)
  obtain t v where x: "x = (t, v)" by (cases x)
  obtain n where n: "fill (\<lambda>u. u < Fin (t * 1000)) (Fin b) (Fin s) = Some (steps_from b s n)"
      "0 < n \<Longrightarrow> b + of_nat (n - 1) * s < t * 1000 \<and> t * 1000 \<le> b + of_nat n * s"
      "n = 0 \<longleftrightarrow> t * 1000 \<le> b"
    using fill_before [OF assms(1)] by blast
  obtain dps where dps:
      "process_values (Fin s) (Fin (t * 1000 + s)) (finite_values vs) =
         Some (dps, Fin (if vs = [] then t * 1000 + s else fst (last vs) * 1000 + s))"
      "gapless s dps" "fills vs dps" "dps = [] \<longleftrightarrow> vs = []"
      "vs \<noteq> [] \<longrightarrow> fst (hd dps) = Fin (min (t * 1000 + s) (fst (hd vs) * 1000)) \<and>
         fst (last dps) = Fin (fst (last vs) * 1000)"
    using Cons.IH [of "t * 1000 + s"] Cons.prems by (force simp: x)
  let ?all = "steps_from b s n @ (Fin (t * 1000), dpValue v) # dps"
  have run: "process_values (Fin s) (Fin b) (finite_values (x # vs)) =
      Some (?all, Fin (fst (last (x # vs)) * 1000 + s))"
    using n(1) dps(1) by (simp add: x finite_values_def)
  have "near s (Fin (t * 1000), dpValue v) (hd dps)" if "vs \<noteq> []"
  proof -
    have "t < fst (hd vs)" using that Cons.prems by (cases vs) (auto simp: x)
    with that dps(5) assms(1) show ?thesis by (simp add: near_def min_def)
  qed
  then have "gapless s ?all"
    using gapless_to_sample [OF assms(1) n(2)] dps(2,4)
    by (auto simp: successively_append_iff successively_Cons)
  moreover have "fills (x # vs) ?all"
    using dps(3) by (auto simp: x fills_def samples_of_def intro: list_emb_append2 dest: steps_from_null)
  moreover have "fst (hd ?all) = Fin (min b (t * 1000))"
    using n(3) by (cases "n = 0") (auto simp: hd_append steps_from_ends min_def)
  ultimately show ?case
    using run dps(4,5) by (auto simp: x)
qed

lemma process_values_total:
  assumes "0 < s"
  shows "\<exists>dps c. process_values (Fin s) (Fin b) (finite_values vs) = Some (dps, Fin c)"
proof (induction vs arbitrary: b)
  case (Cons x vs)
  obtain n where "fill (\<lambda>u. u < Fin (fst x * 1000)) (Fin b) (Fin s) = Some (steps_from b s n)"
    using fill_before [OF assms] by blast
  moreover obtain dps c where
      "process_values (Fin s) (Fin (fst x * 1000 + s)) (finite_values vs) = Some (dps, Fin c)"
    using Cons by blast
  ultimately show ?case
    by (simp add: finite_values_def case_prod_unfold)
qed (simp add: finite_values_def)

lemma process_values_NaN:
  "\<exists>dps c. process_values NaN b vs = Some (dps, c)"
proof (induction vs arbitrary: b)
  case (Cons x vs)
  obtain dps c where "process_values NaN NaN vs = Some (dps, c)" using Cons by blast
  then show ?case by (simp add: fill_NaN Let_def)
qed simp

text \<open>The replacement text of the rate interval contains no \<open>$\<close>, so it leaves none behind.\<close>

lemma show_frac_digits: "0 \<le> f \<Longrightarrow> f < 1 \<Longrightarrow> c \<in> set (show_frac n f) \<Longrightarrow> is_digit c"
proof (induction n arbitrary: f)
  case (Suc n)
  have digit: "is_digit (digit_char (nat \<lfloor>10 * f\<rfloor>))"
  proof (rule is_digit_digit_char)
    have "\<lfloor>10 * f\<rfloor> < 10" using Suc.prems(2) by (simp add: floor_less_iff)
    then show "nat \<lfloor>10 * f\<rfloor> < 10" by linarith
  qed
  have "0 \<le> 10 * f - of_int \<lfloor>10 * f\<rfloor>" "10 * f - of_int \<lfloor>10 * f\<rfloor> < 1" by linarith+
  with Suc.IH [of "10 * f - of_int \<lfloor>10 * f\<rfloor>"] Suc.prems(3) digit show ?case
    by (auto simp del: is_digit_digit_char split: if_splits)
qed simp

lemma show_num_chars:
  "c \<in> set (show_num (Fin a)) \<Longrightarrow> is_digit c \<or> c = CHR ''-'' \<or> c = CHR ''.''"
proof -
  have "\<bar>a\<bar> - of_int \<lfloor>\<bar>a\<bar>\<rfloor> < 1" by linarith
  with show_frac_digits [of "\<bar>a\<bar> - of_int \<lfloor>\<bar>a\<bar>\<rfloor>" c 17]
  show "c \<in> set (show_num (Fin a)) \<Longrightarrow> is_digit c \<or> c = CHR ''-'' \<or> c = CHR ''.''"
    by (auto split: if_splits dest: show_int_chars show_nat_digits)
qed

lemma show_num_nonempty [simp]: "show_num x \<noteq> []"
  by (cases x) (auto simp: show_int_def)

lemma rate_interval_replaced:
  "indexOf (replaceAll s rate_interval (show_num (Fin a) @ ''s'')) rate_interval 0 = None"
proof (rule replaceAll_complete)
  have digits: "\<not> is_digit c" if "c \<in> set rate_interval" for c
    using that by (auto simp: rate_interval_def is_digit_def code_def)
  show "hd rate_interval \<notin> set (show_num (Fin a) @ ''s'')"
    using show_num_chars [of "CHR ''$''" a] digits [of "CHR ''$''"] by (auto simp: rate_interval_def)
  have "hd (show_num (Fin a) @ ''s'') \<in> set (show_num (Fin a))" by simp
  from show_num_chars [OF this] digits [of "hd (show_num (Fin a) @ ''s'')"]
  show "hd (show_num (Fin a) @ ''s'') \<notin> set rate_interval"
    by (auto simp: rate_interval_def)
qed (simp_all add: rate_interval_def)

subsection \<open>Properties\<close>

text \<open>
  C26: For a matrix result with a positive step and sample times in increasing order,
  \<open>processRawData\<close> returns a series in which the times increase by at most one step from point to
  point, the series starts no later than \<open>start\<close> and ends less than a step before \<open>end\<close>, every
  sample is kept in order with its parsed value, and every added point is null.
\<close>

theorem processRawData_gapless:
  assumes "0 < s" and "sorted_wrt (<) (map fst vs)"
  shows "\<exists>dps. processRawData (Matrix (finite_values vs)) \<lparr>q_step = Fin s, q_start = Fin a, q_end = Fin e\<rparr> =
      Some (Some dps) \<and>
    gapless (s * 1000) dps \<and> fills vs dps \<and>
    (vs \<noteq> [] \<or> a \<le> e \<longrightarrow>
       fst (hd dps) \<le> Fin (a * 1000) \<and> Fin (e * 1000) < fst (last dps) + Fin (s * 1000))"
proof -
  let ?s = "s * 1000"
  have s: "0 < ?s" using assms(1) by simp
  let ?c = "if vs = [] then a * 1000 else fst (last vs) * 1000 + ?s"
  obtain dps where dps:
      "process_values (Fin ?s) (Fin (a * 1000)) (finite_values vs) = Some (dps, Fin ?c)"
      "gapless ?s dps" "fills vs dps" "dps = [] \<longleftrightarrow> vs = []"
      "vs \<noteq> [] \<longrightarrow> fst (hd dps) = Fin (min (a * 1000) (fst (hd vs) * 1000)) \<and>
         fst (last dps) = Fin (fst (last vs) * 1000)"
    using process_values_ok [OF s assms(2)] by blast
  obtain n where n: "fill (\<lambda>t. t \<le> Fin (e * 1000)) (Fin ?c) (Fin ?s) = Some (steps_from ?c ?s n)"
      "e * 1000 < ?c + of_nat n * ?s"
    using fill_upto [OF s] by blast
  let ?all = "dps @ steps_from ?c ?s n"
  have run: "processRawData (Matrix (finite_values vs)) \<lparr>q_step = Fin s, q_start = Fin a, q_end = Fin e\<rparr> =
      Some (Some ?all)"
    using assms(1) dps(1) n(1) by (simp add: processRawData_def truthy_def)
  have "near ?s (last dps) (hd (steps_from ?c ?s n))" if "vs \<noteq> []" "0 < n"
    using that dps(5) s by (simp add: near_def steps_from_ends)
  then have "gapless ?s ?all"
    using dps(2,4) gapless_steps [OF s]
    by (auto simp: successively_append_iff steps_from_ends(1,3)) (metis gr0I steps_from_ends(1))
  moreover have "fills vs ?all"
    using dps(3) by (auto simp: fills_def intro: subseq_order.order_trans dest: steps_from_null)
  moreover have "fst (hd ?all) \<le> Fin (a * 1000) \<and> Fin (e * 1000) < fst (last ?all) + Fin ?s"
    if "vs \<noteq> [] \<or> a \<le> e"
  proof (cases "n = 0")
    case True
    with that n(2) dps(4,5) show ?thesis by auto
  next
    case False
    then have "of_nat n * ?s = of_nat (n - 1) * ?s + ?s" by (simp add: of_nat_diff algebra_simps)
    with False n(2) dps(4,5) show ?thesis
      by (auto simp: hd_append last_append steps_from_ends)
  qed
  ultimately show ?thesis using run by blast
qed

theorem processRawData_gapless_witness:
  "\<exists>dps. processRawData (Matrix (finite_values [(30, ''1.5''), (120, ''+Inf'')]))
      \<lparr>q_step = Fin 30, q_start = Fin 0, q_end = Fin 180\<rparr> = Some (Some dps) \<and>
    gapless (30 * 1000) dps \<and> fills [(30, ''1.5''), (120, ''+Inf'')] dps"
proof -
  have "0 < (30 :: rat)" "sorted_wrt (<) (map fst [(30 :: rat, ''1.5''), (120, ''+Inf'')])"
    by simp_all
  from processRawData_gapless [OF this, of 0 180] show ?thesis by blast
qed

text \<open>
  \<open>processRawData\<close> ends for every finite query with a step that is not negative, whatever the
  order of the samples; a zero step leaves \<open>NaN\<close> as the increment, which stops each loop after one
  point. With a negative step and a start before the end it never returns.
\<close>

theorem processRawData_terminates:
  "(0 \<le> s \<longrightarrow> (\<exists>dps. processRawData (Matrix (finite_values vs))
       \<lparr>q_step = Fin s, q_start = Fin a, q_end = Fin e\<rparr> = Some (Some dps))) \<and>
   (s < 0 \<and> a \<le> e \<longrightarrow> processRawData (Matrix [])
       \<lparr>q_step = Fin s, q_start = Fin a, q_end = Fin e\<rparr> = None)"
proof (intro conjI impI)
  assume "0 \<le> s"
  then consider "s = 0" | "0 < s" by linarith
  then show "\<exists>dps. processRawData (Matrix (finite_values vs))
      \<lparr>q_step = Fin s, q_start = Fin a, q_end = Fin e\<rparr> = Some (Some dps)"
  proof cases
    case 1
    obtain dps c where "process_values NaN (Fin (a * 1000)) (finite_values vs) = Some (dps, c)"
      using process_values_NaN by blast
    with 1 show ?thesis by (simp add: processRawData_def truthy_def fill_NaN)
  next
    case 2
    then have s: "0 < s * 1000" by simp
    obtain dps c where
        "process_values (Fin (s * 1000)) (Fin (a * 1000)) (finite_values vs) = Some (dps, Fin c)"
      using process_values_total [OF s] by blast
    moreover obtain n where "fill (\<lambda>t. t \<le> Fin (e * 1000)) (Fin c) (Fin (s * 1000)) =
        Some (steps_from c (s * 1000) n)"
      using fill_upto [OF s] by blast
    ultimately show ?thesis using 2 by (simp add: processRawData_def truthy_def)
  qed
next
  assume "s < 0 \<and> a \<le> e"
  then show "processRawData (Matrix []) \<lparr>q_step = Fin s, q_start = Fin a, q_end = Fin e\<rparr> = None"
    using fill_diverges [of "s * 1000" "a * 1000" "e * 1000"]
    by (simp add: processRawData_def truthy_def)
qed

theorem processRawData_terminates_witness:
  "(\<exists>dps. processRawData (Matrix (finite_values [(7, ''2''), (3, ''x'')]))
      \<lparr>q_step = Fin 0, q_start = Fin 1, q_end = Fin 9\<rparr> = Some (Some dps)) \<and>
   processRawData (Matrix []) \<lparr>q_step = Fin (- 1), q_start = Fin 1, q_end = Fin 9\<rparr> = None"
  using processRawData_terminates [of 0 "[(7, ''2''), (3, ''x'')]" 1 9]
    processRawData_terminates [of "- 1" "[]" 1 9] by simp

text \<open>
  With a positive interval, \<open>alignRange\<close> returns a range whose ends are multiples of the
  interval, that contains the given range, is at least \<open>minRangeSec\<close> long, and exceeds the given
  range by less than an interval at the upper end, and at the lower end when that range is long
  enough; aligning an aligned range changes nothing.
\<close>

theorem alignRange_ok:
  assumes "0 < i"
  shows "\<exists>k l :: int. alignRange (Fin a, Fin b) (Fin i) (Fin m) = (Fin (of_int k * i), Fin (of_int l * i)) \<and>
    of_int k * i \<le> a \<and> (m \<le> b - a \<longrightarrow> a < of_int k * i + i) \<and> b \<le> of_int l * i \<and> of_int l * i < b + i \<and>
    m \<le> of_int l * i - of_int k * i \<and>
    alignRange (Fin (of_int k * i), Fin (of_int l * i)) (Fin i) (Fin m) =
      (Fin (of_int k * i), Fin (of_int l * i))"
proof -
  define a' where "a' = (if b - a < m then b - m else a)"
  define k where "k = \<lfloor>a' / i\<rfloor>"
  define l where "l = \<lceil>b / i\<rceil>"
  have "alignRange (Fin a, Fin b) (Fin i) (Fin m) = (Fin (of_int k * i), Fin (of_int l * i))"
    using assms by (auto simp: alignRange_def k_def l_def a'_def)
  moreover have k: "of_int k * i \<le> a'"
    unfolding k_def by (rule floor_divide_lower [OF assms])
  moreover have "a' < of_int k * i + i"
    using floor_divide_upper [OF assms, of a'] by (simp add: k_def algebra_simps)
  moreover have l: "b \<le> of_int l * i"
    unfolding l_def by (rule ceiling_divide_upper [OF assms])
  moreover have "of_int l * i < b + i"
    using ceiling_divide_lower [OF assms, of b] by (simp add: l_def algebra_simps)
  moreover have "a' \<le> a" "b - a' \<ge> m" by (auto simp: a'_def)
  moreover from this k l have m: "m \<le> of_int l * i - of_int k * i" by linarith
  moreover have "alignRange (Fin (of_int k * i), Fin (of_int l * i)) (Fin i) (Fin m) =
      (Fin (of_int k * i), Fin (of_int l * i))"
    using assms m by (simp add: alignRange_def)
  ultimately show ?thesis by (intro exI [of _ k] exI [of _ l]) (auto simp: a'_def)
qed

theorem alignRange_ok_witness:
  "\<exists>k l :: int. alignRange (Fin 100, Fin 130) (Fin 30) (Fin 60) =
     (Fin (of_int k * 30), Fin (of_int l * 30)) \<and> of_int k * 30 \<le> (100 :: rat) \<and>
     130 \<le> (of_int l * 30 :: rat)"
  using alignRange_ok [of 30 100 130 60] by auto

text \<open>
  The step of a chart's query is a positive multiple of the minimal interval, at least the
  minimal interval, and the query returns fewer than twice as many points as fit into the chart
  whenever the step is larger than the minimal one. A chart that is not laid out yet, or is narrower
  than its legend, uses the minimal interval.
\<close>

theorem calcIntervalSec_bounds:
  fixes w :: "rat option"
  defines "points \<equiv> \<lambda>legend binw. ((case w of None \<Rightarrow> 0 | Some v \<Rightarrow> v) - legend) / binw"
  assumes "0 < i" and "0 < binw" and "a \<le> b"
  shows "\<exists>k :: int. 0 < k \<and>
    calcIntervalSec (map_option Fin w) (Fin legend) (Fin binw) (Fin a, Fin b) (Fin i) =
      Fin (of_int k * i) \<and>
    (points legend binw \<le> 0 \<longrightarrow> k = 1) \<and>
    (1 < k \<longrightarrow> (b - a) / (of_int k * i) < 2 * points legend binw)"
proof (cases "points legend binw \<le> 0")
  case True
  then have "calcIntervalSec (map_option Fin w) (Fin legend) (Fin binw) (Fin a, Fin b) (Fin i) = Fin i"
    using assms(3) by (auto simp: calcIntervalSec_def points_def split: option.splits)
  then show ?thesis using True by (intro exI [of _ 1]) simp
next
  case False
  define p where "p = points legend binw"
  define q where "q = (b - a) / p / i"
  have p: "0 < p" using False by (simp add: p_def)
  have calc: "calcIntervalSec (map_option Fin w) (Fin legend) (Fin binw) (Fin a, Fin b) (Fin i) =
      Fin (of_int (max 1 \<lfloor>q\<rfloor>) * i)"
  proof -
    have "calcIntervalSec (map_option Fin w) (Fin legend) (Fin binw) (Fin a, Fin b) (Fin i) =
        Fin (max i (of_int \<lfloor>q\<rfloor> * i))"
      using p assms(2,3) unfolding p_def points_def q_def
      by (cases w) (auto simp: calcIntervalSec_def)
    moreover have "max i (of_int \<lfloor>q\<rfloor> * i) = of_int (max 1 \<lfloor>q\<rfloor>) * i"
      using assms(2) by (simp add: max_def)
    ultimately show ?thesis by simp
  qed
  have "(b - a) / (of_int (max 1 \<lfloor>q\<rfloor>) * i) < 2 * p" if "1 < max 1 \<lfloor>q\<rfloor>"
  proof -
    have "q < 2 * of_int \<lfloor>q\<rfloor>" using that by linarith
    then have "b - a < 2 * of_int \<lfloor>q\<rfloor> * p * i"
      using p assms(2) by (simp add: q_def field_simps)
    with that assms(2) show ?thesis by (simp add: field_simps)
  qed
  with calc False show ?thesis
    by (intro exI [of _ "max 1 \<lfloor>q\<rfloor>"]) (simp add: p_def)
qed

theorem calcIntervalSec_bounds_witness:
  "\<exists>k :: int. 0 < k \<and> calcIntervalSec (Some (Fin 500)) (Fin 100) (Fin 5) (Fin 0, Fin 7200) (Fin 30) =
     Fin (of_int k * 30)"
  using calcIntervalSec_bounds [of 30 5 0 7200 "Some 500" 100] by auto

text \<open>
  In ui-v2 the query step for a non-empty range is a positive multiple of the scrape interval,
  the smallest one with which the query returns no more points than fit into the chart.
\<close>

theorem calcPromQueryStep_smallest:
  assumes "0 < scrape" and "0 < binw" and "0 < w" and "a < b"
  shows "\<exists>k :: int. 0 < k \<and>
    calcPromQueryStep (Fin a, Fin b) (Fin w) (Fin scrape) (Fin binw) = Fin (of_int k * scrape) \<and>
    (\<forall>j :: int. 0 < j \<longrightarrow> ((b - a) / (of_int j * scrape) \<le> w / binw \<longleftrightarrow> k \<le> j))"
proof -
  define q where "q = (b - a) / (w / binw) / scrape"
  have q: "0 < q" using assms by (simp add: q_def)
  have "(b - a) / (of_int j * scrape) \<le> w / binw \<longleftrightarrow> \<lceil>q\<rceil> \<le> j" if "0 < j" for j
  proof -
    have "(b - a) / (of_int j * scrape) \<le> w / binw \<longleftrightarrow> q \<le> of_int j"
      using that assms by (simp add: q_def field_simps)
    then show ?thesis by (simp add: ceiling_le_iff)
  qed
  moreover have "calcPromQueryStep (Fin a, Fin b) (Fin w) (Fin scrape) (Fin binw) =
      Fin (of_int \<lceil>q\<rceil> * scrape)"
    using assms by (simp add: calcPromQueryStep_def q_def)
  ultimately show ?thesis
    using q by (intro exI [of _ "\<lceil>q\<rceil>"]) auto
qed

theorem calcPromQueryStep_smallest_witness:
  "\<exists>k :: int. 0 < k \<and>
     calcPromQueryStep (Fin 0, Fin 3600) (Fin 400) (Fin 30) (Fin 4) = Fin (of_int k * 30)"
  using calcPromQueryStep_smallest [of 30 4 400 0 3600] by auto

text \<open>
  Resolving a query template for a finite step leaves no rate interval variable in the query,
  and a template without the variable is left as it is; in both versions of the console.
\<close>

theorem query_template_resolved:
  assumes "q_step options = Fin s"
  shows "indexOf (resolveQueryTemplate template options) rate_interval 0 = None \<and>
    indexOf (resolvePromQLTemplate template (Fin s) (Fin scrape)) rate_interval 0 = None \<and>
    (indexOf template rate_interval 0 = None \<longrightarrow>
       resolveQueryTemplate template options = template \<and>
       resolvePromQLTemplate template (Fin s) (Fin scrape) = template)"
  using assms
  by (simp add: resolveQueryTemplate_def resolvePromQLTemplate_def DEFAULT_MIN_INTERVAL_SEC_def
      rate_interval_replaced replaceAll_unchanged del: show_num.simps)

theorem query_template_resolved_witness:
  "indexOf (resolveQueryTemplate ''rate(m[$__rate_interval])''
     \<lparr>q_step = Fin 60, q_start = Fin 0, q_end = Fin 1\<rparr>) rate_interval 0 = None"
  using query_template_resolved [of "\<lparr>q_step = Fin 60, q_start = Fin 0, q_end = Fin 1\<rparr>" 60] by simp

text \<open>
  A series always gets a name that is not empty, and keeps one point per sample, at the sample's
  time in milliseconds; with \<open>as_zero\<close> no point is null.
\<close>

theorem transformPromResultItem_ok:
  "series_name (transformPromResultItem interpolate item t nv) \<noteq> [] \<and>
   map fst (series_data (transformPromResultItem interpolate item t nv)) =
     map (\<lambda>v. fst (sample_parts v) * Fin 1000) (samples item) \<and>
   (nv = Some AS_ZERO \<longrightarrow>
      list_all (\<lambda>p. snd p \<noteq> None) (series_data (transformPromResultItem interpolate item t nv)))"
  by (auto simp: transformPromResultItem_def transformStrVal_def Let_def list_all_iff split: prod.splits)

theorem transformPromResultItem_ok_witness:
  "list_all (\<lambda>p. snd p \<noteq> None) (series_data (transformPromResultItem (\<lambda>t m. t)
     \<lparr>metric = [(''a'', ''b'')], samples = [ArrSample (Fin 1) ''x'', ObjSample (Fin 2) ''3'']\<rparr>
     '''' (Some AS_ZERO)))"
  using transformPromResultItem_ok by blast

end
