(* ===== verification/PlanParser.thy ===== *)
theory PlanParser
  imports JsString "HOL-Library.Monad_Syntax"
begin

text \<open>
  The parsers of execution plans, \<open>3-biz-ui/src/plan-table/parser.ts\<close>. The first plan format
  separates its columns by tabs; the second is a table of fixed-width columns.
\<close>

abbreviation TAB :: char where "TAB \<equiv> CHR 0x09"
abbreviation NL :: char where "NL \<equiv> CHR 0x0A"
abbreviation BAR :: char where "BAR \<equiv> CHR ''|''"

record PlanItem =
  plan_id :: string
  estRows :: string
  estCost :: string
  actRows :: string
  task :: string
  accessObject :: string
  executionInfo :: string
  operatorInfo :: string
  memory :: string
  disk :: string

subsection \<open>Tab-separated plans\<close>

text \<open>
  One step of the scan: the text from \<open>curPos\<close> up to the next tab, and the tab's position.
  \<^term>\<open>None\<close> stands for the \<open>break\<close> that ends the loop.
\<close>

definition read_field :: "string \<Rightarrow> nat \<Rightarrow> (string \<times> nat) option" where
  "read_field text curPos =
     (case indexOf text [TAB] curPos of
        None \<Rightarrow> None
      | Some nextTabPos \<Rightarrow> Some (slice text (int curPos) (int nextTabPos), nextTabPos))"

text \<open>The last column of a row runs to the next tab or to the end of the text.\<close>

definition tab_or_end :: "string \<Rightarrow> nat \<Rightarrow> nat" where
  "tab_or_end text curPos = (case indexOf text [TAB] curPos of None \<Rightarrow> length text | Some q \<Rightarrow> q)"

definition v1_row :: "string \<Rightarrow> nat \<Rightarrow> (PlanItem \<times> nat) option" where
  "v1_row text curPos = do {
     (f, p) \<leftarrow> read_field text curPos; let i = trimEnd f;
     (f, p) \<leftarrow> read_field text (p + 1); let tsk = trim f;
     (f, p) \<leftarrow> read_field text (p + 1); let rows = trim f;
     (f, p) \<leftarrow> read_field text (p + 1); let opInfo = trim f;
     (f, p) \<leftarrow> read_field text (p + 1); let act = trim f;
     (f, p) \<leftarrow> read_field text (p + 1); let exec = trim f;
     (f, p) \<leftarrow> read_field text (p + 1); let mem = trim f;
     let curPos = p + 1;
     let nextTabPos = tab_or_end text curPos;
     let dsk = trim (slice text (int curPos) (int nextTabPos));
     Some (\<lparr>plan_id = i, estRows = rows, estCost = [], actRows = act, task = tsk,
            accessObject = [], executionInfo = exec, operatorInfo = opInfo, memory = mem,
            disk = dsk\<rparr>, nextTabPos) }"

lemma read_field_pos: "read_field text curPos = Some (f, p) \<Longrightarrow> curPos \<le> p \<and> p < length text"
  by (auto simp: read_field_def split: option.splits dest: indexOf_char_Some)

lemma tab_or_end_pos: "curPos \<le> length text \<Longrightarrow> curPos \<le> tab_or_end text curPos"
  by (auto simp: tab_or_end_def split: option.splits dest: indexOf_char_Some)

lemma v1_row_pos: "v1_row text curPos = Some (item, p) \<Longrightarrow> curPos < p \<and> curPos < length text"
  by (auto simp: v1_row_def Let_def bind_eq_Some_conv dest!: read_field_pos
      intro!: order.strict_trans2 [OF _ tab_or_end_pos])

function v1_loop :: "string \<Rightarrow> nat \<Rightarrow> PlanItem list" where
  "v1_loop text curPos =
     (case v1_row text curPos of
        None \<Rightarrow> []
      | Some (item, nextTabPos) \<Rightarrow>
          item # (if length text \<le> nextTabPos then [] else v1_loop text (nextTabPos + 1)))"
  by pat_completeness auto

termination
  by (relation "measure (\<lambda>(text, curPos). length text - curPos)") (auto dest!: v1_row_pos)

declare v1_loop.simps [simp del]

definition parsePlanV1TextToArray :: "string \<Rightarrow> PlanItem list" where
  "parsePlanV1TextToArray planV1Text =
     (if \<not> prefix (TAB # ''id'') planV1Text then []
      else (let headerEndPos = (case indexOf planV1Text [NL] 0 of None \<Rightarrow> -1 | Some p \<Rightarrow> int p);
                headers = split_on TAB (slice planV1Text 0 headerEndPos)
            in if length headers \<noteq> 9 then []
               else v1_loop planV1Text (nat (headerEndPos + 2))))"

subsection \<open>Fixed-width plans\<close>

type_synonym column = "nat \<times> nat"

text \<open>The columns, in the order of the table: the start of each and its width.\<close>

fun columns_from :: "nat \<Rightarrow> nat list \<Rightarrow> column list" where
  "columns_from st [] = []"
| "columns_from st (len # lens) = (st, len) # columns_from (st + len + 1) lens"

definition cell :: "string \<Rightarrow> column \<Rightarrow> string" where
  "cell line c = slice line (int (fst c)) (int (fst c + snd c))"

text \<open>\<open>start + 1\<close> drops the leading blank of the id, whose further indentation is kept.\<close>

definition v2_item :: "column list \<Rightarrow> string \<Rightarrow> PlanItem" where
  "v2_item cs line =
     \<lparr>plan_id = trimEnd (slice line (int (fst (cs ! 0) + 1)) (int (fst (cs ! 0) + snd (cs ! 0)))),
      estRows = trim (cell line (cs ! 1)),
      estCost = trim (cell line (cs ! 2)),
      actRows = trim (cell line (cs ! 3)),
      task = trim (cell line (cs ! 4)),
      accessObject = trim (cell line (cs ! 5)),
      executionInfo = trim (cell line (cs ! 6)),
      operatorInfo = trim (cell line (cs ! 7)),
      memory = trim (cell line (cs ! 8)),
      disk = trim (cell line (cs ! 9))\<rparr>"

function v2_loop :: "string \<Rightarrow> nat \<Rightarrow> column list \<Rightarrow> nat \<Rightarrow> PlanItem list" where
  "v2_loop text headerLineLen cs lineIdx =
     (let lineStart = 1 + (headerLineLen + 1) * lineIdx;
          lineEnd = 1 + (headerLineLen + 1) * (lineIdx + 1)
      in if length text < lineEnd then []
         else v2_item cs (slice text (int lineStart) (int lineEnd)) #
              v2_loop text headerLineLen cs (lineIdx + 1))"
  by pat_completeness auto

termination
  by (relation "measure (\<lambda>(text, _, _, lineIdx). length text - lineIdx)") auto

declare v2_loop.simps [simp del]

definition parsePlanV2TextToArray :: "string \<Rightarrow> PlanItem list" where
  "parsePlanV2TextToArray planV2Text =
     (let headerEndPos = (case indexOf planV2Text [NL] 1 of None \<Rightarrow> -1 | Some p \<Rightarrow> int p);
          headerLine = slice planV2Text 1 headerEndPos
      in if \<not> prefix ''| id'' headerLine then []
         else (let headers = split_on BAR headerLine
               in if length headers \<noteq> 12 then []
                  else v2_loop planV2Text (length headerLine)
                         (columns_from 1 (map (\<lambda>i. length (headers ! i)) [1..<11])) 1))"

subsection \<open>Both formats\<close>

datatype PlanType = V1 | V2 | Unknown

definition getPlanTextType :: "string \<Rightarrow> PlanType" where
  "getPlanTextType plan =
     (if prefix (TAB # ''id'') plan then V1
      else if prefix (NL # ''| id'') plan then V2
      else Unknown)"

definition parsePlanTextToArray :: "string \<Rightarrow> PlanItem list" where
  "parsePlanTextToArray plan =
     (case getPlanTextType plan of
        V1 \<Rightarrow> parsePlanV1TextToArray plan
      | V2 \<Rightarrow> parsePlanV2TextToArray plan
      | Unknown \<Rightarrow> [])"

subsection \<open>Scanning fields\<close>

lemma slice_drop: "slice s (int a) (int b) = take (min b (length s) - a) (drop a s)"
  by (cases "a \<le> length s") (auto simp: slice_def slice_pos_def)

lemma index_aux_char:
  "index_aux [c] s i = (if c \<in> set s then Some (i + length (takeWhile (\<lambda>x. x \<noteq> c) s)) else None)"
  by (induction s arbitrary: i) auto

lemma indexOf_char:
  "pos \<le> length s \<Longrightarrow> indexOf s [c] pos =
     (if c \<in> set (drop pos s) then Some (pos + length (takeWhile (\<lambda>x. x \<noteq> c) (drop pos s))) else None)"
  by (simp add: indexOf_def index_aux_char)

lemma takeWhile_until: "c \<notin> set f \<Longrightarrow> takeWhile (\<lambda>x. x \<noteq> c) (f @ c # r) = f"
  by (subst takeWhile_append2) auto

lemma read_field_at:
  assumes "drop cur text = f @ TAB # r" and "TAB \<notin> set f"
  shows "read_field text cur = Some (f, cur + length f)" and "drop (cur + length f + 1) text = r"
proof -
  have len: "length text = cur + length f + 1 + length r"
  proof -
    have "cur \<le> length text" using assms(1) by (cases "cur \<le> length text") auto
    with arg_cong [OF assms(1), of length] show ?thesis by simp
  qed
  have "drop (cur + length f + 1) text = drop (length f + 1) (drop cur text)"
    by (simp add: add.commute add.left_commute)
  with assms(1) show "drop (cur + length f + 1) text = r" by simp
  have "slice text (int cur) (int (cur + length f)) = f"
    unfolding slice_drop using assms(1) len by simp
  with assms len show "read_field text cur = Some (f, cur + length f)"
    by (simp add: read_field_def indexOf_char takeWhile_until)
qed

lemma tab_or_end_at:
  assumes "drop cur text = d @ r" and "cur \<le> length text" and "TAB \<notin> set d"
    and "r = [] \<or> hd r = TAB"
  shows "tab_or_end text cur = cur + length d" and "slice text (int cur) (int (cur + length d)) = d"
    and "drop (cur + length d) text = r"
proof -
  have len: "length text = cur + length d + length r"
    using arg_cong [OF assms(1), of length] assms(2) by simp
  show "tab_or_end text cur = cur + length d"
  proof (cases r)
    case Nil
    with assms len show ?thesis by (simp add: tab_or_end_def indexOf_char)
  next
    case (Cons c r')
    with assms show ?thesis by (simp add: tab_or_end_def indexOf_char takeWhile_until)
  qed
  show "slice text (int cur) (int (cur + length d)) = d"
    unfolding slice_drop using assms(1) len by simp
  have "drop (cur + length d) text = drop (length d) (drop cur text)"
    by (simp add: add.commute)
  with assms(1) show "drop (cur + length d) text = r" by simp
qed

text \<open>How the first format prints a plan, and the item the parser makes of a printed row.\<close>

definition v1_fields :: "PlanItem \<Rightarrow> string list" where
  "v1_fields i = [plan_id i, task i, estRows i, operatorInfo i, actRows i, executionInfo i, memory i]"

definition print_v1_row :: "PlanItem \<Rightarrow> string" where
  "print_v1_row i = NL # TAB # concat (map (\<lambda>f. f @ [TAB]) (v1_fields i)) @ disk i"

definition print_v1 :: "string \<Rightarrow> PlanItem list \<Rightarrow> string" where
  "print_v1 header items = header @ concat (map print_v1_row items)"

definition v1_trimmed :: "PlanItem \<Rightarrow> PlanItem" where
  "v1_trimmed i =
     \<lparr>plan_id = trimEnd (plan_id i), estRows = trim (estRows i), estCost = [],
      actRows = trim (actRows i), task = trim (task i), accessObject = [],
      executionInfo = trim (executionInfo i), operatorInfo = trim (operatorInfo i),
      memory = trim (memory i), disk = trim (disk i)\<rparr>"

definition v1_printable :: "PlanItem \<Rightarrow> bool" where
  "v1_printable i \<longleftrightarrow> (\<forall>f \<in> set (disk i # v1_fields i). TAB \<notin> set f)"

lemma v1_row_at:
  assumes at: "drop cur text = concat (map (\<lambda>f. f @ [TAB]) (v1_fields i)) @ d @ r"
    and ok: "v1_printable i" and d: "TAB \<notin> set d" and r: "r = [] \<or> hd r = TAB"
  shows "\<exists>p. v1_row text cur = Some (v1_trimmed (i\<lparr>disk := d\<rparr>), p) \<and> p \<le> length text \<and> drop p text = r"
proof -
  note no_tab = ok [unfolded v1_printable_def v1_fields_def, simplified]
  from at have 1: "drop cur text = plan_id i @ TAB # task i @ TAB # estRows i @ TAB #
      operatorInfo i @ TAB # actRows i @ TAB # executionInfo i @ TAB # memory i @ TAB # d @ r"
    by (simp add: v1_fields_def)
  note s1 = read_field_at [OF 1] note s2 = read_field_at [OF s1(2)]
  note s3 = read_field_at [OF s2(2)] note s4 = read_field_at [OF s3(2)]
  note s5 = read_field_at [OF s4(2)] note s6 = read_field_at [OF s5(2)]
  note s7 = read_field_at [OF s6(2)]
  let ?p = "cur + length (plan_id i) + 1 + length (task i) + 1 + length (estRows i) + 1 +
      length (operatorInfo i) + 1 + length (actRows i) + 1 + length (executionInfo i) + 1 +
      length (memory i) + 1"
  have last: "drop ?p text = d @ r" using s7(2) no_tab by blast
  have le: "?p \<le> length text" using read_field_pos [OF s7(1)] no_tab by simp
  note e = tab_or_end_at [OF last le d r]
  have "v1_row text cur = Some (v1_trimmed (i\<lparr>disk := d\<rparr>), ?p + length d)"
    using s1(1) s2(1) s3(1) s4(1) s5(1) s6(1) s7(1) no_tab e(1,2)
    by (simp add: v1_row_def v1_trimmed_def)
  moreover have "?p + length d \<le> length text"
    using arg_cong [OF last, of length] le by simp
  ultimately show ?thesis using e(3) by blast
qed

lemma trim_newline [simp]: "trim (s @ [NL]) = trim s"
proof -
  have "trimEnd (s @ [NL]) = trimEnd s" for s
    by (simp add: trimEnd_def is_space_def code_def)
  moreover have "trimStart (s @ [NL]) = trimStart s @ [NL] \<or>
      trimStart s = [] \<and> trimStart (s @ [NL]) = []"
    by (induction s) (auto simp: trimStart_def is_space_def code_def)
  ultimately show ?thesis unfolding trim_def by metis
qed

lemma v1_loop_printed:
  assumes "drop cur text = drop 2 (print_v1_row i) @ concat (map print_v1_row items)"
    and "\<forall>j \<in> set (i # items). v1_printable j"
  shows "v1_loop text cur = map v1_trimmed (i # items)"
  using assms
proof (induction items arbitrary: i cur)
  case Nil
  from Nil.prems obtain p where "v1_row text cur = Some (v1_trimmed (i\<lparr>disk := disk i\<rparr>), p)"
      "p \<le> length text" "drop p text = []"
    using v1_row_at [of cur "text" i "disk i" "[]"] by (auto simp: print_v1_row_def v1_printable_def)
  then show ?case by (simp add: v1_loop.simps)
next
  case (Cons j items)
  let ?r = "TAB # drop 2 (print_v1_row j) @ concat (map print_v1_row items)"
  from Cons.prems obtain p where p: "v1_row text cur = Some (v1_trimmed (i\<lparr>disk := disk i @ [NL]\<rparr>), p)"
      "p \<le> length text" "drop p text = ?r"
    using v1_row_at [of cur "text" i "disk i @ [NL]" ?r]
    by (auto simp: print_v1_row_def [of i] print_v1_row_def [of j] v1_printable_def)
  have "drop (p + 1) text = drop 1 (drop p text)" by simp
  with p(3) have "drop (p + 1) text = drop 2 (print_v1_row j) @ concat (map print_v1_row items)"
    by simp
  with Cons have "v1_loop text (p + 1) = map v1_trimmed (j # items)" by simp
  moreover have "\<not> length text \<le> p" using p(3) by (metis drop_all list.distinct(1))
  moreover have "v1_trimmed (i\<lparr>disk := disk i @ [NL]\<rparr>) = v1_trimmed i"
    by (simp add: v1_trimmed_def)
  ultimately show ?case using p(1) by (simp add: v1_loop.simps [of _ cur])
qed

subsection \<open>Cutting fixed-width lines\<close>

definition v2_line :: "string list \<Rightarrow> string" where
  "v2_line cells = BAR # concat (map (\<lambda>c. c @ [BAR]) cells)"

definition print_v2 :: "string list \<Rightarrow> string list list \<Rightarrow> string" where
  "print_v2 headers rows = NL # concat (map (\<lambda>r. v2_line r @ [NL]) (headers # rows))"

definition v2_trimmed :: "string list \<Rightarrow> PlanItem" where
  "v2_trimmed c =
     \<lparr>plan_id = trimEnd (drop 1 (c ! 0)), estRows = trim (c ! 1), estCost = trim (c ! 2),
      actRows = trim (c ! 3), task = trim (c ! 4), accessObject = trim (c ! 5),
      executionInfo = trim (c ! 6), operatorInfo = trim (c ! 7), memory = trim (c ! 8),
      disk = trim (c ! 9)\<rparr>"

lemma cell_at:
  "k < length cs \<Longrightarrow>
   cell (pre @ concat (map (\<lambda>c. c @ [BAR]) cs) @ post)
     (columns_from (length pre) (map length cs) ! k) = cs ! k"
proof (induction cs arbitrary: pre k)
  case (Cons c cs)
  show ?case
  proof (cases k)
    case 0
    then show ?thesis unfolding cell_def by (simp only: nth_Cons_0 columns_from.simps list.map
        fst_conv snd_conv slice_drop) simp
  next
    case (Suc j)
    with Cons.IH [of j "pre @ c @ [BAR]"] Cons.prems show ?thesis by simp
  qed
qed simp

lemma columns_from_hd: "columns_from st (l # ls) ! 0 = (st, l)"
  by simp

lemma v2_item_line:
  assumes "length cs = 10"
  shows "v2_item (columns_from 1 (map length cs)) (v2_line cs @ post) = v2_trimmed cs"
proof -
  have cells: "cell (v2_line cs @ post) (columns_from 1 (map length cs) ! k) = cs ! k" if "k < 10" for k
    using cell_at [of k cs "[BAR]" post] that assms by (simp add: v2_line_def)
  obtain c cs' where c: "cs = c # cs'" using assms by (cases cs) auto
  then have col0: "columns_from 1 (map length cs) ! 0 = (1, length (cs ! 0))" by simp
  have "slice (v2_line cs @ post) (int (1 + 1)) (int (1 + length (cs ! 0))) = drop 1 (cs ! 0)"
    unfolding slice_drop by (cases c) (simp_all add: c v2_line_def)
  then show ?thesis
    unfolding v2_item_def v2_trimmed_def col0 by (simp add: cells [unfolded One_nat_def])
qed

lemma drop_blocks:
  "\<forall>b \<in> set bs. length b = L \<Longrightarrow> drop (L * i) (concat bs) = concat (drop i bs)"
proof (induction bs arbitrary: i)
  case (Cons b bs)
  then show ?case by (cases i) (simp_all add: add.commute)
qed simp

lemma length_blocks: "\<forall>b \<in> set bs. length b = L \<Longrightarrow> length (concat bs) = L * length bs"
  by (induction bs) auto

lemma v2_loop_blocks:
  assumes blocks: "\<forall>b \<in> set bs. length b = h + 1" and str: "text = c # concat bs"
  shows "v2_loop text h cs i = map (v2_item cs) (drop i bs)"
proof (induction "length bs - i" arbitrary: i)
  case 0
  then have "length bs \<le> i" by simp
  then have "(h + 1) * length bs < (h + 1) * (i + 1)" by (intro mult_strict_left_mono) simp_all
  then have "length text < 1 + (h + 1) * (i + 1)"
    using length_blocks [OF blocks] str by simp
  with 0 show ?case by (subst v2_loop.simps) (simp add: Let_def)
next
  case (Suc n)
  then have i: "i < length bs" by simp
  have len: "length text = 1 + (h + 1) * length bs"
    using length_blocks [OF blocks] str by simp
  have "(h + 1) * (i + 1) \<le> (h + 1) * length bs" using i by (intro mult_le_mono2) simp
  then have le: "1 + (h + 1) * (i + 1) \<le> length text" using len by simp
  have "drop (1 + (h + 1) * i) text = concat (drop i bs)"
    using drop_blocks [OF blocks, of i] str by simp
  then have "slice text (int (1 + (h + 1) * i)) (int (1 + (h + 1) * (i + 1))) = bs ! i"
    unfolding slice_drop using le i blocks by (simp add: Cons_nth_drop_Suc [symmetric] min_def)
  moreover have "v2_loop text h cs (i + 1) = map (v2_item cs) (drop (i + 1) bs)"
    using Suc by simp
  ultimately show ?case
    using le i by (subst v2_loop.simps) (simp add: Let_def Cons_nth_drop_Suc [symmetric])
qed

lemma split_line:
  "\<forall>c \<in> set cs. BAR \<notin> set c \<Longrightarrow> split_on BAR (concat (map (\<lambda>c. c @ [BAR]) cs)) = cs @ [[]]"
  by (induction cs) (simp_all add: split_on_append_sep)

lemma NL_not_in_line: "\<forall>c \<in> set cs. NL \<notin> set c \<Longrightarrow> NL \<notin> set (v2_line cs)"
  by (auto simp: v2_line_def)

lemma length_line: "map length r = map length headers \<Longrightarrow> length (v2_line r) = length (v2_line headers)"
proof -
  have "length (v2_line cs) = 1 + sum_list (map Suc (map length cs))" for cs
    by (simp add: v2_line_def length_concat o_def)
  then show "map length r = map length headers \<Longrightarrow> length (v2_line r) = length (v2_line headers)"
    by (simp only:)
qed

lemma header_widths:
  assumes "length headers = 10"
  shows "map (\<lambda>i. length (([] # headers @ [[]]) ! i)) [1..<11] = map length headers"
  using assms by (intro nth_equalityI) (auto simp: nth_append simp del: upt_Suc)

lemma prefix_line: "prefix '' id'' (headers ! 0) \<Longrightarrow> length headers = 10 \<Longrightarrow> prefix ''| id'' (v2_line headers)"
  by (cases headers) (auto simp: v2_line_def prefix_def)

subsection \<open>Properties\<close>

text \<open>
  C11: A tab-separated plan is parsed back to its rows: for every header of nine columns and rows
  whose cells contain no tab, line breaks inside cells included, the parser returns one item per
  row, with the cells of the row in their columns, blanks around them removed and the indentation of
  the operator tree kept.
\<close>

theorem parse_printed_v1:
  assumes "prefix (TAB # ''id'') header" and "NL \<notin> set header" and "length (split_on TAB header) = 9"
    and "items \<noteq> []" and "\<forall>i \<in> set items. v1_printable i"
  shows "parsePlanTextToArray (print_v1 header items) = map v1_trimmed items"
proof -
  obtain i rest where items: "items = i # rest" using assms(4) by (cases items) auto
  let ?text = "print_v1 header items"
  have at: "?text = header @ NL # TAB # drop 2 (print_v1_row i) @ concat (map print_v1_row rest)"
    by (simp add: print_v1_def items print_v1_row_def [of i])
  have "indexOf ?text [NL] 0 = Some (length header)"
    using assms(2) by (simp add: indexOf_char at takeWhile_until)
  moreover have "slice ?text 0 (int (length header)) = header"
    using slice_drop [of ?text 0 "length header"] by (simp add: at)
  moreover have "drop (length header + 2) ?text =
      drop 2 (print_v1_row i) @ concat (map print_v1_row rest)"
    unfolding at by simp
  from v1_loop_printed [OF this] assms(5)
  have "v1_loop ?text (length header + 2) = map v1_trimmed items"
    by (simp add: items)
  moreover have "prefix (TAB # ''id'') ?text"
    using assms(1) by (auto simp: at prefix_def)
  ultimately show ?thesis
    using assms(3)
    by (simp add: parsePlanTextToArray_def getPlanTextType_def parsePlanV1TextToArray_def nat_add_distrib)
qed

definition sample_item :: PlanItem where
  "sample_item =
     \<lparr>plan_id = ''  TableScan '', estRows = '' 10'', estCost = [], actRows = ''3'', task = ''cop'',
      accessObject = [], executionInfo = ''time:1ms'' @ [NL] @ ''loops:2'', operatorInfo = ''t'',
      memory = ''N/A'', disk = ''N/A''\<rparr>"

definition sample_v1_header :: string where
  "sample_v1_header =
     concat (map (\<lambda>c. TAB # c) [''id'', ''task'', ''estRows'', ''operator info'', ''actRows'',
       ''execution info'', ''memory'', ''disk''])"

theorem parse_printed_v1_witness:
  "parsePlanTextToArray (print_v1 sample_v1_header [sample_item, sample_item]) =
     [v1_trimmed sample_item, v1_trimmed sample_item]"
  using parse_printed_v1 [of sample_v1_header "[sample_item, sample_item]"]
  by (simp add: sample_v1_header_def v1_printable_def v1_fields_def sample_item_def)

text \<open>
  C10: A fixed-width plan is parsed back to its rows: for every header of ten columns without bars
  or line breaks in their names, and rows whose cells have the widths of the header, the parser
  returns one item per row with the trimmed cells of the row, even when the cells contain bars or
  line breaks.
\<close>

theorem parse_printed_v2:
  assumes "length headers = 10" and "prefix '' id'' (headers ! 0)"
    and "\<forall>h \<in> set headers. BAR \<notin> set h \<and> NL \<notin> set h"
    and "\<forall>r \<in> set rows. map length r = map length headers"
  shows "parsePlanTextToArray (print_v2 headers rows) = map v2_trimmed rows"
proof -
  let ?text = "print_v2 headers rows" and ?line = "v2_line headers"
  let ?bs = "map (\<lambda>r. v2_line r @ [NL]) (headers # rows)"
  have at: "?text = NL # ?line @ NL # concat (map (\<lambda>r. v2_line r @ [NL]) rows)"
    by (simp add: print_v2_def)
  have idx: "indexOf ?text [NL] 1 = Some (1 + length ?line)"
    using assms(3) NL_not_in_line [of headers] by (simp add: indexOf_char at takeWhile_until)
  have "slice ?text (int 1) (int (1 + length ?line)) = ?line"
    unfolding slice_drop by (simp add: at)
  then have line: "slice ?text 1 (int (1 + length ?line)) = ?line" by simp
  have cols: "split_on BAR ?line = [] # headers @ [[]]"
    using assms(3) split_line [of headers] by (simp add: v2_line_def)
  have loop: "v2_loop ?text (length ?line) (columns_from 1 (map length headers)) 1 = map v2_trimmed rows"
  proof -
    have blocks: "\<forall>b \<in> set ?bs. length b = length ?line + 1"
    proof
      fix b
      assume "b \<in> set ?bs"
      then obtain r where r: "r \<in> set (headers # rows)" "b = v2_line r @ [NL]" by auto
      then have "length (v2_line r) = length ?line"
        using assms(4) length_line [of r headers] by auto
      with r(2) show "length b = length ?line + 1" by simp
    qed
    have str: "?text = NL # concat ?bs" by (simp add: print_v2_def)
    have "v2_item (columns_from 1 (map length headers)) (v2_line r @ [NL]) = v2_trimmed r"
      if "r \<in> set rows" for r
    proof -
      have w: "map length headers = map length r" using that assms(4) by metis
      with assms(1) have "length r = 10" by (metis length_map)
      from v2_item_line [OF this] show ?thesis unfolding w .
    qed
    then show ?thesis
      unfolding v2_loop_blocks [OF blocks str] by simp
  qed
  have "parsePlanV2TextToArray ?text = map v2_trimmed rows"
    unfolding parsePlanV2TextToArray_def Let_def idx option.case line cols
      header_widths [OF assms(1)] loop
    using prefix_line [OF assms(2,1)] assms(1) by simp
  moreover have "prefix (NL # ''| id'') ?text" "\<not> prefix (TAB # ''id'') ?text"
    using prefix_line [OF assms(2,1)] by (auto simp: at prefix_def)
  ultimately show ?thesis
    by (simp only: parsePlanTextToArray_def getPlanTextType_def if_False if_True PlanType.case)
qed

definition sample_v2_header :: "string list" where
  "sample_v2_header =
     ['' id   '', '' estRows '', '' estCost '', '' actRows '', '' task '', '' access object '',
      '' execution info '', '' operator info '', '' memory '', '' disk '']"

definition sample_v2_row :: "string list" where
  "sample_v2_row =
     [''   Ab '', ''  10     '', ''  9.5    '', ''  7      '', '' root '', '' table:t       '',
      '' time:1ms | 2   '', '' eq(a'' @ [NL] @ ''b)       '', '' N/A    '', '' N/A  '']"

theorem parse_printed_v2_witness:
  "parsePlanTextToArray (print_v2 sample_v2_header [sample_v2_row]) = [v2_trimmed sample_v2_row]"
  using parse_printed_v2 [of sample_v2_header "[sample_v2_row]"]
  by (simp add: sample_v2_header_def sample_v2_row_def)

end
