(* ===== verification/Selection.thy ===== *)
theory Selection
  imports Prelude "HOL-Library.AList"
begin

text \<open>
  \<open>utils/selectionWithFilter.ts\<close>: a selection over all items of a list of which a filter shows some.
  It wraps the class \<open>Selection\<close> of office-ui-fabric-react, which keeps the selection of the shown
  items. That class is a parameter: a record of its operations, with its documented behaviour as the
  laws of the locale \<open>fabric_selection\<close>. An operation returns the new inner state and whether it
  called \<open>onSelectionChanged\<close>.
\<close>

type_synonym 'i upd = "'i \<Rightarrow> 'i \<times> bool"

record ('t, 'i) fabric =
  getKey :: "'t \<Rightarrow> key"
  i_new :: 'i
  i_getItems :: "'i \<Rightarrow> 't list"
  i_isKeySelected :: "'i \<Rightarrow> key \<Rightarrow> bool"
  i_isAllSelected :: "'i \<Rightarrow> bool"
  i_setChangeEvents :: "bool \<Rightarrow> bool \<Rightarrow> 'i upd"
  i_setItems :: "'t list \<Rightarrow> bool option \<Rightarrow> 'i upd"
  i_setKeySelected :: "key \<Rightarrow> bool \<Rightarrow> bool \<Rightarrow> 'i upd"
  i_setAllSelected :: "bool \<Rightarrow> 'i upd"
  i_setIndexSelected :: "int \<Rightarrow> bool \<Rightarrow> bool \<Rightarrow> 'i upd"
  i_selectToKey :: "key \<Rightarrow> bool option \<Rightarrow> 'i upd"
  i_selectToIndex :: "int \<Rightarrow> bool option \<Rightarrow> 'i upd"
  i_toggleKeySelected :: "key \<Rightarrow> 'i upd"
  i_toggleIndexSelected :: "int \<Rightarrow> 'i upd"
  i_toggleRangeSelected :: "int \<Rightarrow> int \<Rightarrow> 'i upd"

text \<open>
  The fields of the class. The \<open>Map\<close> is an association list and the two \<open>Set\<close>s are lists, both in
  insertion order; \<open>notified\<close> counts the change events raised for the client.
\<close>

record ('t, 'i) SelectionWithFilter =
  inner :: 'i
  allItems :: "'t list"
  allItemsMap :: "(key \<times> 't) list"
  allSelectedKeysSet :: "key list"
  itemKeysSet :: "key list"
  allSelectionCache :: "'t list option"
  notified :: nat

type_synonym ('t, 'i) swf = "('t, 'i) SelectionWithFilter"

definition set_add :: "key \<Rightarrow> key list \<Rightarrow> key list" where
  "set_add k ks = (if k \<in> set ks then ks else ks @ [k])"

definition new_swf :: "('t, 'i) fabric \<Rightarrow> ('t, 'i) swf" where
  "new_swf F =
     \<lparr>inner = i_new F, allItems = [], allItemsMap = [], allSelectedKeysSet = [], itemKeysSet = [],
      allSelectionCache = None, notified = 0\<rparr>"

definition triggerSelectionChanged :: "('t, 'i) swf \<Rightarrow> ('t, 'i) swf" where
  "triggerSelectionChanged s = s\<lparr>allSelectionCache := None, notified := Suc (notified s)\<rparr>"

text \<open>An inner operation, and the handler it may call back.\<close>

definition call :: "'i upd \<Rightarrow> ('t, 'i) swf \<Rightarrow> ('t, 'i) swf" where
  "call f s =
     (let (i, fired) = f (inner s); s' = s\<lparr>inner := i\<rparr>
      in if fired then triggerSelectionChanged s' else s')"

definition select_keys :: "('t, 'i) fabric \<Rightarrow> key list \<Rightarrow> ('t, 'i) swf \<Rightarrow> ('t, 'i) swf" where
  "select_keys F ks s = fold (\<lambda>k. call (i_setKeySelected F k True False)) ks s"

definition setItems :: "('t, 'i) fabric \<Rightarrow> 't list \<Rightarrow> bool option \<Rightarrow> ('t, 'i) swf \<Rightarrow> ('t, 'i) swf" where
  "setItems F items shouldClear s =
     (let itemSubset = filter (\<lambda>i. getKey F i \<in> fst ` set (allItemsMap s)) items;
          s = s\<lparr>allSelectionCache := None,
                allSelectedKeysSet := (if shouldClear = Some True then [] else allSelectedKeysSet s),
                itemKeysSet := fold set_add (map (getKey F) itemSubset) []\<rparr>;
          s = call (i_setChangeEvents F False False) s;
          s = call (i_setItems F itemSubset shouldClear) s;
          s = select_keys F (filter (\<lambda>k. k \<in> set (itemKeysSet s)) (allSelectedKeysSet s)) s
      in call (i_setChangeEvents F True False) s)"

definition setAllSelected :: "('t, 'i) fabric \<Rightarrow> bool \<Rightarrow> ('t, 'i) swf \<Rightarrow> ('t, 'i) swf" where
  "setAllSelected F isAllSelected s =
     (if isAllSelected \<and> length (itemKeysSet s) \<noteq> length (allItemsMap s)
      then call (i_setChangeEvents F True False)
             (select_keys F (itemKeysSet s) (call (i_setChangeEvents F False False) s))
      else call (i_setAllSelected F isAllSelected) s)"

definition toggleAllSelected :: "('t, 'i) fabric \<Rightarrow> ('t, 'i) swf \<Rightarrow> ('t, 'i) swf" where
  "toggleAllSelected F s = setAllSelected F (\<not> i_isAllSelected F (inner s)) s"

definition setAllItems :: "('t, 'i) fabric \<Rightarrow> 't list \<Rightarrow> ('t, 'i) swf \<Rightarrow> ('t, 'i) swf" where
  "setAllItems F items s =
     (let s = s\<lparr>allSelectionCache := None, allItems := items,
                allItemsMap := fold (\<lambda>i. AList.update (getKey F i) i) items []\<rparr>;
          filteredItems = i_getItems F (inner s);
          newItems = filter (\<lambda>i. getKey F i \<in> fst ` set (allItemsMap s)) filteredItems
      in if length filteredItems \<noteq> length newItems then setItems F newItems None s else s)"

definition getAllSelection :: "('t, 'i) fabric \<Rightarrow> ('t, 'i) swf \<Rightarrow> 't list \<times> ('t, 'i) swf" where
  "getAllSelection F s =
     (case allSelectionCache s of
        Some items \<Rightarrow> (items, s)
      | None \<Rightarrow>
          (let items = map snd (filter (\<lambda>(k, i).
                 if k \<in> set (itemKeysSet s) then i_isKeySelected F (inner s) k
                 else k \<in> set (allSelectedKeysSet s)) (allItemsMap s))
           in (items, s\<lparr>allSelectionCache := Some items,
                        allSelectedKeysSet := fold set_add (map (getKey F) items) []\<rparr>)))"

text \<open>The check that the selection is unchanged; the loop leaves at the first key not selected.\<close>

fun count_known :: "key set \<Rightarrow> key set \<Rightarrow> key list \<Rightarrow> nat \<Rightarrow> bool \<times> nat" where
  "count_known known selected [] n = (True, n)"
| "count_known known selected (k # ks) n =
     (if k \<in> known
      then (if k \<in> selected then count_known known selected ks (Suc n) else (False, Suc n))
      else count_known known selected ks n)"

definition unChanged :: "key list \<Rightarrow> ('t, 'i) swf \<Rightarrow> bool" where
  "unChanged selectedKeys s =
     (let (same, n) = count_known (fst ` set (allItemsMap s)) (set (allSelectedKeysSet s)) selectedKeys 0
      in same \<and> n = length (allSelectedKeysSet s))"

definition resetAllSelection :: "('t, 'i) fabric \<Rightarrow> key list \<Rightarrow> ('t, 'i) swf \<Rightarrow> ('t, 'i) swf" where
  "resetAllSelection F selectedKeys s =
     (if unChanged selectedKeys s then s
      else (let s = s\<lparr>allSelectedKeysSet :=
                       fold set_add (filter (\<lambda>k. k \<in> fst ` set (allItemsMap s)) selectedKeys) []\<rparr>;
                s = call (i_setChangeEvents F False False) s;
                s = call (i_setAllSelected F False) s;
                s = select_keys F (filter (\<lambda>k. k \<in> set (itemKeysSet s)) selectedKeys) s;
                s = call (i_setChangeEvents F True True) s
            in triggerSelectionChanged s))"

definition setAllSelectionSelected :: "('t, 'i) fabric \<Rightarrow> bool \<Rightarrow> ('t, 'i) swf \<Rightarrow> ('t, 'i) swf" where
  "setAllSelectionSelected F isAllSelected s =
     (let s = call (i_setChangeEvents F False False) s;
          s = (if \<not> isAllSelected
               then call (i_setAllSelected F False) (s\<lparr>allSelectedKeysSet := []\<rparr>)
               else call (i_setAllSelected F True)
                      (s\<lparr>allSelectedKeysSet := fold set_add (map fst (allItemsMap s)) (allSelectedKeysSet s)\<rparr>));
          s = call (i_setChangeEvents F True True) s
      in triggerSelectionChanged s)"

text \<open>The operations the class passes on to the inner selection as they are.\<close>

inductive user_op :: "('t, 'i) fabric \<Rightarrow> 'i upd \<Rightarrow> bool" for F where
  "user_op F (i_setKeySelected F k b a)"
| "user_op F (i_setIndexSelected F i b a)"
| "user_op F (i_selectToKey F k c)"
| "user_op F (i_selectToIndex F i c)"
| "user_op F (i_toggleKeySelected F k)"
| "user_op F (i_toggleIndexSelected F i)"
| "user_op F (i_toggleRangeSelected F i n)"

inductive mutates :: "('t, 'i) fabric \<Rightarrow> 'i upd \<Rightarrow> bool" for F where
  "user_op F f \<Longrightarrow> mutates F f"
| "mutates F (i_setItems F items c)"
| "mutates F (i_setAllSelected F b)"

lemma mutates_setKey [simp]: "mutates F (i_setKeySelected F k b a)"
  by (simp add: mutates.intros(1) user_op.intros(1))

text \<open>
  What the code relies on of the inner selection, for items that may all be selected: the selection
  is a set of keys of the current items; \<open>setItems\<close> selects nothing that was not selected;
  \<open>setChangeEvents\<close> suspends the change callback, nested calls counting, and a change made meanwhile
  is announced when the callback is resumed, unless that is suppressed.
\<close>

locale fabric_selection =
  fixes F :: "('t, 'i) fabric" and suspended :: "'i \<Rightarrow> nat" and pending :: "'i \<Rightarrow> bool"
  assumes new_items: "i_getItems F (i_new F) = []" "suspended (i_new F) = 0"
    and selected_items: "i_isKeySelected F i k \<Longrightarrow> k \<in> getKey F ` set (i_getItems F i)"
    and events_keep: "i_getItems F (fst (i_setChangeEvents F b q i)) = i_getItems F i"
      "i_isKeySelected F (fst (i_setChangeEvents F b q i)) = i_isKeySelected F i"
    and events_off: "suspended (fst (i_setChangeEvents F False q i)) = Suc (suspended i)"
      "pending i \<Longrightarrow> pending (fst (i_setChangeEvents F False q i))"
    and events_on: "suspended (fst (i_setChangeEvents F True q i)) = suspended i - 1"
      "pending i \<Longrightarrow> suspended i = 1 \<Longrightarrow> snd (i_setChangeEvents F True False i)"
    and quiescent: "suspended i = 0 \<Longrightarrow> \<not> pending i"
    and setItems_items: "i_getItems F (fst (i_setItems F items c i)) = items"
    and setItems_selected: "i_isKeySelected F (fst (i_setItems F items c i)) k \<Longrightarrow>
      i_isKeySelected F i k \<and> c \<noteq> Some True"
    and setAll_items: "i_getItems F (fst (i_setAllSelected F b i)) = i_getItems F i"
    and setAll_selected: "i_isKeySelected F (fst (i_setAllSelected F b i)) k \<longleftrightarrow>
      b \<and> k \<in> getKey F ` set (i_getItems F i)"
    and setKey_selected: "k \<in> getKey F ` set (i_getItems F i) \<Longrightarrow>
      i_isKeySelected F (fst (i_setKeySelected F k b a i)) =
        (\<lambda>k'. if k' = k then b else i_isKeySelected F i k')"
    and user_items: "user_op F f \<Longrightarrow> i_getItems F (fst (f i)) = i_getItems F i"
    and mutates_suspended: "mutates F f \<Longrightarrow> suspended (fst (f i)) = suspended i"
    and mutates_notes: "mutates F f \<Longrightarrow>
      i_isKeySelected F (fst (f i)) \<noteq> i_isKeySelected F i \<or> pending i \<Longrightarrow> snd (f i) \<or> pending (fst (f i))"

text \<open>The keys selected among all items, shown or not, and the items they belong to.\<close>

definition key_selected :: "('t, 'i) fabric \<Rightarrow> ('t, 'i) swf \<Rightarrow> key \<Rightarrow> bool" where
  "key_selected F s k \<longleftrightarrow>
     (if k \<in> set (itemKeysSet s) then i_isKeySelected F (inner s) k else k \<in> set (allSelectedKeysSet s))"

definition selected_keys :: "('t, 'i) fabric \<Rightarrow> ('t, 'i) swf \<Rightarrow> key set" where
  "selected_keys F s = {k \<in> fst ` set (allItemsMap s). key_selected F s k}"

definition selection :: "('t, 'i) fabric \<Rightarrow> ('t, 'i) swf \<Rightarrow> 't list" where
  "selection F s = map snd (filter (\<lambda>(k, i). key_selected F s k) (allItemsMap s))"

definition keys_of :: "('t, 'i) fabric \<Rightarrow> ('t, 'i) swf \<Rightarrow> key set" where
  "keys_of F s = getKey F ` set (i_getItems F (inner s))"

definition swf_inv :: "('t, 'i) fabric \<Rightarrow> ('i \<Rightarrow> nat) \<Rightarrow> ('t, 'i) swf \<Rightarrow> bool" where
  "swf_inv F suspended s \<longleftrightarrow>
     suspended (inner s) = 0 \<and>
     set (itemKeysSet s) = keys_of F s \<and>
     set (itemKeysSet s) \<subseteq> fst ` set (allItemsMap s) \<and>
     distinct (map fst (allItemsMap s)) \<and>
     (\<forall>(k, i) \<in> set (allItemsMap s). getKey F i = k) \<and>
     distinct (allSelectedKeysSet s) \<and>
     (\<forall>items. allSelectionCache s = Some items \<longrightarrow> items = selection F s)"

text \<open>\<open>synced\<close>: the client has read the selection since it last changed.\<close>

definition synced :: "('t, 'i) fabric \<Rightarrow> ('t, 'i) swf \<Rightarrow> bool" where
  "synced F s \<longleftrightarrow> set (allSelectedKeysSet s) = selected_keys F s"

lemma set_fold_set_add [simp]: "set (fold set_add ks acc) = set ks \<union> set acc"
  by (induction ks arbitrary: acc) (auto simp: set_add_def)

lemma distinct_fold_set_add [simp]: "distinct acc \<Longrightarrow> distinct (fold set_add ks acc)"
  by (induction ks arbitrary: acc) (auto simp: set_add_def)

lemma trigger_simps [simp]:
  "inner (triggerSelectionChanged s) = inner s"
  "allItems (triggerSelectionChanged s) = allItems s"
  "allItemsMap (triggerSelectionChanged s) = allItemsMap s"
  "allSelectedKeysSet (triggerSelectionChanged s) = allSelectedKeysSet s"
  "itemKeysSet (triggerSelectionChanged s) = itemKeysSet s"
  "allSelectionCache (triggerSelectionChanged s) = None"
  by (simp_all add: triggerSelectionChanged_def)

lemma call_simps [simp]:
  "inner (call f s) = fst (f (inner s))"
  "allItems (call f s) = allItems s"
  "allItemsMap (call f s) = allItemsMap s"
  "allSelectedKeysSet (call f s) = allSelectedKeysSet s"
  "itemKeysSet (call f s) = itemKeysSet s"
  "allSelectionCache (call f s) = (if snd (f (inner s)) then None else allSelectionCache s)"
  by (simp_all add: call_def Let_def split: prod.split)

lemma select_keys_simps [simp]:
  "allItems (select_keys F ks s) = allItems s"
  "allItemsMap (select_keys F ks s) = allItemsMap s"
  "allSelectedKeysSet (select_keys F ks s) = allSelectedKeysSet s"
  "itemKeysSet (select_keys F ks s) = itemKeysSet s"
  by (induction ks arbitrary: s) (simp_all add: select_keys_def)

lemma selected_keys_selection:
  assumes "\<forall>(k, i) \<in> set (allItemsMap s). getKey F i = k"
  shows "getKey F ` set (selection F s) = selected_keys F s"
proof -
  have "getKey F ` snd ` {p \<in> set (allItemsMap s). key_selected F s (fst p)} =
      fst ` {p \<in> set (allItemsMap s). key_selected F s (fst p)}"
    unfolding image_image by (rule image_cong) (use assms in auto)
  then show ?thesis
    by (auto simp: selection_def selected_keys_def image_iff case_prod_unfold)
qed

lemma getAllSelection_fresh:
  "allSelectionCache s = None \<Longrightarrow> getAllSelection F s =
     (selection F s, s\<lparr>allSelectionCache := Some (selection F s),
        allSelectedKeysSet := fold set_add (map (getKey F) (selection F s)) []\<rparr>)"
  by (simp add: getAllSelection_def selection_def key_selected_def Let_def)

lemma set_AList_update: "set (AList.update k v al) \<subseteq> insert (k, v) (set al)"
  by (induction al) auto

definition item_map :: "('t, 'i) fabric \<Rightarrow> 't list \<Rightarrow> (key \<times> 't) list" where
  "item_map F items = fold (\<lambda>i. AList.update (getKey F i) i) items []"

lemma item_map_ok:
  "distinct (map fst (item_map F items))" "\<forall>(k, i) \<in> set (item_map F items). getKey F i = k"
  "fst ` set (item_map F items) = getKey F ` set items"
proof -
  have "distinct (map fst al) \<Longrightarrow> distinct (map fst (fold (\<lambda>i. AList.update (getKey F i) i) items al))" for al
    by (induction items arbitrary: al) (simp_all add: distinct_update)
  then show "distinct (map fst (item_map F items))" by (simp add: item_map_def)
  have "\<forall>(k, i) \<in> set al. getKey F i = k \<Longrightarrow>
      \<forall>(k, i) \<in> set (fold (\<lambda>i. AList.update (getKey F i) i) items al). getKey F i = k" for al
  proof (induction items arbitrary: al)
    case (Cons i items)
    have "\<forall>(k, j) \<in> set (AList.update (getKey F i) i al). getKey F j = k"
      using Cons.prems set_AList_update [of "getKey F i" i al] by auto
    with Cons.IH show ?case by simp
  qed simp
  from this [of "[]"] show "\<forall>(k, i) \<in> set (item_map F items). getKey F i = k" by (simp add: item_map_def)
  have "fst ` set (fold (\<lambda>i. AList.update (getKey F i) i) items al) = fst ` set al \<union> getKey F ` set items" for al
    by (induction items arbitrary: al) (auto simp: dom_update)
  then show "fst ` set (item_map F items) = getKey F ` set items" by (simp add: item_map_def)
qed

lemma getAllSelection_cached: "allSelectionCache s = Some items \<Longrightarrow> getAllSelection F s = (items, s)"
  by (simp add: getAllSelection_def)

context fabric_selection
begin

lemma setKey_items [simp]: "i_getItems F (fst (i_setKeySelected F k b a i)) = i_getItems F i"
  by (rule user_items) (rule user_op.intros)

lemmas inner_simps = events_keep events_off(1) events_on(1) setItems_items setAll_items
  setAll_selected mutates_suspended mutates.intros

lemma select_keys_inner:
  assumes "set ks \<subseteq> keys_of F s"
  shows "i_getItems F (inner (select_keys F ks s)) = i_getItems F (inner s)"
    and "suspended (inner (select_keys F ks s)) = suspended (inner s)"
    and "i_isKeySelected F (inner (select_keys F ks s)) k \<longleftrightarrow> k \<in> set ks \<or> i_isKeySelected F (inner s) k"
  using assms
  by (induction ks arbitrary: s)
    (auto simp: select_keys_def keys_of_def mutates_suspended setKey_selected)

text \<open>A change since \<open>s0\<close> is recorded: in the inner selection, or by an empty cache.\<close>

definition noted :: "('t, 'i) swf \<Rightarrow> ('t, 'i) swf \<Rightarrow> bool" where
  "noted s0 s \<longleftrightarrow>
     i_isKeySelected F (inner s) = i_isKeySelected F (inner s0) \<or> pending (inner s) \<or>
     allSelectionCache s = None"

lemma noted_call: "noted s0 s \<Longrightarrow> mutates F f \<Longrightarrow> noted s0 (call f s)"
  unfolding noted_def using mutates_notes [of f "inner s"] by auto

lemma noted_select: "noted s0 s \<Longrightarrow> noted s0 (select_keys F ks s)"
  unfolding select_keys_def by (induction ks arbitrary: s) (simp_all add: noted_call)

lemma noted_off: "noted s0 s \<Longrightarrow> noted s0 (call (i_setChangeEvents F False q) s)"
  by (auto simp: noted_def events_keep intro: events_off(2))

lemma noted_on:
  "noted s0 s \<Longrightarrow> suspended (inner s) = 1 \<Longrightarrow>
   i_isKeySelected F (inner (call (i_setChangeEvents F True False) s)) = i_isKeySelected F (inner s0) \<or>
   allSelectionCache (call (i_setChangeEvents F True False) s) = None"
  by (auto simp: noted_def events_keep events_on(2))

lemmas call_inner = inner_simps mutates_setKey select_keys_inner

lemma selection_cong:
  assumes "i_isKeySelected F (inner s) = i_isKeySelected F (inner s')" and "itemKeysSet s = itemKeysSet s'"
    and "allSelectedKeysSet s = allSelectedKeysSet s'" and "allItemsMap s = allItemsMap s'"
  shows "selection F s = selection F s'"
proof -
  have "key_selected F s = key_selected F s'" using assms by (auto simp: key_selected_def fun_eq_iff)
  with assms(4) show ?thesis by (simp add: selection_def)
qed

lemma inv_user_op:
  assumes "swf_inv F suspended s" and f: "user_op F f"
  shows "swf_inv F suspended (call f s)"
proof -
  have "items = selection F (call f s)" if "allSelectionCache (call f s) = Some items" for items
  proof -
    have "\<not> snd (f (inner s))" using that by (simp split: if_splits)
    moreover have m: "mutates F f" using f by (rule mutates.intros)
    moreover have "\<not> pending (fst (f (inner s)))"
      using assms(1) m by (simp add: swf_inv_def quiescent mutates_suspended)
    ultimately have "i_isKeySelected F (fst (f (inner s))) = i_isKeySelected F (inner s)"
      using mutates_notes [of f "inner s"] by blast
    then have "selection F (call f s) = selection F s" by (intro selection_cong) simp_all
    with that assms(1) show ?thesis
      by (simp add: swf_inv_def split: if_splits)
  qed
  with assms show ?thesis
    by (auto simp: swf_inv_def keys_of_def user_items mutates_suspended mutates.intros(1))
qed

lemma setItems_parts:
  fixes c items s
  defines "sub \<equiv> filter (\<lambda>i. getKey F i \<in> fst ` set (allItemsMap s)) items"
  defines "t \<equiv> setItems F items c s"
  assumes "suspended (inner s) = 0"
  shows "i_getItems F (inner t) = sub" and "set (itemKeysSet t) = getKey F ` set sub"
    and "suspended (inner t) = 0" and "allItemsMap t = allItemsMap s"
    and "allSelectedKeysSet t = (if c = Some True then [] else allSelectedKeysSet s)"
    and "allSelectionCache t = None"
    and "c \<noteq> Some True \<Longrightarrow> k \<in> set (allSelectedKeysSet s) \<Longrightarrow> k \<in> set (itemKeysSet t) \<Longrightarrow>
      i_isKeySelected F (inner t) k"
    and "i_isKeySelected F (inner t) k \<Longrightarrow>
      c \<noteq> Some True \<and> (k \<in> set (allSelectedKeysSet s) \<or> i_isKeySelected F (inner s) k)"
proof -
  define s2 where "s2 = call (i_setItems F sub c) (call (i_setChangeEvents F False False)
    (s\<lparr>allSelectionCache := None,
       allSelectedKeysSet := (if c = Some True then [] else allSelectedKeysSet s),
       itemKeysSet := fold set_add (map (getKey F) sub) []\<rparr>))"
  define ks where "ks = filter (\<lambda>k. k \<in> set (itemKeysSet s2)) (allSelectedKeysSet s2)"
  have t: "t = call (i_setChangeEvents F True False) (select_keys F ks s2)"
    by (simp add: t_def setItems_def sub_def Let_def s2_def ks_def)
  have s2: "i_getItems F (inner s2) = sub" "suspended (inner s2) = 1" "allItemsMap s2 = allItemsMap s"
    "allSelectedKeysSet s2 = (if c = Some True then [] else allSelectedKeysSet s)"
    "set (itemKeysSet s2) = getKey F ` set sub" "allSelectionCache s2 = None"
    using assms(3) by (simp_all add: s2_def inner_simps)
  have kept: "i_isKeySelected F (inner s2) k \<Longrightarrow> i_isKeySelected F (inner s) k \<and> c \<noteq> Some True"
    by (auto simp: s2_def events_keep dest!: setItems_selected)
  have ks: "set ks \<subseteq> keys_of F s2" by (auto simp: ks_def keys_of_def s2)
  note sel = select_keys_inner [OF ks]
  show "i_getItems F (inner t) = sub" "suspended (inner t) = 0"
    by (simp_all add: t sel events_keep events_on(1) s2)
  show "set (itemKeysSet t) = getKey F ` set sub" "allItemsMap t = allItemsMap s"
    "allSelectedKeysSet t = (if c = Some True then [] else allSelectedKeysSet s)"
    by (simp_all add: t s2)
  have "allSelectionCache (select_keys F ks s) = None" if "allSelectionCache s = None" for ks s
    using that by (induction ks arbitrary: s) (simp_all add: select_keys_def)
  then show "allSelectionCache t = None" by (simp add: t s2)
  have iff: "i_isKeySelected F (inner t) k \<longleftrightarrow> k \<in> set ks \<or> i_isKeySelected F (inner s2) k"
    by (simp add: t sel events_keep)
  show "c \<noteq> Some True \<Longrightarrow> k \<in> set (allSelectedKeysSet s) \<Longrightarrow> k \<in> set (itemKeysSet t) \<Longrightarrow>
      i_isKeySelected F (inner t) k"
    unfolding iff by (simp add: t ks_def s2)
  show "i_isKeySelected F (inner t) k \<Longrightarrow>
      c \<noteq> Some True \<and> (k \<in> set (allSelectedKeysSet s) \<or> i_isKeySelected F (inner s) k)"
    unfolding iff using kept by (auto simp: ks_def s2 split: if_splits)
qed

lemma inv_setItems:
  assumes "swf_inv F suspended s"
  shows "swf_inv F suspended (setItems F items c s)"
proof -
  have "suspended (inner s) = 0" using assms by (simp add: swf_inv_def)
  note parts = setItems_parts [OF this]
  show ?thesis
    using assms parts(1-6) [of items c] by (auto simp: swf_inv_def keys_of_def)
qed

text \<open>Changing the filter keeps the selection; clearing drops it.\<close>

lemma selected_setItems:
  assumes "swf_inv F suspended s" and "synced F s"
  shows "selected_keys F (setItems F items c s) = (if c = Some True then {} else selected_keys F s)"
    and "synced F (setItems F items c s)"
proof -
  have z: "suspended (inner s) = 0" using assms by (simp add: swf_inv_def)
  let ?t = "setItems F items c s"
  note parts = setItems_parts [OF z]
  have old: "k \<in> set (allSelectedKeysSet s)" if "i_isKeySelected F (inner s) k" for k
  proof -
    have "k \<in> set (itemKeysSet s)"
      using selected_items [OF that] assms(1) by (simp add: swf_inv_def keys_of_def)
    with that assms(1) have "k \<in> selected_keys F s"
      by (auto simp: swf_inv_def selected_keys_def key_selected_def)
    with assms(2) show ?thesis by (simp add: synced_def)
  qed
  have "key_selected F ?t k \<longleftrightarrow> c \<noteq> Some True \<and> k \<in> set (allSelectedKeysSet s)" for k
    using parts(7,8) [where items = items and c = c and k = k] old [of k] parts(5) [of items c]
    by (auto simp: key_selected_def split: if_splits)
  moreover have "selected_keys F s = set (allSelectedKeysSet s)"
    using assms(2) by (simp add: synced_def)
  moreover have "selected_keys F s \<subseteq> fst ` set (allItemsMap s)"
    by (auto simp: selected_keys_def)
  ultimately show sel: "selected_keys F ?t = (if c = Some True then {} else selected_keys F s)"
    using parts(4) [of items c] by (auto simp: selected_keys_def [of F ?t])
  with assms(2) show "synced F ?t"
    by (simp add: synced_def parts(5))
qed

lemma inv_new: "swf_inv F suspended (new_swf F)"
  by (simp add: swf_inv_def new_swf_def keys_of_def new_items)

lemma synced_new: "synced F (new_swf F)"
  by (simp add: synced_def new_swf_def selected_keys_def)

text \<open>Reading the selection: the items of the selected keys, in the order of all items.\<close>

lemma getAllSelection_ok:
  assumes "swf_inv F suspended s"
  shows "fst (getAllSelection F s) = selection F s"
    and "swf_inv F suspended (snd (getAllSelection F s))"
    and "selected_keys F (snd (getAllSelection F s)) = selected_keys F s"
    and "allSelectionCache s = None \<Longrightarrow> synced F (snd (getAllSelection F s))"
proof -
  have keys: "\<forall>(k, i) \<in> set (allItemsMap s). getKey F i = k" using assms by (simp add: swf_inv_def)
  show fst: "fst (getAllSelection F s) = selection F s"
    using assms by (cases "allSelectionCache s")
      (simp_all add: getAllSelection_fresh getAllSelection_cached swf_inv_def)
  have fresh: "key_selected F (snd (getAllSelection F s)) k = key_selected F s k"
    if "allSelectionCache s = None" "k \<in> fst ` set (allItemsMap s)" for k
    using that selected_keys_selection [OF keys]
    by (auto simp: getAllSelection_fresh key_selected_def selected_keys_def)
  have same: "allItemsMap (snd (getAllSelection F s)) = allItemsMap s"
    by (cases "allSelectionCache s") (simp_all add: getAllSelection_fresh getAllSelection_cached)
  show sel: "selected_keys F (snd (getAllSelection F s)) = selected_keys F s"
    using fresh same
    by (cases "allSelectionCache s") (auto simp: selected_keys_def getAllSelection_cached)
  show "swf_inv F suspended (snd (getAllSelection F s))"
  proof (cases "allSelectionCache s")
    case None
    have "filter (\<lambda>(k, i). key_selected F (snd (getAllSelection F s)) k) (allItemsMap s) =
        filter (\<lambda>(k, i). key_selected F s k) (allItemsMap s)"
      using fresh [OF None] by (intro filter_cong) (auto simp: image_iff split_beta) 
    then have "selection F (snd (getAllSelection F s)) = selection F s"
      unfolding selection_def same by simp
    with None assms show ?thesis
      by (auto simp: getAllSelection_fresh swf_inv_def keys_of_def)
  qed (use assms in \<open>simp add: getAllSelection_cached\<close>)
  show "allSelectionCache s = None \<Longrightarrow> synced F (snd (getAllSelection F s))"
    using sel selected_keys_selection [OF keys] by (simp add: synced_def getAllSelection_fresh)
qed

text \<open>Replacing all items keeps the selection of the items that are still there.\<close>

lemma setAllItems_ok:
  assumes "swf_inv F suspended s" and "synced F s"
  shows "swf_inv F suspended (setAllItems F items s)"
    and "selected_keys F (setAllItems F items s) = selected_keys F s \<inter> getKey F ` set items"
proof -
  define s1 where "s1 = s\<lparr>allSelectionCache := None, allItems := items, allItemsMap := item_map F items\<rparr>"
  define new where "new = filter (\<lambda>i. getKey F i \<in> fst ` set (allItemsMap s1)) (i_getItems F (inner s1))"
  have t: "setAllItems F items s =
      (if length (i_getItems F (inner s1)) \<noteq> length new then setItems F new None s1 else s1)"
    by (simp add: setAllItems_def s1_def new_def item_map_def Let_def)
  have zero: "suspended (inner s1) = 0" using assms(1) by (simp add: s1_def swf_inv_def)
  have map: "fst ` set (allItemsMap s1) = getKey F ` set items" by (simp add: s1_def item_map_ok)
  have sel: "selected_keys F s = set (allSelectedKeysSet s1)"
    using assms(2) by (simp add: synced_def s1_def)
  have old: "k \<in> set (allSelectedKeysSet s1)" if "i_isKeySelected F (inner s1) k" for k
  proof -
    have "i_isKeySelected F (inner s) k" using that by (simp add: s1_def)
    from this selected_items [OF this] assms(1) have "k \<in> selected_keys F s"
      by (auto simp: swf_inv_def keys_of_def selected_keys_def key_selected_def)
    with sel show ?thesis by simp
  qed
  show "swf_inv F suspended (setAllItems F items s)"
  proof (cases "length (i_getItems F (inner s1)) = length new")
    case True
    have "getKey F x \<in> fst ` set (allItemsMap s1)" if "x \<in> set (i_getItems F (inner s1))" for x
      using length_filter_less [OF that, of "\<lambda>i. getKey F i \<in> fst ` set (allItemsMap s1)"] True
      unfolding new_def by linarith
    then have "getKey F ` set (i_getItems F (inner s1)) \<subseteq> fst ` set (allItemsMap s1)" by blast
    with True assms(1) show ?thesis
      by (auto simp: t swf_inv_def keys_of_def s1_def item_map_ok)
  next
    case False
    with setItems_parts(1-6) [OF zero, of new None] assms(1) show ?thesis
      by (auto simp: t swf_inv_def keys_of_def s1_def item_map_ok)
  qed
  show "selected_keys F (setAllItems F items s) = selected_keys F s \<inter> getKey F ` set items"
  proof (cases "length (i_getItems F (inner s1)) = length new")
    case True
    have "key_selected F s1 k \<longleftrightarrow> k \<in> set (allSelectedKeysSet s1)" for k
    proof (cases "k \<in> set (itemKeysSet s)")
      case True
      then have "k \<in> selected_keys F s \<longleftrightarrow> i_isKeySelected F (inner s) k"
        using assms(1) by (auto simp: swf_inv_def selected_keys_def key_selected_def)
      with True sel show ?thesis by (simp add: key_selected_def s1_def)
    qed (simp add: key_selected_def s1_def)
    with True map sel show ?thesis by (auto simp: t selected_keys_def [of F s1])
  next
    case False
    have "key_selected F (setItems F new None s1) k \<longleftrightarrow> k \<in> set (allSelectedKeysSet s1)" for k
      using setItems_parts(7,8) [OF zero, where items = new and c = None and k = k] old [of k]
        setItems_parts(5) [OF zero, of new None]
      by (auto simp: key_selected_def)
    with False map sel setItems_parts(4) [OF zero, of new None] show ?thesis
      by (auto simp: t selected_keys_def [of F "setItems F new None s1"])
  qed
qed

text \<open>Selecting or deselecting the shown items leaves the hidden ones as they are.\<close>

lemma setAllSelected_ok:
  assumes inv: "swf_inv F suspended s"
  shows "swf_inv F suspended (setAllSelected F b s)"
    and "selected_keys F (setAllSelected F b s) =
      (if b then selected_keys F s \<union> set (itemKeysSet s) else selected_keys F s - set (itemKeysSet s))"
proof -
  let ?t = "setAllSelected F b s"
  have keys: "set (itemKeysSet s) = keys_of F s" using inv by (simp add: swf_inv_def)
  have "suspended (inner ?t) = 0 \<and> i_getItems F (inner ?t) = i_getItems F (inner s) \<and>
      (\<forall>k \<in> set (itemKeysSet s). i_isKeySelected F (inner ?t) k \<longleftrightarrow> b) \<and>
      (i_isKeySelected F (inner ?t) = i_isKeySelected F (inner s) \<or> allSelectionCache ?t = None) \<and>
      (allSelectionCache ?t = None \<or> allSelectionCache ?t = allSelectionCache s) \<and>
      allItemsMap ?t = allItemsMap s \<and> allSelectedKeysSet ?t = allSelectedKeysSet s \<and>
      itemKeysSet ?t = itemKeysSet s"
  proof (cases "b \<and> length (itemKeysSet s) \<noteq> length (allItemsMap s)")
    case True
    define s1 where "s1 = call (i_setChangeEvents F False False) s"
    have t: "?t = call (i_setChangeEvents F True False) (select_keys F (itemKeysSet s) s1)"
      using True by (simp add: setAllSelected_def s1_def)
    have s1: "suspended (inner s1) = 1" "i_getItems F (inner s1) = i_getItems F (inner s)"
        "noted s s1" "allSelectionCache s1 \<in> {None, allSelectionCache s}"
      using inv by (simp_all add: s1_def inner_simps noted_def swf_inv_def)
    have ks: "set (itemKeysSet s) \<subseteq> keys_of F s1" by (simp add: keys keys_of_def s1)
    note sel = select_keys_inner [OF ks]
    have one: "suspended (inner (select_keys F (itemKeysSet s) s1)) = 1" by (simp add: sel s1)
    have "allSelectionCache (select_keys F ks s) \<in> {None, allSelectionCache s}" for ks s
    proof (induction ks arbitrary: s)
      case (Cons k ks)
      then have "allSelectionCache (select_keys F ks (call (i_setKeySelected F k True False) s)) \<in>
          {None, allSelectionCache (call (i_setKeySelected F k True False) s)}" .
      then show ?case by (auto simp: select_keys_def split: if_splits)
    qed (simp add: select_keys_def)
    from this [of "itemKeysSet s" s1] s1(4)
    have "allSelectionCache ?t \<in> {None, allSelectionCache s}" by (auto simp: t split: if_splits)
    moreover have "i_isKeySelected F (inner ?t) = i_isKeySelected F (inner s) \<or> allSelectionCache ?t = None"
      unfolding t by (rule noted_on [OF noted_select [OF s1(3)] one])
    moreover have "\<forall>k \<in> set (itemKeysSet s). i_isKeySelected F (inner ?t) k"
      by (simp add: t sel events_keep)
    moreover have "suspended (inner ?t) = 0" "i_getItems F (inner ?t) = i_getItems F (inner s)"
      by (simp_all add: t sel s1 events_keep events_on(1))
    moreover have "allItemsMap ?t = allItemsMap s" "allSelectedKeysSet ?t = allSelectedKeysSet s"
        "itemKeysSet ?t = itemKeysSet s"
      by (simp_all add: t s1_def)
    ultimately show ?thesis using True by blast
  next
    case False
    have t: "?t = call (i_setAllSelected F b) s" using False by (auto simp: setAllSelected_def)
    have m: "mutates F (i_setAllSelected F b)" by (rule mutates.intros)
    have "\<not> pending (fst (i_setAllSelected F b (inner s)))"
      using inv by (simp add: quiescent mutates_suspended [OF m] swf_inv_def)
    with mutates_notes [OF m, of "inner s"] show ?thesis
      using inv by (auto simp: t setAll_items setAll_selected mutates_suspended [OF m] swf_inv_def keys_of_def)
  qed
  note parts = this
  have "selection F ?t = selection F s" if "allSelectionCache ?t \<noteq> None"
    using parts that by (intro selection_cong) auto
  with parts inv show "swf_inv F suspended ?t"
    by (auto simp: swf_inv_def keys_of_def)
  show "selected_keys F ?t =
      (if b then selected_keys F s \<union> set (itemKeysSet s) else selected_keys F s - set (itemKeysSet s))"
    using parts inv by (auto simp: selected_keys_def key_selected_def swf_inv_def)
qed

lemma count_known_same:
  "fst (count_known known sel ks n) \<longleftrightarrow> set ks \<inter> known \<subseteq> sel"
  by (induction ks arbitrary: n) auto

lemma count_known_count:
  "set ks \<inter> known \<subseteq> sel \<Longrightarrow> snd (count_known known sel ks n) = n + length (filter (\<lambda>k. k \<in> known) ks)"
  by (induction ks arbitrary: n) auto

text \<open>The check that skips an update is exact for keys without repetitions.\<close>

lemma unChanged_iff:
  assumes "distinct ks" and "distinct (allSelectedKeysSet s)"
  shows "unChanged ks s \<longleftrightarrow> set ks \<inter> fst ` set (allItemsMap s) = set (allSelectedKeysSet s)"
proof -
  let ?known = "fst ` set (allItemsMap s)"
  have sub: "unChanged ks s \<longleftrightarrow> set ks \<inter> ?known \<subseteq> set (allSelectedKeysSet s) \<and>
      length (filter (\<lambda>k. k \<in> ?known) ks) = length (allSelectedKeysSet s)"
    using count_known_same [of ?known "set (allSelectedKeysSet s)" ks 0]
      count_known_count [of ks ?known "set (allSelectedKeysSet s)" 0]
    by (auto simp: unChanged_def split: prod.splits)
  have "length (filter (\<lambda>k. k \<in> ?known) ks) = card (set ks \<inter> ?known)"
  proof -
    have "set (filter (\<lambda>k. k \<in> ?known) ks) = set ks \<inter> ?known" by auto
    with distinct_card [of "filter (\<lambda>k. k \<in> ?known) ks"] assms(1) show ?thesis by simp
  qed
  moreover have "length (allSelectedKeysSet s) = card (set (allSelectedKeysSet s))"
    using assms(2) by (simp add: distinct_card)
  ultimately show ?thesis
    unfolding sub by (metis List.finite_set card_subset_eq order_refl)
qed

text \<open>A reset that changes something does not depend on what the client has read before.\<close>

lemma resetAllSelection_changed:
  assumes inv: "swf_inv F suspended s" and "\<not> unChanged ks s"
  shows "swf_inv F suspended (resetAllSelection F ks s)"
    and "selected_keys F (resetAllSelection F ks s) = set ks \<inter> fst ` set (allItemsMap s)"
    and "synced F (resetAllSelection F ks s)"
proof -
  let ?t = "resetAllSelection F ks s" and ?known = "fst ` set (allItemsMap s)"
  define s1 where "s1 = call (i_setAllSelected F False) (call (i_setChangeEvents F False False)
    (s\<lparr>allSelectedKeysSet := fold set_add (filter (\<lambda>k. k \<in> ?known) ks) []\<rparr>))"
  define sel where "sel = filter (\<lambda>k. k \<in> set (itemKeysSet s)) ks"
  have t: "?t = triggerSelectionChanged (call (i_setChangeEvents F True True) (select_keys F sel s1))"
    using assms(2) by (simp add: resetAllSelection_def s1_def sel_def Let_def)
  have s1: "i_getItems F (inner s1) = i_getItems F (inner s)" "suspended (inner s1) = 1"
      "\<not> i_isKeySelected F (inner s1) k" for k
    using inv by (simp_all add: s1_def inner_simps swf_inv_def)
  have "set sel \<subseteq> keys_of F s1"
    using inv by (auto simp: sel_def keys_of_def s1 swf_inv_def)
  note k = select_keys_inner [OF this]
  have inn: "i_getItems F (inner ?t) = i_getItems F (inner s)" "suspended (inner ?t) = 0"
      "i_isKeySelected F (inner ?t) k \<longleftrightarrow> k \<in> set sel" for k
    by (simp_all add: t k s1 events_keep events_on(1))
  have fields: "allItemsMap ?t = allItemsMap s" "itemKeysSet ?t = itemKeysSet s"
      "set (allSelectedKeysSet ?t) = set ks \<inter> ?known" "distinct (allSelectedKeysSet ?t)"
      "allSelectionCache ?t = None"
    by (auto simp: t s1_def)
  show sel: "selected_keys F ?t = set ks \<inter> ?known"
    using inv by (auto simp: selected_keys_def key_selected_def inn fields sel_def swf_inv_def)
  show "swf_inv F suspended ?t" "synced F ?t"
    using sel inn fields inv by (auto simp: swf_inv_def keys_of_def synced_def)
qed

lemma resetAllSelection_ok:
  assumes inv: "swf_inv F suspended s" and "synced F s" and "distinct ks"
  shows "swf_inv F suspended (resetAllSelection F ks s)"
    and "selected_keys F (resetAllSelection F ks s) = set ks \<inter> fst ` set (allItemsMap s)"
    and "synced F (resetAllSelection F ks s)"
proof -
  have "resetAllSelection F ks s = s" "set ks \<inter> fst ` set (allItemsMap s) = selected_keys F s" if "unChanged ks s"
    using that unChanged_iff [of ks s] assms by (simp_all add: resetAllSelection_def synced_def swf_inv_def)
  then show "swf_inv F suspended (resetAllSelection F ks s)"
    "selected_keys F (resetAllSelection F ks s) = set ks \<inter> fst ` set (allItemsMap s)"
    "synced F (resetAllSelection F ks s)"
    using resetAllSelection_changed [OF inv, of ks] assms(1,2) by (cases "unChanged ks s"; simp)+
qed

lemma setAllSelectionSelected_ok:
  assumes inv: "swf_inv F suspended s"
  shows "swf_inv F suspended (setAllSelectionSelected F b s)"
    and "selected_keys F (setAllSelectionSelected F b s) = (if b then fst ` set (allItemsMap s) else {})"
proof -
  let ?t = "setAllSelectionSelected F b s"
  have inn: "i_getItems F (inner ?t) = i_getItems F (inner s)" "suspended (inner ?t) = 0"
      "i_isKeySelected F (inner ?t) k \<longleftrightarrow> b \<and> k \<in> keys_of F s" for k
    using inv by (auto simp: setAllSelectionSelected_def Let_def inner_simps swf_inv_def keys_of_def)
  have fields: "allItemsMap ?t = allItemsMap s" "itemKeysSet ?t = itemKeysSet s"
      "set (allSelectedKeysSet ?t) = (if b then fst ` set (allItemsMap s) \<union> set (allSelectedKeysSet s) else {})"
      "distinct (allSelectedKeysSet s) \<Longrightarrow> distinct (allSelectedKeysSet ?t)" "allSelectionCache ?t = None"
    by (auto simp: setAllSelectionSelected_def Let_def)
  show "swf_inv F suspended ?t"
    using inv inn fields by (auto simp: swf_inv_def keys_of_def)
  have "key_selected F ?t k \<longleftrightarrow> b \<and> (k \<in> fst ` set (allItemsMap s) \<or> k \<in> set (allSelectedKeysSet s))"
    for k
    unfolding key_selected_def inn fields using inv by (auto simp: swf_inv_def)
  then show "selected_keys F ?t = (if b then fst ` set (allItemsMap s) else {})"
    by (auto simp: selected_keys_def fields)
qed

end

subsection \<open>A reference selection\<close>

text \<open>
  A selection that behaves as the documentation of the inner class says: it keeps the items, the
  selected keys, the anchor of range selections, how often the events are suspended and whether a
  change happened meanwhile.
\<close>

record 't ref_sel =
  r_items :: "'t list"
  r_sel :: "key list"
  r_anchor :: nat
  r_susp :: nat
  r_changed :: bool

definition vis :: "('t \<Rightarrow> key) \<Rightarrow> 't ref_sel \<Rightarrow> key set" where
  "vis gk i = set (r_sel i) \<inter> gk ` set (r_items i)"

definition ref_upd :: "('t \<Rightarrow> key) \<Rightarrow> 't list \<Rightarrow> key list \<Rightarrow> 't ref_sel upd" where
  "ref_upd gk items sel i =
     (let i' = i\<lparr>r_items := items, r_sel := sel\<rparr>
      in if vis gk i' = vis gk i then (i', False)
         else if r_susp i = 0 then (i', True)
         else (i'\<lparr>r_changed := True\<rparr>, False))"

definition ref_select :: "('t \<Rightarrow> key) \<Rightarrow> key list \<Rightarrow> key list \<Rightarrow> 't ref_sel upd" where
  "ref_select gk add del i =
     ref_upd gk (r_items i) (filter (\<lambda>k. k \<notin> set del) (r_sel i) @ add) i"

definition keys_at :: "('t \<Rightarrow> key) \<Rightarrow> 't ref_sel \<Rightarrow> int \<Rightarrow> int \<Rightarrow> key list" where
  "keys_at gk i from n = map gk (take (nat n) (drop (nat from) (r_items i)))"

definition ref_toggle :: "('t \<Rightarrow> key) \<Rightarrow> key list \<Rightarrow> 't ref_sel upd" where
  "ref_toggle gk ks i =
     (if set ks \<subseteq> set (r_sel i) then ref_select gk [] ks i else ref_select gk ks [] i)"

definition ref_range :: "('t \<Rightarrow> key) \<Rightarrow> int \<Rightarrow> bool option \<Rightarrow> 't ref_sel upd" where
  "ref_range gk idx clear i =
     (let lo = min (int (r_anchor i)) idx; hi = max (int (r_anchor i)) idx
      in ref_select gk (keys_at gk i lo (hi - lo + 1)) (if clear = Some True then r_sel i else []) i)"

definition ref_index :: "('t \<Rightarrow> key) \<Rightarrow> key \<Rightarrow> 't ref_sel \<Rightarrow> int" where
  "ref_index gk k i = int (length (takeWhile (\<lambda>t. gk t \<noteq> k) (r_items i)))"

definition ref_events :: "bool \<Rightarrow> bool \<Rightarrow> 't ref_sel upd" where
  "ref_events enabled suppress i =
     (if \<not> enabled then (i\<lparr>r_susp := Suc (r_susp i), r_changed := r_changed i \<and> 0 < r_susp i\<rparr>, False)
      else (i\<lparr>r_susp := r_susp i - 1, r_changed := r_changed i \<and> 1 < r_susp i\<rparr>,
            r_susp i = 1 \<and> r_changed i \<and> \<not> suppress))"

definition fabric_ref :: "('t \<Rightarrow> key) \<Rightarrow> ('t, 't ref_sel) fabric" where
  "fabric_ref gk =
     \<lparr>getKey = gk,
      i_new = \<lparr>r_items = [], r_sel = [], r_anchor = 0, r_susp = 0, r_changed = False\<rparr>,
      i_getItems = r_items,
      i_isKeySelected = (\<lambda>i k. k \<in> vis gk i),
      i_isAllSelected = (\<lambda>i. r_items i \<noteq> [] \<and> gk ` set (r_items i) \<subseteq> set (r_sel i)),
      i_setChangeEvents = ref_events,
      i_setItems = (\<lambda>items c i. ref_upd gk items
         (if c = Some False then filter (\<lambda>k. k \<in> vis gk i) (r_sel i) else []) i),
      i_setKeySelected = (\<lambda>k b a. if b then ref_select gk [k] [] else ref_select gk [] [k]),
      i_setAllSelected = (\<lambda>b i. ref_upd gk (r_items i) (if b then map gk (r_items i) else []) i),
      i_setIndexSelected = (\<lambda>idx b a i. if b then ref_select gk (keys_at gk i idx 1) [] i
                                         else ref_select gk [] (keys_at gk i idx 1) i),
      i_selectToKey = (\<lambda>k c i. ref_range gk (ref_index gk k i) c i),
      i_selectToIndex = ref_range gk,
      i_toggleKeySelected = (\<lambda>k. ref_toggle gk [k]),
      i_toggleIndexSelected = (\<lambda>idx i. ref_toggle gk (keys_at gk i idx 1) i),
      i_toggleRangeSelected = (\<lambda>idx n i. ref_toggle gk (keys_at gk i idx n) i)\<rparr>"

text \<open>Every operation of the reference that changes the selection is a \<^const>\<open>ref_upd\<close>.\<close>

lemma ref_upd_fields:
  "r_items (fst (ref_upd gk items sel i)) = items" "r_sel (fst (ref_upd gk items sel i)) = sel"
  "r_susp (fst (ref_upd gk items sel i)) = r_susp i"
  by (auto simp: ref_upd_def Let_def)

lemma vis_ref_upd: "vis gk (fst (ref_upd gk items sel i)) = set sel \<inter> gk ` set items"
  by (simp add: vis_def ref_upd_fields)

lemma ref_upd_notes:
  "vis gk (fst (ref_upd gk items sel i)) \<noteq> vis gk i \<or> (r_changed i \<and> 0 < r_susp i) \<Longrightarrow>
   snd (ref_upd gk items sel i) \<or>
   (r_changed (fst (ref_upd gk items sel i)) \<and> 0 < r_susp (fst (ref_upd gk items sel i)))"
  by (auto simp: ref_upd_def Let_def)

lemma user_op_ref:
  assumes "user_op (fabric_ref gk) f"
  shows "\<exists>sel. f i = ref_upd gk (r_items i) sel i"
  using assms
  by cases (auto simp: fabric_ref_def ref_select_def ref_range_def ref_toggle_def Let_def)

lemma mutates_ref:
  assumes "mutates (fabric_ref gk) f"
  shows "\<exists>items sel. f i = ref_upd gk items sel i"
  using assms
proof cases
  case 1
  then show ?thesis using user_op_ref by blast
qed (auto simp: fabric_ref_def)

interpretation ref: fabric_selection "fabric_ref gk" r_susp "\<lambda>i. r_changed i \<and> 0 < r_susp i"
  for gk :: "'t \<Rightarrow> key"
proof
  fix f :: "'t ref_sel upd" and i
  assume "user_op (fabric_ref gk) f"
  then show "i_getItems (fabric_ref gk) (fst (f i)) = i_getItems (fabric_ref gk) i"
    using user_op_ref [of gk f i] by (auto simp: fabric_ref_def ref_upd_fields)
next
  fix f :: "'t ref_sel upd" and i
  assume m: "mutates (fabric_ref gk) f"
  then show "r_susp (fst (f i)) = r_susp i"
    using mutates_ref [of gk f i] by (auto simp: ref_upd_fields)
  obtain items sel where f: "f i = ref_upd gk items sel i" using mutates_ref [OF m] by blast
  assume "i_isKeySelected (fabric_ref gk) (fst (f i)) \<noteq> i_isKeySelected (fabric_ref gk) i \<or>
    r_changed i \<and> 0 < r_susp i"
  then have "vis gk (fst (f i)) \<noteq> vis gk i \<or> r_changed i \<and> 0 < r_susp i"
    by (auto simp: fabric_ref_def)
  then show "snd (f i) \<or> r_changed (fst (f i)) \<and> 0 < r_susp (fst (f i))"
    unfolding f by (rule ref_upd_notes)
qed (auto simp: fabric_ref_def ref_events_def ref_upd_fields vis_ref_upd ref_select_def vis_def
    fun_eq_iff split: if_splits)

subsection \<open>Properties\<close>

text \<open>The operations a client performs, and a run of them.\<close>

datatype ('t, 'i) swf_op =
    User "'i upd"
  | SetItems "'t list" "bool option"
  | SetAllSelected bool
  | SetAllItems "'t list"
  | Read
  | Reset "key list"
  | SetAllSelectionSelected bool

fun swf_step :: "('t, 'i) fabric \<Rightarrow> ('t, 'i) swf_op \<Rightarrow> ('t, 'i) swf \<Rightarrow> ('t, 'i) swf" where
  "swf_step F (User f) s = (if user_op F f then call f s else s)"
| "swf_step F (SetItems items c) s = setItems F items c s"
| "swf_step F (SetAllSelected b) s = setAllSelected F b s"
| "swf_step F (SetAllItems items) s = setAllItems F items s"
| "swf_step F Read s = snd (getAllSelection F s)"
| "swf_step F (Reset ks) s = resetAllSelection F ks s"
| "swf_step F (SetAllSelectionSelected b) s = setAllSelectionSelected F b s"

text \<open>A run whose updates of all items and of the whole selection follow a reading of it.\<close>

fun well_used :: "('t, 'i) fabric \<Rightarrow> ('t, 'i) swf_op list \<Rightarrow> ('t, 'i) swf \<Rightarrow> bool" where
  "well_used F [] s = True"
| "well_used F (op # ops) s =
     ((case op of SetAllItems items \<Rightarrow> synced F s | Reset ks \<Rightarrow> distinct ks \<and> synced F s | _ \<Rightarrow> True) \<and>
      well_used F ops (swf_step F op s))"

lemma swf_run_inv:
  assumes "fabric_selection F suspended pending"
  shows "swf_inv F suspended s \<Longrightarrow> well_used F ops s \<Longrightarrow> swf_inv F suspended (fold (swf_step F) ops s)"
proof (induction ops arbitrary: s)
  case (Cons op ops)
  then have "swf_inv F suspended (swf_step F op s)"
    using assms
    by (cases op) (auto simp: fabric_selection.inv_user_op fabric_selection.inv_setItems
        fabric_selection.setAllSelected_ok fabric_selection.setAllItems_ok
        fabric_selection.getAllSelection_ok fabric_selection.resetAllSelection_ok
        fabric_selection.setAllSelectionSelected_ok)
  with Cons show ?case by simp
qed simp


definition sample_swf :: "(string, string ref_sel) swf" where
  "sample_swf = resetAllSelection (fabric_ref (\<lambda>s. s)) [''b'', ''z'']
     (setAllItems (fabric_ref (\<lambda>s. s)) [''a'', ''b'', ''c''] (new_swf (fabric_ref (\<lambda>s. s))))"

lemma sample_swf_ok:
  "swf_inv (fabric_ref (\<lambda>s. s)) r_susp sample_swf" "synced (fabric_ref (\<lambda>s. s)) sample_swf"
proof -
  let ?F = "fabric_ref (\<lambda>s :: string. s)"
  have "allItemsMap (setAllItems ?F [''a'', ''b'', ''c''] (new_swf ?F)) =
      [(''a'', ''a''), (''b'', ''b''), (''c'', ''c'')]"
    by (simp add: setAllItems_def new_swf_def fabric_ref_def Let_def)
  moreover have "allSelectedKeysSet (setAllItems ?F [''a'', ''b'', ''c''] (new_swf ?F)) = []"
      "itemKeysSet (setAllItems ?F [''a'', ''b'', ''c''] (new_swf ?F)) = []"
    by (simp_all add: setAllItems_def new_swf_def fabric_ref_def Let_def)
  ultimately have "synced ?F (setAllItems ?F [''a'', ''b'', ''c''] (new_swf ?F))"
    by (simp add: synced_def selected_keys_def key_selected_def)
  note ok = ref.setAllItems_ok(1) [OF ref.inv_new ref.synced_new] this
  show "swf_inv ?F r_susp sample_swf"
    unfolding sample_swf_def by (rule ref.resetAllSelection_ok(1) [OF ok]) simp
  show "synced ?F sample_swf"
    unfolding sample_swf_def by (rule ref.resetAllSelection_ok(3) [OF ok]) simp
qed




text \<open>
  Setting the selection. From a state whose selection has been read, \<open>resetAllSelection\<close> with
  distinct keys selects exactly those keys that belong to items, shown or hidden;
  \<open>setAllSelectionSelected\<close> selects all items or none; \<open>setAllSelected\<close> adds or removes exactly the
  shown items; \<open>setAllItems\<close> keeps exactly the selected keys that still belong to an item.
\<close>

theorem selection_updates:
  assumes "fabric_selection F suspended pending" and "swf_inv F suspended s" and "synced F s"
    and "distinct ks"
  shows "selected_keys F (resetAllSelection F ks s) = set ks \<inter> fst ` set (allItemsMap s) \<and>
    selected_keys F (setAllSelectionSelected F b s) = (if b then fst ` set (allItemsMap s) else {}) \<and>
    selected_keys F (setAllSelected F b s) =
      (if b then selected_keys F s \<union> set (itemKeysSet s) else selected_keys F s - set (itemKeysSet s)) \<and>
    selected_keys F (setAllItems F items s) = selected_keys F s \<inter> getKey F ` set items"
  using fabric_selection.resetAllSelection_ok(2) [OF assms]
    fabric_selection.setAllSelectionSelected_ok(2) [OF assms(1,2)]
    fabric_selection.setAllSelected_ok(2) [OF assms(1,2)]
    fabric_selection.setAllItems_ok(2) [OF assms(1-3)] by blast

theorem selection_updates_witness:
  "selected_keys (fabric_ref (\<lambda>s. s)) (setAllSelectionSelected (fabric_ref (\<lambda>s. s)) True sample_swf) =
     fst ` set (allItemsMap sample_swf)"
  using selection_updates [OF ref.fabric_selection_axioms sample_swf_ok, of "[]" True "[]"] by simp

text \<open>
  Repeated keys defeat the check that skips an update: with two items selected,
  \<open>resetAllSelection\<close> asked to select only one of them, named twice, changes nothing.
\<close>

theorem resetAllSelection_repeated_keys:
  assumes "fst ` set (allItemsMap s) = {a, b}" and "set (allSelectedKeysSet s) = {a, b}"
    and "distinct (allSelectedKeysSet s)" and "a \<noteq> b"
  shows "resetAllSelection F [a, a] s = s"
proof -
  have "length (allSelectedKeysSet s) = 2"
    using distinct_card [OF assms(3)] assms(2,4) by simp
  with assms show ?thesis by (simp add: resetAllSelection_def unChanged_def)
qed

theorem resetAllSelection_repeated_keys_witness:
  "resetAllSelection (fabric_ref (\<lambda>s. s)) [''a'', ''a'']
     \<lparr>inner = i_new (fabric_ref (\<lambda>s. s)), allItems = [''a'', ''b''],
      allItemsMap = [(''a'', ''a''), (''b'', ''b'')], allSelectedKeysSet = [''a'', ''b''],
      itemKeysSet = [], allSelectionCache = None, notified = 0\<rparr> =
   \<lparr>inner = i_new (fabric_ref (\<lambda>s. s)), allItems = [''a'', ''b''],
      allItemsMap = [(''a'', ''a''), (''b'', ''b'')], allSelectedKeysSet = [''a'', ''b''],
      itemKeysSet = [], allSelectionCache = None, notified = 0\<rparr>"
  by (rule resetAllSelection_repeated_keys [of _ "''a''" "''b''"]) auto

end
