(* ===== verification/HeatmapAxis.thy ===== *)
theory HeatmapAxis
  imports JsString "HOL-Library.Word"
begin

unbundle bit_operations_syntax

text \<open>
  The axes, colours and buffers of the key visualizer's heatmap: \<open>KeyViz/heatmap/axis/*.ts\<close>,
  \<open>utils.ts\<close>, \<open>color.ts\<close>, \<open>buffer.ts\<close> and \<open>normalizeData\<close> of \<open>chart.ts\<close>. Positions on the canvas are
  rationals. The scale of an axis, which d3 computes, is an argument.
\<close>

subsection \<open>Sections of an axis\<close>

record 'v Section =
  sec_val :: 'v
  startIdx :: nat
  endIdx :: nat

record 'v DisplaySection = "'v Section" +
  startPos :: rat
  endPos :: rat
  focus :: bool

definition mergeWidth :: rat where
  "mergeWidth = 3"

definition display :: "'v Section \<Rightarrow> rat \<Rightarrow> rat \<Rightarrow> bool \<Rightarrow> 'v DisplaySection" where
  "display s a b f =
     \<lparr>sec_val = sec_val s, startIdx = startIdx s, endIdx = endIdx s, startPos = a, endPos = b, focus = f\<rparr>"

text \<open>The state of the loop: the result, the pending merged section, and whether one was rendered.\<close>

type_synonym 'v scale_state = "'v DisplaySection list \<times> 'v DisplaySection option \<times> bool"

text \<open>At each section the pending one may be rendered first; then the section is placed.\<close>

definition flush_merged :: "rat \<Rightarrow> nat \<Rightarrow> 'v scale_state \<Rightarrow> 'v scale_state" where
  "flush_merged commonStart idx st =
     (case st of (result, merged, rendered) \<Rightarrow>
        (case merged of
           Some m \<Rightarrow>
             if mergeWidth \<le> endPos m - startPos m \<or> mergeWidth < commonStart - startPos m \<or>
                (\<not> rendered \<and> idx mod 2 = 0)
             then (result @ [m], None, True) else (result, merged, rendered)
         | None \<Rightarrow> (result, merged, rendered)))"

definition scale_step ::
    "(rat \<times> rat) option \<Rightarrow> rat \<times> rat \<Rightarrow> (rat \<Rightarrow> rat) \<Rightarrow> ('v \<Rightarrow> 'v \<Rightarrow> 'v) \<Rightarrow>
     'v Section \<Rightarrow> 'v scale_state \<Rightarrow> 'v scale_state" where
  "scale_step focusDomain rng scale merge section st =
     (let startPos' = scale (of_nat (startIdx section));
          endPos' = scale (of_nat (endIdx section));
          commonStart = max startPos' (fst rng);
          commonEnd = min endPos' (snd rng);
          foc = (case focusDomain of
                   Some d \<Rightarrow> 0 < min (scale (snd d)) endPos' - max (scale (fst d)) startPos'
                 | None \<Rightarrow> False);
          (result, merged, rendered) = flush_merged commonStart (startIdx section) st
      in if 0 < commonEnd - commonStart
         then if mergeWidth < commonEnd - commonStart
              then (result @ [display section commonStart commonEnd foc], None, True)
              else (case merged of
                      None \<Rightarrow> (result, Some (display section commonStart commonEnd foc), rendered)
                    | Some m \<Rightarrow> (result, Some (m\<lparr>sec_val := merge (sec_val m) (sec_val section),
                                  endPos := commonEnd, focus := focus m \<or> foc\<rparr>), rendered))
         else (result, merged, rendered))"

definition scaleSections ::
    "'v Section list \<Rightarrow> (rat \<times> rat) option \<Rightarrow> rat \<times> rat \<Rightarrow> (rat \<Rightarrow> rat) \<Rightarrow> ('v \<Rightarrow> 'v \<Rightarrow> 'v) \<Rightarrow>
     'v DisplaySection list" where
  "scaleSections sections focusDomain rng scale merge =
     fst (fold (scale_step focusDomain rng scale merge) sections ([], None, False))"

subsection \<open>Labels of the key axis\<close>

type_synonym Label = "string Section"

definition label_at :: "string option list \<Rightarrow> nat \<Rightarrow> string option" where
  "label_at labels g = (if g < length labels then labels ! g else None)"

definition close :: "string option \<Rightarrow> nat option \<Rightarrow> nat \<Rightarrow> Label list" where
  "close lastLabel startKeyIdx e =
     (case (startKeyIdx, lastLabel) of
        (Some s, Some v) \<Rightarrow> [\<lparr>sec_val = v, startIdx = s, endIdx = e\<rparr>]
      | _ \<Rightarrow> [])"

text \<open>The loop over the keys for one column; \<open>ne\<close> is the array \<open>notEqual\<close>.\<close>

function scan_labels ::
    "(nat \<Rightarrow> string option) \<Rightarrow> nat \<Rightarrow> nat \<Rightarrow> string option \<Rightarrow> nat option \<Rightarrow> bool list \<Rightarrow>
     Label list \<times> bool list" where
  "scan_labels lab n keyIdx lastLabel startKeyIdx ne =
     (if n \<le> keyIdx then (close lastLabel startKeyIdx n, ne)
      else (let label = lab keyIdx;
                neq = (ne ! keyIdx \<or> (label \<noteq> None \<and> label \<noteq> lastLabel));
                ne' = ne[keyIdx := neq]
            in if neq
               then (let emitted = close lastLabel startKeyIdx keyIdx;
                         start' = (if emitted \<noteq> [] then None else startKeyIdx);
                         start'' = (if label \<noteq> None then Some keyIdx else start');
                         (rest, ne'') = scan_labels lab n (Suc keyIdx) label start'' ne'
                     in (emitted @ rest, ne''))
               else scan_labels lab n (Suc keyIdx) lastLabel startKeyIdx ne'))"
  by pat_completeness auto

termination
  by (relation "measure (\<lambda>(_, n, k, _). n - k)") auto

declare scan_labels.simps [simp del]

fun aggr_columns :: "string option list list \<Rightarrow> nat \<Rightarrow> nat \<Rightarrow> bool list \<Rightarrow> Label list list" where
  "aggr_columns keyAxis groupIdx 0 ne = []"
| "aggr_columns keyAxis groupIdx (Suc m) ne =
     (let (labels, ne') = scan_labels (\<lambda>k. label_at (keyAxis ! k) groupIdx) (length keyAxis) 0 None None ne
      in labels # aggr_columns keyAxis (Suc groupIdx) m ne')"

definition aggrKeyAxisLabel :: "string option list list \<Rightarrow> Label list list" where
  "aggrKeyAxisLabel keyAxis = aggr_columns keyAxis 0 4 (replicate (length keyAxis) False)"

definition labelAxisGroup :: "string option list list \<Rightarrow> Label list list" where
  "labelAxisGroup keyAxis = aggrKeyAxisLabel (if 1 < length keyAxis then drop 1 keyAxis else keyAxis)"

text \<open>\<open>s.substr(a, b)\<close>, whose arguments are truncated to integers.\<close>

definition js_trunc :: "rat \<Rightarrow> int" where
  "js_trunc x = (if x < 0 then \<lceil>x\<rceil> else \<lfloor>x\<rfloor>)"

definition substr :: "string \<Rightarrow> rat \<Rightarrow> rat \<Rightarrow> string" where
  "substr s a b =
     (let i = js_trunc a; from = (if i < 0 then nat (int (length s) + i) else nat i)
      in take (nat (js_trunc b)) (drop from s))"

definition truncateString :: "string \<Rightarrow> nat \<Rightarrow> string" where
  "truncateString str len =
     (if len < length str
      then substr str 0 (of_nat len / 2 - 1) @ ''....'' @
           substr str (of_nat (length str) - of_nat len / 2 + 1) (of_nat (length str))
      else str)"

definition minTextHeight :: rat where
  "minTextHeight = 17"

definition shouldShowLabelText :: "string DisplaySection \<Rightarrow> bool" where
  "shouldShowLabelText label \<longleftrightarrow>
     minTextHeight \<le> endPos label - startPos label \<and> length (sec_val label) \<noteq> 0"

definition fitLabelText :: "string DisplaySection \<Rightarrow> string" where
  "fitLabelText label =
     truncateString (sec_val label) (nat \<lfloor>(endPos label - startPos label) / (15 / 2)\<rfloor>)"

subsection \<open>Histograms\<close>

text \<open>\<open>invert\<close> is the inverse of the scale; the sums run over the visible cells.\<close>

definition visible :: "(rat \<Rightarrow> rat) \<Rightarrow> rat \<times> rat \<Rightarrow> nat \<Rightarrow> nat list" where
  "visible invert rng len =
     (let a = max 0 \<lfloor>invert (fst rng)\<rfloor>; b = min (int len - 1) \<lceil>invert (snd rng)\<rceil> in [nat a..<nat b])"

definition axis_sums :: "(nat \<Rightarrow> nat \<Rightarrow> rat) \<Rightarrow> nat list \<Rightarrow> nat list \<Rightarrow> rat Section list" where
  "axis_sums cell xs ys =
     map (\<lambda>x. \<lparr>sec_val = sum_list (map (\<lambda>y. cell x y) ys), startIdx = x, endIdx = x + 1\<rparr>) xs"

definition histogram_sums ::
    "rat list list \<Rightarrow> rat \<times> rat \<Rightarrow> rat \<times> rat \<Rightarrow> (rat \<Rightarrow> rat) \<Rightarrow> (rat \<Rightarrow> rat) \<Rightarrow>
     rat Section list \<times> rat Section list" where
  "histogram_sums data xRange yRange xInv yInv =
     (let xs = visible xInv xRange (length data); ys = visible yInv yRange (length (data ! 0))
      in (axis_sums (\<lambda>x y. data ! x ! y) xs ys, axis_sums (\<lambda>y x. data ! x ! y) ys xs))"

subsection \<open>Units, colours, buffers\<close>

datatype DataTag = Integration | WrittenBytes | ReadBytes | WrittenKeys | ReadKeys

fun tagUnit :: "DataTag \<Rightarrow> string" where
  "tagUnit Integration = ''bytes/min''"
| "tagUnit ReadBytes = ''bytes/min''"
| "tagUnit WrittenBytes = ''bytes/min''"
| "tagUnit ReadKeys = ''keys/min''"
| "tagUnit WrittenKeys = ''keys/min''"

definition rasterizeLevel :: nat where
  "rasterizeLevel = 100"

text \<open>\<open>r | (g << 8) | (b << 16) | 0xff000000\<close> on 32-bit integers.\<close>

definition pack_color :: "32 word \<Rightarrow> 32 word \<Rightarrow> 32 word \<Rightarrow> 32 word" where
  "pack_color r g b = r OR push_bit 8 g OR push_bit 16 b OR 0xff000000"

text \<open>The colours of the levels; \<open>color i\<close> is the colour d3 computes for level \<open>i\<close>.\<close>

definition rasterizedColors :: "(nat \<Rightarrow> 32 word \<times> 32 word \<times> 32 word) \<Rightarrow> 32 word list" where
  "rasterizedColors color =
     map (\<lambda>i. case color i of (r, g, b) \<Rightarrow> pack_color r g b) [0..<rasterizeLevel + 1]"

text \<open>A store to a \<open>Uint8Array\<close>: truncation modulo 256, with 0 for what is not finite.\<close>

fun to_uint8 :: "jsnum \<Rightarrow> 8 word" where
  "to_uint8 (Fin a) = of_int (js_trunc a)"
| "to_uint8 _ = 0"

text \<open>\<open>mlog\<close> is \<open>Math.log\<close>; the rows of \<open>d\<close> have the same length.\<close>

definition normalizeData :: "(rat \<Rightarrow> jsnum) \<Rightarrow> rat list list \<Rightarrow> rat \<Rightarrow> 8 word list" where
  "normalizeData mlog d maxValue =
     (let height = (if 0 < length d then length (d ! 0) else 0); width = length d;
          logMaxValue = mlog maxValue
      in map (\<lambda>addr. to_uint8 (js_div (mlog (d ! (addr mod width) ! (addr div width))) logMaxValue *
                                Fin (of_nat rasterizeLevel)))
           [0..<width * height])"

text \<open>A read out of range gives \<open>undefined\<close>, which is stored as 0.\<close>

definition createBuffer :: "8 word list \<Rightarrow> 32 word list \<Rightarrow> 32 word list" where
  "createBuffer normalizedValues colors =
     map (\<lambda>v. if unat v < length colors then colors ! unat v else 0) normalizedValues"

subsection \<open>Layout of scaled sections\<close>

definition state_sections :: "'v scale_state \<Rightarrow> 'v DisplaySection list" where
  "state_sections st = fst st @ (case fst (snd st) of None \<Rightarrow> [] | Some m \<Rightarrow> [m])"

definition laid_out :: "rat \<times> rat \<Rightarrow> rat \<Rightarrow> 'v DisplaySection list \<Rightarrow> bool" where
  "laid_out rng pos ds \<longleftrightarrow>
     sorted_wrt (\<lambda>a b. endPos a \<le> startPos b) ds \<and>
     (\<forall>s \<in> set ds. fst rng \<le> startPos s \<and> startPos s < endPos s \<and> endPos s \<le> snd rng \<and> endPos s \<le> pos)"

lemma laid_out_snoc:
  "laid_out rng pos ds \<Longrightarrow> pos \<le> a \<Longrightarrow> fst rng \<le> a \<Longrightarrow> a < b \<Longrightarrow> b \<le> snd rng \<Longrightarrow> b \<le> q \<Longrightarrow>
   startPos d = a \<Longrightarrow> endPos d = b \<Longrightarrow> laid_out rng q (ds @ [d])"
  by (force simp: laid_out_def sorted_wrt_append)

lemma laid_out_mono: "laid_out rng pos ds \<Longrightarrow> pos \<le> q \<Longrightarrow> laid_out rng q ds"
  by (force simp: laid_out_def)

lemma laid_out_butlast: "laid_out rng pos (ds @ [m]) \<Longrightarrow> laid_out rng pos ds"
  by (auto simp: laid_out_def sorted_wrt_append)

lemma laid_out_extend:
  "laid_out rng pos (ds @ [m]) \<Longrightarrow> pos \<le> b \<Longrightarrow> b \<le> snd rng \<Longrightarrow> b \<le> q \<Longrightarrow>
   laid_out rng q (ds @ [m\<lparr>sec_val := v, endPos := b, focus := f\<rparr>])"
  by (force simp: laid_out_def sorted_wrt_append)

lemma display_simps [simp]:
  "startPos (display s a b f) = a" "endPos (display s a b f) = b" "sec_val (display s a b f) = sec_val s"
  by (simp_all add: display_def)

lemma flush_merged_sections [simp]: "state_sections (flush_merged c i st) = state_sections st"
  by (auto simp: flush_merged_def state_sections_def split: prod.splits option.splits)

lemma scale_step_laid_out:
  assumes inv: "laid_out rng pos (state_sections st)"
    and pos: "pos \<le> scale (of_nat (startIdx s))" and se: "scale (of_nat (startIdx s)) \<le> scale (of_nat (endIdx s))"
  shows "laid_out rng (scale (of_nat (endIdx s))) (state_sections (scale_step fd rng scale mrg s st))"
proof -
  define a where "a = max (scale (of_nat (startIdx s))) (fst rng)"
  define b where "b = min (scale (of_nat (endIdx s))) (snd rng)"
  define st1 where "st1 = flush_merged a (startIdx s) st"
  obtain result merged rendered where st1': "st1 = (result, merged, rendered)" by (cases st1)
  define foc where "foc = (case fd of Some d \<Rightarrow> 0 < min (scale (snd d)) (scale (of_nat (endIdx s))) -
      max (scale (fst d)) (scale (of_nat (startIdx s))) | None \<Rightarrow> False)"
  have step: "scale_step fd rng scale mrg s st =
      (if 0 < b - a
       then if mergeWidth < b - a then (result @ [display s a b foc], None, True)
            else (case merged of
                    None \<Rightarrow> (result, Some (display s a b foc), rendered)
                  | Some m \<Rightarrow> (result, Some (m\<lparr>sec_val := mrg (sec_val m) (sec_val s), endPos := b,
                                  focus := focus m \<or> foc\<rparr>), rendered))
       else (result, merged, rendered))"
    using st1' unfolding st1_def a_def b_def foc_def
    by (simp add: scale_step_def Let_def)
  have inv1: "laid_out rng pos (result @ (case merged of None \<Rightarrow> [] | Some m \<Rightarrow> [m]))"
    using inv flush_merged_sections [of a "startIdx s" st] st1'
    by (simp add: st1_def state_sections_def)
  then have res: "laid_out rng pos result"
    by (cases merged) (auto intro: laid_out_butlast)
  have ab: "pos \<le> a" "fst rng \<le> a" "b \<le> snd rng" "b \<le> scale (of_nat (endIdx s))"
    using pos by (auto simp: a_def b_def)
  have le: "pos \<le> scale (of_nat (endIdx s))" using pos se by simp
  show ?thesis
  proof (cases "a < b")
    case True
    have snoc: "laid_out rng (scale (of_nat (endIdx s))) (result @ [display s a b foc])"
      by (rule laid_out_snoc [OF res ab(1,2) True ab(3,4)]) simp_all
    show ?thesis
    proof (cases "merged = None \<or> mergeWidth < b - a")
      case True
      with snoc \<open>a < b\<close> show ?thesis by (auto simp: step state_sections_def)
    next
      case False
      then obtain m where m: "merged = Some m" by auto
      with inv1 ab True have "laid_out rng (scale (of_nat (endIdx s)))
          (result @ [m\<lparr>sec_val := mrg (sec_val m) (sec_val s), endPos := b, focus := focus m \<or> foc\<rparr>])"
        by (intro laid_out_extend [of rng pos]) auto
      with False True m show ?thesis by (simp add: step state_sections_def)
    qed
  next
    case False
    with laid_out_mono [OF inv1 le] show ?thesis by (simp add: step state_sections_def)
  qed
qed

lemma scale_fold_laid_out:
  assumes "mono scale" and "laid_out rng pos (state_sections st)"
    and "sorted_wrt (\<lambda>a b. endIdx a \<le> startIdx b) ss" and "\<forall>s \<in> set ss. startIdx s \<le> endIdx s"
    and "\<forall>s \<in> set ss. pos \<le> scale (of_nat (startIdx s))"
  shows "\<exists>q. laid_out rng q (state_sections (fold (scale_step fd rng scale mrg) ss st))"
  using assms(2-)
proof (induction ss arbitrary: st pos)
  case (Cons s ss)
  let ?e = "scale (of_nat (endIdx s))"
  have "scale (of_nat (startIdx s)) \<le> ?e"
    using Cons.prems(3) by (intro monoD [OF assms(1)]) simp
  with Cons.prems have "laid_out rng ?e (state_sections (scale_step fd rng scale mrg s st))"
    by (intro scale_step_laid_out [of rng pos]) auto
  moreover have "\<forall>t \<in> set ss. ?e \<le> scale (of_nat (startIdx t))"
    using Cons.prems(2) by (auto intro: monoD [OF assms(1)])
  ultimately show ?case using Cons by simp
qed auto

subsection \<open>Label columns\<close>

text \<open>
  A section found from \<open>k\<close> on: it continues the open one or starts at a key with its label, where
  the column changes; inside it nothing changes and every label is its own or absent; it ends where
  the column changes or with the axis.
\<close>

definition label_ok ::
    "(nat \<Rightarrow> string option) \<Rightarrow> nat \<Rightarrow> nat \<Rightarrow> string option \<Rightarrow> nat option \<Rightarrow> bool list \<Rightarrow> Label \<Rightarrow> bool" where
  "label_ok lab n k lastL st ne s \<longleftrightarrow>
     startIdx s < endIdx s \<and> k \<le> endIdx s \<and> endIdx s \<le> n \<and>
     (st = Some (startIdx s) \<and> lastL = Some (sec_val s) \<or>
      k \<le> startIdx s \<and> lab (startIdx s) = Some (sec_val s) \<and> ne ! startIdx s) \<and>
     (\<forall>j. k \<le> j \<and> startIdx s < j \<and> j < endIdx s \<longrightarrow> \<not> ne ! j \<and> lab j \<in> {None, Some (sec_val s)}) \<and>
     (endIdx s < n \<longrightarrow> ne ! endIdx s)"

definition changes :: "(nat \<Rightarrow> string option) \<Rightarrow> nat \<Rightarrow> string option \<Rightarrow> bool list \<Rightarrow> bool" where
  "changes lab k lastL ne \<longleftrightarrow> ne ! k \<or> (lab k \<noteq> None \<and> lab k \<noteq> lastL)"

lemma scan_end: "n \<le> k \<Longrightarrow> scan_labels lab n k lastL st ne = (close lastL st n, ne)"
  by (simp add: scan_labels.simps)

lemma scan_same:
  "k < n \<Longrightarrow> \<not> changes lab k lastL ne \<Longrightarrow>
   scan_labels lab n k lastL st ne = scan_labels lab n (Suc k) lastL st (ne[k := False])"
  by (auto simp: scan_labels.simps [of lab n k] changes_def Let_def)

lemma scan_change:
  assumes "k < n" "changes lab k lastL ne" "\<forall>s. st = Some s \<longrightarrow> s < k \<and> lastL \<noteq> None"
  shows "scan_labels lab n k lastL st ne =
    (case scan_labels lab n (Suc k) (lab k) (if lab k \<noteq> None then Some k else None) (ne[k := True])
     of (rest, ne') \<Rightarrow> (close lastL st k @ rest, ne'))"
proof -
  have "(if close lastL st k \<noteq> [] then None else st) = None"
    using assms(3) by (auto simp: close_def split: option.splits)
  with assms(1,2) show ?thesis
    by (simp add: scan_labels.simps [of lab n k] changes_def Let_def)
qed

lemma label_ok_same:
  assumes "label_ok lab n (Suc k) lastL st ne s" and "\<not> ne ! k" and "lab k = None \<or> lab k = lastL"
  shows "label_ok lab n k lastL st ne s"
proof -
  have "\<not> ne ! j \<and> lab j \<in> {None, Some (sec_val s)}"
    if "k \<le> j" "startIdx s < j" "j < endIdx s" for j
    using that assms by (cases "j = k") (auto simp: label_ok_def)
  with assms(1) show ?thesis by (auto simp: label_ok_def)
qed

lemma label_ok_change:
  assumes "label_ok lab n (Suc k) (lab k) (if lab k \<noteq> None then Some k else None) ne s" and "ne ! k"
  shows "label_ok lab n k lastL st ne s" and "k \<le> startIdx s"
proof -
  show ks: "k \<le> startIdx s" using assms by (auto simp: label_ok_def split: if_splits)
  have "\<not> ne ! j \<and> lab j \<in> {None, Some (sec_val s)}" if "startIdx s < j" "j < endIdx s" for j
    using that ks assms(1) unfolding label_ok_def by simp
  moreover have "lab (startIdx s) = Some (sec_val s) \<and> ne ! startIdx s"
    using assms by (auto simp: label_ok_def split: if_splits)
  ultimately show "label_ok lab n k lastL st ne s"
    using ks assms(1) unfolding label_ok_def by auto
qed

lemma label_ok_close:
  "s \<in> set (close lastL st k) \<Longrightarrow> \<forall>s. st = Some s \<longrightarrow> s < k \<Longrightarrow> k \<le> n \<Longrightarrow> (k < n \<longrightarrow> ne ! k) \<Longrightarrow>
   label_ok lab n k lastL st ne s \<and> endIdx s = k"
  by (auto simp: close_def label_ok_def split: option.splits)

lemma sorted_close: "sorted_wrt P (close lastL st k)"
  by (auto simp: close_def split: option.splits)

lemma scan_labels_ok:
  assumes "length ne = n" and "k \<le> n" and "\<forall>s. st = Some s \<longrightarrow> s < k \<and> lastL \<noteq> None"
    and "scan_labels lab n k lastL st ne = (secs, ne')"
  shows "length ne' = n \<and> (\<forall>j < n. ne ! j \<longrightarrow> ne' ! j) \<and> (\<forall>j < k. ne' ! j = ne ! j) \<and>
    (\<forall>s \<in> set secs. label_ok lab n k lastL st ne' s) \<and> sorted_wrt (\<lambda>a b. endIdx a \<le> startIdx b) secs"
  using assms
proof (induction "n - k" arbitrary: k lastL st ne secs ne')
  case 0
  then have "secs = close lastL st k" "ne' = ne" "k = n" by (auto simp: scan_end)
  then show ?case using 0 by (auto simp: sorted_close dest: label_ok_close [where lab = lab and n = n and ne = ne])
next
  case (Suc m)
  then have k: "k < n" "m = n - Suc k" by auto
  show ?case
  proof (cases "changes lab k lastL ne")
    case True
    obtain rest where rest: "scan_labels lab n (Suc k) (lab k) (if lab k \<noteq> None then Some k else None)
        (ne[k := True]) = (rest, ne')" "secs = close lastL st k @ rest"
      using scan_change [OF k(1) True Suc.prems(3)] Suc.prems(4) by (auto split: prod.splits)
    have IH: "length ne' = n" "\<forall>j < n. ne[k := True] ! j \<longrightarrow> ne' ! j" "\<forall>j < Suc k. ne' ! j = ne[k := True] ! j"
        "\<forall>s \<in> set rest. label_ok lab n (Suc k) (lab k) (if lab k \<noteq> None then Some k else None) ne' s"
        "sorted_wrt (\<lambda>a b. endIdx a \<le> startIdx b) rest"
      using Suc.hyps(1) [OF k(2) _ _ _ rest(1)] Suc.prems(1) k(1) by (auto split: if_splits)
    have nek: "ne' ! k" using IH(3) k(1) Suc.prems(1) by simp
    have r: "label_ok lab n k lastL st ne' s \<and> k \<le> startIdx s" if "s \<in> set rest" for s
      using IH(4) that nek label_ok_change by blast
    have c: "label_ok lab n k lastL st ne' s \<and> endIdx s = k" if "s \<in> set (close lastL st k)" for s
      using label_ok_close [OF that, of n ne' lab] Suc.prems(2,3) nek by blast
    show ?thesis
      unfolding rest(2) using IH(1,2,3,5) r c sorted_close [of _ lastL st k] k(1) Suc.prems(1)
      by (auto simp: sorted_wrt_append nth_list_update split: if_splits)
  next
    case False
    have IH: "length ne' = n" "\<forall>j < n. ne[k := False] ! j \<longrightarrow> ne' ! j" "\<forall>j < Suc k. ne' ! j = ne[k := False] ! j"
        "\<forall>s \<in> set secs. label_ok lab n (Suc k) lastL st ne' s"
        "sorted_wrt (\<lambda>a b. endIdx a \<le> startIdx b) secs"
      using Suc.hyps(1) [OF k(2), of "ne[k := False]" st lastL secs ne'] Suc.prems k(1)
        scan_same [OF k(1) False, of st] by (auto intro: less_SucI)
    have nek: "\<not> ne' ! k" "\<not> ne ! k" "lab k = None \<or> lab k = lastL"
      using IH(3) k(1) Suc.prems(1) False by (auto simp: changes_def)
    have "label_ok lab n k lastL st ne' s" if "s \<in> set secs" for s
      using IH(4) that nek label_ok_same by blast
    then show ?thesis
      using IH(1,2,3,5) k(1) Suc.prems(1) nek by (auto simp: nth_list_update split: if_splits)
  qed
qed

lemma aggr_columns_arrays:
  "\<exists>nes. length nes = Suc m \<and> nes ! 0 = ne \<and> length (aggr_columns keyAxis g0 m ne) = m \<and>
     (\<forall>g < m. scan_labels (\<lambda>k. label_at (keyAxis ! k) (g0 + g)) (length keyAxis) 0 None None (nes ! g) =
        (aggr_columns keyAxis g0 m ne ! g, nes ! Suc g))"
proof (induction m arbitrary: g0 ne)
  case 0
  then show ?case by (intro exI [of _ "[ne]"]) simp
next
  case (Suc m)
  obtain labels ne' where scan:
      "scan_labels (\<lambda>k. label_at (keyAxis ! k) g0) (length keyAxis) 0 None None ne = (labels, ne')"
    by fastforce
  obtain nes where nes: "length nes = Suc m" "nes ! 0 = ne'" "length (aggr_columns keyAxis (Suc g0) m ne') = m"
      "\<forall>g < m. scan_labels (\<lambda>k. label_at (keyAxis ! k) (Suc g0 + g)) (length keyAxis) 0 None None (nes ! g) =
        (aggr_columns keyAxis (Suc g0) m ne' ! g, nes ! Suc g)"
    using Suc [of ne' "Suc g0"] by blast
  have "scan_labels (\<lambda>k. label_at (keyAxis ! k) (g0 + g)) (length keyAxis) 0 None None ((ne # nes) ! g) =
      (aggr_columns keyAxis g0 (Suc m) ne ! g, (ne # nes) ! Suc g)" if "g < Suc m" for g
    using that scan nes by (cases g) auto
  with nes scan show ?case by (intro exI [of _ "ne # nes"]) auto
qed

text \<open>The arrays \<open>notEqual\<close> after each column, and what they say of its sections.\<close>

lemma label_arrays:
  fixes keyAxis :: "string option list list"
  defines "n \<equiv> length keyAxis" and "cols \<equiv> aggrKeyAxisLabel keyAxis"
  obtains nes where "length cols = 4"
    and "\<And>g s. g < 4 \<Longrightarrow> s \<in> set (cols ! g) \<Longrightarrow>
      label_ok (\<lambda>k. label_at (keyAxis ! k) g) n 0 None None (nes (Suc g)) s"
    and "\<And>g. g < 4 \<Longrightarrow> sorted_wrt (\<lambda>a b. endIdx a \<le> startIdx b) (cols ! g)"
    and "\<And>g h j. g \<le> h \<Longrightarrow> h \<le> 4 \<Longrightarrow> j < n \<Longrightarrow> nes g ! j \<Longrightarrow> nes h ! j"
proof -
  obtain nes where nes: "length nes = Suc 4" "nes ! 0 = replicate n False" "length cols = 4"
      "\<forall>g < 4. scan_labels (\<lambda>k. label_at (keyAxis ! k) (0 + g)) n 0 None None (nes ! g) =
        (cols ! g, nes ! Suc g)"
    using aggr_columns_arrays [of 4 "replicate n False" keyAxis 0]
    unfolding cols_def aggrKeyAxisLabel_def n_def by blast
  have scan: "scan_labels (\<lambda>k. label_at (keyAxis ! k) g) n 0 None None (nes ! g) =
      (cols ! g, nes ! Suc g)" if "g < 4" for g
    using nes(4) that by simp
  note from_start = scan_labels_ok [where k = 0 and st = None and lastL = None, simplified]
  have len: "length (nes ! g) = n" if "g \<le> 4" for g
    using that
  proof (induction g)
    case (Suc g)
    then have "g < 4" "length (nes ! g) = n" by simp_all
    with from_start [OF this(2) scan [OF this(1)]] show ?case by simp
  qed (simp add: nes)
  have ok: "(\<forall>j < n. nes ! g ! j \<longrightarrow> nes ! Suc g ! j) \<and>
      (\<forall>s \<in> set (cols ! g). label_ok (\<lambda>k. label_at (keyAxis ! k) g) n 0 None None (nes ! Suc g) s) \<and>
      sorted_wrt (\<lambda>a b. endIdx a \<le> startIdx b) (cols ! g)" if "g < 4" for g
    using from_start [OF len scan [OF that]] that by simp
  have mono: "nes ! h ! j" if "g \<le> h" "h \<le> 4" "j < n" "nes ! g ! j" for g h j
    using that
  proof (induction h rule: dec_induct)
    case (step h)
    then have "h < 4" "nes ! h ! j" by simp_all
    with ok [OF this(1)] step.prems(2) show ?case by blast
  qed
  show ?thesis
    by (rule that [of "\<lambda>g. nes ! g"]) (use nes(3) ok mono in auto)
qed

lemma truncated_length:
  assumes "2 \<le> len" and "len < length str"
  shows "length (truncateString str len) = len + 2"
proof -
  let ?n = "length str"
  have h: "(of_nat len / 2 - 1 :: rat) \<ge> 0" using assms(1) by (simp add: field_simps)
  have a: "js_trunc (of_nat len / 2 - 1) = int (len div 2) - 1"
  proof -
    have "\<lfloor>(of_nat len / 2 :: rat)\<rfloor> = int (len div 2)"
      using floor_divide_of_nat_eq [of len 2] by simp
    with h show ?thesis by (simp add: js_trunc_def)
  qed
  have pos: "0 \<le> (of_nat ?n - of_nat len / 2 + 1 :: rat)" using assms(2) by (simp add: field_simps)
  have b: "js_trunc (of_nat ?n - of_nat len / 2 + 1) = int ?n - int ((len + 1) div 2) + 1"
  proof -
    have "\<lceil>(of_nat len / 2 :: rat)\<rceil> = int ((len + 1) div 2)"
      by (cases "even len") (auto elim!: evenE oddE simp: ceiling_eq_iff field_simps)
    then have "\<lfloor>- (of_nat len / 2 :: rat)\<rfloor> = - int ((len + 1) div 2)"
      by (metis floor_minus)
    moreover have "of_nat ?n - of_nat len / 2 + 1 = of_int (int ?n + 1) + (- (of_nat len / 2 :: rat))" by simp
    ultimately have "\<lfloor>of_nat ?n - of_nat len / 2 + (1 :: rat)\<rfloor> = int ?n + 1 - int ((len + 1) div 2)"
      by (metis add_uminus_conv_diff floor_add_int add.commute)
    with pos show ?thesis by (simp add: js_trunc_def)
  qed
  have c: "js_trunc (of_nat ?n) = int ?n" by (simp add: js_trunc_def)
  have half: "(len + 1) div 2 \<le> ?n" "1 \<le> len div 2" using assms by auto
  have frm: "\<not> int ?n - int ((len + 1) div 2) + 1 < 0"
      "nat (int ?n - int ((len + 1) div 2) + 1) = ?n + 1 - (len + 1) div 2" using half by auto
  have "length (substr str 0 (of_nat len / 2 - 1)) = len div 2 - 1"
    using half assms(2) by (simp add: substr_def a js_trunc_def [of 0] nat_diff_distrib)
  moreover have "length (substr str (of_nat ?n - of_nat len / 2 + 1) (of_nat ?n)) = (len + 1) div 2 - 1"
    unfolding substr_def Let_def b c using frm half by simp
  ultimately show ?thesis
    using assms half by (auto simp: truncateString_def)
qed

subsection \<open>Colours and levels\<close>

text \<open>What \<open>Math.log\<close> satisfies on the values a heatmap shows: 0, and numbers from 1 on.\<close>

definition log_like :: "(rat \<Rightarrow> jsnum) \<Rightarrow> bool" where
  "log_like mlog \<longleftrightarrow>
     mlog 0 = NegInf \<and>
     (\<forall>x. 1 \<le> x \<longrightarrow> (\<exists>y. mlog x = Fin y \<and> 0 \<le> y)) \<and>
     (\<forall>x y a b. 1 \<le> x \<and> x \<le> y \<and> mlog x = Fin a \<and> mlog y = Fin b \<longrightarrow> a \<le> b) \<and>
     (\<forall>x b. 1 < x \<and> mlog x = Fin b \<longrightarrow> 0 < b)"

lemma level_bound:
  assumes "log_like mlog" and "1 < mx" and "v = 0 \<or> 1 \<le> v" and "v \<le> mx"
  shows "unat (to_uint8 (js_div (mlog v) (mlog mx) * Fin (of_nat rasterizeLevel))) \<le> rasterizeLevel"
proof -
  obtain b where b: "mlog mx = Fin b" "0 < b"
    using assms(1,2) unfolding log_like_def by (metis less_imp_le)
  show ?thesis
  proof (cases "v = 0")
    case True
    with assms(1) b show ?thesis by (simp add: log_like_def sign_inf_def rasterizeLevel_def)
  next
    case False
    with assms(3) have v: "1 \<le> v" by simp
    then obtain a where a: "mlog v = Fin a" "0 \<le> a"
      using assms(1) unfolding log_like_def by metis
    have "a \<le> b" using assms(1,4) v a(1) b(1) unfolding log_like_def by blast
    then have "a / b * 100 \<le> 100" "0 \<le> a / b * 100" using a(2) b(2) by (simp_all add: field_simps)
    then have bounds: "0 \<le> js_trunc (a / b * 100)" "js_trunc (a / b * 100) \<le> 100"
      by (simp_all add: js_trunc_def floor_le_iff)
    have "unat (of_int (js_trunc (a / b * 100)) :: 8 word) = nat (js_trunc (a / b * 100) mod 256)"
      unfolding unat_eq_nat_uint uint_word_of_int [of "js_trunc (a / b * 100)"] by simp
    with bounds a b show ?thesis
      by (simp add: rasterizeLevel_def)
  qed
qed

subsection \<open>Properties\<close>

text \<open>
  The sections drawn on an axis never overlap: for a monotone scale and consecutive sections,
  \<open>scaleSections\<close> returns non-empty intervals inside the visible range of the canvas, each ending
  before the next one starts, whether they were drawn as they are or merged from small ones.
\<close>

theorem scaleSections_no_overlap:
  assumes "mono scale" and "sorted_wrt (\<lambda>a b. endIdx a \<le> startIdx b) sections"
    and "\<forall>s \<in> set sections. startIdx s \<le> endIdx s"
  shows "sorted_wrt (\<lambda>a b. endPos a \<le> startPos b) (scaleSections sections focusDomain rng scale merge) \<and>
    (\<forall>d. d \<in> set (scaleSections sections focusDomain rng scale merge) \<longrightarrow>
       fst rng \<le> startPos d \<and> startPos d < endPos d \<and> endPos d \<le> snd rng)"
proof -
  let ?st = "fold (scale_step focusDomain rng scale merge) sections ([], None, False)"
  define pos where "pos = Min (insert 0 ((\<lambda>s. scale (of_nat (startIdx s))) ` set sections))"
  have "\<forall>s \<in> set sections. pos \<le> scale (of_nat (startIdx s))" by (simp add: pos_def)
  moreover have "laid_out rng pos (state_sections ([] :: 'a DisplaySection list, None, False))"
    by (simp add: laid_out_def state_sections_def)
  ultimately obtain q where "laid_out rng q (state_sections ?st)"
    using scale_fold_laid_out [OF assms(1) _ assms(2,3)] by blast
  then have "laid_out rng q (fst ?st)"
    by (auto simp: state_sections_def laid_out_def sorted_wrt_append)
  then show ?thesis by (simp add: scaleSections_def laid_out_def)
qed

theorem scaleSections_no_overlap_witness:
  "sorted_wrt (\<lambda>a b. endPos a \<le> startPos b)
     (scaleSections [\<lparr>sec_val = ''a'', startIdx = 0, endIdx = 1\<rparr>, \<lparr>sec_val = ''b'', startIdx = 1, endIdx = 9\<rparr>]
        None (0, 100) (\<lambda>x. 10 * x) (\<lambda>a b. ''''))"
proof -
  have "mono (\<lambda>x :: rat. 10 * x)" by (simp add: mono_def)
  from scaleSections_no_overlap [OF this,
      of "[\<lparr>sec_val = ''a'', startIdx = 0, endIdx = 1\<rparr>, \<lparr>sec_val = ''b'', startIdx = 1, endIdx = 9\<rparr>]"
        None "(0, 100)" "\<lambda>a b. ''''"]
  show ?thesis by simp
qed

text \<open>
  The last small sections are not drawn: whatever section the loop is still merging when it
  ends is lost, so an axis with one section of at most three pixels shows nothing at all.
\<close>

theorem scaleSections_drops_pending:
  assumes "scale (of_nat b) - scale (of_nat a) \<le> 3"
  shows "scaleSections [\<lparr>sec_val = v, startIdx = a, endIdx = b\<rparr>] focusDomain rng scale merge = []"
proof -
  have "\<not> mergeWidth < min (scale (of_nat b)) (snd rng) - max (scale (of_nat a)) (fst rng)"
    using assms by (auto simp: mergeWidth_def min_def max_def)
  then show ?thesis
    by (simp add: scaleSections_def scale_step_def flush_merged_def Let_def)
qed

theorem scaleSections_drops_pending_witness:
  "scaleSections [\<lparr>sec_val = ''t'', startIdx = 0, endIdx = 1\<rparr>] None (0, 100) (\<lambda>x. 2 * x) (\<lambda>a b. '''') = []"
  using scaleSections_drops_pending [of "\<lambda>x. 2 * x" 1 0 "''t''"] by simp

text \<open>
  The label columns of the key axis form a tree. Each of the four columns consists of
  consecutive sections without overlap; a section carries the label of the key it starts at, and
  every key inside it has that label or none in this column; and a section of a column further to
  the right lies inside or outside each section of the columns to its left, never across its border.
\<close>

theorem label_columns_nest:
  fixes keyAxis :: "string option list list"
  defines "cols \<equiv> aggrKeyAxisLabel keyAxis"
  shows "length cols = 4 \<and>
    (\<forall>g < 4. sorted_wrt (\<lambda>a b. endIdx a \<le> startIdx b) (cols ! g)) \<and>
    (\<forall>g < 4. \<forall>s \<in> set (cols ! g). startIdx s < endIdx s \<and> endIdx s \<le> length keyAxis \<and>
       label_at (keyAxis ! startIdx s) g = Some (sec_val s) \<and>
       (\<forall>j. startIdx s < j \<and> j < endIdx s \<longrightarrow> label_at (keyAxis ! j) g \<in> {None, Some (sec_val s)})) \<and>
    (\<forall>g h. \<forall>a \<in> set (cols ! g). \<forall>b \<in> set (cols ! h). g < h \<and> h < 4 \<longrightarrow>
       startIdx a \<le> startIdx b \<and> endIdx b \<le> endIdx a \<or> endIdx b \<le> startIdx a \<or> endIdx a \<le> startIdx b)"
proof -
  let ?n = "length keyAxis"
  obtain nes where len: "length cols = 4"
    and ok: "\<And>g s. g < 4 \<Longrightarrow> s \<in> set (cols ! g) \<Longrightarrow>
      label_ok (\<lambda>k. label_at (keyAxis ! k) g) ?n 0 None None (nes (Suc g)) s"
    and sorted: "\<And>g. g < 4 \<Longrightarrow> sorted_wrt (\<lambda>a b. endIdx a \<le> startIdx b) (cols ! g)"
    and mono: "\<And>g h j. g \<le> h \<Longrightarrow> h \<le> 4 \<Longrightarrow> j < ?n \<Longrightarrow> nes g ! j \<Longrightarrow> nes h ! j"
    unfolding cols_def by (rule label_arrays [of keyAxis]) blast
  have nest: "startIdx a \<le> startIdx b \<and> endIdx b \<le> endIdx a \<or> endIdx b \<le> startIdx a \<or> endIdx a \<le> startIdx b"
    if "g < h" "h < 4" "a \<in> set (cols ! g)" "b \<in> set (cols ! h)" for g h a b
  proof (rule ccontr)
    assume no: "\<not> ?thesis"
    have A: "label_ok (\<lambda>k. label_at (keyAxis ! k) g) ?n 0 None None (nes (Suc g)) a"
      and B: "label_ok (\<lambda>k. label_at (keyAxis ! k) h) ?n 0 None None (nes (Suc h)) b"
      using ok that by auto
    have inside: "\<not> nes (Suc h) ! j" if "startIdx b < j" "j < endIdx b" for j
      using B that by (auto simp: label_ok_def)
    have "nes (Suc h) ! startIdx a"
      using A mono [of "Suc g" "Suc h" "startIdx a"] that by (auto simp: label_ok_def)
    with no inside [of "startIdx a"] have 1: "startIdx a \<le> startIdx b" by linarith
    with no have 2: "endIdx a < endIdx b" "startIdx b < endIdx a" by auto
    then have "endIdx a < ?n" using B by (auto simp: label_ok_def)
    then have "nes (Suc h) ! endIdx a"
      using A mono [of "Suc g" "Suc h" "endIdx a"] that by (auto simp: label_ok_def)
    with inside [of "endIdx a"] 2 show False by blast
  qed
  have each: "startIdx s < endIdx s \<and> endIdx s \<le> ?n \<and> label_at (keyAxis ! startIdx s) g = Some (sec_val s) \<and>
      (\<forall>j. startIdx s < j \<and> j < endIdx s \<longrightarrow> label_at (keyAxis ! j) g \<in> {None, Some (sec_val s)})"
    if "g < 4" "s \<in> set (cols ! g)" for g s
    using ok [OF that] by (auto simp: label_ok_def)
  show ?thesis
    using len sorted nest each by blast
qed

theorem label_columns_nest_witness:
  "sorted_wrt (\<lambda>a b. endIdx a \<le> startIdx b)
     (aggrKeyAxisLabel [[Some ''db'', Some ''t1''], [Some ''db'', Some ''t2''], [Some ''meta'']] ! 1)"
  using label_columns_nest [of "[[Some ''db'', Some ''t1''], [Some ''db'', Some ''t2''], [Some ''meta'']]"]
  by simp

text \<open>
  The colour level of a cell is always one of the rasterized colours: for data of zeros and
  values from 1 up to the maximum, with a maximum above 1, \<open>normalizeData\<close> gives one byte per cell,
  at most 100, so the buffer shows a colour of the scheme for every cell and no read is out of range.
\<close>

theorem heatmap_levels_in_range:
  assumes "log_like mlog" and "1 < mx" and "d \<noteq> []" and "\<forall>row \<in> set d. length row = length (d ! 0)"
    and "\<forall>row \<in> set d. \<forall>v \<in> set row. (v = 0 \<or> 1 \<le> v) \<and> v \<le> mx"
  shows "length (normalizeData mlog d mx) = length d * length (d ! 0) \<and>
    (\<forall>v \<in> set (normalizeData mlog d mx). unat v \<le> 100) \<and>
    createBuffer (normalizeData mlog d mx) (rasterizedColors color) =
      map (\<lambda>v. case color (unat v) of (r, g, b) \<Rightarrow> pack_color r g b) (normalizeData mlog d mx)"
proof -
  have len: "length (normalizeData mlog d mx) = length d * length (d ! 0)"
    using assms(3) by (simp add: normalizeData_def Let_def)
  have lvl: "unat v \<le> 100" if mem: "v \<in> set (normalizeData mlog d mx)" for v
  proof -
    obtain addr where addr: "addr < length d * length (d ! 0)" and v: "v = to_uint8 (js_div
        (mlog (d ! (addr mod length d) ! (addr div length d))) (mlog mx) * Fin (of_nat rasterizeLevel))"
      using mem assms(3) unfolding normalizeData_def Let_def by auto
    have col: "addr mod length d < length d" using assms(3) by simp
    have row: "addr div length d < length (d ! 0)"
      using addr by (simp add: less_mult_imp_div_less mult.commute)
    then have "d ! (addr mod length d) ! (addr div length d) \<in> set (d ! (addr mod length d))"
      using assms(4) col by (metis nth_mem)
    with assms(5) col have "(d ! (addr mod length d) ! (addr div length d) = 0 \<or>
        1 \<le> d ! (addr mod length d) ! (addr div length d)) \<and> d ! (addr mod length d) ! (addr div length d) \<le> mx"
      using nth_mem by blast
    with level_bound [OF assms(1,2)] show ?thesis unfolding v by (simp add: rasterizeLevel_def)
  qed
  have "createBuffer (normalizeData mlog d mx) (rasterizedColors color) =
      map (\<lambda>v. case color (unat v) of (r, g, b) \<Rightarrow> pack_color r g b) (normalizeData mlog d mx)"
    unfolding createBuffer_def
  proof (rule map_cong [OF refl])
    fix v assume "v \<in> set (normalizeData mlog d mx)"
    then have "unat v < rasterizeLevel + 1" using lvl by (force simp: rasterizeLevel_def)
    then show "(if unat v < length (rasterizedColors color) then rasterizedColors color ! unat v else 0) =
        (case color (unat v) of (r, g, b) \<Rightarrow> pack_color r g b)"
      by (simp add: rasterizedColors_def del: upt_Suc)
  qed
  with len lvl show ?thesis by blast
qed

theorem heatmap_levels_in_range_witness:
  "list_all (\<lambda>v. unat v \<le> 100) (normalizeData (\<lambda>x. if x = 0 then NegInf else Fin (x - 1)) [[0, 1], [5, 9]] 9)"
proof -
  have "log_like (\<lambda>x. if x = 0 then NegInf else Fin (x - 1))" by (auto simp: log_like_def)
  from heatmap_levels_in_range [OF this, of 9 "[[0, 1], [5, 9]]"] show ?thesis by (simp add: list_all_iff)
qed

text \<open>
  Colours are packed without loss: of the packed colour of three byte-sized channels, the lowest
  byte is red, then green, then blue, and the alpha byte is always opaque.
\<close>

theorem pack_color_channels:
  fixes r g b :: "8 word"
  defines "p \<equiv> pack_color (ucast r) (ucast g) (ucast b)"
  shows "ucast p = r \<and> ucast (drop_bit 8 p) = g \<and> ucast (drop_bit 16 p) = b \<and>
    ucast (drop_bit 24 p) = (0xff :: 8 word)"
proof -
  have mask: "bit (0xff000000 :: 32 word) n \<longleftrightarrow> 24 \<le> n \<and> n < 32" for n
  proof -
    have eq: "(0xff000000 :: 32 word) = push_bit 24 (mask 8)"
      by (simp add: mask_eq_exp_minus_1 push_bit_eq_mult)
    show ?thesis unfolding eq by (auto simp: bit_push_bit_iff bit_mask_iff)
  qed
  have bits: "bit p n \<longleftrightarrow> n < 32 \<and> (bit r n \<or> (8 \<le> n \<and> bit g (n - 8)) \<or> (16 \<le> n \<and> bit b (n - 16)) \<or> 24 \<le> n)"
    for n
    unfolding p_def pack_color_def bit_or_iff bit_push_bit_iff bit_ucast_iff mask
    by (auto dest: bit_imp_le_length)
  have lim: "bit w n \<Longrightarrow> n < 8" for w :: "8 word" and n
    using bit_imp_le_length [of w n] by simp
  have "ucast p = r" by (rule bit_word_eqI) (auto simp: bit_ucast_iff bits dest: lim)
  moreover have "ucast (drop_bit 8 p) = g"
    by (rule bit_word_eqI) (auto simp: bit_ucast_iff bit_drop_bit_eq bits dest: lim)
  moreover have "ucast (drop_bit 16 p) = b"
    by (rule bit_word_eqI) (auto simp: bit_ucast_iff bit_drop_bit_eq bits dest: lim)
  moreover have "ucast (drop_bit 24 p) = (mask 8 :: 8 word)"
    by (rule bit_word_eqI) (auto simp: bit_ucast_iff bit_drop_bit_eq bits bit_mask_iff)
  moreover have "(mask 8 :: 8 word) = 0xff" by (simp add: mask_eq_exp_minus_1)
  ultimately show ?thesis by simp
qed

text \<open>
  Shortened labels keep the head and the tail of the text around four dots, and are two
  characters longer than the given length, so a text that is only a little too long gets no shorter.
\<close>

theorem truncateString_length:
  assumes "2 \<le> len"
  shows "length (truncateString str len) = (if len < length str then len + 2 else length str) \<and>
    take (len div 2 - 1) (truncateString str len) = take (len div 2 - 1) str"
proof -
  have "take (len div 2 - 1) (truncateString str len) = take (len div 2 - 1) str"
  proof (cases "len < length str")
    case True
    have "\<lfloor>(of_nat len / 2 :: rat)\<rfloor> = int (len div 2)"
      using floor_divide_of_nat_eq [of len 2] by simp
    moreover have "0 \<le> (of_nat len / 2 - 1 :: rat)" using assms by (simp add: field_simps)
    ultimately have "js_trunc (of_nat len / 2 - 1) = int (len div 2) - 1" by (simp add: js_trunc_def)
    with True show ?thesis
      by (simp add: truncateString_def substr_def js_trunc_def [of 0] nat_diff_distrib)
  qed (simp add: truncateString_def)
  with truncated_length [OF assms, of str] show ?thesis
    by (cases "len < length str") (simp_all add: truncateString_def [of _ len])
qed

theorem truncateString_length_witness:
  "length (truncateString ''abcdefghij'' 8) = 10"
  using truncateString_length [of 8 "''abcdefghij''"] by simp

end
