(* ===== verification/HeatmapChart.thy ===== *)
theory HeatmapChart
  imports HeatmapAxis
begin

text \<open>
  The interaction of the heatmap, \<open>KeyViz/heatmap/chart.ts\<close>: zooming, panning, resizing, the tooltip
  and brushing. The zoom transform and the linear scales are objects of d3: a record of the
  operations the chart calls, with their documented formulas as the laws of the locale \<open>d3_zoom\<close>.
  Drawing is not modelled.
\<close>

record 'tr d3 =
  z_identity :: 'tr
  z_translate :: "'tr \<Rightarrow> rat \<Rightarrow> rat \<Rightarrow> 'tr"
  z_scale :: "'tr \<Rightarrow> rat \<Rightarrow> 'tr"
  z_k :: "'tr \<Rightarrow> rat"
  z_x :: "'tr \<Rightarrow> rat"
  z_y :: "'tr \<Rightarrow> rat"
  applyX :: "'tr \<Rightarrow> rat \<Rightarrow> rat"
  applyY :: "'tr \<Rightarrow> rat \<Rightarrow> rat"
  invertX :: "'tr \<Rightarrow> rat \<Rightarrow> rat"
  invertY :: "'tr \<Rightarrow> rat \<Rightarrow> rat"
  rescaleX_invert :: "'tr \<Rightarrow> rat \<Rightarrow> rat \<Rightarrow> rat \<Rightarrow> rat"
  rescaleY_invert :: "'tr \<Rightarrow> rat \<Rightarrow> rat \<Rightarrow> rat \<Rightarrow> rat"

text \<open>
  The variables the chart closes over. \<open>timeAxis\<close> and \<open>keyAxis\<close> are the axes of the data: the time
  stamps, and the keys with their labels.
\<close>

record 'tr chart =
  brightness :: rat
  zoomTransform :: 'tr
  pinned :: bool
  hidden :: bool
  tip_x :: rat
  tip_y :: rat
  focusStatus :: "((rat \<times> rat) \<times> (rat \<times> rat)) option"
  isBrushing :: bool
  c_width :: rat
  c_height :: rat
  canvasWidth :: rat
  canvasHeight :: rat

record heatmap_data =
  timeAxis :: "int list"
  keyAxis :: "(string \<times> string list option) list"

definition margin_top :: rat where "margin_top = 25"
definition margin_right :: rat where "margin_right = 40"
definition margin_bottom :: rat where "margin_bottom = 70"
definition margin_left :: rat where "margin_left = 100"

definition init_chart :: "'tr d3 \<Rightarrow> 'tr chart" where
  "init_chart D =
     \<lparr>brightness = 1, zoomTransform = z_identity D, pinned = False, hidden = True, tip_x = 0,
      tip_y = 0, focusStatus = None, isBrushing = False, c_width = 0, c_height = 0,
      canvasWidth = 0, canvasHeight = 0\<rparr>"

definition chart_resetZoom :: "'tr d3 \<Rightarrow> 'tr chart \<Rightarrow> 'tr chart" where
  "chart_resetZoom D c = c\<lparr>zoomTransform := z_identity D\<rparr>"

definition chart_size :: "'tr d3 \<Rightarrow> rat \<Rightarrow> rat \<Rightarrow> 'tr chart \<Rightarrow> 'tr chart" where
  "chart_size D newWidth newHeight c =
     (let newCanvasWidth = newWidth - margin_left - margin_right;
          newCanvasHeight = newHeight - margin_top - margin_bottom;
          zt = zoomTransform c;
          c = (if canvasWidth c \<noteq> 0 \<and> canvasHeight c \<noteq> 0
               then c\<lparr>zoomTransform := z_scale D (z_translate D (z_identity D)
                        (z_x D zt * newCanvasWidth / canvasWidth c)
                        (z_y D zt * newCanvasHeight / canvasHeight c)) (z_k D zt)\<rparr>
               else c)
      in c\<lparr>c_width := newWidth, c_height := newHeight, canvasWidth := newCanvasWidth,
           canvasHeight := newCanvasHeight\<rparr>)"

definition constrainBoucing :: "'tr d3 \<Rightarrow> rat \<Rightarrow> rat \<Rightarrow> 'tr \<Rightarrow> 'tr" where
  "constrainBoucing D w h t =
     (let bounceRatio = 4 / 5;
          dragLeft = max 0 (applyX D t 0);
          dragRight = max 0 (w - applyX D t w);
          dragTop = max 0 (applyY D t 0);
          dragBottom = max 0 (h - applyY D t h)
      in z_scale D (z_translate D (z_identity D)
           (of_int \<lfloor>z_x D t - (dragLeft - dragRight) * bounceRatio\<rfloor>)
           (of_int \<lfloor>z_y D t - (dragTop - dragBottom) * bounceRatio\<rfloor>)) (z_k D t))"

text \<open>\<open>dx1 > dx0 ? (dx0 + dx1) / 2 : Math.min(0, dx0) || Math.max(0, dx1)\<close>\<close>

definition recenter :: "rat \<Rightarrow> rat \<Rightarrow> rat" where
  "recenter d0 d1 =
     (if d0 < d1 then (d0 + d1) / 2 else if min 0 d0 \<noteq> 0 then min 0 d0 else max 0 d1)"

definition constrainHard :: "'tr d3 \<Rightarrow> rat \<Rightarrow> rat \<Rightarrow> 'tr \<Rightarrow> 'tr" where
  "constrainHard D w h t =
     z_translate D t
       (recenter (invertX D t 0) (invertX D t w - w))
       (recenter (invertY D t 0) (invertY D t h - h))"

definition hideTooltips :: "'tr chart \<Rightarrow> 'tr chart" where
  "hideTooltips c = c\<lparr>hidden := True\<rparr>"

definition focusPoint :: "rat \<Rightarrow> rat \<Rightarrow> 'tr chart \<Rightarrow> 'tr chart" where
  "focusPoint x y c = c\<lparr>focusStatus := Some ((x, x + 1 / 1000), (y, y + 1 / 1000))\<rparr>"

definition outside :: "'tr chart \<Rightarrow> rat \<times> rat \<Rightarrow> bool" where
  "outside c m \<longleftrightarrow> fst m < 0 \<or> canvasWidth c < fst m \<or> snd m < 0 \<or> canvasHeight c < snd m"

text \<open>The canvas positions as positions on the axes, under the current zoom.\<close>

definition axis_x :: "'tr d3 \<Rightarrow> heatmap_data \<Rightarrow> 'tr chart \<Rightarrow> rat \<Rightarrow> rat" where
  "axis_x D d c p =
     rescaleX_invert D (zoomTransform c) (of_nat (length (timeAxis d)) - 1) (canvasWidth c) p"

definition axis_y :: "'tr d3 \<Rightarrow> heatmap_data \<Rightarrow> 'tr chart \<Rightarrow> rat \<Rightarrow> rat" where
  "axis_y D d c p =
     rescaleY_invert D (zoomTransform c) (of_nat (length (keyAxis d)) - 1) (canvasHeight c) p"

text \<open>\<open>m\<close> is the position of the mouse on the canvas, \<^term>\<open>None\<close> when d3 has none (\<open>NaN\<close>).\<close>

definition showTooltips :: "'tr d3 \<Rightarrow> heatmap_data \<Rightarrow> (rat \<times> rat) option \<Rightarrow> 'tr chart \<Rightarrow> 'tr chart" where
  "showTooltips D d m c =
     (let c = c\<lparr>hidden := False\<rparr>
      in if pinned c then c
         else (case m of
                 None \<Rightarrow> c
               | Some m \<Rightarrow>
                   (let x = axis_x D d c (fst m); y = axis_y D d c (snd m);
                        c = (if \<not> isBrushing c then focusPoint x y c else c)
                    in if outside c m then hideTooltips c else c\<lparr>tip_x := x, tip_y := y\<rparr>)))"

definition zooming ::
    "'tr d3 \<Rightarrow> heatmap_data \<Rightarrow> bool \<Rightarrow> 'tr \<Rightarrow> (rat \<times> rat) option \<Rightarrow> 'tr chart \<Rightarrow> 'tr chart" where
  "zooming D d byMouseMove t m c =
     (if byMouseMove
      then hideTooltips (c\<lparr>zoomTransform := constrainBoucing D (canvasWidth c) (canvasHeight c) t\<rparr>)
      else showTooltips D d m (c\<lparr>zoomTransform := constrainHard D (canvasWidth c) (canvasHeight c) t\<rparr>))"

definition zoomEnd :: "'tr d3 \<Rightarrow> heatmap_data \<Rightarrow> (rat \<times> rat) option \<Rightarrow> 'tr chart \<Rightarrow> 'tr chart" where
  "zoomEnd D d m c =
     (let c = c\<lparr>zoomTransform := constrainHard D (canvasWidth c) (canvasHeight c) (zoomTransform c)\<rparr>
      in if pinned c then showTooltips D d m c else c)"

definition mouseout :: "'tr chart \<Rightarrow> 'tr chart" where
  "mouseout c = (if \<not> pinned c \<and> \<not> isBrushing c then c\<lparr>focusStatus := None\<rparr> else c)"

definition clicked ::
    "'tr d3 \<Rightarrow> heatmap_data \<Rightarrow> bool \<Rightarrow> rat \<times> rat \<Rightarrow> 'tr chart \<Rightarrow> 'tr chart" where
  "clicked D d defaultPrevented m c =
     (if defaultPrevented then c
      else if outside c m then c
      else showTooltips D d (Some m) (c\<lparr>pinned := \<not> pinned c\<rparr>))"

type_synonym brush_selection = "(rat \<times> rat) \<times> (rat \<times> rat)"

definition brushing :: "'tr d3 \<Rightarrow> heatmap_data \<Rightarrow> brush_selection option \<Rightarrow> 'tr chart \<Rightarrow> 'tr chart" where
  "brushing D d sel c =
     (case sel of
        Some ((x0, y0), (x1, y1)) \<Rightarrow>
          c\<lparr>focusStatus := Some ((axis_x D d c x0, axis_x D d c x1), (axis_y D d c y0, axis_y D d c y1))\<rparr>
      | None \<Rightarrow> c)"

text \<open>
  The range passed to \<open>onBrush\<close>. An index out of range gives an undefined time; an undefined key
  entry makes the access to its \<open>key\<close> throw.
\<close>

record HeatmapRange =
  starttime :: "int option"
  endtime :: "int option"
  startkey :: string
  endkey :: string

datatype brush_result = NoBrush | KeyTypeError | Brushed HeatmapRange

definition elem_at :: "'a list \<Rightarrow> int \<Rightarrow> 'a option" where
  "elem_at xs i = (if 0 \<le> i \<and> i < int (length xs) then Some (xs ! nat i) else None)"

definition brush_range :: "'tr d3 \<Rightarrow> heatmap_data \<Rightarrow> 'tr chart \<Rightarrow> brush_selection option \<Rightarrow> brush_result" where
  "brush_range D d c sel =
     (case sel of
        None \<Rightarrow> NoBrush
      | Some ((x0, y0), (x1, y1)) \<Rightarrow>
          (case (elem_at (keyAxis d) \<lceil>axis_y D d c y1\<rceil>, elem_at (keyAxis d) \<lfloor>axis_y D d c y0\<rfloor>) of
             (Some sk, Some ek) \<Rightarrow>
               Brushed \<lparr>starttime = elem_at (timeAxis d) \<lfloor>axis_x D d c x0\<rfloor>,
                        endtime = elem_at (timeAxis d) \<lceil>axis_x D d c x1\<rceil>,
                        startkey = fst sk, endkey = fst ek\<rparr>
           | _ \<Rightarrow> KeyTypeError))"

definition brushEnd ::
    "'tr d3 \<Rightarrow> heatmap_data \<Rightarrow> brush_selection option \<Rightarrow> (rat \<times> rat) option \<Rightarrow> 'tr chart \<Rightarrow>
     brush_result \<times> 'tr chart" where
  "brushEnd D d sel m c =
     (let c = c\<lparr>isBrushing := False\<rparr>; r = brush_range D d c sel
      in (r, if r = KeyTypeError then c else showTooltips D d m c))"

subsection \<open>The overview label of the tooltip\<close>

definition getTooltipOverviewLabel :: "string list option \<Rightarrow> string list option \<Rightarrow> string list" where
  "getTooltipOverviewLabel startLabel endLabel =
     (case (startLabel, endLabel) of
        (None, None) \<Rightarrow> []
      | (None, Some e) \<Rightarrow> e
      | (Some s, None) \<Rightarrow> s
      | (Some s, Some e) \<Rightarrow>
          if s = e then s
          else if 1 \<le> length s \<and> length s + 1 = length e \<and> s = take (length s) e then e
          else if 3 \<le> length s \<and> length s = length e \<and>
                  take (length s - 1) s = take (length s - 1) e
          then take (length s - 1) s @ [s ! (length s - 1) @ '' ~ '' @ e ! (length s - 1)]
          else s)"

text \<open>Where the tooltip is placed: on the side of the pointer where there is more room.\<close>

datatype tooltip_pos = LeftTop rat rat | LeftBottom rat rat | RightTop rat rat | RightBottom rat rat

definition tooltip_position :: "rat \<Rightarrow> rat \<Rightarrow> rat \<Rightarrow> rat \<Rightarrow> tooltip_pos" where
  "tooltip_position w h x y =
     (let l = x + 20 + margin_left; r = w - x + 20 + margin_right;
          t = y + 20 + margin_top; b = h - y + 20 + margin_bottom
      in if x < w / 2 then if y < h / 2 then LeftTop l t else LeftBottom l b
         else if y < h / 2 then RightTop r t else RightBottom r b)"

subsection \<open>Events\<close>

datatype 'tr chart_event =
    ZoomBy bool 'tr "(rat \<times> rat) option"
  | ZoomEnd "(rat \<times> rat) option"
  | MouseMove "(rat \<times> rat) option"
  | MouseOut
  | Click bool "rat \<times> rat"
  | BrushStart
  | Brushing "brush_selection option"
  | BrushEnd "brush_selection option" "(rat \<times> rat) option"
  | SetBrightness rat
  | SetBrush bool
  | ResetZoom
  | Size rat rat

fun chart_step :: "'tr d3 \<Rightarrow> heatmap_data \<Rightarrow> 'tr chart_event \<Rightarrow> 'tr chart \<Rightarrow> 'tr chart" where
  "chart_step D d (ZoomBy drag t m) c = zooming D d drag t m c"
| "chart_step D d (ZoomEnd m) c = zoomEnd D d m c"
| "chart_step D d (MouseMove m) c = showTooltips D d m c"
| "chart_step D d MouseOut c = mouseout c"
| "chart_step D d (Click p m) c = clicked D d p m c"
| "chart_step D d BrushStart c = hideTooltips c"
| "chart_step D d (Brushing sel) c = brushing D d sel c"
| "chart_step D d (BrushEnd sel m) c = snd (brushEnd D d sel m c)"
| "chart_step D d (SetBrightness b) c = c\<lparr>brightness := b\<rparr>"
| "chart_step D d (SetBrush b) c = c\<lparr>isBrushing := b\<rparr>"
| "chart_step D d ResetZoom c = chart_resetZoom D c"
| "chart_step D d (Size w h) c = chart_size D w h c"

text \<open>Whether the view is being dragged, that is, may leave the canvas until the drag ends.\<close>

fun dragging :: "'tr chart_event \<Rightarrow> bool \<Rightarrow> bool" where
  "dragging (ZoomBy drag t m) _ = drag"
| "dragging (ZoomEnd m) _ = False"
| "dragging ResetZoom _ = False"
| "dragging _ b = b"

text \<open>What d3 and the page send: zoom levels in \<open>scaleExtent([1, 128])\<close>, sizes larger than the margins.\<close>

fun event_ok :: "'tr d3 \<Rightarrow> 'tr chart_event \<Rightarrow> bool" where
  "event_ok D (ZoomBy drag t m) = (1 \<le> z_k D t \<and> z_k D t \<le> 128)"
| "event_ok D (Size w h) = (margin_left + margin_right < w \<and> margin_top + margin_bottom < h)"
| "event_ok D _ = True"

subsection \<open>The contract of the zoom transform\<close>

locale d3_zoom =
  fixes D :: "'tr d3"
  assumes identity: "z_k D (z_identity D) = 1" "z_x D (z_identity D) = 0" "z_y D (z_identity D) = 0"
    and translate: "z_k D (z_translate D t dx dy) = z_k D t"
      "z_x D (z_translate D t dx dy) = z_x D t + z_k D t * dx"
      "z_y D (z_translate D t dx dy) = z_y D t + z_k D t * dy"
    and scale: "z_k D (z_scale D t s) = z_k D t * s" "z_x D (z_scale D t s) = z_x D t"
      "z_y D (z_scale D t s) = z_y D t"
    and apply_xy: "applyX D t p = p * z_k D t + z_x D t" "applyY D t p = p * z_k D t + z_y D t"
    and invert_xy: "invertX D t p = (p - z_x D t) / z_k D t" "invertY D t p = (p - z_y D t) / z_k D t"
    and rescale: "w \<noteq> 0 \<Longrightarrow> rescaleX_invert D t m w p = invertX D t p / w * m"
      "w \<noteq> 0 \<Longrightarrow> rescaleY_invert D t m w p = invertY D t p / w * m"

text \<open>The view covers the canvas: no empty strip is visible at any side.\<close>

definition covers :: "rat \<Rightarrow> rat \<Rightarrow> rat \<Rightarrow> bool" where
  "covers k x w \<longleftrightarrow> 1 \<le> k \<and> x \<le> 0 \<and> w \<le> w * k + x"

definition view_ok :: "'tr d3 \<Rightarrow> 'tr \<Rightarrow> rat \<Rightarrow> rat \<Rightarrow> bool" where
  "view_ok D t w h \<longleftrightarrow> covers (z_k D t) (z_x D t) w \<and> covers (z_k D t) (z_y D t) h"

lemma recenter_covers:
  assumes "1 \<le> k" and "0 \<le> w"
  shows "covers k (x + k * recenter ((0 - x) / k) ((w - x) / k - w)) w"
proof -
  have k: "0 < k" using assms(1) by simp
  have wk: "w \<le> w * k" using assms by (simp add: mult_le_cancel_left1)
  have mono: "\<not> (0 - x) / k < (w - x) / k - w"
    using k wk by (simp add: field_simps)
  show ?thesis
  proof (cases "0 < x")
    case True
    then have "min 0 ((0 - x) / k) = - x / k" "- x / k \<noteq> 0" using k by (simp_all add: min_def field_simps)
    with mono have "recenter ((0 - x) / k) ((w - x) / k - w) = - x / k" by (simp add: recenter_def)
    then have "x + k * recenter ((0 - x) / k) ((w - x) / k - w) = 0" using k by simp
    with assms wk show ?thesis by (simp add: covers_def)
  next
    case False
    then have "min 0 ((0 - x) / k) = 0" using k by (simp add: min_def field_simps)
    with mono have r: "recenter ((0 - x) / k) ((w - x) / k - w) = max 0 ((w - x) / k - w)"
      by (simp add: recenter_def)
    show ?thesis
    proof (cases "0 < (w - x) / k - w")
      case True
      then have eq: "x + k * max 0 ((w - x) / k - w) = w - w * k" using k by (simp add: field_simps)
      show ?thesis unfolding r eq using assms wk by (simp add: covers_def)
    next
      case F: False
      then have le: "w - x \<le> w * k" "max 0 ((w - x) / k - w) = 0" using k by (simp_all add: field_simps)
      show ?thesis unfolding r le(2) using False le(1) assms by (simp add: covers_def)
    qed
  qed
qed

lemma covers_id: "covers k x w \<Longrightarrow> 0 \<le> w \<Longrightarrow> recenter ((0 - x) / k) ((w - x) / k - w) = 0"
proof -
  assume c: "covers k x w" and w: "0 \<le> w"
  then have k: "0 < k" by (simp add: covers_def)
  have "(w - x) / k - w \<le> 0" "0 \<le> (0 - x) / k" using c k by (auto simp: covers_def field_simps)
  then show ?thesis by (auto simp: recenter_def min_def max_def)
qed

lemma covers_inside:
  assumes "covers k x w" and "0 \<le> p" and "p \<le> w"
  shows "0 \<le> (p - x) / k" and "(p - x) / k \<le> w"
proof -
  have k: "0 < k" using assms(1) by (simp add: covers_def)
  show "0 \<le> (p - x) / k" using assms k by (simp add: covers_def)
  show "(p - x) / k \<le> w" using assms k by (simp add: covers_def field_simps)
qed

lemma covers_resize:
  assumes "covers k x w" and "0 < w" and "0 < w'"
  shows "covers k (x * w' / w) w'"
proof -
  have "w * (w' / w) \<le> (w * k + x) * (w' / w)"
    using assms by (intro mult_right_mono) (auto simp: covers_def)
  moreover have "x * w' / w \<le> 0"
    using assms by (simp add: covers_def divide_nonpos_pos mult_nonpos_nonneg)
  ultimately show ?thesis
    using assms by (auto simp: covers_def field_simps)
qed

context d3_zoom
begin

lemma constrainHard_ok:
  assumes "1 \<le> z_k D t" and "0 \<le> w" and "0 \<le> h"
  shows "view_ok D (constrainHard D w h t) w h" and "z_k D (constrainHard D w h t) = z_k D t"
  using recenter_covers [OF assms(1,2)] recenter_covers [OF assms(1,3)]
  by (simp_all add: view_ok_def constrainHard_def translate invert_xy)

lemma constrainHard_id:
  assumes "view_ok D t w h" and "0 \<le> w" and "0 \<le> h"
  shows "z_k D (constrainHard D w h t) = z_k D t" "z_x D (constrainHard D w h t) = z_x D t"
    "z_y D (constrainHard D w h t) = z_y D t"
  using assms covers_id by (simp_all add: view_ok_def constrainHard_def translate invert_xy)

lemma constrainBoucing_k [simp]: "z_k D (constrainBoucing D w h t) = z_k D t"
  by (simp add: constrainBoucing_def Let_def identity translate scale)

text \<open>The invariant of the chart; the view covers the canvas unless it is being dragged.\<close>

definition chart_inv :: "bool \<Rightarrow> 'tr chart \<Rightarrow> bool" where
  "chart_inv drag c \<longleftrightarrow>
     (canvasWidth c = 0 \<and> canvasHeight c = 0 \<or> 0 < canvasWidth c \<and> 0 < canvasHeight c) \<and>
     1 \<le> z_k D (zoomTransform c) \<and>
     (\<not> drag \<longrightarrow> view_ok D (zoomTransform c) (canvasWidth c) (canvasHeight c))"

lemma frame_simps [simp]:
  "zoomTransform (showTooltips D d m c) = zoomTransform c"
  "canvasWidth (showTooltips D d m c) = canvasWidth c"
  "canvasHeight (showTooltips D d m c) = canvasHeight c"
  "zoomTransform (hideTooltips c) = zoomTransform c"
  "canvasWidth (hideTooltips c) = canvasWidth c" "canvasHeight (hideTooltips c) = canvasHeight c"
  by (auto simp: showTooltips_def hideTooltips_def focusPoint_def Let_def split: option.splits)

lemma inv_same_view:
  "chart_inv b c \<Longrightarrow> zoomTransform c' = zoomTransform c \<Longrightarrow> canvasWidth c' = canvasWidth c \<Longrightarrow>
   canvasHeight c' = canvasHeight c \<Longrightarrow> chart_inv b c'"
  by (simp add: chart_inv_def)

lemma inv_size:
  assumes "chart_inv b c" and "margin_left + margin_right < w" and "margin_top + margin_bottom < h"
  shows "chart_inv b (chart_size D w h c)"
proof -
  define w' where "w' = w - margin_left - margin_right"
  define h' where "h' = h - margin_top - margin_bottom"
  have pos: "0 < w'" "0 < h'" using assms(2,3) by (simp_all add: w'_def h'_def)
  show ?thesis
  proof (cases "canvasWidth c = 0")
    case True
    with assms(1) have "canvasHeight c = 0" by (auto simp: chart_inv_def)
    with True have "zoomTransform (chart_size D w h c) = zoomTransform c"
      by (simp add: chart_size_def Let_def)
    moreover have "canvasWidth (chart_size D w h c) = w'" "canvasHeight (chart_size D w h c) = h'"
      by (simp_all add: chart_size_def Let_def w'_def h'_def)
    ultimately show ?thesis
      using assms(1) True \<open>canvasHeight c = 0\<close> pos
      by (auto simp: chart_inv_def view_ok_def covers_def mult_le_cancel_left1)
  next
    case False
    with assms(1) have c: "0 < canvasWidth c" "0 < canvasHeight c" by (auto simp: chart_inv_def)
    let ?t = "zoomTransform (chart_size D w h c)"
    have "z_k D ?t = z_k D (zoomTransform c)" "z_x D ?t = z_x D (zoomTransform c) * w' / canvasWidth c"
        "z_y D ?t = z_y D (zoomTransform c) * h' / canvasHeight c"
      using c by (simp_all add: chart_size_def Let_def scale translate identity w'_def h'_def)
    moreover have "canvasWidth (chart_size D w h c) = w'" "canvasHeight (chart_size D w h c) = h'"
      by (simp_all add: chart_size_def Let_def w'_def h'_def)
    ultimately show ?thesis
      using assms(1) c pos covers_resize by (simp add: chart_inv_def view_ok_def)
  qed
qed

lemma inv_step:
  assumes inv: "chart_inv b c" and ok: "event_ok D e"
  shows "chart_inv (dragging e b) (chart_step D d e c)"
proof -
  have dims: "0 \<le> canvasWidth c" "0 \<le> canvasHeight c" using inv by (auto simp: chart_inv_def)
  note keep = inv_same_view [OF inv]
  show ?thesis
  proof (cases e)
    case (ZoomBy drag t m)
    with inv ok dims constrainHard_ok [of t "canvasWidth c" "canvasHeight c"] show ?thesis
      by (auto simp: zooming_def chart_inv_def)
  next
    case (ZoomEnd m)
    with inv dims constrainHard_ok [of "zoomTransform c" "canvasWidth c" "canvasHeight c"] show ?thesis
      by (auto simp: zoomEnd_def chart_inv_def Let_def)
  next
    case ResetZoom
    with inv show ?thesis
      by (auto simp: chart_resetZoom_def chart_inv_def identity view_ok_def covers_def)
  next
    case (Size w h)
    with inv_size [OF inv] ok show ?thesis by simp
  qed (auto intro!: keep simp: mouseout_def clicked_def brushing_def brushEnd_def Let_def split: option.splits)
qed

lemma inv_run:
  "chart_inv b c \<Longrightarrow> list_all (event_ok D) es \<Longrightarrow>
   chart_inv (fold dragging es b) (fold (chart_step D d) es c)"
  by (induction es arbitrary: b c) (simp_all add: inv_step)

lemma inv_init: "chart_inv False (init_chart D)"
  by (simp add: chart_inv_def init_chart_def identity view_ok_def covers_def)

text \<open>Inside the canvas, a view that covers it maps every point to a point of the axes.\<close>

lemma axis_inside:
  assumes "view_ok D (zoomTransform c) (canvasWidth c) (canvasHeight c)" and "0 < canvasWidth c"
    and "0 < canvasHeight c" and "timeAxis d \<noteq> []" and "keyAxis d \<noteq> []"
  shows "0 \<le> p \<Longrightarrow> p \<le> canvasWidth c \<Longrightarrow> 0 \<le> axis_x D d c p \<and> axis_x D d c p \<le> of_nat (length (timeAxis d)) - 1"
    and "0 \<le> p \<Longrightarrow> p \<le> canvasHeight c \<Longrightarrow> 0 \<le> axis_y D d c p \<and> axis_y D d c p \<le> of_nat (length (keyAxis d)) - 1"
proof -
  have *: "0 \<le> q / w * m \<and> q / w * m \<le> m" if "0 \<le> q" "q \<le> w" "0 < w" "0 \<le> m" for q w m :: rat
    using that mult_right_mono [of "q / w" 1 m] by simp
  have T: "0 \<le> (of_nat (length (timeAxis d)) - 1 :: rat)"
    using assms(4) by (cases "timeAxis d") simp_all
  have K: "0 \<le> (of_nat (length (keyAxis d)) - 1 :: rat)"
    using assms(5) by (cases "keyAxis d") simp_all
  let ?t = "zoomTransform c"
  have cov: "covers (z_k D ?t) (z_x D ?t) (canvasWidth c)" "covers (z_k D ?t) (z_y D ?t) (canvasHeight c)"
    using assms(1) by (simp_all add: view_ok_def)
  have ax: "axis_x D d c p = (p - z_x D ?t) / z_k D ?t / canvasWidth c * (of_nat (length (timeAxis d)) - 1)"
      "axis_y D d c p = (p - z_y D ?t) / z_k D ?t / canvasHeight c * (of_nat (length (keyAxis d)) - 1)"
    using assms(2,3) by (simp_all add: axis_x_def axis_y_def rescale invert_xy)
  show "0 \<le> p \<Longrightarrow> p \<le> canvasWidth c \<Longrightarrow> 0 \<le> axis_x D d c p \<and> axis_x D d c p \<le> of_nat (length (timeAxis d)) - 1"
    unfolding ax using covers_inside [OF cov(1)] by (intro * [OF _ _ assms(2) T])
  show "0 \<le> p \<Longrightarrow> p \<le> canvasHeight c \<Longrightarrow> 0 \<le> axis_y D d c p \<and> axis_y D d c p \<le> of_nat (length (keyAxis d)) - 1"
    unfolding ax using covers_inside [OF cov(2)] by (intro * [OF _ _ assms(3) K])
qed

end

subsection \<open>A reference transform\<close>

text \<open>The transform as the documentation of d3-zoom gives it: a scale and a translation.\<close>

record transform =
  t_k :: rat
  t_x :: rat
  t_y :: rat

definition d3_ref :: "transform d3" where
  "d3_ref =
     \<lparr>z_identity = \<lparr>t_k = 1, t_x = 0, t_y = 0\<rparr>,
      z_translate = (\<lambda>t dx dy. t\<lparr>t_x := t_x t + t_k t * dx, t_y := t_y t + t_k t * dy\<rparr>),
      z_scale = (\<lambda>t s. t\<lparr>t_k := t_k t * s\<rparr>),
      z_k = t_k, z_x = t_x, z_y = t_y,
      applyX = (\<lambda>t p. p * t_k t + t_x t), applyY = (\<lambda>t p. p * t_k t + t_y t),
      invertX = (\<lambda>t p. (p - t_x t) / t_k t), invertY = (\<lambda>t p. (p - t_y t) / t_k t),
      rescaleX_invert = (\<lambda>t m w p. (p - t_x t) / t_k t / w * m),
      rescaleY_invert = (\<lambda>t m h p. (p - t_y t) / t_k t / h * m)\<rparr>"

interpretation d3_ref: d3_zoom d3_ref
  by unfold_locales (simp_all add: d3_ref_def)

subsection \<open>Properties\<close>

text \<open>
  C27: The heatmap always fills its canvas. After any sequence of zooms, drags, resizes, clicks,
  brushes and resets with zoom levels in the configured extent, whenever no drag is in progress the
  view covers the whole canvas on both axes and the zoom level is at least 1.
\<close>

theorem heatmap_view_covers:
  assumes "d3_zoom D" and "list_all (event_ok D) es" and "\<not> fold dragging es False"
  shows "view_ok D (zoomTransform (fold (chart_step D d) es (init_chart D)))
    (canvasWidth (fold (chart_step D d) es (init_chart D)))
    (canvasHeight (fold (chart_step D d) es (init_chart D)))"
  using d3_zoom.inv_run [OF assms(1) d3_zoom.inv_init [OF assms(1)] assms(2), of d] assms(3)
  by (simp add: d3_zoom.chart_inv_def [OF assms(1)])

definition sample_data :: heatmap_data where
  "sample_data = \<lparr>timeAxis = [100, 160, 220], keyAxis = [(''k3'', None), (''k2'', None), (''k1'', None)]\<rparr>"

definition sample_events :: "transform chart_event list" where
  "sample_events =
     [Size 340 295, ZoomBy True \<lparr>t_k = 2, t_x = 50, t_y = - 900\<rparr> None, ZoomEnd None]"

lemma sample_events_ok: "list_all (event_ok d3_ref) sample_events" "\<not> fold dragging sample_events False"
  by (simp_all add: sample_events_def d3_ref_def margin_left_def margin_right_def margin_top_def
      margin_bottom_def)

theorem heatmap_view_covers_witness:
  "view_ok d3_ref (zoomTransform (fold (chart_step d3_ref sample_data) sample_events (init_chart d3_ref)))
    (canvasWidth (fold (chart_step d3_ref sample_data) sample_events (init_chart d3_ref)))
    (canvasHeight (fold (chart_step d3_ref sample_data) sample_events (init_chart d3_ref)))"
  by (rule heatmap_view_covers [OF d3_ref.d3_zoom_axioms sample_events_ok])

text \<open>
  Correcting the view is a projection: \<open>constrainHard\<close> keeps the zoom level, makes a view of
  level at least 1 cover the canvas, and leaves a view that covers it where it is.
\<close>

theorem constrainHard_projection:
  assumes "d3_zoom D" and "1 \<le> z_k D t" and "0 \<le> w" and "0 \<le> h"
  shows "view_ok D (constrainHard D w h t) w h \<and> z_k D (constrainHard D w h t) = z_k D t \<and>
    (view_ok D t w h \<longrightarrow>
       z_x D (constrainHard D w h t) = z_x D t \<and> z_y D (constrainHard D w h t) = z_y D t)"
  using d3_zoom.constrainHard_ok [OF assms] d3_zoom.constrainHard_id [OF assms(1) _ assms(3,4)] by blast

theorem constrainHard_projection_witness:
  "view_ok d3_ref (constrainHard d3_ref 200 200 \<lparr>t_k = 2, t_x = 50, t_y = - 900\<rparr>) 200 200"
proof -
  have "1 \<le> z_k d3_ref \<lparr>t_k = 2, t_x = 50, t_y = - 900\<rparr>" by (simp add: d3_ref_def)
  from constrainHard_projection [OF d3_ref.d3_zoom_axioms this, of 200 200] show ?thesis by simp
qed

text \<open>
  Brushing never reads outside the axes. While the view covers the canvas, a brush selection
  inside the canvas selects existing keys and times: \<open>brushEnd\<close> does not throw, both times are
  defined, the first index of each axis is not after the second, and brushing mode ends.
\<close>

theorem brush_in_range:
  assumes "d3_zoom D" and "view_ok D (zoomTransform c) (canvasWidth c) (canvasHeight c)"
    and "0 < canvasWidth c" and "0 < canvasHeight c" and "timeAxis d \<noteq> []" and "keyAxis d \<noteq> []"
    and "0 \<le> x0" and "x0 \<le> x1" and "x1 \<le> canvasWidth c"
    and "0 \<le> y0" and "y0 \<le> y1" and "y1 \<le> canvasHeight c"
  shows "\<exists>t0 t1 k0 k1. t0 < length (timeAxis d) \<and> t1 < length (timeAxis d) \<and>
    k0 < length (keyAxis d) \<and> k1 < length (keyAxis d) \<and>
    fst (brushEnd D d (Some ((x0, y0), (x1, y1))) m c) =
      Brushed \<lparr>starttime = Some (timeAxis d ! t0), endtime = Some (timeAxis d ! t1),
        startkey = fst (keyAxis d ! k1), endkey = fst (keyAxis d ! k0)\<rparr> \<and>
    \<not> isBrushing (snd (brushEnd D d (Some ((x0, y0), (x1, y1))) m c))"
proof -
  let ?c = "c\<lparr>isBrushing := False\<rparr>"
  have same: "axis_x D d ?c = axis_x D d c" "axis_y D d ?c = axis_y D d c"
    by (auto simp: axis_x_def axis_y_def)
  note inside = d3_zoom.axis_inside [OF assms(1-6)]
  have at: "elem_at xs \<lfloor>v\<rfloor> = Some (xs ! nat \<lfloor>v\<rfloor>) \<and> nat \<lfloor>v\<rfloor> < length xs \<and>
      elem_at xs \<lceil>v\<rceil> = Some (xs ! nat \<lceil>v\<rceil>) \<and> nat \<lceil>v\<rceil> < length xs"
    if "0 \<le> v \<and> v \<le> of_nat (length xs) - 1" for xs :: "'b list" and v :: rat
  proof -
    have "v \<le> of_int (int (length xs) - 1)" using that by simp
    then have "\<lceil>v\<rceil> \<le> int (length xs) - 1" by (simp only: ceiling_le_iff)
    moreover have "\<lfloor>v\<rfloor> \<le> \<lceil>v\<rceil>" "0 \<le> \<lfloor>v\<rfloor>" using that by (simp_all add: floor_le_ceiling)
    ultimately have "0 \<le> \<lfloor>v\<rfloor>" "\<lfloor>v\<rfloor> < int (length xs)" "0 \<le> \<lceil>v\<rceil>" "\<lceil>v\<rceil> < int (length xs)"
      by linarith+
    then show ?thesis by (simp add: elem_at_def nat_less_iff)
  qed
  have X: "0 \<le> axis_x D d c x0 \<and> axis_x D d c x0 \<le> of_nat (length (timeAxis d)) - 1"
      "0 \<le> axis_x D d c x1 \<and> axis_x D d c x1 \<le> of_nat (length (timeAxis d)) - 1"
    using inside(1) assms(7-9) by auto
  have Y: "0 \<le> axis_y D d c y0 \<and> axis_y D d c y0 \<le> of_nat (length (keyAxis d)) - 1"
      "0 \<le> axis_y D d c y1 \<and> axis_y D d c y1 \<le> of_nat (length (keyAxis d)) - 1"
    using inside(2) assms(10-12) by auto
  have "\<not> isBrushing (showTooltips D d m ?c)"
    by (auto simp: showTooltips_def focusPoint_def hideTooltips_def Let_def split: option.splits)
  moreover have "brush_range D d ?c (Some ((x0, y0), (x1, y1))) =
      Brushed \<lparr>starttime = Some (timeAxis d ! nat \<lfloor>axis_x D d c x0\<rfloor>),
        endtime = Some (timeAxis d ! nat \<lceil>axis_x D d c x1\<rceil>),
        startkey = fst (keyAxis d ! nat \<lceil>axis_y D d c y1\<rceil>), endkey = fst (keyAxis d ! nat \<lfloor>axis_y D d c y0\<rfloor>)\<rparr>"
    using X Y by (simp add: brush_range_def same at)
  ultimately show ?thesis
    using at [OF X(1)] at [OF X(2)] at [OF Y(1)] at [OF Y(2)]
    by (intro exI [of _ "nat \<lfloor>axis_x D d c x0\<rfloor>"] exI [of _ "nat \<lceil>axis_x D d c x1\<rceil>"]
        exI [of _ "nat \<lfloor>axis_y D d c y0\<rfloor>"] exI [of _ "nat \<lceil>axis_y D d c y1\<rceil>"]) (simp add: brushEnd_def Let_def)
qed

theorem brush_in_range_witness:
  "\<exists>r. fst (brushEnd d3_ref sample_data (Some ((10, 20), (150, 160))) None
      (chart_size d3_ref 340 295 (init_chart d3_ref))) = Brushed r"
proof -
  let ?c = "chart_size d3_ref 340 295 (init_chart d3_ref)"
  have c: "canvasWidth ?c = 200" "canvasHeight ?c = 200" "zoomTransform ?c = \<lparr>t_k = 1, t_x = 0, t_y = 0\<rparr>"
    by (simp_all add: chart_size_def init_chart_def Let_def d3_ref_def margin_left_def margin_right_def
        margin_top_def margin_bottom_def)
  have "view_ok d3_ref (zoomTransform ?c) (canvasWidth ?c) (canvasHeight ?c)"
    unfolding c by (simp add: view_ok_def covers_def d3_ref_def)
  from brush_in_range [OF d3_ref.d3_zoom_axioms this, of sample_data 10 150 20 160 None]
  show ?thesis unfolding c by (auto simp: sample_data_def)
qed

text \<open>
  A pinned tooltip stays where it is: while the tooltip is pinned, moving the mouse, leaving the
  chart, zooming and dragging change neither its position nor the focused cells, and only a click
  inside the canvas unpins it.
\<close>

theorem pinned_tooltip_stays:
  fixes c :: "'tr chart"
  assumes "pinned c"
  shows "(\<forall>e. (case e of MouseMove _ \<Rightarrow> True | MouseOut \<Rightarrow> True | ZoomBy _ _ _ \<Rightarrow> True | ZoomEnd _ \<Rightarrow> True
              | _ \<Rightarrow> False) \<longrightarrow>
       pinned (chart_step D d e c) \<and> tip_x (chart_step D d e c) = tip_x c \<and>
       tip_y (chart_step D d e c) = tip_y c \<and> focusStatus (chart_step D d e c) = focusStatus c) \<and>
    (\<forall>e. \<not> pinned (chart_step D d e c) \<longrightarrow> (\<exists>m. e = Click False m \<and> \<not> outside c m))"
proof (intro conjI allI impI)
  fix e :: "'tr chart_event"
  assume "case e of MouseMove _ \<Rightarrow> True | MouseOut \<Rightarrow> True | ZoomBy _ _ _ \<Rightarrow> True | ZoomEnd _ \<Rightarrow> True | _ \<Rightarrow> False"
  then show "pinned (chart_step D d e c)" "tip_x (chart_step D d e c) = tip_x c"
      "tip_y (chart_step D d e c) = tip_y c" "focusStatus (chart_step D d e c) = focusStatus c"
    using assms by (cases e; auto simp: showTooltips_def mouseout_def zooming_def zoomEnd_def hideTooltips_def Let_def)+
next
  fix e :: "'tr chart_event"
  assume "\<not> pinned (chart_step D d e c)"
  then show "\<exists>m. e = Click False m \<and> \<not> outside c m"
    using assms
    by (cases e) (auto simp: showTooltips_def mouseout_def zooming_def zoomEnd_def hideTooltips_def
        clicked_def brushing_def brushEnd_def chart_resetZoom_def chart_size_def Let_def
        split: if_splits option.splits)
qed

theorem pinned_tooltip_stays_witness:
  "tip_x (chart_step d3_ref sample_data (MouseMove (Some (3, 4))) ((init_chart d3_ref)\<lparr>pinned := True\<rparr>)) = 0"
proof -
  have "pinned ((init_chart d3_ref)\<lparr>pinned := True\<rparr>)" by simp
  note pinned_tooltip_stays [OF this, THEN conjunct1, rule_format, of "MouseMove (Some (3, 4))" d3_ref sample_data]
  then show ?thesis by (simp add: init_chart_def del: chart_step.simps)
qed

end
