(* ===== verification/Json.thy ===== *)
theory Json
  imports JsString
begin

text \<open>
  \<open>JSON.stringify\<close> of the ECMAScript standard on plain data, as the list pages use it to build the
  keys of their cache. An object is the list of its properties in insertion order. The property
  that matters to the callers is that different data give different texts.
\<close>

datatype json =
    JNull
  | JBool bool
  | JNum jsnum
  | JStr string
  | JArr "json list"
  | JObj "(string \<times> json) list"

definition QUOTE :: char where "QUOTE = CHR 0x22"
definition BACKSLASH :: char where "BACKSLASH = CHR 0x5C"

definition hex_digit :: "nat \<Rightarrow> char" where
  "hex_digit d = (if d < 10 then digit_char d else char_of (87 + d))"

text \<open>\<open>QuoteJSONString\<close>: the short escapes, \<open>\u00xx\<close> for the other control characters.\<close>

definition esc :: "char \<Rightarrow> string" where
  "esc c =
     (if code c = 8 then [BACKSLASH, CHR ''b'']
      else if code c = 9 then [BACKSLASH, CHR ''t'']
      else if code c = 10 then [BACKSLASH, CHR ''n'']
      else if code c = 12 then [BACKSLASH, CHR ''f'']
      else if code c = 13 then [BACKSLASH, CHR ''r'']
      else if c = QUOTE then [BACKSLASH, QUOTE]
      else if c = BACKSLASH then [BACKSLASH, BACKSLASH]
      else if code c < 32
      then [BACKSLASH, CHR ''u'', CHR ''0'', CHR ''0'', hex_digit (code c div 16), hex_digit (code c mod 16)]
      else [c])"

definition quote :: "string \<Rightarrow> string" where
  "quote s = QUOTE # concat (map esc s) @ [QUOTE]"

fun json_num :: "jsnum \<Rightarrow> string" where
  "json_num (Fin q) = show_num (Fin q)"
| "json_num _ = ''null''"

fun stringify :: "json \<Rightarrow> string" where
  "stringify JNull = ''null''"
| "stringify (JBool b) = (if b then ''true'' else ''false'')"
| "stringify (JNum n) = json_num n"
| "stringify (JStr s) = quote s"
| "stringify (JArr xs) = CHR ''['' # join '','' (map stringify xs) @ '']''"
| "stringify (JObj ps) = CHR ''{'' # join '','' (map (\<lambda>(k, v). quote k @ CHR '':'' # stringify v) ps) @ ''}''"

text \<open>Data whose numbers are whole, as the options of the pages have them.\<close>

fun json_wf :: "json \<Rightarrow> bool" where
  "json_wf (JNum n) = (case n of Fin q \<Rightarrow> q = of_int \<lfloor>q\<rfloor> | _ \<Rightarrow> False)"
| "json_wf (JArr xs) = (\<forall>x \<in> set xs. json_wf x)"
| "json_wf (JObj ps) = (\<forall>p \<in> set ps. json_wf (snd p))"
| "json_wf _ = True"

subsection \<open>Reading back one escaped character\<close>

definition unhex :: "char \<Rightarrow> nat" where
  "unhex c = (if is_digit c then digit_val c else code c - 87)"

fun unesc :: "string \<Rightarrow> char \<times> string" where
  "unesc (c # r) =
     (if c = BACKSLASH
      then (case r of
              d # r' \<Rightarrow>
                if d = CHR ''b'' then (char_of (8 :: nat), r')
                else if d = CHR ''t'' then (char_of (9 :: nat), r')
                else if d = CHR ''n'' then (char_of (10 :: nat), r')
                else if d = CHR ''f'' then (char_of (12 :: nat), r')
                else if d = CHR ''r'' then (char_of (13 :: nat), r')
                else if d = CHR ''u'' then (char_of (16 * unhex (r' ! 2) + unhex (r' ! 3)), drop 4 r')
                else (d, r')
            | [] \<Rightarrow> (c, r))
      else (c, r))"
| "unesc [] = (QUOTE, [])"

lemma unhex_hex_digit: "d < 16 \<Longrightarrow> unhex (hex_digit d) = d"
proof -
  assume d: "d < 16"
  show ?thesis
  proof (cases "d < 10")
    case True
    then show ?thesis by (simp add: unhex_def hex_digit_def)
  next
    case False
    with d have "code (char_of (87 + d)) = 87 + d" by (simp add: code_def)
    with False d show ?thesis by (simp add: unhex_def hex_digit_def is_digit_def)
  qed
qed

lemma char_of_its_code: "code c = n \<Longrightarrow> char_of n = c"
  by (auto simp: code_def)

lemma unesc_esc: "unesc (esc c @ r) = (c, r)"
proof -
  consider "code c \<in> {8, 9, 10, 12, 13}" | "c = QUOTE \<or> c = BACKSLASH"
    | "code c < 32" "code c \<notin> {8, 9, 10, 12, 13}" | "32 \<le> code c" "c \<noteq> QUOTE" "c \<noteq> BACKSLASH"
    by force
  then show ?thesis
  proof cases
    case 1
    moreover have "char_of (code c) = c" by (simp add: code_def)
    ultimately show ?thesis by (elim insertE emptyE) (simp_all add: esc_def)
  next
    case 2
    then show ?thesis by (auto simp: esc_def QUOTE_def BACKSLASH_def code_def)
  next
    case 3
    then have "16 * unhex (hex_digit (code c div 16)) + unhex (hex_digit (code c mod 16)) = code c"
      by (simp add: unhex_hex_digit)
    with 3 have "char_of (16 * unhex (hex_digit (code c div 16)) + unhex (hex_digit (code c mod 16))) = c"
      by (simp only: char_of_its_code)
    moreover from 3 have "c \<noteq> QUOTE" "c \<noteq> BACKSLASH" by (auto simp: QUOTE_def BACKSLASH_def code_def)
    ultimately show ?thesis using 3 by (simp add: esc_def)
  next
    case 4
    then show ?thesis by (simp add: esc_def)
  qed
qed

lemma esc_inject: "esc c @ r = esc d @ r' \<longleftrightarrow> c = d \<and> r = r'"
  by (metis unesc_esc prod.inject)

lemma esc_not_quote: "esc c @ r \<noteq> QUOTE # r'"
proof
  assume "esc c @ r = QUOTE # r'"
  then show False by (auto simp: esc_def QUOTE_def BACKSLASH_def split: if_splits)
qed

lemma quoted_inject:
  "concat (map esc s) @ QUOTE # r = concat (map esc t) @ QUOTE # r' \<Longrightarrow> s = t \<and> r = r'"
proof (induction s arbitrary: t)
  case Nil
  show ?case
  proof (cases t)
    case (Cons a l)
    with Nil show ?thesis using esc_not_quote [of a "concat (map esc l) @ QUOTE # r'" r] by simp
  qed (use Nil in simp)
next
  case (Cons c s)
  then show ?case using esc_not_quote [of c] by (cases t) (auto simp: esc_inject)
qed

lemma quote_inject: "quote s @ r = quote t @ r' \<Longrightarrow> s = t \<and> r = r'"
  using quoted_inject [of s r t r'] by (simp add: quote_def)

subsection \<open>The texts of values are a prefix code\<close>

abbreviation stop :: "string \<Rightarrow> bool" where
  "stop r \<equiv> r = [] \<or> \<not> is_digit (hd r)"

lemma show_nat_prefix:
  assumes "show_nat m @ r = show_nat n @ r'" and "stop r" and "stop r'"
  shows "m = n \<and> r = r'"
proof -
  have "takeWhile is_digit (show_nat k @ s) = show_nat k" if "stop s" for k s
    using that by (cases s) (auto simp: takeWhile_append2 show_nat_digits)
  with assms have "show_nat m = show_nat n" by metis
  then have "m = n" by (metis digits_val_show_nat)
  with assms(1) show ?thesis by simp
qed

lemma show_int_prefix:
  assumes "show_int i @ r = show_int j @ r'" and "stop r" and "stop r'"
  shows "i = j \<and> r = r'"
proof -
  have minus: "show_nat n @ s \<noteq> CHR ''-'' # s'" for n s s'
  proof
    assume "show_nat n @ s = CHR ''-'' # s'"
    then have "hd (show_nat n) = CHR ''-''" by (cases "show_nat n") auto
    then show False using show_nat_hd_last(1) [of n] by (simp add: is_digit_def code_def)
  qed
  show ?thesis
  proof (cases "i < 0 \<longleftrightarrow> j < 0")
    case True
    then show ?thesis
      using assms show_nat_prefix [of "nat (- i)" r "nat (- j)" r'] show_nat_prefix [of "nat i" r "nat j" r']
      by (auto simp: show_int_def)
  next
    case False
    then show ?thesis
      using assms(1) minus [of "nat i" r] minus [of "nat j" r'] by (auto simp: show_int_def dest: sym)
  qed
qed

lemma json_wf_num: "json_wf (JNum n) \<longleftrightarrow> (\<exists>i. n = js_int i)"
  by (cases n) auto

lemma stringify_num [simp]: "stringify (JNum (js_int i)) = show_int i"
  using show_num_js_int [of i] by simp

lemma show_int_hd: "is_digit (hd (show_int i)) \<or> hd (show_int i) = CHR ''-''"
  by (rule show_int_chars [of _ i]) simp

text \<open>The first character of a text tells the kind of the value.\<close>

fun kind_char :: "json \<Rightarrow> char \<Rightarrow> bool" where
  "kind_char JNull c = (c = CHR ''n'')"
| "kind_char (JBool b) c = (c = (if b then CHR ''t'' else CHR ''f''))"
| "kind_char (JNum _) c = (is_digit c \<or> c = CHR ''-'')"
| "kind_char (JStr _) c = (c = QUOTE)"
| "kind_char (JArr _) c = (c = CHR ''['')"
| "kind_char (JObj _) c = (c = CHR ''{'')"

lemma stringify_first: "json_wf v \<Longrightarrow> stringify v \<noteq> [] \<and> kind_char v (hd (stringify v))"
proof (cases v)
  case (JNum n)
  assume "json_wf v"
  with JNum obtain i where "v = JNum (js_int i)" using json_wf_num by blast
  then show ?thesis using show_int_hd [of i] by (simp only: stringify_num) simp
qed (auto simp: quote_def)

lemma kind_char_not_end: "kind_char v c \<Longrightarrow> c \<noteq> CHR '']'' \<and> c \<noteq> CHR ''}'' \<and> c \<noteq> CHR '',''"
  by (cases v) (auto simp: QUOTE_def is_digit_def code_def split: if_splits)

lemma same_first:
  assumes "stringify a @ r = stringify b @ r'" and "json_wf a" and "json_wf b"
  shows "\<exists>c. kind_char a c \<and> kind_char b c"
  using stringify_first [OF assms(2)] stringify_first [OF assms(3)] assms(1)
  by (metis hd_append2)

text \<open>A comma separated list of texts from a prefix code, up to its closing bracket.\<close>

lemma join_prefix_free:
  assumes item: "\<And>x y r r'. x \<in> set xs \<Longrightarrow> y \<in> set ys \<Longrightarrow> stop r \<Longrightarrow> stop r' \<Longrightarrow>
      p x @ r = p y @ r' \<Longrightarrow> x = y \<and> r = r'"
    and first: "\<And>x. x \<in> set xs \<union> set ys \<Longrightarrow> p x \<noteq> [] \<and> hd (p x) \<noteq> e"
    and e: "e \<noteq> CHR '',''" "\<not> is_digit e"
    and eq: "join '','' (map p xs) @ e # r = join '','' (map p ys) @ e # r'"
  shows "xs = ys \<and> r = r'"
proof -
  have comma: "\<not> is_digit (CHR '','')" by (simp add: is_digit_def code_def)
  have tail: "join '','' (map p (z # zs)) @ e # s =
      p z @ (if zs = [] then e # s else CHR '','' # join '','' (map p zs) @ e # s)" for z zs s
    by (cases zs) auto
  have starts: "join '','' (map p (z # zs)) @ e # s \<noteq> e # s'" if "z \<in> set xs \<union> set ys" for z zs s s'
    using first [OF that] unfolding tail by (cases "p z") auto
  show ?thesis using item first eq starts
  proof (induction xs arbitrary: ys)
    case Nil
    then show ?case by (cases ys) (auto, metis list.set_intros(1) map_eq_Cons_conv)
  next
    case (Cons x xs)
    show ?case
    proof (cases ys)
      case Nil
      then show ?thesis using Cons.prems(3) Cons.prems(4) [of x xs r r'] by simp
    next
      case ys: (Cons y zs)
      let ?t = "\<lambda>zs s. if zs = [] then e # s else CHR '','' # join '','' (map p zs) @ e # s"
      from Cons.prems(3) have "p x @ ?t xs r = p y @ ?t zs r'" unfolding ys tail .
      then have *: "x = y \<and> ?t xs r = ?t zs r'"
        by (intro Cons.prems(1)) (auto simp: ys comma e)
      show ?thesis
      proof (cases "xs = [] \<or> zs = []")
        case True
        then show ?thesis using * e(1) by (auto simp: ys split: if_splits)
      next
        case False
        with * have "join '','' (map p xs) @ e # r = join '','' (map p zs) @ e # r'" by simp
        then have "xs = zs \<and> r = r'"
          using Cons.prems(1,2,4) by (intro Cons.IH) (auto simp: ys)
        with * show ?thesis by (simp add: ys)
      qed
    qed
  qed
qed

lemma stringify_prefix:
  assumes "json_wf a" and "json_wf b" and "stop r" and "stop r'"
    and "stringify a @ r = stringify b @ r'"
  shows "a = b \<and> r = r'"
  using assms
proof (induction a arbitrary: b r r')
  case JNull
  with same_first [OF JNull.prems(5,1,2)] show ?case
    by (cases b) (auto simp: QUOTE_def is_digit_def code_def split: if_splits)
next
  case (JBool x)
  with same_first [OF JBool.prems(5,1,2)] show ?case
    by (cases b) (auto simp: QUOTE_def is_digit_def code_def split: if_splits)
next
  case (JNum n)
  then obtain i where i: "n = js_int i" using json_wf_num by blast
  from same_first [OF JNum.prems(5,1,2)] obtain m where "b = JNum m"
    by (cases b) (auto simp: QUOTE_def is_digit_def code_def split: if_splits)
  with JNum.prems(2) obtain j where j: "b = JNum (js_int j)" using json_wf_num by blast
  from JNum.prems(5) have "show_int i @ r = show_int j @ r'" unfolding i j stringify_num .
  from show_int_prefix [OF this JNum.prems(3,4)] show ?case by (simp add: i j)
next
  case (JStr s)
  with same_first [OF JStr.prems(5,1,2)] obtain t where "b = JStr t"
    by (cases b) (auto simp: QUOTE_def is_digit_def code_def split: if_splits)
  with JStr.prems(5) quote_inject [of s r t r'] show ?case by simp
next
  case (JArr xs)
  from same_first [OF JArr.prems(5,1,2)] obtain ys where b: "b = JArr ys"
    by (cases b) (auto simp: QUOTE_def is_digit_def code_def split: if_splits)
  have "xs = ys \<and> r = r'"
  proof (rule join_prefix_free [where p = stringify and e = "CHR '']''"])
    show "x = y \<and> s = s'" if "x \<in> set xs" "y \<in> set ys" "stop s" "stop s'" "stringify x @ s = stringify y @ s'"
      for x y s s'
    proof (rule JArr.IH [OF that(1) _ _ that(3-5)])
      show "json_wf x" "json_wf y" using JArr.prems(1,2) that(1,2) by (simp_all add: b)
    qed
    show "stringify x \<noteq> [] \<and> hd (stringify x) \<noteq> CHR '']''" if "x \<in> set xs \<union> set ys" for x
      using that JArr.prems(1,2) stringify_first [of x] kind_char_not_end [of x] by (auto simp: b)
    show "join '','' (map stringify xs) @ CHR '']'' # r = join '','' (map stringify ys) @ CHR '']'' # r'"
      using JArr.prems(5) by (simp add: b)
  qed (simp_all add: is_digit_def code_def)
  then show ?case by (simp add: b)
next
  case (JObj ps)
  from same_first [OF JObj.prems(5,1,2)] obtain qs where b: "b = JObj qs"
    by (cases b) (auto simp: QUOTE_def is_digit_def code_def split: if_splits)
  let ?p = "\<lambda>(k, v). quote k @ CHR '':'' # stringify v"
  have "ps = qs \<and> r = r'"
  proof (rule join_prefix_free [where p = ?p and e = "CHR ''}''"])
    show "x = y \<and> s = s'" if mem: "x \<in> set ps" "y \<in> set qs" "stop s" "stop s'" and eq: "?p x @ s = ?p y @ s'"
      for x y s s'
    proof -
      obtain k v k' v' where xy: "x = (k, v)" "y = (k', v')" by (cases x, cases y)
      from eq have *: "k = k'" "stringify v @ s = stringify v' @ s'"
        using quote_inject [of k "CHR '':'' # stringify v @ s" k' "CHR '':'' # stringify v' @ s'"]
        by (auto simp: xy)
      have "json_wf v" "json_wf v'" using JObj.prems(1,2) mem(1,2) by (auto simp: b xy)
      then have "v = v' \<and> s = s'"
        using mem * by (intro JObj.IH [of x v]) (auto simp: xy)
      then show ?thesis using * by (simp add: xy)
    qed
    show "?p x \<noteq> [] \<and> hd (?p x) \<noteq> CHR ''}''" if "x \<in> set ps \<union> set qs" for x
      by (cases x) (simp add: quote_def QUOTE_def)
    show "join '','' (map ?p ps) @ CHR ''}'' # r = join '','' (map ?p qs) @ CHR ''}'' # r'"
      using JObj.prems(5) by (simp add: b)
  qed (simp_all add: is_digit_def code_def)
  then show ?case by (simp add: b)
qed

lemma stringify_inject:
  "json_wf a \<Longrightarrow> json_wf b \<Longrightarrow> stringify a = stringify b \<Longrightarrow> a = b"
  using stringify_prefix [of a b "[]" "[]"] by simp

end
