(* ===== verification/ListLoader.thy ===== *)
theory ListLoader
  imports Cache Json TimeRange
begin

text \<open>
  What the controllers of the slow query and the statement list have in common: the same state cells
  and, word for word, the same lookup in the cache, the same request and the same handling of its
  answer (\<open>SlowQuery/utils/useSlowQueryTableController.ts\<close> and
  \<open>Statement/utils/useStatementTableController.ts\<close>), the ordering state
  (\<open>utils/useOrderState.ts\<close>), the clicked item (\<open>utils/useCacheItemIndex.ts\<close>) and the selected
  fields (\<open>utils/tableColumnFactory.tsx\<close>). The list of requests that have been sent and not answered
  yet is explicit, and an answer may come for any of them. The locale \<open>list_loader\<close> holds the
  correctness of the shared part.
\<close>

subsection \<open>Clocks\<close>

text \<open>\<open>Date\<close> in milliseconds, \<open>performance.now()\<close> and \<open>dayjs().unix()\<close> when an event is handled.\<close>

record clock =
  c_date :: int
  c_perf :: rat
  c_unix :: jsnum

definition SLOW_DATA_LOAD_THRESHOLD :: rat where
  "SLOW_DATA_LOAD_THRESHOLD = 2000"

subsection \<open>The fields to ask for\<close>

text \<open>An object with boolean values, in the order of its properties.\<close>

type_synonym IColumnKeys = "(string \<times> bool) list"

datatype derived_sources = BarSources "(string \<times> string) list" | ColSources "string list"

type_synonym DerivedFields = "(string \<times> derived_sources) list"

definition genDerivedBarSources :: "string \<Rightarrow> string \<Rightarrow> string option \<Rightarrow> derived_sources" where
  "genDerivedBarSources avg mx mn =
     BarSources ([(''mean'', avg), (''max'', mx)] @
       (case mn of Some m \<Rightarrow> if m \<noteq> [] then [(''min'', m)] else [] | None \<Rightarrow> []))"

fun column_fields :: "DerivedFields \<Rightarrow> string \<times> bool \<Rightarrow> string list" where
  "column_fields derived (columnKey, vis) =
     (if vis
      then (case map_of derived columnKey of
              Some (BarSources bs) \<Rightarrow> map snd bs
            | Some (ColSources cs) \<Rightarrow> cs
            | None \<Rightarrow> [columnKey])
      else [])"

definition getSelectedFields :: "IColumnKeys \<Rightarrow> DerivedFields \<Rightarrow> string list" where
  "getSelectedFields visibleColumnKeys derived = concat (map (column_fields derived) visibleColumnKeys)"

subsection \<open>State kept in memory or in the browser\<close>

text \<open>
  \<open>useQueryOptions\<close> and \<open>useOrderState\<close> keep one cell in memory and one in the storage of the browser
  and use the one the flag selects. \<open>stored\<close> is what the storage holds when the page opens.
\<close>

record 'q cells =
  memory_cell :: 'q
  storage_cell :: 'q

definition useCells :: "'q option \<Rightarrow> 'q \<Rightarrow> 'q cells" where
  "useCells stored def =
     \<lparr>memory_cell = def, storage_cell = (case stored of Some q \<Rightarrow> q | None \<Rightarrow> def)\<rparr>"

definition cell :: "bool \<Rightarrow> 'q cells \<Rightarrow> 'q" where
  "cell persist c = (if persist then storage_cell c else memory_cell c)"

definition set_cell :: "bool \<Rightarrow> ('q \<Rightarrow> 'q) \<Rightarrow> 'q cells \<Rightarrow> 'q cells" where
  "set_cell persist f c =
     (if persist then c\<lparr>storage_cell := f (storage_cell c)\<rparr> else c\<lparr>memory_cell := f (memory_cell c)\<rparr>)"

record IOrderOptions =
  orderBy :: string
  desc :: bool

definition changeOrder :: "bool \<Rightarrow> string \<Rightarrow> bool \<Rightarrow> IOrderOptions cells \<Rightarrow> IOrderOptions cells" where
  "changeOrder needSave by d c = set_cell needSave (\<lambda>_. \<lparr>orderBy = by, desc = d\<rparr>) c"

lemma cell_set_cell [simp]: "cell persist (set_cell persist f c) = f (cell persist c)"
  by (simp add: cell_def set_cell_def)

lemma cell_changeOrder [simp]: "cell p (changeOrder p by d c) = \<lparr>orderBy = by, desc = d\<rparr>"
  by (simp add: changeOrder_def)

subsection \<open>Loading a list\<close>

text \<open>What the cache holds: lists under the texts of their options, and the clicked item.\<close>

datatype 'd cache_val = Entity 'd bool | ClickedIndex jsnum

record 'a inflight =
  f_key :: key
  f_args :: 'a
  f_beginAt :: rat

record ('a, 'd, 'e) loader =
  l_data :: "'d option"
  isDataLoading :: bool
  isDataLoadedSlowly :: "bool option"
  errors :: "'e list"
  cacheMgr :: "'d cache_val CacheMgr option"
  pending :: "'a inflight list"

text \<open>\<open>cacheMgr?.get(key)\<close>, \<open>cacheMgr?.set(key, v)\<close> and \<open>cacheMgr?.clear()\<close>\<close>

definition cm_get :: "clock \<Rightarrow> key \<Rightarrow> ('a, 'd, 'e) loader \<Rightarrow> 'd cache_val option \<times> ('a, 'd, 'e) loader" where
  "cm_get ck k l =
     (case cacheMgr l of
        None \<Rightarrow> (None, l)
      | Some m \<Rightarrow> (fst (cache_get (c_date ck) k m), l\<lparr>cacheMgr := Some (snd (cache_get (c_date ck) k m))\<rparr>))"

definition cm_set :: "clock \<Rightarrow> key \<Rightarrow> 'd cache_val \<Rightarrow> ('a, 'd, 'e) loader \<Rightarrow> ('a, 'd, 'e) loader" where
  "cm_set ck k v l = l\<lparr>cacheMgr := map_option (cache_set (c_date ck) k v None) (cacheMgr l)\<rparr>"

definition cm_clear :: "('a, 'd, 'e) loader \<Rightarrow> ('a, 'd, 'e) loader" where
  "cm_clear l = l\<lparr>cacheMgr := map_option cache_clear (cacheMgr l)\<rparr>"

text \<open>
  The first block of the effect: whether the cache answered, and the state. The copy through
  \<open>JSON.parse(JSON.stringify(cache))\<close> keeps the value. A number other than zero under the key would
  be truthy and have neither data nor flag.
\<close>

definition try_cache :: "clock \<Rightarrow> key \<Rightarrow> ('a, 'd, 'e) loader \<Rightarrow> bool \<times> ('a, 'd, 'e) loader" where
  "try_cache ck k l =
     (case cm_get ck k l of
        (Some (Entity d s), l) \<Rightarrow>
          (True, l\<lparr>l_data := Some d, isDataLoadedSlowly := Some s, isDataLoading := False\<rparr>)
      | (Some (ClickedIndex i), l) \<Rightarrow>
          if truthy i
          then (True, l\<lparr>l_data := None, isDataLoadedSlowly := None, isDataLoading := False\<rparr>)
          else (False, l)
      | (None, l) \<Rightarrow> (False, l))"

text \<open>The effect up to the \<open>await\<close>; \<open>columns\<close> is \<open>actualVisibleColumnKeys\<close>.\<close>

definition load_list :: "clock \<Rightarrow> key \<Rightarrow> string \<Rightarrow> 'a \<Rightarrow> ('a, 'd, 'e) loader \<Rightarrow> ('a, 'd, 'e) loader" where
  "load_list ck k columns args l =
     (case try_cache ck k l of
        (True, l) \<Rightarrow> l
      | (False, l) \<Rightarrow>
          if columns = [] then l
          else l\<lparr>isDataLoading := True,
                 pending := pending l @ [\<lparr>f_key = k, f_args = args, f_beginAt = c_perf ck\<rparr>]\<rparr>)"

definition drop_nth :: "nat \<Rightarrow> 'x list \<Rightarrow> 'x list" where
  "drop_nth i xs = take i xs @ drop (Suc i) xs"

text \<open>
  The rest of the effect, for the \<open>i\<close>th request still unanswered; \<open>mk\<close> builds the data from the
  arguments and the rows (\<open>res?.data || []\<close>).
\<close>

definition list_resolved ::
    "('a \<Rightarrow> 'r list \<Rightarrow> 'd) \<Rightarrow> clock \<Rightarrow> nat \<Rightarrow> 'r list option \<Rightarrow> ('a, 'd, 'e) loader \<Rightarrow> ('a, 'd, 'e) loader" where
  "list_resolved mk ck i res l =
     (if i < length (pending l)
      then (let p = pending l ! i;
                d = mk (f_args p) (case res of Some rows \<Rightarrow> rows | None \<Rightarrow> []);
                isLoadSlow = (SLOW_DATA_LOAD_THRESHOLD \<le> c_perf ck - f_beginAt p)
            in (cm_set ck (f_key p) (Entity d isLoadSlow)
                 (l\<lparr>l_data := Some d, errors := [], isDataLoadedSlowly := Some isLoadSlow\<rparr>))
               \<lparr>isDataLoading := False, pending := drop_nth i (pending l)\<rparr>)
      else l)"

definition list_rejected :: "nat \<Rightarrow> 'e \<Rightarrow> ('a, 'd, 'e) loader \<Rightarrow> ('a, 'd, 'e) loader" where
  "list_rejected i e l =
     (if i < length (pending l)
      then l\<lparr>l_data := None, errors := errors l @ [e], isDataLoading := False,
             pending := drop_nth i (pending l)\<rparr>
      else l)"

subsection \<open>The clicked item\<close>

definition CLICKED_ITEM_INDEX :: key where
  "CLICKED_ITEM_INDEX = ''clicked_item_index''"

definition saveClickedItemIndex :: "clock \<Rightarrow> jsnum \<Rightarrow> ('a, 'd, 'e) loader \<Rightarrow> ('a, 'd, 'e) loader" where
  "saveClickedItemIndex ck idx l = cm_set ck CLICKED_ITEM_INDEX (ClickedIndex idx) l"

definition getClickedItemIndex :: "clock \<Rightarrow> ('a, 'd, 'e) loader \<Rightarrow> jsnum \<times> ('a, 'd, 'e) loader" where
  "getClickedItemIndex ck l =
     (case cm_get ck CLICKED_ITEM_INDEX l of
        (Some (ClickedIndex i), l) \<Rightarrow> (if truthy i then i else js_int (- 1), l)
      | (Some (Entity d s), l) \<Rightarrow> (NaN, l)
      | (None, l) \<Rightarrow> (js_int (- 1), l))"

subsection \<open>Correctness of the shared part\<close>

text \<open>
  A controller builds the key, the columns and the arguments of its request from its options \<open>opts\<close>;
  the key determines what \<open>cls\<close> keeps of them. \<open>A args rows\<close> says that the server may answer the
  request \<open>args\<close> with \<open>rows\<close>.
\<close>

locale list_loader =
  fixes keyOf :: "'o \<Rightarrow> key"
    and columnsOf :: "'o \<Rightarrow> string"
    and argsOf :: "clock \<Rightarrow> 'o \<Rightarrow> 'a"
    and mk :: "'a \<Rightarrow> 'r list \<Rightarrow> 'd"
    and wf :: "'o \<Rightarrow> bool"
    and cls :: "'o \<Rightarrow> 'c"
  assumes key_cls: "wf opts \<Longrightarrow> wf opts' \<Longrightarrow> keyOf opts = keyOf opts' \<Longrightarrow> cls opts = cls opts'"
    and key_not_clicked: "wf opts \<Longrightarrow> keyOf opts \<noteq> CLICKED_ITEM_INDEX"
begin

definition answers :: "('a \<Rightarrow> 'r list \<Rightarrow> bool) \<Rightarrow> 'o \<Rightarrow> 'd \<Rightarrow> bool" where
  "answers A opts d \<longleftrightarrow>
     (\<exists>opts' ck rows. wf opts' \<and> cls opts' = cls opts \<and> A (argsOf ck opts') rows \<and> d = mk (argsOf ck opts') rows)"

definition entry_ok :: "('a \<Rightarrow> 'r list \<Rightarrow> bool) \<Rightarrow> key \<Rightarrow> 'd cache_val \<Rightarrow> bool" where
  "entry_ok A k v \<longleftrightarrow>
     (case v of
        Entity d s \<Rightarrow> \<exists>opts. wf opts \<and> k = keyOf opts \<and> answers A opts d
      | ClickedIndex i \<Rightarrow> k = CLICKED_ITEM_INDEX)"

definition loader_inv :: "('a \<Rightarrow> 'r list \<Rightarrow> bool) \<Rightarrow> ('a, 'd, 'e) loader \<Rightarrow> bool" where
  "loader_inv A l \<longleftrightarrow>
     (\<forall>m. cacheMgr l = Some m \<longrightarrow> cs.entries (entry_ok A) m) \<and>
     (\<forall>p \<in> set (pending l). \<exists>opts ck. wf opts \<and> f_key p = keyOf opts \<and> f_args p = argsOf ck opts)"

text \<open>
  All requests on their way are for the options, as far as the key determines them, and once they are
  answered the list shown is one the options ask for.
\<close>

definition current :: "('a \<Rightarrow> 'r list \<Rightarrow> bool) \<Rightarrow> 'o \<Rightarrow> ('a, 'd, 'e) loader \<Rightarrow> bool" where
  "current A opts l \<longleftrightarrow>
     (\<forall>p \<in> set (pending l). \<exists>opts' ck. wf opts' \<and> cls opts' = cls opts \<and> f_args p = argsOf ck opts') \<and>
     (pending l = [] \<longrightarrow> columnsOf opts \<noteq> [] \<longrightarrow> (\<forall>d. l_data l = Some d \<longrightarrow> answers A opts d))"

lemma answersI: "wf opts \<Longrightarrow> A (argsOf ck opts) rows \<Longrightarrow> answers A opts (mk (argsOf ck opts) rows)"
  by (auto simp: answers_def)

lemma answers_cls: "answers A opts d \<Longrightarrow> cls opts' = cls opts \<Longrightarrow> answers A opts' d"
  by (simp add: answers_def)

lemma entry_ok_Entity:
  "entry_ok A (keyOf opts) (Entity d s) \<Longrightarrow> wf opts \<Longrightarrow> answers A opts d"
  by (auto simp: entry_ok_def intro: answers_cls key_cls)

lemma cm_get_inv: "loader_inv A l \<Longrightarrow> loader_inv A (snd (cm_get ck k l))"
  by (auto simp: loader_inv_def cm_get_def cs.entries_fetch split: option.splits)

lemma cm_get_hit: "loader_inv A l \<Longrightarrow> fst (cm_get ck k l) = Some v \<Longrightarrow> entry_ok A k v"
  by (auto simp: loader_inv_def cm_get_def split: option.splits dest: cs.entries_hit)

lemma cm_set_inv: "loader_inv A l \<Longrightarrow> entry_ok A k v \<Longrightarrow> loader_inv A (cm_set ck k v l)"
  by (auto simp: loader_inv_def cm_set_def intro: cs.entries_store)

lemma cm_clear_inv: "loader_inv A l \<Longrightarrow> loader_inv A (cm_clear l)"
  by (auto simp: loader_inv_def cm_clear_def cs.entries_wipe)

lemma inv_cong:
  "cacheMgr l' = cacheMgr l \<Longrightarrow> set (pending l') \<subseteq> set (pending l) \<Longrightarrow> loader_inv A l \<Longrightarrow> loader_inv A l'"
  unfolding loader_inv_def by (simp add: subset_iff)

lemma cm_get_frame:
  "l_data (snd (cm_get ck k l)) = l_data l" "pending (snd (cm_get ck k l)) = pending l"
  "isDataLoading (snd (cm_get ck k l)) = isDataLoading l"
  by (simp_all add: cm_get_def split: option.splits)

text \<open>The lookup under the key of the options: a hit shows a list these options ask for.\<close>

lemma try_cache_cases:
  assumes "loader_inv A l" and "wf opts"
  obtains (hit) d l' where "try_cache ck (keyOf opts) l = (True, l')" "l_data l' = Some d" "answers A opts d"
      "isDataLoading l' = False" "pending l' = pending l" "loader_inv A l'"
    | (miss) l' where "try_cache ck (keyOf opts) l = (False, l')" "l_data l' = l_data l"
      "isDataLoading l' = isDataLoading l" "pending l' = pending l" "loader_inv A l'"
proof -
  obtain v l1 where g: "cm_get ck (keyOf opts) l = (v, l1)" by (cases "cm_get ck (keyOf opts) l")
  have l1: "loader_inv A l1" "pending l1 = pending l" "l_data l1 = l_data l" "isDataLoading l1 = isDataLoading l"
    using cm_get_inv [OF assms(1), of ck "keyOf opts"] cm_get_frame [of ck "keyOf opts" l] by (simp_all add: g)
  have ok: "entry_ok A (keyOf opts) x" if "v = Some x" for x
    using cm_get_hit [OF assms(1), of ck "keyOf opts"] that by (simp add: g)
  show thesis
  proof (cases v)
    case None
    then show thesis using miss [of l1] l1 by (simp add: try_cache_def g)
  next
    case (Some x)
    show thesis
    proof (cases x)
      case (Entity d s)
      have "answers A opts d" using ok [OF Some] entry_ok_Entity assms(2) by (simp add: Entity)
      moreover have "loader_inv A (l1\<lparr>l_data := Some d, isDataLoadedSlowly := Some s, isDataLoading := False\<rparr>)"
        using l1(1) by (rule inv_cong [rotated 2]) simp_all
      ultimately show thesis
        using hit [of _ d] l1(2) by (simp add: try_cache_def g Some Entity)
    next
      case (ClickedIndex i)
      with ok [OF Some] key_not_clicked [OF assms(2)] show thesis by (simp add: entry_ok_def)
    qed
  qed
qed

lemma load_list_inv:
  assumes "loader_inv A l" and "wf opts"
  shows "loader_inv A (load_list ck (keyOf opts) (columnsOf opts) (argsOf ck opts) l)"
  using assms
proof (cases rule: try_cache_cases [where ck = ck])
  case (hit d l')
  then show ?thesis by (simp add: load_list_def)
next
  case (miss l')
  then show ?thesis using assms(2) by (auto simp: load_list_def loader_inv_def)
qed

lemma load_list_current:
  assumes "loader_inv A l" and "wf opts"
    and "\<forall>p \<in> set (pending l). \<exists>opts' ck. wf opts' \<and> cls opts' = cls opts \<and> f_args p = argsOf ck opts'"
  shows "current A opts (load_list ck (keyOf opts) (columnsOf opts) (argsOf ck opts) l)"
  using assms(1,2)
proof (cases rule: try_cache_cases [where ck = ck])
  case (hit d l')
  then show ?thesis using assms(3) by (simp add: load_list_def current_def)
next
  case (miss l')
  then show ?thesis using assms(2,3) by (auto simp: load_list_def current_def)
qed

lemma set_drop_nth: "set (drop_nth i xs) \<subseteq> set xs"
  by (auto simp: drop_nth_def dest: in_set_takeD in_set_dropD)

lemma list_resolved_inv:
  assumes "loader_inv A l"
    and "i < length (pending l) \<Longrightarrow> A (f_args (pending l ! i)) (case res of Some rows \<Rightarrow> rows | None \<Rightarrow> [])"
  shows "loader_inv A (list_resolved mk ck i res l)"
proof (cases "i < length (pending l)")
  case True
  let ?p = "pending l ! i" and ?rows = "case res of Some rows \<Rightarrow> rows | None \<Rightarrow> []"
  let ?s = "SLOW_DATA_LOAD_THRESHOLD \<le> c_perf ck - f_beginAt ?p"
  let ?l = "l\<lparr>l_data := Some (mk (f_args ?p) ?rows), errors := [], isDataLoadedSlowly := Some ?s\<rparr>"
  obtain opts ck' where o: "wf opts" "f_key ?p = keyOf opts" "f_args ?p = argsOf ck' opts"
    using assms(1) nth_mem [OF True] by (auto simp: loader_inv_def)
  have "entry_ok A (f_key ?p) (Entity (mk (f_args ?p) ?rows) ?s)"
    using o assms(2) [OF True] by (auto simp: entry_ok_def intro: answersI)
  moreover have "loader_inv A ?l" using assms(1) by (rule inv_cong [rotated 2]) simp_all
  ultimately have "loader_inv A (cm_set ck (f_key ?p) (Entity (mk (f_args ?p) ?rows) ?s) ?l)"
    by (rule cm_set_inv [rotated])
  then show ?thesis
    using True set_drop_nth [of i "pending l"]
    by (auto simp: list_resolved_def Let_def cm_set_def elim!: inv_cong [rotated 2])
qed (use assms(1) in \<open>simp add: list_resolved_def\<close>)

lemma list_rejected_inv: "loader_inv A l \<Longrightarrow> loader_inv A (list_rejected i e l)"
  using set_drop_nth [of i "pending l"] by (auto simp: list_rejected_def elim!: inv_cong [rotated 2])

lemma current_settled:
  assumes "current A opts l"
  shows "(i < length (pending l) \<Longrightarrow> A (f_args (pending l ! i)) (case res of Some rows \<Rightarrow> rows | None \<Rightarrow> [])) \<Longrightarrow>
      current A opts (list_resolved mk ck i res l)"
    and "current A opts (list_rejected i e l)"
proof -
  show "current A opts (list_rejected i e l)"
    using assms set_drop_nth [of i "pending l"] by (auto simp: current_def list_rejected_def subset_iff)
next
  assume res: "i < length (pending l) \<Longrightarrow> A (f_args (pending l ! i)) (case res of Some rows \<Rightarrow> rows | None \<Rightarrow> [])"
  show "current A opts (list_resolved mk ck i res l)"
  proof (cases "i < length (pending l)")
    case True
    obtain opts' ck' where "wf opts'" "cls opts' = cls opts" "f_args (pending l ! i) = argsOf ck' opts'"
      using assms nth_mem [OF True] unfolding current_def by blast
    then have "answers A opts (mk (f_args (pending l ! i)) (case res of Some rows \<Rightarrow> rows | None \<Rightarrow> []))"
      using res [OF True] answers_cls [OF answersI [of opts' A ck']] by simp
    then show ?thesis
      using True assms set_drop_nth [of i "pending l"]
      by (auto simp: current_def list_resolved_def cm_set_def Let_def subset_iff)
  qed (use assms in \<open>simp add: list_resolved_def\<close>)
qed

lemma saveClicked_inv: "loader_inv A l \<Longrightarrow> loader_inv A (saveClickedItemIndex ck i l)"
  unfolding saveClickedItemIndex_def by (rule cm_set_inv) (simp_all add: entry_ok_def)

lemma getClicked_inv: "loader_inv A l \<Longrightarrow> loader_inv A (snd (getClickedItemIndex ck l))"
  using cm_get_inv [of A l ck CLICKED_ITEM_INDEX]
  by (auto simp: getClickedItemIndex_def split: prod.splits option.splits cache_val.splits)

lemma current_frame:
  "l_data l' = l_data l \<Longrightarrow> pending l' = pending l \<Longrightarrow> current A opts l \<Longrightarrow> current A opts l'"
  by (simp add: current_def)

end

subsection \<open>No request, no loading\<close>

lemma load_list_loading:
  "(isDataLoading l \<Longrightarrow> pending l \<noteq> []) \<Longrightarrow> isDataLoading (load_list ck k columns args l) \<Longrightarrow>
     pending (load_list ck k columns args l) \<noteq> []"
  by (auto simp: load_list_def try_cache_def cm_get_def split: option.splits prod.splits cache_val.splits if_splits)

lemma settled_not_loading:
  "(isDataLoading l \<Longrightarrow> pending l \<noteq> []) \<Longrightarrow> isDataLoading (list_resolved mk ck i res l) \<Longrightarrow>
     pending (list_resolved mk ck i res l) \<noteq> []"
  "(isDataLoading l \<Longrightarrow> pending l \<noteq> []) \<Longrightarrow> isDataLoading (list_rejected i e l) \<Longrightarrow>
     pending (list_rejected i e l) \<noteq> []"
  by (auto simp: list_resolved_def list_rejected_def Let_def split: if_splits)

lemma clicked_frame [simp]:
  "l_data (saveClickedItemIndex ck i l) = l_data l" "pending (saveClickedItemIndex ck i l) = pending l"
  "isDataLoading (saveClickedItemIndex ck i l) = isDataLoading l"
  "l_data (snd (getClickedItemIndex ck l)) = l_data l" "pending (snd (getClickedItemIndex ck l)) = pending l"
  "isDataLoading (snd (getClickedItemIndex ck l)) = isDataLoading l"
  "l_data (cm_clear l) = l_data l" "pending (cm_clear l) = pending l" "isDataLoading (cm_clear l) = isDataLoading l"
  by (simp_all add: saveClickedItemIndex_def cm_set_def cm_clear_def getClickedItemIndex_def cm_get_def
      split: option.splits prod.splits cache_val.splits)

subsection \<open>Rounds of requests for the options\<close>

text \<open>
  \<open>doRequest\<close> sends a round of requests and waits for all of them; each round is the list of its
  requests still unanswered.
\<close>

datatype opt_req = ConfigReq | SchemasReq | GroupsReq | StmtTypesReq

definition answerable :: "nat \<Rightarrow> opt_req \<Rightarrow> opt_req list list \<Rightarrow> bool" where
  "answerable n k rs \<longleftrightarrow> n < length rs \<and> k \<in> set (rs ! n)"

definition opt_done :: "nat \<Rightarrow> opt_req \<Rightarrow> opt_req list list \<Rightarrow> opt_req list list" where
  "opt_done n k rs = rs[n := without k (rs ! n)]"

text \<open>\<open>setOptionsLoading(false)\<close> after \<open>Promise.all\<close>\<close>

definition round_loading :: "nat \<Rightarrow> opt_req list list \<Rightarrow> bool \<Rightarrow> bool" where
  "round_loading n rs b = (if rs ! n = [] then False else b)"

definition unanswered :: "opt_req list list \<Rightarrow> bool" where
  "unanswered rs \<longleftrightarrow> (\<exists>r \<in> set rs. r \<noteq> [])"

lemma round_loading_unanswered:
  assumes "answerable n k rs"
  shows "round_loading n (opt_done n k rs) b \<Longrightarrow> unanswered (opt_done n k rs)"
  using assms unfolding round_loading_def unanswered_def answerable_def opt_done_def
  by (metis length_list_update nth_mem)

subsection \<open>Options as JSON\<close>

definition json_strs :: "string list \<Rightarrow> json" where
  "json_strs xs = JArr (map JStr xs)"

definition json_columns :: "IColumnKeys \<Rightarrow> json" where
  "json_columns ks = JObj (map (\<lambda>(k, b). (k, JBool b)) ks)"

fun json_range :: "TimeRange \<Rightarrow> json" where
  "json_range (Recent v) = JObj [(''type'', JStr ''recent''), (''value'', JNum v)]"
| "json_range (Absolute a b) = JObj [(''type'', JStr ''absolute''), (''value'', JArr [JNum a, JNum b])]"

text \<open>An object with the properties \<open>ps\<close>, in this order, whose values \<open>f\<close> gives.\<close>

definition json_props :: "(string \<Rightarrow> json) \<Rightarrow> string list \<Rightarrow> json" where
  "json_props f ps = JObj (map (\<lambda>p. (p, f p)) ps)"

lemma json_strs_inject [simp]: "json_strs xs = json_strs ys \<longleftrightarrow> xs = ys"
  by (induction xs arbitrary: ys) (auto simp: json_strs_def Cons_eq_map_conv)

lemma json_columns_inject [simp]: "json_columns xs = json_columns ys \<longleftrightarrow> xs = ys"
  by (induction xs arbitrary: ys) (auto simp: json_columns_def Cons_eq_map_conv)

lemma json_range_inject [simp]: "json_range a = json_range b \<longleftrightarrow> a = b"
  by (cases a; cases b) auto

lemma json_wf_parts [simp]: "json_wf (json_strs xs)" "json_wf (json_columns ks)"
  "json_wf (json_range t) \<longleftrightarrow> wf_range t"
  by (auto simp: json_strs_def json_columns_def wf_range_def whole_def split: jsnum.splits TimeRange.splits)

lemma json_props_inject:
  "json_props f ps = json_props g qs \<Longrightarrow> ps = qs \<and> (\<forall>p \<in> set ps. f p = g p)"
  by (induction ps arbitrary: qs) (auto simp: json_props_def Cons_eq_map_conv)

lemma json_wf_props [simp]: "json_wf (json_props f ps) \<longleftrightarrow> (\<forall>p \<in> set ps. json_wf (f p))"
  by (auto simp: json_props_def)

end
