(* ===== verification/SlowQueryController.thy ===== *)
theory SlowQueryController
  imports ListLoader
begin

text \<open>
  The controller of the slow query list, \<open>SlowQuery/utils/useSlowQueryTableController.ts\<close>: its
  options and order, the requests for the schemas and resource groups, the list itself and the
  events of the page. \<open>'row\<close> stands for \<open>SlowqueryModel\<close>, a type of the generated client.
\<close>

subsection \<open>Options\<close>

text \<open>\<open>sq_props\<close> is the order in which the options object has its properties.\<close>

record ISlowQueryOptions =
  visibleColumnKeys :: IColumnKeys
  timeRange :: TimeRange
  schemas :: "string list"
  groups :: "string list"
  searchText :: string
  limit :: jsnum
  showInternal :: bool
  digest :: string
  plans :: "string list"
  sq_props :: "string list"

definition DEF_SLOW_QUERY_COLUMN_KEYS :: IColumnKeys where
  "DEF_SLOW_QUERY_COLUMN_KEYS =
     [(''query'', True), (''timestamp'', True), (''query_time'', True), (''memory_max'', True)]"

definition DEF_ORDER_OPTIONS :: IOrderOptions where
  "DEF_ORDER_OPTIONS = \<lparr>orderBy = ''timestamp'', desc = True\<rparr>"

definition DEF_SLOW_QUERY_OPTIONS :: ISlowQueryOptions where
  "DEF_SLOW_QUERY_OPTIONS =
     \<lparr>visibleColumnKeys = DEF_SLOW_QUERY_COLUMN_KEYS, timeRange = DEFAULT_TIME_RANGE, schemas = [],
      groups = [], searchText = [], limit = js_int 100, showInternal = False, digest = [], plans = [],
      sq_props = [''visibleColumnKeys'', ''timeRange'', ''schemas'', ''searchText'', ''limit'',
        ''showInternal'', ''digest'', ''plans'', ''groups'']\<rparr>"

definition sq_useQueryOptions ::
    "ISlowQueryOptions option \<Rightarrow> ISlowQueryOptions option \<Rightarrow> ISlowQueryOptions cells" where
  "sq_useQueryOptions stored initial =
     useCells stored (case initial of Some q \<Rightarrow> q | None \<Rightarrow> DEF_SLOW_QUERY_OPTIONS)"

definition sq_derivedFields :: DerivedFields where
  "sq_derivedFields =
     [(''cop_proc_avg'', BarSources [(''mean'', ''cop_proc_avg''), (''max'', ''cop_proc_max''),
         (''p90'', ''cop_proc_p90'')]),
      (''cop_wait_avg'', BarSources [(''mean'', ''cop_wait_avg''), (''max'', ''cop_wait_max''),
         (''p90'', ''cop_wait_p90'')])]"

subsection \<open>The request\<close>

definition sq_prop :: "ISlowQueryOptions \<Rightarrow> string \<Rightarrow> json" where
  "sq_prop q p =
     (if p = ''visibleColumnKeys'' then json_columns (visibleColumnKeys q)
      else if p = ''timeRange'' then json_range (timeRange q)
      else if p = ''schemas'' then json_strs (schemas q)
      else if p = ''groups'' then json_strs (groups q)
      else if p = ''searchText'' then JStr (searchText q)
      else if p = ''limit'' then JNum (limit q)
      else if p = ''showInternal'' then JBool (showInternal q)
      else if p = ''digest'' then JStr (digest q)
      else json_strs (plans q))"

text \<open>\<open>JSON.stringify({ queryOptions, orderOptions })\<close>\<close>

definition sq_cacheKey :: "ISlowQueryOptions \<times> IOrderOptions \<Rightarrow> key" where
  "sq_cacheKey opts =
     stringify (JObj [(''queryOptions'', json_props (sq_prop (fst opts)) (sq_props (fst opts))),
       (''orderOptions'', JObj [(''orderBy'', JStr (orderBy (snd opts))), (''desc'', JBool (desc (snd opts)))])])"

definition sq_columns :: "ISlowQueryOptions \<times> IOrderOptions \<Rightarrow> string" where
  "sq_columns opts = join '','' (getSelectedFields (visibleColumnKeys (fst opts)) sq_derivedFields)"

text \<open>The arguments of \<open>slowQueryListGet\<close>.\<close>

record sq_args =
  a_begin :: jsnum
  a_db :: "string list"
  a_desc :: bool
  a_digest :: string
  a_end :: jsnum
  a_fields :: string
  a_limit :: jsnum
  a_orderBy :: string
  a_plans :: "string list"
  a_groups :: "string list"
  a_text :: string
  a_showInternal :: bool

definition sq_request :: "clock \<Rightarrow> ISlowQueryOptions \<times> IOrderOptions \<Rightarrow> sq_args" where
  "sq_request ck opts =
     (let q = fst opts; ord = snd opts; range = toTimeRangeValue (c_unix ck) (Some (timeRange q)) 0
      in \<lparr>a_begin = fst range, a_db = schemas q, a_desc = desc ord, a_digest = digest q,
          a_end = snd range, a_fields = sq_columns opts, a_limit = limit q, a_orderBy = orderBy ord,
          a_plans = plans q, a_groups = groups q, a_text = searchText q, a_showInternal = showInternal q\<rparr>)"

definition getSlowQueryList ::
    "clock \<Rightarrow> ISlowQueryOptions \<times> IOrderOptions \<Rightarrow> (sq_args, 'row list, 'e) loader \<Rightarrow> (sq_args, 'row list, 'e) loader" where
  "getSlowQueryList ck opts l = load_list ck (sq_cacheKey opts) (sq_columns opts) (sq_request ck opts) l"

subsection \<open>The controller\<close>

record ('row, 'e) sq_ctrl =
  sq_cells :: "ISlowQueryOptions cells"
  sq_orders :: "IOrderOptions cells"
  allSchemas :: "string list"
  allGroups :: "string list"
  isOptionsLoading :: bool
  rounds :: "opt_req list list"
  sq_loader :: "(sq_args, 'row list, 'e) loader"

text \<open>The flags the hook is called with.\<close>

record sq_cfg =
  fetchSchemas :: bool
  persistQueryInSession :: bool

definition sq_opts :: "sq_cfg \<Rightarrow> ('row, 'e) sq_ctrl \<Rightarrow> ISlowQueryOptions \<times> IOrderOptions" where
  "sq_opts g s = (cell (persistQueryInSession g) (sq_cells s), cell (persistQueryInSession g) (sq_orders s))"

definition sq_init ::
    "'row list cache_val CacheMgr option \<Rightarrow> ISlowQueryOptions option \<Rightarrow> ISlowQueryOptions option \<Rightarrow>
     IOrderOptions option \<Rightarrow> ('row, 'e) sq_ctrl" where
  "sq_init mgr initial stored storedOrder =
     \<lparr>sq_cells = sq_useQueryOptions stored initial, sq_orders = useCells storedOrder DEF_ORDER_OPTIONS,
      allSchemas = [], allGroups = [], isOptionsLoading = True, rounds = [],
      sq_loader = \<lparr>l_data = None, isDataLoading = False, isDataLoadedSlowly = None, errors = [],
        cacheMgr = mgr, pending = []\<rparr>\<rparr>"

text \<open>The two effects: on new options both run, on a new order only the second.\<close>

definition sq_options_effect :: "sq_cfg \<Rightarrow> ('row, 'e) sq_ctrl \<Rightarrow> ('row, 'e) sq_ctrl" where
  "sq_options_effect g s =
     s\<lparr>isOptionsLoading := True,
       rounds := rounds s @ [(if fetchSchemas g then [SchemasReq] else []) @ [GroupsReq]]\<rparr>"

definition sq_list_effect :: "sq_cfg \<Rightarrow> clock \<Rightarrow> ('row, 'e) sq_ctrl \<Rightarrow> ('row, 'e) sq_ctrl" where
  "sq_list_effect g ck s = s\<lparr>sq_loader := getSlowQueryList ck (sq_opts g s) (sq_loader s)\<rparr>"

definition sq_round_done :: "nat \<Rightarrow> opt_req \<Rightarrow> ('row, 'e) sq_ctrl \<Rightarrow> ('row, 'e) sq_ctrl" where
  "sq_round_done n k s =
     s\<lparr>rounds := opt_done n k (rounds s),
       isOptionsLoading := round_loading n (opt_done n k (rounds s)) (isOptionsLoading s)\<rparr>"

datatype ('row, 'e) sq_event =
    Mount
  | SetQueryOptions "ISlowQueryOptions \<Rightarrow> ISlowQueryOptions"
  | ChangeOrder string bool
  | ResetOrder
  | ListResolved nat "'row list option"
  | ListRejected nat 'e
  | SchemasResolved nat "string list option"
  | SchemasRejected nat 'e
  | GroupsResolved nat "string list option"
  | GroupsRejected nat 'e
  | SaveClicked jsnum
  | GetClicked
  | ClearCache

definition or_empty :: "'x list option \<Rightarrow> 'x list" where
  "or_empty r = (case r of Some xs \<Rightarrow> xs | None \<Rightarrow> [])"

fun sq_step :: "sq_cfg \<Rightarrow> clock \<times> ('row, 'e) sq_event \<Rightarrow> ('row, 'e) sq_ctrl \<Rightarrow> ('row, 'e) sq_ctrl" where
  "sq_step g (ck, Mount) s = sq_list_effect g ck (sq_options_effect g s)"
| "sq_step g (ck, SetQueryOptions f) s =
     sq_list_effect g ck (sq_options_effect g
       (s\<lparr>sq_cells := set_cell (persistQueryInSession g) f (sq_cells s)\<rparr>))"
| "sq_step g (ck, ChangeOrder by d) s =
     sq_list_effect g ck (s\<lparr>sq_orders := changeOrder (persistQueryInSession g) by d (sq_orders s)\<rparr>)"
| "sq_step g (ck, ResetOrder) s =
     sq_list_effect g ck (s\<lparr>sq_orders := changeOrder (persistQueryInSession g) (orderBy DEF_ORDER_OPTIONS)
       (desc DEF_ORDER_OPTIONS) (sq_orders s)\<rparr>)"
| "sq_step g (ck, ListResolved i res) s =
     s\<lparr>sq_loader := list_resolved (\<lambda>_ rows. rows) ck i res (sq_loader s)\<rparr>"
| "sq_step g (ck, ListRejected i e) s = s\<lparr>sq_loader := list_rejected i e (sq_loader s)\<rparr>"
| "sq_step g (ck, SchemasResolved n res) s =
     (if answerable n SchemasReq (rounds s)
      then sq_round_done n SchemasReq (s\<lparr>allSchemas := or_empty res\<rparr>) else s)"
| "sq_step g (ck, SchemasRejected n e) s =
     (if answerable n SchemasReq (rounds s)
      then sq_round_done n SchemasReq
             (s\<lparr>sq_loader := (sq_loader s)\<lparr>errors := errors (sq_loader s) @ [e]\<rparr>\<rparr>) else s)"
| "sq_step g (ck, GroupsResolved n res) s =
     (if answerable n GroupsReq (rounds s)
      then sq_round_done n GroupsReq (s\<lparr>allGroups := or_empty res\<rparr>) else s)"
| "sq_step g (ck, GroupsRejected n e) s =
     (if answerable n GroupsReq (rounds s) then sq_round_done n GroupsReq s else s)"
| "sq_step g (ck, SaveClicked i) s = s\<lparr>sq_loader := saveClickedItemIndex ck i (sq_loader s)\<rparr>"
| "sq_step g (ck, GetClicked) s = s\<lparr>sq_loader := snd (getClickedItemIndex ck (sq_loader s))\<rparr>"
| "sq_step g (ck, ClearCache) s = s\<lparr>sq_loader := cm_clear (sq_loader s)\<rparr>"

text \<open>What the hook returns as \<open>data\<close> and \<open>isLoading\<close>; \<open>digestOf\<close> reads the digest of a row.\<close>

definition filteredData :: "('row \<Rightarrow> string) \<Rightarrow> string list option \<Rightarrow> 'row list option \<Rightarrow> 'row list option" where
  "filteredData digestOf filters d =
     (case filters of
        None \<Rightarrow> d
      | Some fs \<Rightarrow> map_option (filter (\<lambda>r. digestOf r \<in> set fs)) d)"

definition sq_isLoading :: "bool \<Rightarrow> ('row, 'e) sq_ctrl \<Rightarrow> bool" where
  "sq_isLoading isColumnsLoading s \<longleftrightarrow>
     isColumnsLoading \<or> isDataLoading (sq_loader s) \<or> isOptionsLoading s"

subsection \<open>The cache key determines the options\<close>

definition sq_names :: "string set" where
  "sq_names = {''visibleColumnKeys'', ''timeRange'', ''schemas'', ''searchText'', ''limit'',
     ''showInternal'', ''digest'', ''plans'', ''groups''}"

text \<open>Options the pages build: all properties, whole numbers.\<close>

definition sq_wf :: "ISlowQueryOptions \<times> IOrderOptions \<Rightarrow> bool" where
  "sq_wf opts \<longleftrightarrow>
     set (sq_props (fst opts)) = sq_names \<and> whole (limit (fst opts)) \<and> wf_range (timeRange (fst opts))"

lemma sq_prop_wf: "sq_wf opts \<Longrightarrow> json_wf (sq_prop (fst opts) p)"
  by (auto simp: sq_wf_def sq_prop_def)

lemma sq_prop_inject:
  assumes "\<forall>p \<in> sq_names. sq_prop q p = sq_prop q' p" and "sq_props q = sq_props q'"
  shows "q = q'"
proof -
  have "visibleColumnKeys q = visibleColumnKeys q'" using assms(1) by (auto simp: sq_names_def sq_prop_def)
  moreover have "timeRange q = timeRange q'" "schemas q = schemas q'" "groups q = groups q'"
    "searchText q = searchText q'" "limit q = limit q'" "showInternal q = showInternal q'" "digest q = digest q'"
    "plans q = plans q'"
    using assms(1) by (auto simp: sq_names_def sq_prop_def)
  ultimately show ?thesis using assms(2) by simp
qed

lemma sq_cacheKey_inject:
  assumes "sq_wf opts" and "sq_wf opts'" and "sq_cacheKey opts = sq_cacheKey opts'"
  shows "opts = opts'"
proof -
  let ?j = "\<lambda>opts. JObj [(''queryOptions'', json_props (sq_prop (fst opts)) (sq_props (fst opts))),
       (''orderOptions'', JObj [(''orderBy'', JStr (orderBy (snd opts))), (''desc'', JBool (desc (snd opts)))])]"
  have "?j opts = ?j opts'"
  proof (rule stringify_inject)
    show "json_wf (?j opts)" "json_wf (?j opts')" using assms(1,2) by (simp_all add: sq_prop_wf)
    show "stringify (?j opts) = stringify (?j opts')" using assms(3) unfolding sq_cacheKey_def .
  qed
  then have "json_props (sq_prop (fst opts)) (sq_props (fst opts)) =
      json_props (sq_prop (fst opts')) (sq_props (fst opts'))" "snd opts = snd opts'"
    by simp_all
  with json_props_inject [OF this(1)] assms(1) show ?thesis
    by (intro prod_eqI sq_prop_inject) (auto simp: sq_wf_def)
qed

lemma sq_cacheKey_not_clicked: "sq_cacheKey opts \<noteq> CLICKED_ITEM_INDEX"
  by (simp add: sq_cacheKey_def CLICKED_ITEM_INDEX_def)

interpretation sq: list_loader sq_cacheKey sq_columns sq_request "\<lambda>_ rows. rows" sq_wf "\<lambda>opts. opts"
  by unfold_locales (simp_all add: sq_cacheKey_inject sq_cacheKey_not_clicked)

lemma sq_answers: "sq.answers A opts d \<longleftrightarrow> sq_wf opts \<and> (\<exists>ck. A (sq_request ck opts) d)"
  unfolding sq.answers_def by blast

subsection \<open>Runs\<close>

text \<open>
  The events of a run: the options are changed only while no request for the list is unanswered, and
  the answers are answers of the server.
\<close>

fun sq_event_ok ::
    "(sq_args \<Rightarrow> 'row list \<Rightarrow> bool) \<Rightarrow> sq_cfg \<Rightarrow> ('row, 'e) sq_ctrl \<Rightarrow> ('row, 'e) sq_event \<Rightarrow> bool" where
  "sq_event_ok A g s Mount = (pending (sq_loader s) = [])"
| "sq_event_ok A g s (SetQueryOptions f) =
     (pending (sq_loader s) = [] \<and> sq_wf (f (fst (sq_opts g s)), snd (sq_opts g s)))"
| "sq_event_ok A g s (ChangeOrder by d) = (pending (sq_loader s) = [])"
| "sq_event_ok A g s ResetOrder = (pending (sq_loader s) = [])"
| "sq_event_ok A g s (ListResolved i res) =
     (i < length (pending (sq_loader s)) \<longrightarrow> A (f_args (pending (sq_loader s) ! i)) (or_empty res))"
| "sq_event_ok A g s _ = True"

fun sq_run_ok ::
    "(sq_args \<Rightarrow> 'row list \<Rightarrow> bool) \<Rightarrow> sq_cfg \<Rightarrow> ('row, 'e) sq_ctrl \<Rightarrow> (clock \<times> ('row, 'e) sq_event) list \<Rightarrow> bool" where
  "sq_run_ok A g s [] = True"
| "sq_run_ok A g s (e # es) = (sq_event_ok A g s (snd e) \<and> sq_run_ok A g (sq_step g e s) es)"

definition sq_inv :: "(sq_args \<Rightarrow> 'row list \<Rightarrow> bool) \<Rightarrow> sq_cfg \<Rightarrow> ('row, 'e) sq_ctrl \<Rightarrow> bool" where
  "sq_inv A g s \<longleftrightarrow>
     sq_wf (sq_opts g s) \<and> sq.loader_inv A (sq_loader s) \<and> sq.current A (sq_opts g s) (sq_loader s)"

lemma sq_opts_simps [simp]:
  "sq_opts g (sq_options_effect g s) = sq_opts g s"
  "sq_opts g (s\<lparr>sq_loader := l\<rparr>) = sq_opts g s"
  "sq_opts g (sq_round_done n k s) = sq_opts g s"
  "sq_opts g (s\<lparr>allSchemas := xs\<rparr>) = sq_opts g s"
  "sq_opts g (s\<lparr>allGroups := xs\<rparr>) = sq_opts g s"
  "sq_opts g (s\<lparr>sq_cells := set_cell (persistQueryInSession g) f (sq_cells s)\<rparr>) =
     (f (fst (sq_opts g s)), snd (sq_opts g s))"
  "sq_opts g (s\<lparr>sq_orders := changeOrder (persistQueryInSession g) by d (sq_orders s)\<rparr>) =
     (fst (sq_opts g s), \<lparr>orderBy = by, desc = d\<rparr>)"
  by (simp_all add: sq_opts_def sq_options_effect_def sq_round_done_def)

lemma sq_loader_simps [simp]:
  "sq_loader (sq_options_effect g s) = sq_loader s"
  "sq_loader (sq_round_done n k s) = sq_loader s"
  by (simp_all add: sq_options_effect_def sq_round_done_def)

lemma sq_wf_order: "sq_wf opts \<Longrightarrow> sq_wf (fst opts, ord)"
  by (simp add: sq_wf_def)

lemma sq_inv_list_effect:
  "sq_wf (sq_opts g s) \<Longrightarrow> sq.loader_inv A (sq_loader s) \<Longrightarrow> pending (sq_loader s) = [] \<Longrightarrow>
     sq_inv A g (sq_list_effect g ck s)"
  by (simp add: sq_inv_def sq_list_effect_def getSlowQueryList_def sq.load_list_inv sq.load_list_current)

lemma sq_inv_loader:
  assumes "sq_inv A g s" and "sq.loader_inv A l" and "sq.current A (sq_opts g s) l"
  shows "sq_inv A g (s\<lparr>sq_loader := l\<rparr>)"
  using assms by (simp add: sq_inv_def)

lemma loader_inv_errors [simp]:
  "sq.loader_inv A (l\<lparr>errors := es\<rparr>) \<longleftrightarrow> sq.loader_inv A l" "sq.current A opts (l\<lparr>errors := es\<rparr>) \<longleftrightarrow> sq.current A opts l"
  by (simp_all add: sq.loader_inv_def sq.current_def)

lemma sq_inv_step:
  assumes "sq_inv A g s" and "sq_event_ok A g s (snd e)"
  shows "sq_inv A g (sq_step g e s)"
proof -
  obtain ck ev where e: "e = (ck, ev)" by (cases e)
  from assms(1) have s: "sq_wf (sq_opts g s)" "sq.loader_inv A (sq_loader s)"
      "sq.current A (sq_opts g s) (sq_loader s)"
    by (simp_all add: sq_inv_def)
  show ?thesis
  proof (cases ev)
    case (ListResolved i res)
    then have "i < length (pending (sq_loader s)) \<Longrightarrow>
        A (f_args (pending (sq_loader s) ! i)) (case res of Some rows \<Rightarrow> rows | None \<Rightarrow> [])"
      using assms(2) by (simp add: e or_empty_def)
    with assms(1) s show ?thesis
      by (simp add: e ListResolved sq_inv_loader sq.list_resolved_inv sq.current_settled)
  next
    case (ListRejected i x)
    with assms(1) s show ?thesis
      by (simp add: e sq_inv_loader sq.list_rejected_inv sq.current_settled(2))
  next
    case (SaveClicked i)
    with assms(1) s show ?thesis
      by (auto simp: e intro!: sq_inv_loader sq.saveClicked_inv elim: sq.current_frame [rotated 2])
  next
    case GetClicked
    with assms(1) s show ?thesis
      by (auto simp: e intro!: sq_inv_loader sq.getClicked_inv elim: sq.current_frame [rotated 2])
  next
    case ClearCache
    with assms(1) s show ?thesis
      by (auto simp: e intro!: sq_inv_loader sq.cm_clear_inv elim: sq.current_frame [rotated 2])
  next
    case Mount
    with assms(2) s show ?thesis by (auto simp: e intro: sq_inv_list_effect)
  next
    case (SetQueryOptions f)
    with assms(2) s show ?thesis by (auto simp: e intro!: sq_inv_list_effect)
  next
    case (ChangeOrder col d)
    with assms(2) s show ?thesis by (auto simp: e intro!: sq_inv_list_effect sq_wf_order)
  next
    case ResetOrder
    with assms(2) s show ?thesis by (auto simp: e intro!: sq_inv_list_effect sq_wf_order)
  qed (use s in \<open>auto simp: e sq_inv_def\<close>)
qed

lemma sq_inv_run:
  "sq_inv A g s \<Longrightarrow> sq_run_ok A g s es \<Longrightarrow> sq_inv A g (fold (sq_step g) es s)"
  by (induction es arbitrary: s) (auto intro: sq_inv_step)

lemma sq_inv_init:
  assumes "sq_wf (sq_opts g (sq_init mgr initial stored storedOrder :: ('row, 'e) sq_ctrl))"
    and "mgr = None \<or> mgr = Some (newCacheMgr cap ge)"
  shows "sq_inv A g (sq_init mgr initial stored storedOrder :: ('row, 'e) sq_ctrl)"
  using assms cache_new_entries
  by (auto simp: sq_inv_def sq.loader_inv_def sq.current_def sq_init_def)

subsection \<open>No request, no spinner\<close>

definition sq_busy :: "('row, 'e) sq_ctrl \<Rightarrow> bool" where
  "sq_busy s \<longleftrightarrow> pending (sq_loader s) \<noteq> [] \<or> unanswered (rounds s)"

definition sq_spin_ok :: "('row, 'e) sq_ctrl \<Rightarrow> bool" where
  "sq_spin_ok s \<longleftrightarrow>
     (isDataLoading (sq_loader s) \<longrightarrow> pending (sq_loader s) \<noteq> []) \<and> (isOptionsLoading s \<longrightarrow> unanswered (rounds s))"

lemma sq_spin_options: "sq_spin_ok s \<Longrightarrow> sq_spin_ok (sq_options_effect g s)"
  by (auto simp: sq_spin_ok_def sq_options_effect_def unanswered_def)

lemma sq_spin_list: "sq_spin_ok s \<Longrightarrow> sq_spin_ok (sq_list_effect g ck s)"
  unfolding sq_spin_ok_def sq_list_effect_def getSlowQueryList_def
  using load_list_loading [of "sq_loader s"] by auto

lemma sq_spin_done:
  "answerable n k (rounds s) \<Longrightarrow> sq_spin_ok s \<Longrightarrow> sq_spin_ok (sq_round_done n k s)"
  by (simp add: sq_spin_ok_def sq_round_done_def round_loading_unanswered)

lemma sq_spin_cells [simp]:
  "sq_spin_ok (s\<lparr>sq_cells := c\<rparr>) = sq_spin_ok s" "sq_spin_ok (s\<lparr>sq_orders := ord\<rparr>) = sq_spin_ok s"
  "sq_spin_ok (s\<lparr>allSchemas := xs\<rparr>) = sq_spin_ok s" "sq_spin_ok (s\<lparr>allGroups := xs\<rparr>) = sq_spin_ok s"
  "sq_spin_ok (s\<lparr>sq_loader := (sq_loader s)\<lparr>errors := es\<rparr>\<rparr>) = sq_spin_ok s"
  by (simp_all add: sq_spin_ok_def)

lemma sq_spin_settled:
  "sq_spin_ok s \<Longrightarrow> sq_spin_ok (s\<lparr>sq_loader := list_resolved mk ck i res (sq_loader s)\<rparr>)"
  "sq_spin_ok s \<Longrightarrow> sq_spin_ok (s\<lparr>sq_loader := list_rejected i e (sq_loader s)\<rparr>)"
  using settled_not_loading(1) [of "sq_loader s" mk ck i res] settled_not_loading(2) [of "sq_loader s" i e]
  by (auto simp: sq_spin_ok_def)

lemma sq_spin_step: "sq_spin_ok s \<Longrightarrow> sq_spin_ok (sq_step g e s)"
  by (cases "(g, e, s)" rule: sq_step.cases)
    (auto simp: sq_spin_settled intro!: sq_spin_list sq_spin_options sq_spin_done,
     auto simp: sq_spin_ok_def)

lemma sq_spin_run: "sq_spin_ok s \<Longrightarrow> sq_spin_ok (fold (sq_step g) es s)"
  by (induction es arbitrary: s) (auto intro: sq_spin_step)

subsection \<open>Properties\<close>

text \<open>
  C4: The slow query list shows what its options ask for. In every run that starts with an empty cache
  (or none) and changes the options or the order only while no list request is unanswered, whenever
  nothing is being loaded and some column is selected, the rows shown are an answer of the server to
  the request for the current options and order, be it fresh or from the cache.
\<close>

theorem slow_query_shows_answer:
  fixes s0 :: "('row, 'e) sq_ctrl"
  assumes "s0 = sq_init mgr initial stored storedOrder" and "mgr = None \<or> mgr = Some (newCacheMgr cap ge)"
    and "sq_wf (sq_opts g s0)" and "sq_run_ok A g s0 es"
  defines "s \<equiv> fold (sq_step g) es s0"
  shows "pending (sq_loader s) = [] \<Longrightarrow> sq_columns (sq_opts g s) \<noteq> [] \<Longrightarrow> l_data (sq_loader s) = Some rows \<Longrightarrow>
    \<exists>ck. A (sq_request ck (sq_opts g s)) rows"
proof -
  assume *: "pending (sq_loader s) = []" "sq_columns (sq_opts g s) \<noteq> []" "l_data (sq_loader s) = Some rows"
  have "sq_inv A g s0" using assms(2,3) unfolding assms(1) by (rule sq_inv_init [rotated])
  then have "sq_inv A g s" unfolding s_def using assms(4) by (rule sq_inv_run)
  with * show ?thesis by (simp add: sq_inv_def sq.current_def sq_answers)
qed

definition sample_clock :: clock where
  "sample_clock = \<lparr>c_date = 1000, c_perf = 10, c_unix = js_int 1700000000\<rparr>"

definition sample_cfg :: sq_cfg where
  "sample_cfg = \<lparr>fetchSchemas = True, persistQueryInSession = True\<rparr>"

definition sample_start :: "(string, string) sq_ctrl" where
  "sample_start = sq_init None None None None"

definition sample_server :: "sq_args \<Rightarrow> string list \<Rightarrow> bool" where
  "sample_server a rows \<longleftrightarrow> rows = [a_orderBy a]"

lemma sample_opts:
  "sq_opts sample_cfg sample_start = (DEF_SLOW_QUERY_OPTIONS, DEF_ORDER_OPTIONS)"
  by (simp add: sq_opts_def sample_cfg_def sample_start_def sq_init_def cell_def sq_useQueryOptions_def useCells_def)

lemma sq_wf_default: "sq_wf (DEF_SLOW_QUERY_OPTIONS, ord)"
  by (auto simp: sq_wf_def DEF_SLOW_QUERY_OPTIONS_def sq_names_def wf_range_def DEFAULT_TIME_RANGE_def whole_def)

lemma sq_columns_default: "sq_columns (DEF_SLOW_QUERY_OPTIONS, ord) = ''query,timestamp,query_time,memory_max''"
  by (simp add: sq_columns_def DEF_SLOW_QUERY_OPTIONS_def DEF_SLOW_QUERY_COLUMN_KEYS_def getSelectedFields_def
      sq_derivedFields_def)

text \<open>Without a cache manager every effect with some column sends a request.\<close>

lemma load_list_no_cache:
  "cacheMgr l = None \<Longrightarrow> columns \<noteq> [] \<Longrightarrow> load_list ck k columns args l =
     l\<lparr>isDataLoading := True, pending := pending l @ [\<lparr>f_key = k, f_args = args, f_beginAt = c_perf ck\<rparr>]\<rparr>"
  by (simp add: load_list_def try_cache_def cm_get_def)

lemma sample_mounted:
  "sq_loader (sq_step sample_cfg (sample_clock, Mount) sample_start) =
     \<lparr>l_data = None, isDataLoading = True, isDataLoadedSlowly = None, errors = [], cacheMgr = None,
      pending = [\<lparr>f_key = sq_cacheKey (DEF_SLOW_QUERY_OPTIONS, DEF_ORDER_OPTIONS),
        f_args = sq_request sample_clock (DEF_SLOW_QUERY_OPTIONS, DEF_ORDER_OPTIONS), f_beginAt = 10\<rparr>]\<rparr>"
proof -
  have l: "sq_loader sample_start = \<lparr>l_data = None, isDataLoading = False, isDataLoadedSlowly = None,
      errors = [], cacheMgr = None, pending = []\<rparr>"
    by (simp add: sample_start_def sq_init_def)
  show ?thesis
    by (simp add: sq_list_effect_def getSlowQueryList_def sample_opts l load_list_no_cache sq_columns_default)
      (simp add: sample_clock_def)
qed

theorem slow_query_shows_answer_witness:
  "\<exists>ck. sample_server (sq_request ck (sq_opts sample_cfg sample_start)) [''timestamp'']"
proof -
  let ?s1 = "sq_step sample_cfg (sample_clock, Mount) sample_start"
  let ?es = "[(sample_clock, Mount), (sample_clock, ListResolved 0 (Some [''timestamp'']))]"
  let ?s = "fold (sq_step sample_cfg) ?es sample_start"
  have req: "sample_server (sq_request sample_clock (DEF_SLOW_QUERY_OPTIONS, DEF_ORDER_OPTIONS)) [''timestamp'']"
    by (simp add: sample_server_def sq_request_def Let_def DEF_ORDER_OPTIONS_def)
  have wf: "sq_wf (sq_opts sample_cfg sample_start)" by (simp add: sample_opts sq_wf_default)
  have ok: "sq_run_ok sample_server sample_cfg sample_start ?es"
    using req sample_mounted by (simp add: or_empty_def del: sq_step.simps) (simp add: sample_start_def sq_init_def)
  have opts: "sq_opts sample_cfg ?s = sq_opts sample_cfg sample_start"
    by (simp add: sq_list_effect_def)
  have l: "pending (sq_loader ?s) = []" "l_data (sq_loader ?s) = Some [''timestamp'']"
    using sample_mounted
    by (simp_all del: sq_step.simps(1) add: list_resolved_def Let_def cm_set_def drop_nth_def)
  have c: "sq_columns (sq_opts sample_cfg ?s) \<noteq> []"
    unfolding opts by (simp add: sample_opts sq_columns_default)
  from slow_query_shows_answer [OF sample_start_def _ wf ok l(1) c l(2)] show ?thesis
    unfolding opts by simp
qed

text \<open>
  C6: The slow query page never loads forever. Whatever the order in which requests are sent and
  answered, successfully or not, after the page is mounted: once every request has been answered,
  neither the list nor its options are marked as loading.
\<close>

theorem slow_query_never_stuck:
  fixes s :: "('row, 'e) sq_ctrl"
  assumes "s = fold (sq_step g) ((ck, Mount) # es) (sq_init mgr initial stored storedOrder)"
    and "pending (sq_loader s) = []" and "\<forall>r \<in> set (rounds s). r = []"
  shows "\<not> sq_isLoading False s"
proof -
  have "sq_spin_ok (sq_step g (ck, Mount) (sq_init mgr initial stored storedOrder :: ('row, 'e) sq_ctrl))"
    unfolding sq_step.simps
    by (rule sq_spin_list) (auto simp: sq_spin_ok_def sq_options_effect_def sq_init_def unanswered_def)
  then have "sq_spin_ok s" unfolding assms(1) by (simp add: sq_spin_run del: sq_step.simps)
  with assms(2,3) show ?thesis by (auto simp: sq_spin_ok_def sq_isLoading_def unanswered_def)
qed

theorem slow_query_never_stuck_witness:
  "\<not> sq_isLoading False (fold (sq_step sample_cfg)
     [(sample_clock, Mount), (sample_clock, GroupsRejected 0 ''e''), (sample_clock, ListRejected 0 ''e''),
      (sample_clock, SchemasResolved 0 None)] sample_start)"
proof -
  let ?es = "[(sample_clock, GroupsRejected 0 ''e''), (sample_clock, ListRejected 0 ''e''),
      (sample_clock, SchemasResolved 0 None)]"
  let ?s = "fold (sq_step sample_cfg) ((sample_clock, Mount) # ?es) sample_start"
  have m: "rounds (sq_step sample_cfg (sample_clock, Mount) sample_start) = [[SchemasReq, GroupsReq]]"
    by (simp add: sq_list_effect_def sq_options_effect_def sample_start_def sq_init_def sample_cfg_def)
  have "rounds ?s = [[]]" "pending (sq_loader ?s) = []"
    using m sample_mounted
    by (simp_all del: sq_step.simps(1) add: answerable_def sq_round_done_def opt_done_def list_rejected_def
        drop_nth_def)
  then show ?thesis
    using slow_query_never_stuck [of ?s sample_cfg sample_clock ?es None None None None]
    by (simp add: sample_start_def del: sq_step.simps)
qed

text \<open>
  A late answer wins. When new options are requested before the first request is answered and the
  first answer arrives last, the page settles on the rows of the first request: nothing loading, no
  error, the new options in force and the old rows shown.
\<close>

theorem slow_query_late_answer:
  fixes q :: ISlowQueryOptions and s0 :: "('row, 'e) sq_ctrl" and ck :: clock and new old :: "'row list"
  assumes "s0 = sq_init None initial stored storedOrder"
    and "sq_columns (sq_opts g s0) \<noteq> []" and "sq_columns (q, snd (sq_opts g s0)) \<noteq> []"
  defines "s \<equiv> fold (sq_step g)
    [(ck, Mount), (ck, SetQueryOptions (\<lambda>_. q)), (ck, ListResolved 1 (Some new)), (ck, ListResolved 0 (Some old))] s0"
  shows "fst (sq_opts g s) = q \<and> l_data (sq_loader s) = Some old \<and> pending (sq_loader s) = [] \<and>
    errors (sq_loader s) = [] \<and> \<not> isDataLoading (sq_loader s)"
proof -
  let ?l = "\<lambda>ps. \<lparr>l_data = None :: 'row list option, isDataLoading = True, isDataLoadedSlowly = None,
    errors = [] :: 'e list, cacheMgr = None, pending = ps\<rparr>"
  let ?p = "\<lambda>opts. \<lparr>f_key = sq_cacheKey opts, f_args = sq_request ck opts, f_beginAt = c_perf ck\<rparr>"
  let ?s1 = "sq_step g (ck, Mount) s0"
  let ?s2 = "sq_step g (ck, SetQueryOptions (\<lambda>_. q)) ?s1"
  have s1: "sq_opts g ?s1 = sq_opts g s0" "sq_loader ?s1 = ?l [?p (sq_opts g s0)]"
    using assms(1,2) by (simp_all add: sq_list_effect_def getSlowQueryList_def load_list_no_cache sq_init_def)
  then have s2: "sq_opts g ?s2 = (q, snd (sq_opts g s0))"
      "sq_loader ?s2 = ?l [?p (sq_opts g s0), ?p (q, snd (sq_opts g s0))]"
    using assms(3)
    by (simp_all del: sq_step.simps(1) add: sq_list_effect_def getSlowQueryList_def load_list_no_cache)
  then show ?thesis
    unfolding s_def
    by (simp del: sq_step.simps(1,2) add: list_resolved_def Let_def cm_set_def drop_nth_def)
qed

theorem slow_query_late_answer_witness:
  "l_data (sq_loader (fold (sq_step sample_cfg)
     [(sample_clock, Mount), (sample_clock, SetQueryOptions (\<lambda>_. DEF_SLOW_QUERY_OPTIONS\<lparr>limit := js_int 200\<rparr>)),
      (sample_clock, ListResolved 1 (Some [''new''])), (sample_clock, ListResolved 0 (Some [''old'']))]
     sample_start)) = Some [''old'']"
proof -
  have "sq_columns (sq_opts sample_cfg sample_start) \<noteq> []" by (simp add: sample_opts sq_columns_default)
  moreover have "sq_columns (DEF_SLOW_QUERY_OPTIONS\<lparr>limit := js_int 200\<rparr>, ord) \<noteq> []" for ord
    using sq_columns_default [of ord] by (simp add: sq_columns_def)
  ultimately show ?thesis
    using slow_query_late_answer [OF sample_start_def, of sample_cfg "DEF_SLOW_QUERY_OPTIONS\<lparr>limit := js_int 200\<rparr>"
      sample_clock "[''new'']" "[''old'']"] by blast
qed

text \<open>
  The clicked row is remembered, except the first one. With a cache that does not expire at once, the
  saved index is read back unless it is 0, which reads back as -1, like no index at all.
\<close>

theorem clicked_item_roundtrip:
  assumes "cacheMgr l = Some m" and "cache_inv m" and "c_date ck' \<le> c_date ck + globalExpire m"
  shows "fst (getClickedItemIndex ck' (saveClickedItemIndex ck (js_int i) l)) =
    (if i = 0 then js_int (- 1) else js_int i)"
  using assms cache_get_set_same [OF assms(2), of "c_date ck'" CLICKED_ITEM_INDEX "c_date ck" "ClickedIndex (js_int i)" None]
  by (simp add: getClickedItemIndex_def saveClickedItemIndex_def cm_set_def cm_get_def expiry_def)

theorem clicked_item_roundtrip_witness:
  "fst (getClickedItemIndex sample_clock (saveClickedItemIndex sample_clock (js_int 3)
     ((sq_loader sample_start)\<lparr>cacheMgr := Some (newCacheMgr 1 3600000)\<rparr>))) = js_int 3"
  using clicked_item_roundtrip [of "(sq_loader sample_start)\<lparr>cacheMgr := Some (newCacheMgr 1 3600000)\<rparr>" _
      sample_clock sample_clock 3, OF _ cache_inv_new]
  by (simp add: newCacheMgr_def)

end
