(* ===== verification/StatementController.thy ===== *)
theory StatementController
  imports ListLoader "HOL-Library.List_Lexorder" "HOL-Library.Char_ord"
begin

text \<open>
  The controller of the statement list, \<open>Statement/utils/useStatementTableController.ts\<close>. Besides
  the list it asks for the configuration of the statement summary, the schemas, the resource groups and
  the statement types, and it finds out whether the backend is an old one, for which the time range of
  the request is enlarged by the window size. \<open>'row\<close> stands for \<open>StatementModel\<close>, a type of the
  generated client.
\<close>

subsection \<open>Options\<close>

text \<open>\<open>st_props\<close> is the order in which the options object has its properties.\<close>

record IStatementQueryOptions =
  st_visibleColumnKeys :: IColumnKeys
  st_timeRange :: TimeRange
  st_schemas :: "string list"
  st_groups :: "string list"
  stmtTypes :: "string list"
  st_searchText :: string
  st_props :: "string list"

definition DEF_STMT_COLUMN_KEYS :: IColumnKeys where
  "DEF_STMT_COLUMN_KEYS =
     [(''digest_text'', True), (''sum_latency'', True), (''avg_latency'', True), (''exec_count'', True),
      (''plan_count'', True)]"

definition st_DEF_ORDER_OPTIONS :: IOrderOptions where
  "st_DEF_ORDER_OPTIONS = \<lparr>orderBy = ''sum_latency'', desc = True\<rparr>"

definition DEF_STMT_QUERY_OPTIONS :: IStatementQueryOptions where
  "DEF_STMT_QUERY_OPTIONS =
     \<lparr>st_visibleColumnKeys = DEF_STMT_COLUMN_KEYS, st_timeRange = DEFAULT_TIME_RANGE, st_schemas = [],
      st_groups = [], stmtTypes = [], st_searchText = [],
      st_props = [''visibleColumnKeys'', ''timeRange'', ''schemas'', ''groups'', ''stmtTypes'', ''searchText'']\<rparr>"

definition st_useQueryOptions ::
    "IStatementQueryOptions option \<Rightarrow> IStatementQueryOptions option \<Rightarrow> IStatementQueryOptions cells" where
  "st_useQueryOptions stored initial =
     useCells stored (case initial of Some q \<Rightarrow> q | None \<Rightarrow> DEF_STMT_QUERY_OPTIONS)"

definition st_derivedFields :: DerivedFields where
  "st_derivedFields =
     [(''avg_latency'', genDerivedBarSources ''avg_latency'' ''max_latency'' (Some ''min_latency'')),
      (''parse_latency'', genDerivedBarSources ''avg_parse_latency'' ''max_parse_latency'' None),
      (''compile_latency'', genDerivedBarSources ''avg_compile_latency'' ''max_compile_latency'' None),
      (''process_time'', genDerivedBarSources ''avg_cop_process_time'' ''max_cop_process_time'' None),
      (''wait_time'', genDerivedBarSources ''avg_cop_wait_time'' ''max_cop_wait_time'' None),
      (''total_process_time'', genDerivedBarSources ''avg_process_time'' ''max_process_time'' None),
      (''total_wait_time'', genDerivedBarSources ''avg_wait_time'' ''max_wait_time'' None),
      (''backoff_time'', genDerivedBarSources ''avg_backoff_time'' ''max_backoff_time'' None),
      (''avg_write_keys'', genDerivedBarSources ''avg_write_keys'' ''max_write_keys'' None),
      (''avg_processed_keys'', genDerivedBarSources ''avg_processed_keys'' ''max_processed_keys'' None),
      (''avg_total_keys'', genDerivedBarSources ''avg_total_keys'' ''max_total_keys'' None),
      (''prewrite_time'', genDerivedBarSources ''avg_prewrite_time'' ''max_prewrite_time'' None),
      (''commit_time'', genDerivedBarSources ''avg_commit_time'' ''max_commit_time'' None),
      (''get_commit_ts_time'', genDerivedBarSources ''avg_get_commit_ts_time'' ''max_get_commit_ts_time'' None),
      (''commit_backoff_time'', genDerivedBarSources ''avg_commit_backoff_time'' ''max_commit_backoff_time'' None),
      (''resolve_lock_time'', genDerivedBarSources ''avg_resolve_lock_time'' ''max_resolve_lock_time'' None),
      (''local_latch_wait_time'', genDerivedBarSources ''avg_local_latch_wait_time'' ''max_local_latch_wait_time'' None),
      (''avg_write_size'', genDerivedBarSources ''avg_write_size'' ''max_write_size'' None),
      (''avg_prewrite_regions'', genDerivedBarSources ''avg_prewrite_regions'' ''max_prewrite_regions'' None),
      (''avg_txn_retry'', genDerivedBarSources ''avg_txn_retry'' ''max_txn_retry'' None),
      (''avg_mem'', genDerivedBarSources ''avg_mem'' ''max_mem'' None),
      (''avg_disk'', genDerivedBarSources ''avg_disk'' ''max_disk'' None),
      (''sum_errors'', ColSources [''sum_errors'', ''sum_warnings'']),
      (''related_schemas'', ColSources [''table_names'']),
      (''avg_rocksdb_delete_skipped_count'', genDerivedBarSources ''avg_rocksdb_delete_skipped_count'' ''max_rocksdb_delete_skipped_count'' None),
      (''avg_rocksdb_key_skipped_count'', genDerivedBarSources ''avg_rocksdb_key_skipped_count'' ''max_rocksdb_key_skipped_count'' None),
      (''avg_rocksdb_block_cache_hit_count'', genDerivedBarSources ''avg_rocksdb_block_cache_hit_count'' ''max_rocksdb_block_cache_hit_count'' None),
      (''avg_rocksdb_block_read_count'', genDerivedBarSources ''avg_rocksdb_block_read_count'' ''max_rocksdb_block_read_count'' None),
      (''avg_rocksdb_block_read_byte'', genDerivedBarSources ''avg_rocksdb_block_read_byte'' ''max_rocksdb_block_read_byte'' None),
      (''avg_ru'', genDerivedBarSources ''avg_ru'' ''max_ru'' None),
      (''avg_time_queued_by_rc'', genDerivedBarSources ''avg_time_queued_by_rc'' ''max_time_queued_by_rc'' None)]"

subsection \<open>The request\<close>

text \<open>What the effect depends on: the options, the window size and whether the backend is an old one.\<close>

type_synonym st_deps = "IStatementQueryOptions \<times> jsnum \<times> bool"

definition st_prop :: "IStatementQueryOptions \<Rightarrow> string \<Rightarrow> json" where
  "st_prop q p =
     (if p = ''visibleColumnKeys'' then json_columns (st_visibleColumnKeys q)
      else if p = ''timeRange'' then json_range (st_timeRange q)
      else if p = ''schemas'' then json_strs (st_schemas q)
      else if p = ''groups'' then json_strs (st_groups q)
      else if p = ''stmtTypes'' then json_strs (stmtTypes q)
      else JStr (st_searchText q))"

text \<open>\<open>JSON.stringify(queryOptions)\<close>\<close>

definition st_cacheKey :: "st_deps \<Rightarrow> key" where
  "st_cacheKey d = stringify (json_props (st_prop (fst d)) (st_props (fst d)))"

definition st_columns :: "st_deps \<Rightarrow> string" where
  "st_columns d = join '','' (getSelectedFields (st_visibleColumnKeys (fst d)) st_derivedFields)"

text \<open>The arguments of \<open>statementsListGet\<close>.\<close>

record st_args =
  b_begin :: jsnum
  b_end :: jsnum
  b_fields :: string
  b_schemas :: "string list"
  b_groups :: "string list"
  b_stmtTypes :: "string list"
  b_text :: string

fun st_request :: "clock \<Rightarrow> st_deps \<Rightarrow> st_args" where
  "st_request ck (q, windowSize, oldBackend) =
     (let range = toTimeRangeValue (c_unix ck) (Some (st_timeRange q)) 0;
          range = (if oldBackend then (fst range - windowSize, snd range + windowSize) else range)
      in \<lparr>b_begin = fst range, b_end = snd range, b_fields = st_columns (q, windowSize, oldBackend),
          b_schemas = st_schemas q, b_groups = st_groups q, b_stmtTypes = stmtTypes q,
          b_text = st_searchText q\<rparr>)"

record 'row IStatementList =
  list_rows :: "'row list"
  list_range :: TimeRangeValue

definition mkStatementList :: "st_args \<Rightarrow> 'row list \<Rightarrow> 'row IStatementList" where
  "mkStatementList a rows = \<lparr>list_rows = rows, list_range = (b_begin a, b_end a)\<rparr>"

type_synonym ('row, 'e) st_loader = "(st_args, 'row IStatementList, 'e) loader"

definition queryStatementList :: "clock \<Rightarrow> st_deps \<Rightarrow> ('row, 'e) st_loader \<Rightarrow> ('row, 'e) st_loader" where
  "queryStatementList ck d l = load_list ck (st_cacheKey d) (st_columns d) (st_request ck d) l"

subsection \<open>The controller\<close>

record ('row, 'e) st_ctrl =
  st_cells :: "IStatementQueryOptions cells"
  st_orders :: "IOrderOptions cells"
  isEnabled :: bool
  st_allSchemas :: "string list"
  st_allGroups :: "string list"
  allStmtTypes :: "string list"
  st_isOptionsLoading :: bool
  st_rounds :: "opt_req list list"
  windowSize :: jsnum
  oldBackend :: bool
  st_loader :: "('row, 'e) st_loader"

record st_cfg =
  st_fetchSchemas :: bool
  st_fetchGroups :: bool
  st_fetchConfig :: bool
  st_persist :: bool

definition st_deps_of :: "st_cfg \<Rightarrow> ('row, 'e) st_ctrl \<Rightarrow> st_deps" where
  "st_deps_of g s = (cell (st_persist g) (st_cells s), windowSize s, oldBackend s)"

definition st_init ::
    "'row IStatementList cache_val CacheMgr option \<Rightarrow> IStatementQueryOptions option \<Rightarrow>
     IStatementQueryOptions option \<Rightarrow> IOrderOptions option \<Rightarrow> ('row, 'e) st_ctrl" where
  "st_init mgr initial stored storedOrder =
     \<lparr>st_cells = st_useQueryOptions stored initial, st_orders = useCells storedOrder st_DEF_ORDER_OPTIONS,
      isEnabled = True, st_allSchemas = [], st_allGroups = [], allStmtTypes = [],
      st_isOptionsLoading = True, st_rounds = [], windowSize = 0, oldBackend = True,
      st_loader = \<lparr>l_data = None, isDataLoading = True, isDataLoadedSlowly = None, errors = [],
        cacheMgr = mgr, pending = []\<rparr>\<rparr>"

definition st_options_effect :: "st_cfg \<Rightarrow> ('row, 'e) st_ctrl \<Rightarrow> ('row, 'e) st_ctrl" where
  "st_options_effect g s =
     s\<lparr>st_isOptionsLoading := True,
       st_rounds := st_rounds s @
         [(if st_fetchConfig g then [ConfigReq] else []) @ (if st_fetchSchemas g then [SchemasReq] else []) @
          (if st_fetchGroups g then [GroupsReq] else []) @ [StmtTypesReq]]\<rparr>"

definition st_list_effect :: "st_cfg \<Rightarrow> clock \<Rightarrow> ('row, 'e) st_ctrl \<Rightarrow> ('row, 'e) st_ctrl" where
  "st_list_effect g ck s = s\<lparr>st_loader := queryStatementList ck (st_deps_of g s) (st_loader s)\<rparr>"

text \<open>Setting a cell the list depends on runs the effect when the value changes.\<close>

definition setWindowSize :: "st_cfg \<Rightarrow> clock \<Rightarrow> jsnum \<Rightarrow> ('row, 'e) st_ctrl \<Rightarrow> ('row, 'e) st_ctrl" where
  "setWindowSize g ck w s = (if w = windowSize s then s else st_list_effect g ck (s\<lparr>windowSize := w\<rparr>))"

definition setOldBackend :: "st_cfg \<Rightarrow> clock \<Rightarrow> bool \<Rightarrow> ('row, 'e) st_ctrl \<Rightarrow> ('row, 'e) st_ctrl" where
  "setOldBackend g ck b s = (if b = oldBackend s then s else st_list_effect g ck (s\<lparr>oldBackend := b\<rparr>))"

definition st_round_done :: "nat \<Rightarrow> opt_req \<Rightarrow> ('row, 'e) st_ctrl \<Rightarrow> ('row, 'e) st_ctrl" where
  "st_round_done n k s =
     s\<lparr>st_rounds := opt_done n k (st_rounds s),
       st_isOptionsLoading := round_loading n (opt_done n k (st_rounds s)) (st_isOptionsLoading s)\<rparr>"

definition st_add_error :: "'e \<Rightarrow> ('row, 'e) st_ctrl \<Rightarrow> ('row, 'e) st_ctrl" where
  "st_add_error e s = s\<lparr>st_loader := (st_loader s)\<lparr>errors := errors (st_loader s) @ [e]\<rparr>\<rparr>"

text \<open>The answers to the requests of a round; the last one is any failure.\<close>

datatype 'e opt_answer =
    ConfigData bool "jsnum option"
  | SchemasData "string list option"
  | GroupsData "string list option"
  | StmtTypesData "string list option"
  | OptFailed opt_req 'e

fun answer_req :: "'e opt_answer \<Rightarrow> opt_req" where
  "answer_req (ConfigData _ _) = ConfigReq"
| "answer_req (SchemasData _) = SchemasReq"
| "answer_req (GroupsData _) = GroupsReq"
| "answer_req (StmtTypesData _) = StmtTypesReq"
| "answer_req (OptFailed k _) = k"

definition or_else :: "'x \<Rightarrow> 'x option \<Rightarrow> 'x" where
  "or_else d r = (case r of Some x \<Rightarrow> x | None \<Rightarrow> d)"

fun handle_answer :: "st_cfg \<Rightarrow> clock \<Rightarrow> 'e opt_answer \<Rightarrow> ('row, 'e) st_ctrl \<Rightarrow> ('row, 'e) st_ctrl" where
  "handle_answer g ck (ConfigData enable refresh) s =
     setWindowSize g ck (or_else 0 refresh) (s\<lparr>isEnabled := enable\<rparr>)"
| "handle_answer g ck (SchemasData r) s = s\<lparr>st_allSchemas := or_else [] r\<rparr>"
| "handle_answer g ck (GroupsData r) s = s\<lparr>st_allGroups := or_else [] r\<rparr>"
| "handle_answer g ck (StmtTypesData r) s = s\<lparr>allStmtTypes := sort (or_else [] r)\<rparr>"
| "handle_answer g ck (OptFailed k e) s = st_add_error e s"

datatype ('row, 'e) st_event =
    Mount
  | SetQueryOptions "IStatementQueryOptions \<Rightarrow> IStatementQueryOptions"
  | ChangeOrder string bool
  | ResetOrder
  | TimeRangesRejected "int option"
  | OptAnswer nat "'e opt_answer"
  | ListResolved nat "'row list option"
  | ListRejected nat 'e
  | SaveClicked jsnum
  | GetClicked
  | ClearCache

fun st_step :: "st_cfg \<Rightarrow> clock \<times> ('row, 'e) st_event \<Rightarrow> ('row, 'e) st_ctrl \<Rightarrow> ('row, 'e) st_ctrl" where
  "st_step g (ck, Mount) s = st_list_effect g ck (st_options_effect g s)"
| "st_step g (ck, SetQueryOptions f) s =
     st_list_effect g ck (st_options_effect g (s\<lparr>st_cells := set_cell (st_persist g) f (st_cells s)\<rparr>))"
| "st_step g (ck, ChangeOrder by d) s = s\<lparr>st_orders := changeOrder (st_persist g) by d (st_orders s)\<rparr>"
| "st_step g (ck, ResetOrder) s =
     s\<lparr>st_orders := changeOrder (st_persist g) (orderBy st_DEF_ORDER_OPTIONS) (desc st_DEF_ORDER_OPTIONS)
        (st_orders s)\<rparr>"
| "st_step g (ck, TimeRangesRejected status) s =
     (if status = Some 404 then setOldBackend g ck False s else s)"
| "st_step g (ck, OptAnswer n a) s =
     (if answerable n (answer_req a) (st_rounds s)
      then st_round_done n (answer_req a) (handle_answer g ck a s) else s)"
| "st_step g (ck, ListResolved i res) s =
     s\<lparr>st_loader := list_resolved mkStatementList ck i res (st_loader s)\<rparr>"
| "st_step g (ck, ListRejected i e) s = s\<lparr>st_loader := list_rejected i e (st_loader s)\<rparr>"
| "st_step g (ck, SaveClicked i) s = s\<lparr>st_loader := saveClickedItemIndex ck i (st_loader s)\<rparr>"
| "st_step g (ck, GetClicked) s = s\<lparr>st_loader := snd (getClickedItemIndex ck (st_loader s))\<rparr>"
| "st_step g (ck, ClearCache) s = s\<lparr>st_loader := cm_clear (st_loader s)\<rparr>"

definition st_isLoading :: "bool \<Rightarrow> ('row, 'e) st_ctrl \<Rightarrow> bool" where
  "st_isLoading isColumnsLoading s \<longleftrightarrow>
     isColumnsLoading \<or> isDataLoading (st_loader s) \<or> st_isOptionsLoading s"

subsection \<open>The cache key determines the options, not the window\<close>

definition st_names :: "string set" where
  "st_names = {''visibleColumnKeys'', ''timeRange'', ''schemas'', ''groups'', ''stmtTypes'', ''searchText''}"

definition st_wf :: "st_deps \<Rightarrow> bool" where
  "st_wf d \<longleftrightarrow> set (st_props (fst d)) = st_names \<and> wf_range (st_timeRange (fst d))"

lemma st_wf_window: "st_wf (q, w, b) \<Longrightarrow> st_wf (q, w', b')"
  by (simp add: st_wf_def)

lemma st_prop_inject:
  assumes "\<forall>p \<in> st_names. st_prop q p = st_prop q' p" and "st_props q = st_props q'"
  shows "q = q'"
proof -
  have "st_visibleColumnKeys q = st_visibleColumnKeys q'" "st_timeRange q = st_timeRange q'"
    "st_schemas q = st_schemas q'" "st_groups q = st_groups q'" "stmtTypes q = stmtTypes q'"
    "st_searchText q = st_searchText q'"
    using assms(1) by (auto simp: st_names_def st_prop_def)
  then show ?thesis using assms(2) by simp
qed

lemma st_cacheKey_inject:
  assumes "st_wf d" and "st_wf d'" and "st_cacheKey d = st_cacheKey d'"
  shows "fst d = fst d'"
proof -
  have "json_wf (json_props (st_prop (fst d)) (st_props (fst d)))" if "st_wf d" for d
    using that by (auto simp: st_wf_def st_prop_def)
  from stringify_inject [OF this [OF assms(1)] this [OF assms(2)]] assms(3)
  have "json_props (st_prop (fst d)) (st_props (fst d)) = json_props (st_prop (fst d')) (st_props (fst d'))"
    unfolding st_cacheKey_def .
  from json_props_inject [OF this] assms(1) show ?thesis
    by (intro st_prop_inject) (auto simp: st_wf_def)
qed

lemma st_cacheKey_not_clicked: "st_cacheKey d \<noteq> CLICKED_ITEM_INDEX"
  by (simp add: st_cacheKey_def CLICKED_ITEM_INDEX_def json_props_def)

interpretation st: list_loader st_cacheKey st_columns st_request mkStatementList st_wf fst
  by unfold_locales (erule (2) st_cacheKey_inject, rule st_cacheKey_not_clicked)

subsection \<open>Runs\<close>

fun st_event_ok ::
    "(st_args \<Rightarrow> 'row list \<Rightarrow> bool) \<Rightarrow> st_cfg \<Rightarrow> ('row, 'e) st_ctrl \<Rightarrow> ('row, 'e) st_event \<Rightarrow> bool" where
  "st_event_ok A g s (SetQueryOptions f) =
     (pending (st_loader s) = [] \<and> st_wf (f (fst (st_deps_of g s)), snd (st_deps_of g s)))"
| "st_event_ok A g s (ListResolved i res) =
     (i < length (pending (st_loader s)) \<longrightarrow> A (f_args (pending (st_loader s) ! i)) (or_else [] res))"
| "st_event_ok A g s _ = True"

fun st_run_ok ::
    "(st_args \<Rightarrow> 'row list \<Rightarrow> bool) \<Rightarrow> st_cfg \<Rightarrow> ('row, 'e) st_ctrl \<Rightarrow> (clock \<times> ('row, 'e) st_event) list \<Rightarrow> bool" where
  "st_run_ok A g s [] = True"
| "st_run_ok A g s (e # es) = (st_event_ok A g s (snd e) \<and> st_run_ok A g (st_step g e s) es)"

definition st_inv :: "(st_args \<Rightarrow> 'row list \<Rightarrow> bool) \<Rightarrow> st_cfg \<Rightarrow> ('row, 'e) st_ctrl \<Rightarrow> bool" where
  "st_inv A g s \<longleftrightarrow>
     st_wf (st_deps_of g s) \<and> st.loader_inv A (st_loader s) \<and> st.current A (st_deps_of g s) (st_loader s)"

lemma st_deps_simps [simp]:
  "st_deps_of g (st_options_effect g s) = st_deps_of g s"
  "st_deps_of g (s\<lparr>st_loader := l\<rparr>) = st_deps_of g s"
  "st_deps_of g (st_round_done n k s) = st_deps_of g s"
  "st_deps_of g (s\<lparr>st_orders := ord\<rparr>) = st_deps_of g s"
  "st_deps_of g (s\<lparr>isEnabled := b\<rparr>) = st_deps_of g s"
  "st_deps_of g (s\<lparr>st_allSchemas := xs\<rparr>) = st_deps_of g s"
  "st_deps_of g (s\<lparr>st_allGroups := xs\<rparr>) = st_deps_of g s"
  "st_deps_of g (s\<lparr>allStmtTypes := xs\<rparr>) = st_deps_of g s"
  "st_deps_of g (s\<lparr>st_cells := set_cell (st_persist g) f (st_cells s)\<rparr>) =
     (f (fst (st_deps_of g s)), snd (st_deps_of g s))"
  "st_deps_of g (s\<lparr>windowSize := w\<rparr>) = (fst (st_deps_of g s), w, snd (snd (st_deps_of g s)))"
  "st_deps_of g (s\<lparr>oldBackend := b\<rparr>) = (fst (st_deps_of g s), fst (snd (st_deps_of g s)), b)"
  by (simp_all add: st_deps_of_def st_options_effect_def st_round_done_def)

lemma st_loader_simps [simp]:
  "st_loader (st_options_effect g s) = st_loader s" "st_loader (st_round_done n k s) = st_loader s"
  by (simp_all add: st_options_effect_def st_round_done_def)

text \<open>Only the options matter to what is asked for, so the window may change at any time.\<close>

lemma st_inv_list_effect:
  assumes "st_inv A g s0" and "st_loader s = st_loader s0" and "st_wf (st_deps_of g s)"
    and "pending (st_loader s0) = [] \<or> fst (st_deps_of g s) = fst (st_deps_of g s0)"
  shows "st_inv A g (st_list_effect g ck s)"
proof -
  have inv: "st.loader_inv A (st_loader s)" using assms(1,2) by (simp add: st_inv_def)
  have cur: "st.current A (st_deps_of g s0) (st_loader s)" using assms(1,2) by (simp add: st_inv_def)
  have "\<forall>p \<in> set (pending (st_loader s)). \<exists>d ck. st_wf d \<and> fst d = fst (st_deps_of g s) \<and> f_args p = st_request ck d"
  proof (cases "pending (st_loader s) = []")
    case False
    then have "fst (st_deps_of g s) = fst (st_deps_of g s0)" using assms(2,4) by simp
    with cur show ?thesis unfolding st.current_def by metis
  qed simp
  from st.load_list_inv [OF inv assms(3)] st.load_list_current [OF inv assms(3) this] assms(3)
  show ?thesis unfolding st_inv_def st_list_effect_def queryStatementList_def st_deps_simps by simp
qed

lemma st_inv_same:
  "st_deps_of g s' = st_deps_of g s \<Longrightarrow> st_loader s' = st_loader s \<Longrightarrow> st_inv A g s' = st_inv A g s"
  by (simp add: st_inv_def)

lemma st_inv_loader:
  "st_inv A g s \<Longrightarrow> st.loader_inv A l \<Longrightarrow> st.current A (st_deps_of g s) l \<Longrightarrow> st_inv A g (s\<lparr>st_loader := l\<rparr>)"
  by (simp add: st_inv_def)

lemma st_inv_window:
  assumes "st_inv A g s"
  shows "st_inv A g (setWindowSize g ck w s)" and "st_inv A g (setOldBackend g ck b s)"
proof -
  have wf: "st_wf (fst (st_deps_of g s), w, b)" for w b
    using assms st_wf_window by (metis prod.collapse st_inv_def)
  show "st_inv A g (setWindowSize g ck w s)"
    using assms by (auto simp: setWindowSize_def wf intro!: st_inv_list_effect [OF assms])
  show "st_inv A g (setOldBackend g ck b s)"
    using assms by (auto simp: setOldBackend_def wf intro!: st_inv_list_effect [OF assms])
qed

lemma st_inv_answer:
  assumes "st_inv A g s"
  shows "st_inv A g (handle_answer g ck a s)"
proof (cases a)
  case (ConfigData b r)
  have "st_inv A g (s\<lparr>isEnabled := b\<rparr>)" using assms st_inv_same [of g "s\<lparr>isEnabled := b\<rparr>" s] by simp
  then show ?thesis by (simp add: ConfigData st_inv_window)
next
  case (OptFailed k e)
  then show ?thesis
    using assms by (simp add: st_add_error_def st_inv_def st.loader_inv_def st.current_def)
qed (use assms in \<open>simp_all add: st_inv_def\<close>)

lemma st_inv_step:
  assumes "st_inv A g s" and "st_event_ok A g s (snd e)"
  shows "st_inv A g (st_step g e s)"
proof -
  obtain ck ev where e: "e = (ck, ev)" by (cases e)
  from assms(1) have s: "st_wf (st_deps_of g s)" "st.loader_inv A (st_loader s)"
      "st.current A (st_deps_of g s) (st_loader s)"
    by (simp_all add: st_inv_def)
  show ?thesis
  proof (cases ev)
    case Mount
    with s show ?thesis by (auto simp: e intro!: st_inv_list_effect [OF assms(1)])
  next
    case (SetQueryOptions f)
    with assms(2) s show ?thesis by (auto simp: e intro!: st_inv_list_effect [OF assms(1)])
  next
    case (TimeRangesRejected status)
    with assms(1) show ?thesis by (simp add: e st_inv_window)
  next
    case (OptAnswer n a)
    with st_inv_answer [OF assms(1)] assms(1) show ?thesis
      by (simp add: e) (simp add: st_inv_def)
  next
    case (ListResolved i res)
    then have "i < length (pending (st_loader s)) \<Longrightarrow>
        A (f_args (pending (st_loader s) ! i)) (case res of Some rows \<Rightarrow> rows | None \<Rightarrow> [])"
      using assms(2) by (simp add: e or_else_def)
    with assms(1) s show ?thesis
      by (simp add: e ListResolved st_inv_loader st.list_resolved_inv st.current_settled)
  next
    case (ListRejected i x)
    with assms(1) s show ?thesis
      by (simp add: e st_inv_loader st.list_rejected_inv st.current_settled(2))
  next
    case (SaveClicked i)
    with assms(1) s show ?thesis
      by (auto simp: e intro!: st_inv_loader st.saveClicked_inv elim: st.current_frame [rotated 2])
  next
    case GetClicked
    with assms(1) s show ?thesis
      by (auto simp: e intro!: st_inv_loader st.getClicked_inv elim: st.current_frame [rotated 2])
  next
    case ClearCache
    with assms(1) s show ?thesis
      by (auto simp: e intro!: st_inv_loader st.cm_clear_inv elim: st.current_frame [rotated 2])
  qed (use s in \<open>auto simp: e st_inv_def\<close>)
qed

lemma st_inv_run:
  "st_inv A g s \<Longrightarrow> st_run_ok A g s es \<Longrightarrow> st_inv A g (fold (st_step g) es s)"
  by (induction es arbitrary: s) (auto intro: st_inv_step)

lemma st_inv_init:
  assumes "st_wf (st_deps_of g (st_init mgr initial stored storedOrder :: ('row, 'e) st_ctrl))"
    and "mgr = None \<or> mgr = Some (newCacheMgr cap ge)"
  shows "st_inv A g (st_init mgr initial stored storedOrder :: ('row, 'e) st_ctrl)"
  using assms cache_new_entries
  by (auto simp: st_inv_def st.loader_inv_def st.current_def st_init_def)

subsection \<open>No request, no spinner\<close>

definition st_spin_ok :: "('row, 'e) st_ctrl \<Rightarrow> bool" where
  "st_spin_ok s \<longleftrightarrow>
     (isDataLoading (st_loader s) \<longrightarrow> pending (st_loader s) \<noteq> []) \<and> (st_isOptionsLoading s \<longrightarrow> unanswered (st_rounds s))"

lemma st_spin_list: "st_spin_ok s \<Longrightarrow> st_spin_ok (st_list_effect g ck s)"
  unfolding st_spin_ok_def st_list_effect_def queryStatementList_def
  using load_list_loading [of "st_loader s"] by auto

lemma st_spin_options: "st_spin_ok s \<Longrightarrow> st_spin_ok (st_options_effect g s)"
  by (auto simp: st_spin_ok_def st_options_effect_def unanswered_def)

lemma st_spin_cells [simp]:
  "st_spin_ok (s\<lparr>st_cells := c\<rparr>) = st_spin_ok s" "st_spin_ok (s\<lparr>st_orders := ord\<rparr>) = st_spin_ok s"
  "st_spin_ok (s\<lparr>isEnabled := b\<rparr>) = st_spin_ok s" "st_spin_ok (s\<lparr>st_allSchemas := xs\<rparr>) = st_spin_ok s"
  "st_spin_ok (s\<lparr>st_allGroups := xs\<rparr>) = st_spin_ok s" "st_spin_ok (s\<lparr>allStmtTypes := xs\<rparr>) = st_spin_ok s"
  "st_spin_ok (s\<lparr>windowSize := w\<rparr>) = st_spin_ok s" "st_spin_ok (s\<lparr>oldBackend := b\<rparr>) = st_spin_ok s"
  "st_spin_ok (st_add_error e s) = st_spin_ok s"
  by (simp_all add: st_spin_ok_def st_add_error_def)

lemma st_spin_answer: "st_spin_ok s \<Longrightarrow> st_spin_ok (handle_answer g ck a s)"
  by (cases a) (auto simp: setWindowSize_def intro!: st_spin_list)

lemma st_rounds_answer [simp]: "st_rounds (handle_answer g ck a s) = st_rounds s"
  by (cases a) (simp_all add: setWindowSize_def st_list_effect_def st_add_error_def)

lemma st_spin_done:
  "answerable n k (st_rounds s) \<Longrightarrow> st_spin_ok s \<Longrightarrow> st_spin_ok (st_round_done n k s)"
  by (simp add: st_spin_ok_def st_round_done_def round_loading_unanswered)

lemma st_spin_settled:
  "st_spin_ok s \<Longrightarrow> st_spin_ok (s\<lparr>st_loader := list_resolved mk ck i res (st_loader s)\<rparr>)"
  "st_spin_ok s \<Longrightarrow> st_spin_ok (s\<lparr>st_loader := list_rejected i e (st_loader s)\<rparr>)"
  using settled_not_loading(1) [of "st_loader s" mk ck i res] settled_not_loading(2) [of "st_loader s" i e]
  by (auto simp: st_spin_ok_def)

lemma st_spin_step: "st_spin_ok s \<Longrightarrow> st_spin_ok (st_step g e s)"
  by (cases "(g, e, s)" rule: st_step.cases)
    (auto simp: st_spin_settled setOldBackend_def intro!: st_spin_list st_spin_options st_spin_done st_spin_answer,
     auto simp: st_spin_ok_def)

lemma st_spin_run: "st_spin_ok s \<Longrightarrow> st_spin_ok (fold (st_step g) es s)"
  by (induction es arbitrary: s) (auto intro: st_spin_step)

lemma load_list_starts:
  "columns \<noteq> [] \<Longrightarrow> isDataLoading (load_list ck k columns args l) \<Longrightarrow> pending (load_list ck k columns args l) \<noteq> []"
  by (auto simp: load_list_def try_cache_def cm_get_def split: option.splits prod.splits cache_val.splits if_splits)

subsection \<open>Properties\<close>

text \<open>
  C5: The statement list shows what its options ask for. In every run that starts with an empty cache
  (or none) and changes the options only while no list request is unanswered, and whatever the order in
  which configuration, backend check and lists are answered, whenever nothing is being loaded and some
  column is selected, the rows and the time range shown are those of an answered request for the
  current options, for some window size and kind of backend.
\<close>

theorem statement_shows_answer:
  fixes s0 :: "('row, 'e) st_ctrl"
  assumes "s0 = st_init mgr initial stored storedOrder" and "mgr = None \<or> mgr = Some (newCacheMgr cap ge)"
    and "st_wf (st_deps_of g s0)" and "st_run_ok A g s0 es"
  defines "s \<equiv> fold (st_step g) es s0"
  shows "pending (st_loader s) = [] \<Longrightarrow> st_columns (st_deps_of g s) \<noteq> [] \<Longrightarrow> l_data (st_loader s) = Some d \<Longrightarrow>
    \<exists>ck w b. A (st_request ck (fst (st_deps_of g s), w, b)) (list_rows d) \<and>
      list_range d = (b_begin (st_request ck (fst (st_deps_of g s), w, b)), b_end (st_request ck (fst (st_deps_of g s), w, b)))"
proof -
  assume *: "pending (st_loader s) = []" "st_columns (st_deps_of g s) \<noteq> []" "l_data (st_loader s) = Some d"
  have "st_inv A g s0" using assms(2,3) unfolding assms(1) by (rule st_inv_init [rotated])
  then have "st_inv A g s" unfolding s_def using assms(4) by (rule st_inv_run)
  with * have "st.answers A (st_deps_of g s) d" by (simp add: st_inv_def st.current_def)
  then obtain q w b ck rows where "q = fst (st_deps_of g s)" "A (st_request ck (q, w, b)) rows"
      "d = mkStatementList (st_request ck (q, w, b)) rows"
    unfolding st.answers_def by (metis prod.collapse)
  then show ?thesis by (intro exI [of _ ck] exI [of _ w] exI [of _ b]) (simp add: mkStatementList_def)
qed

definition st_sample_clock :: clock where
  "st_sample_clock = \<lparr>c_date = 1000, c_perf = 10, c_unix = js_int 1700000000\<rparr>"

definition st_sample_cfg :: st_cfg where
  "st_sample_cfg = \<lparr>st_fetchSchemas = True, st_fetchGroups = True, st_fetchConfig = True, st_persist = True\<rparr>"

definition st_sample_start :: "(string, string) st_ctrl" where
  "st_sample_start = st_init (Some (newCacheMgr 1 1000)) None None None"

lemma st_sample_deps: "st_deps_of st_sample_cfg st_sample_start = (DEF_STMT_QUERY_OPTIONS, 0, True)"
  by (simp add: st_deps_of_def st_sample_cfg_def st_sample_start_def st_init_def cell_def st_useQueryOptions_def
      useCells_def)

lemma st_wf_default: "st_wf (DEF_STMT_QUERY_OPTIONS, w, b)"
  by (auto simp: st_wf_def DEF_STMT_QUERY_OPTIONS_def st_names_def wf_range_def DEFAULT_TIME_RANGE_def whole_def)

lemma st_columns_default:
  "st_columns (DEF_STMT_QUERY_OPTIONS, w, b) =
     ''digest_text,sum_latency,avg_latency,max_latency,min_latency,exec_count,plan_count''"
  by (simp add: st_columns_def DEF_STMT_QUERY_OPTIONS_def DEF_STMT_COLUMN_KEYS_def getSelectedFields_def
      st_derivedFields_def genDerivedBarSources_def)

text \<open>A new cache manager holds nothing, so the first effect with some column sends a request.\<close>

lemma load_list_new_cache:
  "cacheMgr l = Some (newCacheMgr cap ge) \<Longrightarrow> columns \<noteq> [] \<Longrightarrow> load_list ck k columns args l =
     l\<lparr>isDataLoading := True, pending := pending l @ [\<lparr>f_key = k, f_args = args, f_beginAt = c_perf ck\<rparr>]\<rparr>"
  by (simp add: load_list_def try_cache_def cm_get_def cache_get_def newCacheMgr_def)

lemma st_mounted:
  assumes "s0 = st_init (Some (newCacheMgr cap ge)) initial stored storedOrder" and "st_columns (st_deps_of g s0) \<noteq> []"
  shows "st_loader (st_step g (ck, Mount) s0) =
     \<lparr>l_data = None, isDataLoading = True, isDataLoadedSlowly = None, errors = [],
      cacheMgr = Some (newCacheMgr cap ge),
      pending = [\<lparr>f_key = st_cacheKey (st_deps_of g s0), f_args = st_request ck (st_deps_of g s0), f_beginAt = c_perf ck\<rparr>]\<rparr>"
proof -
  have "st_loader s0 = \<lparr>l_data = None, isDataLoading = True, isDataLoadedSlowly = None, errors = [],
      cacheMgr = Some (newCacheMgr cap ge), pending = []\<rparr>"
    by (simp add: assms(1) st_init_def)
  with assms(2) show ?thesis
    by (simp add: st_list_effect_def queryStatementList_def load_list_new_cache)
qed

theorem statement_shows_answer_witness:
  "\<exists>ck w b. (\<lambda>a rows. rows = [b_text a @ ''x'']) (st_request ck (DEF_STMT_QUERY_OPTIONS, w, b)) [''x'']"
proof -
  let ?A = "\<lambda>a rows. rows = [b_text a @ ''x'']"
  let ?d = "(DEF_STMT_QUERY_OPTIONS, 0, True)"
  let ?es = "[(st_sample_clock, Mount), (st_sample_clock, ListResolved 0 (Some [''x'']))]"
  let ?s = "fold (st_step st_sample_cfg) ?es st_sample_start"
  have col: "st_columns (st_deps_of st_sample_cfg st_sample_start) \<noteq> []"
    by (simp add: st_sample_deps st_columns_default)
  note m = st_mounted [OF st_sample_start_def col, of st_sample_clock, unfolded st_sample_deps]
  have nil: "b_text (st_request st_sample_clock ?d) = []"
    by (simp add: Let_def DEF_STMT_QUERY_OPTIONS_def)
  have wf: "st_wf (st_deps_of st_sample_cfg st_sample_start)" by (simp add: st_sample_deps st_wf_default)
  have ok: "st_run_ok ?A st_sample_cfg st_sample_start ?es"
    using m nil by (simp add: or_else_def del: st_step.simps)
  have deps: "st_deps_of st_sample_cfg ?s = ?d" by (simp add: st_list_effect_def st_sample_deps)
  have l: "pending (st_loader ?s) = []"
      "l_data (st_loader ?s) = Some (mkStatementList (st_request st_sample_clock ?d) [''x''])"
    using m by (simp_all del: st_step.simps(1) add: list_resolved_def Let_def cm_set_def drop_nth_def)
  have c: "st_columns (st_deps_of st_sample_cfg ?s) \<noteq> []" unfolding deps by (simp add: st_columns_default)
  have "Some (newCacheMgr 1 1000) = None \<or> Some (newCacheMgr 1 1000) = Some (newCacheMgr 1 1000)" by simp
  from statement_shows_answer [OF st_sample_start_def this wf ok l(1) c l(2)]
  show ?thesis unfolding deps fst_conv mkStatementList_def by auto
qed

text \<open>
  The statement page never loads forever. If some column is selected when the page is mounted, then
  whatever the order in which requests are sent and answered, successfully or not: once every request
  has been answered, neither the list nor its options are marked as loading.
\<close>

theorem statement_never_stuck:
  fixes s s0 :: "('row, 'e) st_ctrl"
  assumes "s0 = st_init mgr initial stored storedOrder" and "st_columns (st_deps_of g s0) \<noteq> []"
    and "s = fold (st_step g) ((ck, Mount) # es) s0"
    and "pending (st_loader s) = []" and "\<forall>r \<in> set (st_rounds s). r = []"
  shows "\<not> st_isLoading False s"
proof -
  have "unanswered (st_rounds (st_step g (ck, Mount) s0))"
    by (simp add: st_list_effect_def st_options_effect_def unanswered_def)
  moreover have "isDataLoading (st_loader (st_step g (ck, Mount) s0)) \<Longrightarrow> pending (st_loader (st_step g (ck, Mount) s0)) \<noteq> []"
    using assms(2) load_list_starts by (simp add: st_list_effect_def queryStatementList_def)
  ultimately have "st_spin_ok (st_step g (ck, Mount) s0)" unfolding st_spin_ok_def by blast
  then have "st_spin_ok s" unfolding assms(3) by (simp add: st_spin_run del: st_step.simps)
  with assms(4,5) show ?thesis by (auto simp: st_spin_ok_def st_isLoading_def unanswered_def)
qed

theorem statement_never_stuck_witness:
  "\<not> st_isLoading False (fold (st_step st_sample_cfg)
     [(st_sample_clock, Mount), (st_sample_clock, OptAnswer 0 (StmtTypesData None)),
      (st_sample_clock, ListRejected 0 ''e''), (st_sample_clock, OptAnswer 0 (OptFailed ConfigReq ''e'')),
      (st_sample_clock, OptAnswer 0 (GroupsData None)), (st_sample_clock, OptAnswer 0 (SchemasData None))]
     st_sample_start)"
proof -
  let ?es = "[(st_sample_clock, OptAnswer 0 (StmtTypesData None)),
      (st_sample_clock, ListRejected 0 ''e''), (st_sample_clock, OptAnswer 0 (OptFailed ConfigReq ''e'')),
      (st_sample_clock, OptAnswer 0 (GroupsData None)), (st_sample_clock, OptAnswer 0 (SchemasData None))]"
  let ?s = "fold (st_step st_sample_cfg) ((st_sample_clock, Mount) # ?es) st_sample_start"
  have col: "st_columns (st_deps_of st_sample_cfg st_sample_start) \<noteq> []"
    by (simp add: st_sample_deps st_columns_default)
  note m = st_mounted [OF st_sample_start_def col, of st_sample_clock]
  have r: "st_rounds (st_step st_sample_cfg (st_sample_clock, Mount) st_sample_start) =
      [[ConfigReq, SchemasReq, GroupsReq, StmtTypesReq]]"
    by (simp add: st_list_effect_def st_options_effect_def st_sample_start_def st_init_def st_sample_cfg_def)
  have "st_rounds ?s = [[]]" "pending (st_loader ?s) = []"
    using m r
    by (simp_all del: st_step.simps(1) add: answerable_def st_round_done_def opt_done_def list_rejected_def
        drop_nth_def st_add_error_def)
  then have "pending (st_loader ?s) = []" "\<forall>r \<in> set (st_rounds ?s). r = []" by (simp_all only: list.set) simp
  from statement_never_stuck [OF st_sample_start_def col refl this] show ?thesis .
qed

text \<open>
  The enlargement for old backends may never reach the server. The cache key leaves out the window
  size, so when the list is answered before the configuration, the effect that the new window size
  starts finds the list in the cache: no request is sent and the page keeps showing the list of the
  time range without enlargement.
\<close>

theorem statement_window_hidden:
  fixes s0 :: "('row, 'e) st_ctrl" and ck :: clock and rows :: "'row list" and enable :: bool and w :: jsnum
  assumes "s0 = st_init (Some (newCacheMgr cap ge)) initial stored storedOrder"
    and "st_columns (st_deps_of g s0) \<noteq> []" and "st_fetchConfig g" and "0 \<le> ge"
  defines "s \<equiv> fold (st_step g) [(ck, Mount), (ck, ListResolved 0 (Some rows)),
    (ck, OptAnswer 0 (ConfigData enable (Some w)))] s0"
  shows "windowSize s = w \<and> oldBackend s \<and> pending (st_loader s) = [] \<and>
    l_data (st_loader s) = Some (mkStatementList (st_request ck (fst (st_deps_of g s0), 0, True)) rows)"
proof -
  obtain q where deps: "st_deps_of g s0 = (q, 0, True)" by (simp add: assms(1) st_deps_of_def st_init_def)
  let ?d = "mkStatementList (st_request ck (q, 0, True)) rows"
  let ?k = "st_cacheKey (q, 0, True)"
  let ?s1 = "st_step g (ck, Mount) s0" and ?s2 = "\<lambda>s1. st_step g (ck, ListResolved 0 (Some rows)) s1"
  let ?m = "cache_set (c_date ck) ?k (Entity ?d False) None (newCacheMgr cap ge)"
  have l1: "st_loader ?s1 = \<lparr>l_data = None, isDataLoading = True, isDataLoadedSlowly = None, errors = [],
      cacheMgr = Some (newCacheMgr cap ge),
      pending = [\<lparr>f_key = ?k, f_args = st_request ck (q, 0, True), f_beginAt = c_perf ck\<rparr>]\<rparr>"
    using st_mounted [OF assms(1,2)] by (simp only: deps)
  have r1: "st_rounds ?s1 = [[ConfigReq] @ (if st_fetchSchemas g then [SchemasReq] else []) @
      (if st_fetchGroups g then [GroupsReq] else []) @ [StmtTypesReq]]"
      "windowSize ?s1 = 0" "oldBackend ?s1" "st_deps_of g ?s1 = (q, 0, True)"
    using assms(3) deps by (simp_all add: st_list_effect_def)
      (simp_all add: st_options_effect_def assms(1) st_init_def)
  have l2: "st_loader (?s2 ?s1) = \<lparr>l_data = Some ?d, isDataLoading = False, isDataLoadedSlowly = Some False,
      errors = [], cacheMgr = Some ?m, pending = []\<rparr>"
    using l1 by (simp del: st_step.simps(1) add: list_resolved_def Let_def cm_set_def drop_nth_def
        SLOW_DATA_LOAD_THRESHOLD_def)
  have hit: "fst (cache_get (c_date ck) ?k ?m) = Some (Entity ?d False)"
    unfolding cache_get_set_same [OF cache_inv_new] using assms(4) by (simp add: expiry_def newCacheMgr_def)
  have key: "st_cacheKey (q, w, True) = ?k" by (simp add: st_cacheKey_def)
  show ?thesis
    unfolding s_def deps fst_conv using l2 r1 hit
    by (simp del: st_step.simps(1) add: answerable_def st_round_done_def setWindowSize_def st_list_effect_def
        queryStatementList_def or_else_def load_list_def try_cache_def cm_get_def key prod.case_eq_if)
qed

theorem statement_window_hidden_witness:
  "windowSize (fold (st_step st_sample_cfg) [(st_sample_clock, Mount), (st_sample_clock, ListResolved 0 (Some [''x''])),
    (st_sample_clock, OptAnswer 0 (ConfigData True (Some (js_int 1800))))] st_sample_start) = js_int 1800"
proof -
  have "st_columns (st_deps_of st_sample_cfg st_sample_start) \<noteq> []" "st_fetchConfig st_sample_cfg"
    by (simp add: st_sample_deps st_columns_default) (simp add: st_sample_cfg_def)
  then show ?thesis by (rule statement_window_hidden [OF st_sample_start_def, THEN conjunct1]) simp
qed

end
