(* ===== verification/StoreLocation.thy ===== *)
theory StoreLocation
  imports JsString "HOL-Library.Multiset"
begin

text \<open>
  The store topology of the cluster page, \<open>ClusterInfo/components/StoreLocationTree/index.tsx\<close>: the
  short names of labels, label values and addresses, and the tree of the stores by their location
  labels. An object from strings to strings is a map; \<open>tikv\<close> and \<open>tiflash\<close> are the names
  \<open>instanceKindName\<close> looks up for the two kinds of stores.
\<close>

subsection \<open>Data\<close>

record store =
  labels :: "string \<rightharpoonup> string"
  address :: string

record TopologyStoreLocation =
  location_labels :: "string list option"
  stores :: "store list option"

type_synonym ShortStrMap = "string \<rightharpoonup> string"

definition or_nil :: "'a list option \<Rightarrow> 'a list" where
  "or_nil x = (case x of Some xs \<Rightarrow> xs | None \<Rightarrow> [])"

subsection \<open>Short names\<close>

text \<open>\<open>new Set(xs)\<close>, in the order of the first occurrences.\<close>

definition js_set :: "'a list \<Rightarrow> 'a list" where
  "js_set xs = rev (remdups (rev xs))"

definition is_sep :: "char \<Rightarrow> bool" where
  "is_sep c \<longleftrightarrow> c = CHR ''.'' \<or> c = CHR ''-''"

text \<open>\<open>str[i]\<close> and, from the tail, \<open>str[str.length - 1 - i]\<close>\<close>

definition char_at :: "bool \<Rightarrow> nat \<Rightarrow> string \<Rightarrow> char option" where
  "char_at fromTail i s =
     (if i < length s then Some (s ! (if fromTail then length s - 1 - i else i)) else None)"

lemma those_Some_iff: "those xs = Some ys \<longleftrightarrow> xs = map Some ys"
  by (induction xs arbitrary: ys) (auto split: option.splits)

text \<open>
  The two \<open>while (true)\<close> loops. A loop leaves at the end of a string or where two strings differ;
  \<open>pos\<close> is the last position of a separator seen.
\<close>

function scan_common :: "bool \<Rightarrow> string list \<Rightarrow> nat \<Rightarrow> int \<Rightarrow> int" where
  "scan_common fromTail strSet i pos =
     (case those (map (char_at fromTail i) strSet) of
        None \<Rightarrow> pos
      | Some [] \<Rightarrow> pos
      | Some (c # cs) \<Rightarrow>
          if 1 < length (remdups (c # cs)) then pos
          else scan_common fromTail strSet (i + 1) (if is_sep (last (c # cs)) then int i else pos))"
  by pat_completeness auto
termination
  by (relation "measure (\<lambda>(_, strSet, i, _). length (hd strSet) - i)")
    (auto simp: those_Some_iff char_at_def split: if_splits)

declare scan_common.simps [simp del]

definition trimDuplicate :: "string list \<Rightarrow> ShortStrMap" where
  "trimDuplicate strArr =
     (let strSet = js_set strArr
      in if length strSet < 2 then Map.empty
         else (let headDotOrMinusPos = scan_common False strSet 0 (- 1);
                   tailDotOrMinusPos = scan_common True strSet 0 (- 1)
               in if headDotOrMinusPos = - 1 \<and> tailDotOrMinusPos = - 1 then Map.empty
                  else map_of (map (\<lambda>s.
                         (s, slice s (headDotOrMinusPos + 1)
                               (if tailDotOrMinusPos = - 1 then int (length s)
                                else int (length s) - 1 - tailDotOrMinusPos))) strSet)))"

definition label_short :: "string \<Rightarrow> ShortStrMap" where
  "label_short label =
     (case indexOf label ''/'' 0 of
        None \<Rightarrow> Map.empty
      | Some _ \<Rightarrow> (let shortStr = last (split_on (CHR ''/'') label)
                   in if shortStr \<noteq> [] then [label \<mapsto> shortStr] else Map.empty))"

definition label_values :: "store list \<Rightarrow> string \<Rightarrow> string list" where
  "label_values ss label =
     concat (map (\<lambda>s. case labels s label of
                       Some v \<Rightarrow> if v \<noteq> [] then [v] else []
                     | None \<Rightarrow> []) ss)"

definition address_short :: "string \<Rightarrow> ShortStrMap" where
  "address_short addr =
     (if prefix ''db-'' addr
      then (let shortStr = hd (split_on (CHR ''.'') addr)
            in if shortStr \<noteq> [] then [addr \<mapsto> shortStr] else Map.empty)
      else Map.empty)"

definition getShortStrMap :: "TopologyStoreLocation option \<Rightarrow> ShortStrMap" where
  "getShortStrMap data =
     (case data of
        None \<Rightarrow> Map.empty
      | Some d \<Rightarrow>
          (let ls = or_nil (location_labels d); ss = or_nil (stores d);
               m = fold (\<lambda>l m. m ++ label_short l) ls Map.empty;
               m = fold (\<lambda>l m. m ++ trimDuplicate (label_values ss l)) ls m
           in fold (\<lambda>a m. m ++ address_short a) (map address ss) m))"

subsection \<open>The tree of stores\<close>

datatype TreeNode = TreeNode (name: string) (val: string) (children: "TreeNode list")

definition NODE_STORES :: string where
  "NODE_STORES = ''Stores''"

text \<open>\<open>curNode.children.find(...)\<close>, with the node found replaced by its update.\<close>

fun update_first :: "('a \<Rightarrow> bool) \<Rightarrow> ('a \<Rightarrow> 'a) \<Rightarrow> 'a list \<Rightarrow> 'a list option" where
  "update_first P f [] = None"
| "update_first P f (x # xs) =
     (if P x then Some (f x # xs) else map_option ((#) x) (update_first P f xs))"

text \<open>
  The inner loop for one store, as an update of the tree: it walks down the labels, adding the nodes
  that are missing, and appends the node of the store where it ends.
\<close>

fun add_store :: "(string \<times> string) list \<Rightarrow> TreeNode \<Rightarrow> TreeNode \<Rightarrow> TreeNode" where
  "add_store [] leaf (TreeNode n v cs) = TreeNode n v (cs @ [leaf])"
| "add_store ((curLabel, curLabelVal) # ps) leaf (TreeNode n v cs) =
     TreeNode n v
       (case update_first (\<lambda>el. name el = curLabel \<and> val el = curLabelVal) (add_store ps leaf) cs of
          Some cs' \<Rightarrow> cs'
        | None \<Rightarrow> cs @ [add_store ps leaf (TreeNode curLabel curLabelVal [])])"

definition store_path :: "string list \<Rightarrow> store \<Rightarrow> (string \<times> string) list" where
  "store_path ls s = concat (map (\<lambda>l. case labels s l of Some v \<Rightarrow> [(l, v)] | None \<Rightarrow> []) ls)"

definition store_leaf :: "string \<Rightarrow> string \<Rightarrow> store \<Rightarrow> TreeNode" where
  "store_leaf tikv tiflash s =
     TreeNode (if labels s ''engine'' = Some ''tiflash'' then tiflash else tikv) (address s) []"

definition buildTreeData :: "string \<Rightarrow> string \<Rightarrow> TopologyStoreLocation option \<Rightarrow> TreeNode" where
  "buildTreeData tikv tiflash data =
     (let treeData = TreeNode NODE_STORES [] []
      in case data of
           None \<Rightarrow> treeData
         | Some d \<Rightarrow>
             if 0 < length (or_nil (location_labels d))
             then fold (\<lambda>s. add_store (store_path (or_nil (location_labels d)) s) (store_leaf tikv tiflash s))
                    (or_nil (stores d)) treeData
             else treeData)"

subsection \<open>What the scans find\<close>

text \<open>\<open>best strs P\<close>: the longest common prefix of the strings that is empty or ends in a separator.\<close>

definition common :: "string list \<Rightarrow> string \<Rightarrow> bool" where
  "common strs Q \<longleftrightarrow> (\<forall>s \<in> set strs. prefix Q s) \<and> (Q = [] \<or> is_sep (last Q))"

definition best :: "string list \<Rightarrow> string \<Rightarrow> bool" where
  "best strs P \<longleftrightarrow> common strs P \<and> (\<forall>Q. common strs Q \<longrightarrow> prefix Q P)"

lemma char_at_tail: "char_at True i s = char_at False i (rev s)"
  by (auto simp: char_at_def rev_nth)

lemma scan_tail: "scan_common True strs i pos = scan_common False (map rev strs) i pos"
proof (induction True strs i pos rule: scan_common.induct)
  case (1 strs i pos)
  have map_eq: "map (char_at True i) strs = map (char_at False i) (map rev strs)"
    by (simp add: char_at_tail comp_def)
  show ?case
    by (subst (1 2) scan_common.simps, simp only: map_eq)
      (use 1 [unfolded map_eq] in \<open>auto split: option.splits list.splits\<close>)
qed

lemma all_same: "\<not> 1 < length (remdups (c # cs)) \<longleftrightarrow> (\<forall>x \<in> set cs. x = c)"
proof -
  have "length (remdups (c # cs)) = card (insert c (set cs))" by (metis length_remdups_card_conv list.simps(15))
  moreover have "\<not> 1 < card (insert c (set cs)) \<longleftrightarrow> insert c (set cs) = {c}"
    using card_le_Suc0_iff_eq [of "insert c (set cs)"] by auto
  ultimately show ?thesis by auto
qed

text \<open>Where the loop leaves, no longer prefix is common.\<close>

lemma scan_stop:
  assumes "strs \<noteq> []" and "those (map (char_at False i) strs) = None \<or>
      (\<exists>c cs. those (map (char_at False i) strs) = Some (c # cs) \<and> 1 < length (remdups (c # cs)))"
    and "\<forall>s \<in> set strs. prefix Q s"
  shows "length Q \<le> i"
proof (rule ccontr)
  assume "\<not> length Q \<le> i"
  then have eq: "map (char_at False i) strs = map Some (map (\<lambda>s. Q ! i) strs)"
    using assms(3) by (auto simp: char_at_def prefix_def nth_append)
  then have those: "those (map (char_at False i) strs) = Some (map (\<lambda>s. Q ! i) strs)"
    by (simp only: those_Some_iff)
  with assms(2) obtain c cs where "map (\<lambda>s. Q ! i) strs = c # cs" "1 < length (remdups (c # cs))" by auto
  then show False using all_same [of c cs] by (metis list.inject map_eq_Cons_conv ex_map_conv)
qed

lemma scan_go:
  assumes "those (map (char_at False i) strs) = Some (c # cs)" and "\<not> 1 < length (remdups (c # cs))"
  shows "\<forall>s \<in> set strs. i < length s \<and> s ! i = c" and "last (c # cs) = c"
proof -
  have same: "\<forall>x \<in> set cs. x = c" using assms(2) by (simp only: all_same)
  then show "last (c # cs) = c" by (cases cs rule: rev_cases) auto
  have "map (char_at False i) strs = map Some (c # cs)" using assms(1) by (simp only: those_Some_iff)
  then have "char_at False i s \<in> set (map Some (c # cs))" if "s \<in> set strs" for s
    using that by (metis image_eqI list.set_map)
  then show "\<forall>s \<in> set strs. i < length s \<and> s ! i = c"
    using same by (fastforce simp: char_at_def split: if_splits)
qed

lemma scan_best:
  assumes "strs \<noteq> []" and "\<forall>s \<in> set strs. prefix (take i (hd strs)) s" and "i \<le> length (hd strs)"
    and "- 1 \<le> pos" and "pos < int i" and "pos = - 1 \<or> is_sep (hd strs ! nat pos)"
    and "\<forall>j < i. is_sep (hd strs ! j) \<longrightarrow> int j \<le> pos"
  shows "- 1 \<le> scan_common False strs i pos \<and> scan_common False strs i pos < int (length (hd strs)) \<and>
    best strs (take (nat (scan_common False strs i pos + 1)) (hd strs))"
  using assms
proof (induction False strs i pos rule: scan_common.induct)
  case (1 strs i pos)
  let ?s = "hd strs" and ?P = "take (nat (pos + 1)) (hd strs)"
  have pre: "\<forall>s \<in> set strs. prefix ?P s"
  proof
    fix s assume "s \<in> set strs"
    then have "prefix (take i ?s) s" using "1.prems"(2) by blast
    moreover have "prefix ?P (take i ?s)"
      using "1.prems"(5) by (auto simp: take_is_prefix take_take prefix_def intro!: exI [of _ "drop (nat (pos + 1)) (take i ?s)"])
         (metis append_take_drop_id min.absorb1 nat_le_iff take_take zless_imp_add1_zle)
    ultimately show "prefix ?P s" by (rule prefix_order.trans [rotated])
  qed
  have sep: "?P = [] \<or> is_sep (last ?P)"
  proof (cases "pos = - 1")
    case False
    then have p: "0 \<le> pos" "nat (pos + 1) = Suc (nat pos)" "nat pos < length ?s" "is_sep (?s ! nat pos)"
      using "1.prems" by auto
    then show ?thesis by (simp add: take_Suc_conv_app_nth)
  qed simp
  have stop: ?case if leave: "those (map (char_at False i) strs) = None \<or>
      (\<exists>c cs. those (map (char_at False i) strs) = Some (c # cs) \<and> 1 < length (remdups (c # cs)))"
      and r: "scan_common False strs i pos = pos"
  proof -
    have "prefix Q ?P" if Q: "common strs Q" for Q
    proof (cases "Q = []")
      case False
      have pq: "\<forall>s \<in> set strs. prefix Q s" using Q by (simp add: common_def)
      then have "prefix Q ?s" using "1.prems"(1) by simp
      then obtain z where z: "?s = Q @ z" by (auto simp: prefix_def)
      have "length Q \<le> i" using scan_stop [OF "1.prems"(1) leave pq] .
      moreover have "is_sep (?s ! (length Q - 1))"
        using Q False by (simp add: common_def z last_conv_nth nth_append)
      ultimately have "int (length Q - 1) \<le> pos" using "1.prems"(7) False by (cases Q) auto
      then have "length Q \<le> nat (pos + 1)" using False by (cases Q) auto
      then show ?thesis by (simp add: z)
    qed simp
    then show ?thesis unfolding r using pre sep "1.prems"(3-5) by (auto simp: best_def common_def)
  qed
  show ?case
  proof (cases "those (map (char_at False i) strs)")
    case None
    then show ?thesis by (intro stop) (simp_all add: scan_common.simps [of False strs i])
  next
    case (Some cs0)
    then obtain c cs where cs: "cs0 = c # cs"
      using "1.prems"(1) by (cases cs0) (auto simp: those_Some_iff)
    show ?thesis
    proof (cases "1 < length (remdups (c # cs))")
      case True
      then show ?thesis using Some cs by (intro stop) (simp_all add: scan_common.simps [of False strs i])
    next
      case False
      note go = scan_go [OF Some [unfolded cs] False]
      let ?pos = "if is_sep (last (c # cs)) then int i else pos"
      have hd: "i < length ?s" "?s ! i = c" using go(1) "1.prems"(1) by simp_all
      have r: "scan_common False strs i pos = scan_common False strs (i + 1) ?pos"
        using Some cs False by (simp add: scan_common.simps [of False strs i])
      have pre': "\<forall>s \<in> set strs. prefix (take (i + 1) ?s) s"
      proof
        fix s assume s: "s \<in> set strs"
        then have "take i ?s = take i s" "i < length s" "s ! i = c"
          using "1.prems"(2,3) go(1) by (auto simp: prefix_def)
        then have "take (i + 1) ?s = take (i + 1) s" using hd by (simp add: take_Suc_conv_app_nth)
        then show "prefix (take (i + 1) ?s) s" by (simp add: take_is_prefix)
      qed
      show ?thesis unfolding r
      proof (rule "1.hyps" [OF Some cs False "1.prems"(1) pre'])
        show "\<forall>j < i + 1. is_sep (?s ! j) \<longrightarrow> int j \<le> ?pos"
          using "1.prems"(5,7) go(2) hd(2) by (auto simp: less_Suc_eq)
        show "?pos = - 1 \<or> is_sep (?s ! nat ?pos)" using "1.prems"(6) go(2) hd(2) by auto
      qed (use hd "1.prems"(4,5) in auto)
    qed
  qed
qed

lemma set_js_set [simp]: "set (js_set xs) = set xs"
  by (simp add: js_set_def)

lemma best_cong: "set xs = set ys \<Longrightarrow> best xs P = best ys P"
  by (simp add: best_def common_def)

lemma scan_head:
  assumes "xs \<noteq> []"
  shows "- 1 \<le> scan_common False xs 0 (- 1) \<and> scan_common False xs 0 (- 1) < int (length (hd xs)) \<and>
    best xs (take (nat (scan_common False xs 0 (- 1) + 1)) (hd xs))"
  by (rule scan_best) (use assms in simp_all)

lemma slice_middle:
  "a \<le> length s \<Longrightarrow> b \<le> length s \<Longrightarrow>
     slice s (int a) (int (length s) - int b) = drop a (take (length s - b) s)"
  by (simp add: slice_def slice_pos_def drop_take nat_diff_distrib)

lemma common_length: "common xs P \<Longrightarrow> s \<in> set xs \<Longrightarrow> length P \<le> length s"
  by (simp add: common_def prefix_length_le)

lemma middle_inject:
  assumes "common xs P" and "common (map rev xs) (rev S)"
    and "s \<in> set xs" and "t \<in> set xs" and "length P + length S \<le> length s" and "length P + length S \<le> length t"
    and "drop (length P) (take (length s - length S) s) = drop (length P) (take (length t - length S) t)"
  shows "s = t"
proof -
  have whole: "u = P @ drop (length P) (take (length u - length S) u) @ S"
    if u: "u \<in> set xs" and len: "length P + length S \<le> length u" for u
  proof -
    obtain z where z: "u = P @ z" using assms(1) u by (auto simp: common_def prefix_def)
    obtain y where "rev u = rev S @ y" using assms(2) u by (auto simp: common_def prefix_def)
    then have "u = rev y @ S" by (metis rev_append rev_rev_ident)
    then have "take (length u - length S) u @ S = u" by simp
    moreover have "take (length u - length S) u = P @ drop (length P) (take (length u - length S) u)"
      using len z by (simp add: take_append drop_append)
    ultimately show ?thesis by (metis append.assoc)
  qed
  show ?thesis using whole [OF assms(3,5)] whole [OF assms(4,6)] assms(7) by metis
qed

subsection \<open>The routes of the tree\<close>

text \<open>The ways from a node down to a node without children, as lists of names and values.\<close>

fun routes :: "TreeNode \<Rightarrow> (string \<times> string) list list" where
  "routes (TreeNode n v cs) = (if cs = [] then [[(n, v)]] else map ((#) (n, v)) (concat (map routes cs)))"

definition forest :: "TreeNode list \<Rightarrow> (string \<times> string) list list" where
  "forest cs = concat (map routes cs)"

text \<open>
  \<open>K\<close> are the names of store nodes: exactly these have no children, and the other children of a node
  differ in name or value.
\<close>

definition siblings_ok :: "string set \<Rightarrow> TreeNode list \<Rightarrow> bool" where
  "siblings_ok K cs \<longleftrightarrow> distinct (map (\<lambda>c. (name c, val c)) (filter (\<lambda>c. name c \<notin> K) cs))"

fun tree_ok :: "string set \<Rightarrow> TreeNode \<Rightarrow> bool" where
  "tree_ok K (TreeNode n v cs) \<longleftrightarrow> (cs = [] \<longleftrightarrow> n \<in> K) \<and> siblings_ok K cs \<and> (\<forall>c \<in> set cs. tree_ok K c)"

lemma forest_simps [simp]:
  "forest [] = []" "forest (cs @ ds) = forest cs @ forest ds" "forest (c # cs) = routes c @ forest cs"
  by (simp_all add: forest_def)

lemma routes_node: "children t \<noteq> [] \<Longrightarrow> routes t = map ((#) (name t, val t)) (forest (children t))"
  by (cases t) (simp add: forest_def)

lemma update_first_None: "update_first P f xs = None \<longleftrightarrow> (\<forall>x \<in> set xs. \<not> P x)"
  by (induction xs) auto

lemma update_first_found:
  "(\<forall>x \<in> set us. \<not> P x) \<Longrightarrow> P u \<Longrightarrow> update_first P f (us @ u # ws) = Some (us @ f u # ws)"
  by (induction us) auto

lemma update_first_cases:
  obtains (missing) "update_first P f xs = None" "\<forall>x \<in> set xs. \<not> P x"
    | (found) us u ws where "xs = us @ u # ws" "P u" "\<forall>x \<in> set us. \<not> P x"
        "update_first P f xs = Some (us @ f u # ws)"
proof (cases "\<exists>x \<in> set xs. P x")
  case True
  then obtain us u ws where "xs = us @ u # ws" "P u" "\<forall>x \<in> set us. \<not> P x"
    using split_list_first_prop [of xs P] by blast
  then show ?thesis using found update_first_found by metis
next
  case False
  then show ?thesis using missing update_first_None by metis
qed

lemma add_store_frame [simp]:
  "name (add_store ps leaf t) = name t" "val (add_store ps leaf t) = val t"
  by (cases t; cases ps; auto)+

lemma add_store_nonempty: "children (add_store ps leaf t) \<noteq> []"
proof (cases t)
  case (TreeNode n v cs)
  show ?thesis
  proof (cases ps)
    case (Cons p qs)
    obtain l x where "p = (l, x)" by (cases p)
    then show ?thesis
      by (cases rule: update_first_cases [of "\<lambda>el. name el = l \<and> val el = x" "add_store qs leaf" cs])
        (simp_all add: TreeNode Cons)
  qed (simp add: TreeNode)
qed

text \<open>Adding a store adds exactly its route.\<close>

lemma add_store_routes:
  assumes "\<forall>c \<in> set (children t). tree_ok K c" and "\<forall>p \<in> set ps. fst p \<notin> K" and "leaf = TreeNode k a []"
  shows "mset (forest (children (add_store ps leaf t))) = add_mset (ps @ [(k, a)]) (mset (forest (children t)))"
  using assms
proof (induction ps leaf t rule: add_store.induct)
  case (1 leaf n v cs)
  then show ?case by simp
next
  case (2 l x ps leaf n v cs)
  let ?P = "\<lambda>el. name el = l \<and> val el = x"
  show ?case
  proof (cases rule: update_first_cases [of ?P "add_store ps leaf" cs])
    case missing
    have "mset (forest (children (add_store ps leaf (TreeNode l x [])))) = {#ps @ [(k, a)]#}"
      using "2.IH"(2) [OF missing(1)] "2.prems" by simp
    with missing show ?thesis by (simp add: routes_node [OF add_store_nonempty])
  next
    case (found us u ws)
    have u: "tree_ok K u" "name u \<notin> K" using "2.prems" found(1,2) by auto
    then have kids: "children u \<noteq> []" "\<forall>c \<in> set (children u). tree_ok K c" by (cases u; auto)+
    have "mset (forest (children (add_store ps leaf u))) = add_mset (ps @ [(k, a)]) (mset (forest (children u)))"
      using "2.IH"(1) [of u] "2.prems" kids found by simp
    then show ?thesis using found kids by (simp add: routes_node [OF add_store_nonempty] routes_node)
  qed
qed

lemma siblings_ok_update:
  "name u' = name u \<Longrightarrow> val u' = val u \<Longrightarrow> siblings_ok K (us @ u # ws) \<Longrightarrow> siblings_ok K (us @ u' # ws)"
  by (simp add: siblings_ok_def split: if_splits)

lemma siblings_ok_snoc:
  "siblings_ok K cs \<Longrightarrow> name c \<in> K \<or> (\<forall>d \<in> set cs. \<not> (name d = name c \<and> val d = val c)) \<Longrightarrow> siblings_ok K (cs @ [c])"
  by (auto simp: siblings_ok_def)

lemma tree_ok_children:
  "tree_ok K t \<longleftrightarrow> (children t = [] \<longleftrightarrow> name t \<in> K) \<and> siblings_ok K (children t) \<and> (\<forall>c \<in> set (children t). tree_ok K c)"
  by (cases t) simp

lemma add_store_ok:
  assumes "siblings_ok K (children t)" and "\<forall>c \<in> set (children t). tree_ok K c"
    and "\<forall>p \<in> set ps. fst p \<notin> K" and "leaf = TreeNode k a []" and "k \<in> K"
  shows "siblings_ok K (children (add_store ps leaf t)) \<and> (\<forall>c \<in> set (children (add_store ps leaf t)). tree_ok K c)"
  using assms
proof (induction ps leaf t rule: add_store.induct)
  case (1 leaf n v cs)
  then show ?case by (auto intro: siblings_ok_snoc simp: siblings_ok_def)
next
  case (2 l x ps leaf n v cs)
  let ?P = "\<lambda>el. name el = l \<and> val el = x"
  show ?case
  proof (cases rule: update_first_cases [of ?P "add_store ps leaf" cs])
    case missing
    let ?c = "add_store ps leaf (TreeNode l x [])"
    have "siblings_ok K (children ?c) \<and> (\<forall>c \<in> set (children ?c). tree_ok K c)"
      using "2.IH"(2) [OF missing(1)] "2.prems" by (simp add: siblings_ok_def)
    then have "tree_ok K ?c" using add_store_nonempty "2.prems"(3) by (simp add: tree_ok_children [of K ?c])
    with missing "2.prems" show ?thesis by (auto intro!: siblings_ok_snoc)
  next
    case (found us u ws)
    have u: "tree_ok K u" "name u \<notin> K" using "2.prems" found(1,2) by auto
    then have "siblings_ok K (children u)" "\<forall>c \<in> set (children u). tree_ok K c" by (simp_all add: tree_ok_children [of K u])
    with "2.IH"(1) [of u] "2.prems" found
    have "siblings_ok K (children (add_store ps leaf u)) \<and> (\<forall>c \<in> set (children (add_store ps leaf u)). tree_ok K c)"
      by simp
    then have "tree_ok K (add_store ps leaf u)"
      using u(2) add_store_nonempty by (simp add: tree_ok_children [of K "add_store ps leaf u"])
    with "2.prems" found show ?thesis by (auto intro: siblings_ok_update)
  qed
qed

lemma store_path_labels: "p \<in> set (store_path ls s) \<Longrightarrow> fst p \<in> set ls"
  by (auto simp: store_path_def split: option.splits)

definition kind_name :: "string \<Rightarrow> string \<Rightarrow> store \<Rightarrow> string" where
  "kind_name tikv tiflash s = (if labels s ''engine'' = Some ''tiflash'' then tiflash else tikv)"

lemma store_leaf_kind: "store_leaf tikv tiflash s = TreeNode (kind_name tikv tiflash s) (address s) []"
  by (simp add: store_leaf_def kind_name_def)

lemma build_stores:
  assumes "set ls \<inter> {tikv, tiflash} = {}" and "siblings_ok {tikv, tiflash} (children t)"
    and "\<forall>c \<in> set (children t). tree_ok {tikv, tiflash} c"
  shows "siblings_ok {tikv, tiflash} (children (fold (\<lambda>s. add_store (store_path ls s) (store_leaf tikv tiflash s)) ss t)) \<and>
    (\<forall>c \<in> set (children (fold (\<lambda>s. add_store (store_path ls s) (store_leaf tikv tiflash s)) ss t)). tree_ok {tikv, tiflash} c) \<and>
    mset (forest (children (fold (\<lambda>s. add_store (store_path ls s) (store_leaf tikv tiflash s)) ss t))) =
      mset (forest (children t)) + mset (map (\<lambda>s. store_path ls s @ [(kind_name tikv tiflash s, address s)]) ss)"
  using assms(2,3)
proof (induction ss arbitrary: t)
  case (Cons s ss)
  have path: "\<forall>p \<in> set (store_path ls s). fst p \<notin> {tikv, tiflash}" using assms(1) store_path_labels by blast
  have k: "kind_name tikv tiflash s \<in> {tikv, tiflash}" by (simp add: kind_name_def)
  note ok = add_store_ok [OF Cons.prems path store_leaf_kind k]
  from Cons.IH [OF ok [THEN conjunct1] ok [THEN conjunct2]]
    add_store_routes [OF Cons.prems(2) path store_leaf_kind]
  show ?case by simp
qed simp

subsection \<open>Properties\<close>


definition sample_location :: TopologyStoreLocation where
  "sample_location = \<lparr>location_labels = Some [''zone'', ''host''],
     stores = Some [\<lparr>labels = [''zone'' \<mapsto> ''z1'', ''host'' \<mapsto> ''h1''], address = ''a1''\<rparr>,
       \<lparr>labels = [''zone'' \<mapsto> ''z1'', ''host'' \<mapsto> ''h2'', ''engine'' \<mapsto> ''tiflash''], address = ''a2''\<rparr>]\<rparr>"


text \<open>
  Short label values drop exactly what is common. When \<open>trimDuplicate\<close> shortens, every string loses
  the longest common prefix that ends in a dot or minus and the longest common suffix that starts with
  one; and if these do not overlap in any string, different strings get different short names.
\<close>

theorem trimDuplicate_middle:
  assumes "trimDuplicate xs \<noteq> Map.empty"
  shows "\<exists>P S. best xs P \<and> best (map rev xs) (rev S) \<and>
    (\<forall>s. trimDuplicate xs s =
       (if s \<in> set xs then Some (drop (length P) (take (length s - length S) s)) else None)) \<and>
    ((\<forall>s \<in> set xs. length P + length S \<le> length s) \<longrightarrow> inj_on (trimDuplicate xs) (set xs))"
proof -
  let ?xs = "js_set xs"
  let ?h = "scan_common False ?xs 0 (- 1)" and ?t = "scan_common True ?xs 0 (- 1)"
  define P where "P = take (nat (?h + 1)) (hd ?xs)"
  define S where "S = rev (take (nat (?t + 1)) (rev (hd ?xs)))"
  have ne: "?xs \<noteq> []" using assms by (auto simp: trimDuplicate_def Let_def split: if_splits)
  then have t: "?t = scan_common False (map rev ?xs) 0 (- 1)" "hd (map rev ?xs) = rev (hd ?xs)"
    by (simp_all add: scan_tail hd_map)
  note H = scan_head [OF ne] and T = scan_head [of "map rev ?xs", folded t(1), unfolded t(2)]
  have P: "best xs P" using H best_cong [of xs ?xs] by (simp add: P_def)
  have S: "best (map rev xs) (rev S)" using T ne best_cong [of "map rev xs" "map rev ?xs"] by (simp add: S_def)
  have len: "int (length P) = ?h + 1" "int (length S) = ?t + 1" using H T ne by (auto simp: P_def S_def min_def)
  have short: "slice s (?h + 1) (if ?t = - 1 then int (length s) else int (length s) - 1 - ?t) =
      drop (length P) (take (length s - length S) s)" if s: "s \<in> set xs" for s
  proof -
    have "length P \<le> length s" using P s common_length by (auto simp: best_def)
    moreover have "length S \<le> length s"
      using S s common_length [of "map rev xs" "rev S" "rev s"] by (simp add: best_def)
    ultimately have "slice s (int (length P)) (int (length s) - int (length S)) = drop (length P) (take (length s - length S) s)"
      by (rule slice_middle)
    then show ?thesis using len by (auto simp: algebra_simps)
  qed
  have "trimDuplicate xs = map_of (map (\<lambda>s. (s, slice s (?h + 1)
      (if ?t = - 1 then int (length s) else int (length s) - 1 - ?t))) ?xs)"
    using assms by (simp add: trimDuplicate_def Let_def split: if_splits)
  then have look: "trimDuplicate xs s = (if s \<in> set xs then Some (drop (length P) (take (length s - length S) s)) else None)" for s
    using short by (simp add: map_of_map_restrict)
  have "inj_on (trimDuplicate xs) (set xs)" if "\<forall>s \<in> set xs. length P + length S \<le> length s"
  proof (rule inj_onI)
    fix s t assume st: "s \<in> set xs" "t \<in> set xs" "trimDuplicate xs s = trimDuplicate xs t"
    then have eq: "drop (length P) (take (length s - length S) s) = drop (length P) (take (length t - length S) t)"
      by (simp only: look if_True option.inject)
    have "common xs P" "common (map rev xs) (rev S)" using P S by (simp_all only: best_def)
    from middle_inject [OF this st(1,2) bspec [OF that st(1)] bspec [OF that st(2)] eq] show "s = t" .
  qed
  with P S look show ?thesis by blast
qed

lemma sample_trim:
  "trimDuplicate [''aaa-111a.abc.123'', ''aaa-222a.abc.123''] ''aaa-111a.abc.123'' = Some ''111a''"
  by code_simp

theorem trimDuplicate_middle_witness:
  "\<exists>P (S :: string). best [''aaa-111a.abc.123'', ''aaa-222a.abc.123''] P \<and>
     ''111a'' = drop (length P) (take (length ''aaa-111a.abc.123'' - length S) ''aaa-111a.abc.123'')"
proof -
  have "trimDuplicate [''aaa-111a.abc.123'', ''aaa-222a.abc.123''] \<noteq> Map.empty" using sample_trim by auto
  from trimDuplicate_middle [OF this] show ?thesis
  proof (elim exE conjE)
    fix P S :: string
    assume P: "best [''aaa-111a.abc.123'', ''aaa-222a.abc.123''] P"
      and "\<forall>s. trimDuplicate [''aaa-111a.abc.123'', ''aaa-222a.abc.123''] s =
         (if s \<in> set [''aaa-111a.abc.123'', ''aaa-222a.abc.123'']
          then Some (drop (length P) (take (length s - length S) s)) else None)"
    from spec [OF this(2), of "''aaa-111a.abc.123''"] have "''111a'' =
        drop (length P) (take (length ''aaa-111a.abc.123'' - length S) ''aaa-111a.abc.123'')"
      by (simp only: sample_trim list.set insert_iff simp_thms if_True option.inject)
    with P show ?thesis by blast
  qed
qed

text \<open>Where prefix and suffix overlap, a label value can lose its whole name.\<close>

lemma trimDuplicate_blank: "trimDuplicate [''zone-a'', ''zone-a-a''] ''zone-a'' = Some []"
  by code_simp

end
