(* ===== verification/AutoRefresh.thy ===== *)
theory AutoRefresh
  imports Prelude
begin

text \<open>
  The auto refresh buttons: \<open>components/AutoRefreshButton/AutoRefreshButton.tsx\<close> of the library and
  \<open>3-biz-ui/src/auto-refresh-button/index.tsx\<close> of ui-v2 (names with the suffix \<open>_v2\<close>). A state holds the
  cells of the component, its properties and the number of calls of \<open>onRefresh\<close>. Seconds are
  integers; an event is followed by the effects it starts.
\<close>

definition DEFAULT_AUTO_REFRESH_OPTIONS :: "int list" where
  "DEFAULT_AUTO_REFRESH_OPTIONS = [30, 60, 5 * 60, 15 * 60, 30 * 60, 1 * 60 * 60, 2 * 60 * 60]"

subsection \<open>The button of the library\<close>

record button =
  interval :: int
  remaining :: int
  timer :: bool
  disabled :: bool
  refreshed :: nat

definition resetTimer :: "button \<Rightarrow> button" where
  "resetTimer s = s\<lparr>timer := False, remaining := interval s\<rparr>"

definition handleRefresh :: "button \<Rightarrow> button" where
  "handleRefresh s =
     (if disabled s then s else (resetTimer s)\<lparr>refreshed := Suc (refreshed s)\<rparr>)"

text \<open>The callback of the timer, one second after it was started.\<close>

definition on_timeout :: "button \<Rightarrow> button" where
  "on_timeout s =
     (if timer s
      then (let s = s\<lparr>timer := False\<rparr>
            in if remaining s = 0 then handleRefresh (s\<lparr>remaining := interval s\<rparr>)
               else s\<lparr>remaining := remaining s - 1\<rparr>)
      else s)"

text \<open>
  The effects run after the handler, if a value they depend on differs from the one rendered before.
  \<open>useChange\<close> on the interval comes first; the timer effect clears the timer and starts it again
  unless the refresh is stopped or paused.
\<close>

definition interval_effect :: "button \<Rightarrow> button" where
  "interval_effect s =
     (let s1 = s\<lparr>timer := False\<rparr>
      in if interval s < remaining s \<or> remaining s = 0 then s1\<lparr>remaining := interval s\<rparr> else s1)"

definition timer_effect :: "button \<Rightarrow> button" where
  "timer_effect s = s\<lparr>timer := \<not> (interval s = 0 \<or> disabled s)\<rparr>"

definition effects :: "button \<Rightarrow> button \<Rightarrow> button" where
  "effects old s =
     (if interval s \<noteq> interval old then timer_effect (interval_effect s)
      else if disabled s \<noteq> disabled old \<or> remaining s \<noteq> remaining old then timer_effect s
      else s)"

definition new_button :: "int \<Rightarrow> bool \<Rightarrow> button" where
  "new_button i d =
     timer_effect (interval_effect
       \<lparr>interval = i, remaining = 0, timer = False, disabled = d, refreshed = 0\<rparr>)"

datatype button_event = Tick | Click | SetInterval int | SetDisabled bool

fun button_step :: "button_event \<Rightarrow> button \<Rightarrow> button" where
  "button_step Tick s = effects s (on_timeout s)"
| "button_step Click s = effects s (handleRefresh s)"
| "button_step (SetInterval i) s = effects s (s\<lparr>interval := i\<rparr>)"
| "button_step (SetDisabled d) s = effects s (s\<lparr>disabled := d\<rparr>)"

subsection \<open>The button of ui-v2\<close>

definition DEFAULT_AUTO_REFRESH_SECONDS :: int where
  "DEFAULT_AUTO_REFRESH_SECONDS = 60"

text \<open>\<open>autoRefreshValue\<close> belongs to the parent, which may also change it without the menu.\<close>

record button_v2 =
  autoRefreshValue :: int
  remaining_v2 :: int
  disabled_v2 :: bool
  refreshed_v2 :: nat

definition new_button_v2 :: "int \<Rightarrow> bool \<Rightarrow> button_v2" where
  "new_button_v2 v d = \<lparr>autoRefreshValue = v, remaining_v2 = v, disabled_v2 = d, refreshed_v2 = 0\<rparr>"

definition handleRefresh_v2 :: "button_v2 \<Rightarrow> button_v2" where
  "handleRefresh_v2 s =
     (if disabled_v2 s then s
      else s\<lparr>remaining_v2 := autoRefreshValue s, refreshed_v2 := Suc (refreshed_v2 s)\<rparr>)"

definition on_interval_v2 :: "button_v2 \<Rightarrow> button_v2" where
  "on_interval_v2 s =
     (if disabled_v2 s \<or> autoRefreshValue s = 0 then s
      else (let newRemaining = remaining_v2 s - 1; s = s\<lparr>remaining_v2 := newRemaining\<rparr>
            in if newRemaining = 0 then handleRefresh_v2 s else s))"

definition handleAutoRefreshChange :: "int \<Rightarrow> button_v2 \<Rightarrow> button_v2" where
  "handleAutoRefreshChange v s = s\<lparr>autoRefreshValue := v, remaining_v2 := v\<rparr>"

datatype button_event_v2 = Tick_v2 | Click_v2 | Choose_v2 int | SetDisabled_v2 bool | SetValue_v2 int

fun button_step_v2 :: "button_event_v2 \<Rightarrow> button_v2 \<Rightarrow> button_v2" where
  "button_step_v2 Tick_v2 s = on_interval_v2 s"
| "button_step_v2 Click_v2 s = handleRefresh_v2 s"
| "button_step_v2 (Choose_v2 v) s = handleAutoRefreshChange v s"
| "button_step_v2 (SetDisabled_v2 d) s = s\<lparr>disabled_v2 := d\<rparr>"
| "button_step_v2 (SetValue_v2 v) s = s\<lparr>autoRefreshValue := v\<rparr>"

subsection \<open>Countdowns\<close>

text \<open>
  What both buttons promise while they are left alone: a countdown that fires every \<open>Suc period\<close>
  seconds. The number of calls after \<open>n\<close> seconds follows.
\<close>

locale countdown =
  fixes second :: "'s \<Rightarrow> 's"
    and left :: "'s \<Rightarrow> nat"
    and fired :: "'s \<Rightarrow> nat"
    and live :: "'s \<Rightarrow> bool"
    and period :: "'s \<Rightarrow> nat"
  assumes fire: "live s \<Longrightarrow> left s = 0 \<Longrightarrow> fired (second s) = Suc (fired s) \<and> left (second s) = period s"
    and count: "live s \<Longrightarrow> left s = Suc n \<Longrightarrow> fired (second s) = fired s \<and> left (second s) = n"
    and stays: "live s \<Longrightarrow> live (second s) \<and> period (second s) = period s"
begin

text \<open>The calls due within \<open>n\<close> seconds when the first is \<open>k\<close> seconds away.\<close>

definition due :: "nat \<Rightarrow> nat \<Rightarrow> nat \<Rightarrow> nat" where
  "due p k n = (if n \<le> k then 0 else Suc ((n - Suc k) div Suc p))"

lemma due_fire: "due p 0 (Suc n) = Suc (due p p n)"
  by (simp add: due_def div_if)

lemma due_count: "due p (Suc k) (Suc n) = due p k n"
  by (simp add: due_def)

lemma fired_after:
  assumes "live s"
  shows "fired ((second ^^ n) s) = fired s + due (period s) (left s) n \<and> live ((second ^^ n) s)"
  using assms
proof (induction n arbitrary: s)
  case 0
  then show ?case by (simp add: due_def)
next
  case (Suc n)
  note IH = Suc.IH [OF stays [OF Suc.prems, THEN conjunct1]]
  show ?case
  proof (cases "left s")
    case 0
    with IH fire [OF Suc.prems] stays [OF Suc.prems] show ?thesis
      by (simp add: due_fire funpow_swap1 [symmetric])
  next
    case k: (Suc k)
    with IH count [OF Suc.prems k] stays [OF Suc.prems] show ?thesis
      by (simp add: due_count funpow_swap1 [symmetric])
  qed
qed

end

lemmas button_defs = effects_def on_timeout_def handleRefresh_def resetTimer_def timer_effect_def
  interval_effect_def Let_def

interpretation lib: countdown "button_step Tick" "\<lambda>s. nat (remaining s)" refreshed
    "\<lambda>s. timer s \<and> 0 < interval s \<and> \<not> disabled s \<and> 0 \<le> remaining s" "\<lambda>s. nat (interval s)"
  by unfold_locales (auto simp: button_defs)

interpretation v2: countdown on_interval_v2 "\<lambda>s. nat (remaining_v2 s - 1)" refreshed_v2
    "\<lambda>s. 0 < autoRefreshValue s \<and> \<not> disabled_v2 s \<and> 1 \<le> remaining_v2 s" "\<lambda>s. nat (autoRefreshValue s - 1)"
  by unfold_locales (auto simp: on_interval_v2_def handleRefresh_v2_def Let_def)

lemma due_from_start: "lib.due p p n = n div Suc p"
  by (simp add: lib.due_def div_if [of n "Suc p"])

lemma due_from_start_v2: "v2.due p p n = n div Suc p"
  by (simp add: v2.due_def div_if [of n "Suc p"])

subsection \<open>Invariant\<close>

definition button_inv :: "button \<Rightarrow> bool" where
  [inv_defs]: "button_inv s \<longleftrightarrow>
     0 \<le> remaining s \<and> remaining s \<le> interval s \<and> (timer s \<longrightarrow> interval s \<noteq> 0 \<and> \<not> disabled s)"

fun interval_ok :: "button_event \<Rightarrow> bool" where
  "interval_ok (SetInterval i) = (0 \<le> i)"
| "interval_ok _ = True"

lemma button_inv_new: "0 \<le> i \<Longrightarrow> button_inv (new_button i d)"
  by (simp add: new_button_def inv_defs button_defs)

lemma button_inv_step: "button_inv s \<Longrightarrow> interval_ok e \<Longrightarrow> button_inv (button_step e s)"
  by (cases e) (auto simp: inv_defs button_defs)

lemma button_inv_run: "button_inv s \<Longrightarrow> list_all interval_ok es \<Longrightarrow> button_inv (fold button_step es s)"
  by (induction es arbitrary: s) (auto intro: button_inv_step)

subsection \<open>Properties\<close>

text \<open>
  The refresh buttons keep time. Left alone and enabled, the button of the library with interval
  \<open>i\<close> has refreshed \<open>n div (i + 1)\<close> times after \<open>n\<close> seconds, one second late on every round, and the
  button of ui-v2 \<open>n div i\<close> times.
\<close>

theorem auto_refresh_period:
  assumes "0 < i"
  shows "refreshed ((button_step Tick ^^ n) (new_button i False)) = n div (nat i + 1) \<and>
    refreshed_v2 ((button_step_v2 Tick_v2 ^^ n) (new_button_v2 i False)) = n div nat i"
proof
  have new: "new_button i False = \<lparr>interval = i, remaining = i, timer = True, disabled = False, refreshed = 0\<rparr>"
    using assms by (simp add: new_button_def button_defs)
  from assms lib.fired_after [of "new_button i False" n]
  show "refreshed ((button_step Tick ^^ n) (new_button i False)) = n div (nat i + 1)"
    by (simp add: new due_from_start del: button_step.simps)
  have step: "button_step_v2 Tick_v2 = on_interval_v2" by (rule ext) simp
  have "Suc (nat (i - 1)) = nat i" using assms by simp
  with assms v2.fired_after [of "new_button_v2 i False" n]
  show "refreshed_v2 ((button_step_v2 Tick_v2 ^^ n) (new_button_v2 i False)) = n div nat i"
    by (simp add: new_button_v2_def step due_from_start_v2)
qed

theorem auto_refresh_period_witness:
  "refreshed ((button_step Tick ^^ 61) (new_button 60 False)) = 1 \<and>
   refreshed_v2 ((button_step_v2 Tick_v2 ^^ 120) (new_button_v2 60 False)) = 2"
  using auto_refresh_period [of 60 61] auto_refresh_period [of 60 120] by simp

text \<open>
  C28: The button never refreshes on its own while it is off or disabled. In every state reached from the
  start by any events, the remaining seconds are between zero and the interval and the timer runs only
  while the refresh is on and enabled, so a second that causes a refresh finds it on and enabled.
\<close>

theorem auto_refresh_safe:
  fixes d :: bool
  assumes "0 \<le> i" and "list_all interval_ok es"
  defines "s \<equiv> fold button_step es (new_button i d)"
  shows "0 \<le> remaining s \<and> remaining s \<le> interval s \<and> (timer s \<longrightarrow> interval s \<noteq> 0 \<and> \<not> disabled s) \<and>
    (refreshed (button_step Tick s) \<noteq> refreshed s \<longrightarrow> interval s \<noteq> 0 \<and> \<not> disabled s)"
proof -
  have "button_inv s" unfolding s_def by (rule button_inv_run [OF button_inv_new [OF assms(1)] assms(2)])
  then show ?thesis by (auto simp: inv_defs button_defs split: if_splits)
qed

theorem auto_refresh_safe_witness:
  "remaining (fold button_step [Tick, SetInterval 30, SetDisabled True, Tick] (new_button 60 False)) \<le> 30"
proof -
  have "interval (fold button_step [Tick, SetInterval 30, SetDisabled True, Tick] (new_button 60 False)) = 30"
    by (simp add: new_button_def button_defs)
  then show ?thesis
    using auto_refresh_safe [of 60 "[Tick, SetInterval 30, SetDisabled True, Tick]" False] by simp
qed

text \<open>
  A click before the first second has passed stops the automatic refresh: the timer is cleared, and as
  no value changes, the effect that would start it again does not run.
\<close>

theorem auto_refresh_click_stops:
  assumes "0 < i"
  shows "refreshed ((button_step Tick ^^ n) (button_step Click (new_button i False))) = 1"
proof -
  let ?s = "button_step Click (new_button i False)"
  have s: "\<not> timer ?s" "refreshed ?s = 1" using assms by (simp_all add: new_button_def button_defs)
  have "(button_step Tick ^^ n) ?s = ?s"
    by (induction n) (use s in \<open>simp_all del: button_step.simps(2) add: effects_def on_timeout_def\<close>)
  then show ?thesis using s by simp
qed

text \<open>
  In ui-v2 the countdown restarts only from the menu and after a refresh: turned on from outside after it
  was turned off from the menu, it counts down from zero and never refreshes.
\<close>

theorem auto_refresh_outside_v2:
  "refreshed_v2 ((button_step_v2 Tick_v2 ^^ n)
     (button_step_v2 (SetValue_v2 v) (button_step_v2 (Choose_v2 0) (new_button_v2 i False)))) = 0"
proof -
  have "remaining_v2 s \<le> 0 \<Longrightarrow> refreshed_v2 s = 0 \<Longrightarrow>
      remaining_v2 ((button_step_v2 Tick_v2 ^^ n) s) \<le> 0 \<and> refreshed_v2 ((button_step_v2 Tick_v2 ^^ n) s) = 0" for s
    by (induction n) (auto simp: on_interval_v2_def Let_def)
  then show ?thesis by (simp add: handleAutoRefreshChange_def new_button_v2_def)
qed

end
