(* ===== verification/JsSort.thy ===== *)
theory JsSort
  imports JsNum "HOL-Library.Multiset"
begin

text \<open>\<open>Array.prototype.sort\<close> with a comparator.\<close>

text \<open>
  \<open>xs.sort(cmp)\<close>: stable, inserting each element before the first that \<open>cmp\<close> puts after it. For a consistent
  comparator every stable sort gives this list; for others the language leaves the order to the
  engine, and this is one of the orders it allows.
\<close>

fun js_insert :: "('a \<Rightarrow> 'a \<Rightarrow> jsnum) \<Rightarrow> 'a \<Rightarrow> 'a list \<Rightarrow> 'a list" where
  "js_insert cmp x [] = [x]"
| "js_insert cmp x (y # ys) = (if cmp x y < 0 then x # y # ys else y # js_insert cmp x ys)"

definition js_sort :: "('a \<Rightarrow> 'a \<Rightarrow> jsnum) \<Rightarrow> 'a list \<Rightarrow> 'a list" where
  "js_sort cmp xs = fold (js_insert cmp) xs []"

lemma mset_js_insert [simp]: "mset (js_insert cmp x ys) = add_mset x (mset ys)"
  by (induction ys) auto

lemma mset_js_sort [simp]: "mset (js_sort cmp xs) = mset xs"
proof -
  have "mset (fold (js_insert cmp) xs ys) = mset xs + mset ys" for ys
    by (induction xs arbitrary: ys) auto
  then show ?thesis by (simp add: js_sort_def)
qed

lemma set_js_sort [simp]: "set (js_sort cmp xs) = set xs"
  by (metis mset_js_sort set_mset_mset)

lemma sum_list_js_sort [simp]: "(\<Sum>x\<leftarrow>js_sort cmp xs. f x) = (\<Sum>x\<leftarrow>xs. f x :: rat)"
  by (metis mset_js_sort mset_map sum_mset_sum_list)

text \<open>With a comparator for a relation that is transitive and total on the elements, the result is sorted by it.\<close>

lemma js_insert_wrt:
  assumes "\<And>a b c. a \<in> A \<Longrightarrow> b \<in> A \<Longrightarrow> c \<in> A \<Longrightarrow> R a b \<Longrightarrow> R b c \<Longrightarrow> R a c"
    and "\<And>a b. a \<in> A \<Longrightarrow> b \<in> A \<Longrightarrow> if cmp a b < 0 then R a b else R b a"
    and "insert x (set ys) \<subseteq> A" and "sorted_wrt R ys"
  shows "sorted_wrt R (js_insert cmp x ys)"
  using assms(3,4)
proof (induction ys)
  case (Cons y ys)
  have tl: "sorted_wrt R (js_insert cmp x ys)" "set (js_insert cmp x ys) = insert x (set ys)"
    using Cons by (auto simp flip: set_mset_mset)
  show ?case
  proof (cases "cmp x y < 0")
    case True
    then have "R x y" using assms(2) [of x y] Cons.prems(1) by auto
    moreover have "R x z" if "z \<in> set ys" for z
      using assms(1) [of x y z] \<open>R x y\<close> that Cons.prems by auto
    ultimately show ?thesis using True Cons.prems(2) by simp
  next
    case False
    then have "R y x" using assms(2) [of x y] Cons.prems(1) by auto
    with False tl show ?thesis using Cons.prems(2) by auto
  qed
qed simp

lemma js_sort_wrt:
  assumes "\<And>a b c. a \<in> A \<Longrightarrow> b \<in> A \<Longrightarrow> c \<in> A \<Longrightarrow> R a b \<Longrightarrow> R b c \<Longrightarrow> R a c"
    and "\<And>a b. a \<in> A \<Longrightarrow> b \<in> A \<Longrightarrow> if cmp a b < 0 then R a b else R b a"
    and "set xs \<subseteq> A"
  shows "sorted_wrt R (js_sort cmp xs)"
proof -
  have "sorted_wrt R (fold (js_insert cmp) zs ys)" if "set zs \<union> set ys \<subseteq> A" "sorted_wrt R ys" for zs ys
    using that
  proof (induction zs arbitrary: ys)
    case (Cons z zs)
    have "set (js_insert cmp z ys) = insert z (set ys)"
      by (simp flip: set_mset_mset)
    moreover have "sorted_wrt R (js_insert cmp z ys)"
      using Cons.prems by (intro js_insert_wrt [OF assms(1,2)]) auto
    ultimately show ?case
      using Cons.prems by (simp add: Cons.IH)
  qed simp
  from this [of xs "[]"] show ?thesis
    using assms(3) by (simp add: js_sort_def)
qed

end
