(* ===== verification/TopSql.thy ===== *)
theory TopSql
  imports TimeRange JsSort "HOL-Library.List_Lexorder" "HOL-Library.Char_ord" "HOL-Library.Product_Lexorder"
begin

text \<open>
  The Top SQL page: \<open>apps/TopSQL/pages/List/List.tsx\<close> (time windows, brushing, the selected instance, the
  request and the clean-up of its answer), \<open>ListTable.tsx\<close> (the rows of the table), \<open>ListChart.tsx\<close> (the
  series of the chart), \<open>ListDetailTable.tsx\<close> and \<open>utils/specialRecord.ts\<close> (special records). Timestamps
  are integers, CPU times numbers of JavaScript.
\<close>

subsection \<open>Records of the API\<close>

text \<open>
  \<open>TopsqlSummaryPlanItem\<close>, and the union of \<open>TopsqlSummaryItem\<close> and \<open>TopsqlSummaryByItem\<close> that the page passes
  around as \<open>any[]\<close>: the items by query have a digest and plans, the items by table or schema a text
  and points of their own. \<open>cpu_time_total\<close> is the number \<open>cpu_time_ms\<close> of an item by query.
\<close>

record exec_stats =
  exec_count_per_sec :: "rat option"
  scan_records_per_sec :: "rat option"
  scan_indexes_per_sec :: "rat option"
  duration_per_exec_ms :: "rat option"

record plan_item =
  plan_digest :: "string option"
  plan_text :: "string option"
  plan_stats :: exec_stats
  timestamp_sec :: "int list option"
  cpu_time_ms :: "rat list option"

record topsql_item =
  sql_digest :: "string option"
  sql_text :: "string option"
  is_other :: bool
  plans :: "plan_item list option"
  cpu_time_total :: "rat option"
  sql_stats :: exec_stats
  by_text :: "string option"
  by_timestamp_sec :: "int list option"
  by_cpu_time_ms :: "rat list option"
  cpu_time_ms_sum :: "rat option"

datatype AggLevel = Query | Table | Schema

subsection \<open>Time\<close>

definition RECENT_RANGE_OFFSET :: rat where "RECENT_RANGE_OFFSET = - 60"
definition CHART_BAR_WIDTH :: rat where "CHART_BAR_WIDTH = 8"

definition topsql_toTimeRangeValue :: "jsnum \<Rightarrow> TimeRange \<Rightarrow> TimeRangeValue" where
  "topsql_toTimeRangeValue now v =
     toTimeRangeValue now (Some v) (case v of Recent _ \<Rightarrow> Fin RECENT_RANGE_OFFSET | Absolute _ _ \<Rightarrow> 0)"

definition computeTimeWindowSize :: "rat \<Rightarrow> TimeRangeValue \<Rightarrow> jsnum" where
  "computeTimeWindowSize screenWidth ts =
     js_ceil (js_div (Fin CHART_BAR_WIDTH * (snd ts - fst ts)) (Fin screenWidth))"

text \<open>The range to zoom in to; \<open>None\<close> when nothing is selected on the time axis. Brushes are in milliseconds.\<close>

definition handleBrushEnd :: "(rat \<times> rat) option \<Rightarrow> TimeRange option" where
  "handleBrushEnd x =
     (case x of
        None \<Rightarrow> None
      | Some (a, b) \<Rightarrow>
          (let t0 = a / 1000; t1 = b / 1000; delta = t1 - t0;
               v = (if delta < 60
                    then (let offset = of_int \<lfloor>delta / 2\<rfloor> in (\<lceil>t0 + offset - 30\<rceil>, \<lfloor>t1 - offset + 30\<rfloor>))
                    else (\<lceil>t0\<rceil>, \<lfloor>t1\<rfloor>))
           in Some (fromTimeRangeValue (js_int (fst v), js_int (snd v)))))"

subsection \<open>The instance\<close>

record topsql_instance =
  i_instance :: string
  i_type :: string

text \<open>
  \<open>fetchInstancesAndSelectInstance\<close>, with the fetched instances: the instance to show. An undefined
  first instance is \<^term>\<open>None\<close>.
\<close>

definition select_instance ::
    "topsql_instance list \<Rightarrow> string \<Rightarrow> topsql_instance option \<Rightarrow> topsql_instance option" where
  "select_instance insts instanceFromURL current =
     (case (if instanceFromURL \<noteq> [] then find (\<lambda>i. i_instance i = instanceFromURL) insts else None) of
        Some i \<Rightarrow> Some i
      | None \<Rightarrow>
          (case current of
             Some i \<Rightarrow> Some i
           | None \<Rightarrow> (case insts of [] \<Rightarrow> None | i # _ \<Rightarrow> Some i)))"

text \<open>\<open>onChange\<close> of the instance select: the instance, the URL parameter if it is set, and the grouping.\<close>

definition choose_instance ::
    "topsql_instance option \<Rightarrow> AggLevel \<Rightarrow> topsql_instance option \<times> string option \<times> AggLevel" where
  "choose_instance inst groupBy =
     (inst,
      (case inst of Some i \<Rightarrow> if i_instance i \<noteq> [] then Some (i_instance i) else None | None \<Rightarrow> None),
      (case inst of Some i \<Rightarrow> if i_type i \<noteq> ''tikv'' then Query else groupBy | None \<Rightarrow> Query))"

subsection \<open>The request and its answer\<close>

record topsql_args =
  q_end :: string
  q_groupBy :: AggLevel
  q_instance :: string
  q_type :: string
  q_start :: string
  q_top :: string
  q_window :: string

definition topsql_request ::
    "rat \<Rightarrow> jsnum \<Rightarrow> topsql_instance option \<Rightarrow> TimeRange \<Rightarrow> jsnum \<Rightarrow> AggLevel \<Rightarrow> topsql_args option" where
  "topsql_request screenWidth now inst tr topN groupBy =
     map_option (\<lambda>i.
       let ts = topsql_toTimeRangeValue now tr
       in \<lparr>q_end = show_num (snd ts), q_groupBy = (if i_type i = ''tidb'' then Query else groupBy),
           q_instance = i_instance i, q_type = i_type i, q_start = show_num (fst ts), q_top = show_num topN,
           q_window = show_num (computeTimeWindowSize screenWidth ts) @ ''s''\<rparr>) inst"

text \<open>The points whose CPU time is there and not zero; timestamps in milliseconds.\<close>

definition keep_times :: "rat list option \<Rightarrow> int list \<Rightarrow> int list" where
  "keep_times cpu ts =
     map ((!) ts) (filter (\<lambda>i. case cpu of Some cs \<Rightarrow> i < length cs \<and> cs ! i \<noteq> 0 | None \<Rightarrow> False) [0..<length ts])"

definition clean_times :: "rat list option \<Rightarrow> int list option \<Rightarrow> int list option" where
  "clean_times cpu ts = map_option (\<lambda>ts. map (\<lambda>t. t * 1000) (keep_times cpu ts)) ts"

definition clean_cpu :: "rat list option \<Rightarrow> rat list option" where
  "clean_cpu cpu = map_option (filter (\<lambda>c. c \<noteq> 0)) cpu"

definition clean_plan :: "plan_item \<Rightarrow> plan_item" where
  "clean_plan p =
     p\<lparr>timestamp_sec := clean_times (cpu_time_ms p) (timestamp_sec p), cpu_time_ms := clean_cpu (cpu_time_ms p)\<rparr>"

definition clean_by :: "topsql_item \<Rightarrow> topsql_item" where
  "clean_by d =
     d\<lparr>by_timestamp_sec := clean_times (by_cpu_time_ms d) (by_timestamp_sec d),
       by_cpu_time_ms := clean_cpu (by_cpu_time_ms d)\<rparr>"

record topsql_response =
  r_data :: "topsql_item list option"
  r_data_by :: "topsql_item list option"

definition or_list :: "'a list option \<Rightarrow> 'a list" where
  "or_list x = (case x of Some xs \<Rightarrow> xs | None \<Rightarrow> [])"

definition clean_query ::
    "(string \<Rightarrow> string \<Rightarrow> jsnum) \<Rightarrow> (string option \<Rightarrow> string) \<Rightarrow> topsql_item list \<Rightarrow> topsql_item list" where
  "clean_query localeCompare formatSql xs =
     map (\<lambda>d. d\<lparr>sql_text := Some (formatSql (sql_text d)), plans := map_option (map clean_plan) (plans d)\<rparr>)
       (js_sort (\<lambda>a b. case (sql_digest a, sql_digest b) of
                        (Some x, Some y) \<Rightarrow> localeCompare x y
                      | (Some x, None) \<Rightarrow> localeCompare x ''undefined''
                      | _ \<Rightarrow> 0) xs)"

text \<open>
  The calls of \<open>setTopSQLData\<close> when an answer arrives, and the data the page shows afterwards: that of the last
  call. \<open>inst\<close> is the instance of the page.
\<close>

definition answer_calls ::
    "(string \<Rightarrow> string \<Rightarrow> jsnum) \<Rightarrow> (string option \<Rightarrow> string) \<Rightarrow> AggLevel \<Rightarrow> topsql_instance option \<Rightarrow>
     topsql_response \<Rightarrow> topsql_item list list" where
  "answer_calls localeCompare formatSql groupBy inst r =
     (if groupBy = Query \<or> (case inst of Some i \<Rightarrow> i_type i = ''tidb'' | None \<Rightarrow> False)
      then [clean_query localeCompare formatSql (or_list (r_data r))] else []) @
     (if groupBy = Table \<or> groupBy = Schema then [map clean_by (or_list (r_data_by r))] else [])"

definition process_answer ::
    "(string \<Rightarrow> string \<Rightarrow> jsnum) \<Rightarrow> (string option \<Rightarrow> string) \<Rightarrow> AggLevel \<Rightarrow> topsql_instance option \<Rightarrow>
     topsql_response \<Rightarrow> topsql_item list \<Rightarrow> topsql_item list" where
  "process_answer localeCompare formatSql groupBy inst r topSQLData =
     last (topSQLData # answer_calls localeCompare formatSql groupBy inst r)"

subsection \<open>The instances and the configuration\<close>

definition fetchInstances ::
    "jsnum \<Rightarrow> (string \<Rightarrow> string \<Rightarrow> topsql_instance list option) \<Rightarrow> TimeRange option \<Rightarrow> topsql_instance list" where
  "fetchInstances now topsqlInstancesGet tr =
     (case tr of
        None \<Rightarrow> []
      | Some r \<Rightarrow>
          (let ts = topsql_toTimeRangeValue now r
           in sort_key (\<lambda>i. (i_type i, i_instance i)) (or_list (topsqlInstancesGet (show_num (snd ts)) (show_num (fst ts))))))"

record topsql_config =
  haveHistoryData :: bool
  loadingHistory :: bool

text \<open>The effect of \<open>useTopSQLConfig\<close>: the new state and whether the history is asked for; and its answer.\<close>

definition config_effect :: "bool option \<Rightarrow> topsql_config \<Rightarrow> topsql_config \<times> bool" where
  "config_effect enable c =
     (case enable of
        None \<Rightarrow> (c, False)
      | Some True \<Rightarrow> (c\<lparr>loadingHistory := False\<rparr>, False)
      | Some False \<Rightarrow> (c\<lparr>loadingHistory := True\<rparr>, True))"

definition config_answer :: "topsql_instance list option option \<Rightarrow> topsql_config \<Rightarrow> topsql_config" where
  "config_answer res c =
     (case res of
        Some data \<Rightarrow> c\<lparr>haveHistoryData := or_list data \<noteq> [], loadingHistory := False\<rparr>
      | None \<Rightarrow> c\<lparr>loadingHistory := False\<rparr>)"

subsection \<open>The table\<close>

text \<open>
  The points of a plan, \<open>cpu_time_ms![i]\<close> for every timestamp: \<^term>\<open>None\<close> is the \<open>TypeError\<close> of indexing an
  undefined array, \<^term>\<open>NaN\<close> the undefined number of an index past the end.
\<close>

definition plan_points :: "plan_item \<Rightarrow> (int \<times> jsnum) list option" where
  "plan_points p =
     (let ts = or_list (timestamp_sec p)
      in case cpu_time_ms p of
           None \<Rightarrow> if ts = [] then Some [] else None
         | Some cs \<Rightarrow> Some (map (\<lambda>i. (ts ! i, if i < length cs then Fin (cs ! i) else NaN)) [0..<length ts]))"

fun all_points :: "plan_item list \<Rightarrow> (int \<times> jsnum) list option" where
  "all_points [] = Some []"
| "all_points (p # ps) =
     (case (plan_points p, all_points ps) of (Some a, Some b) \<Rightarrow> Some (a @ b) | _ \<Rightarrow> None)"

definition sum_cpu :: "(int \<times> jsnum) list \<Rightarrow> jsnum" where
  "sum_cpu pts = fold (\<lambda>p s. s + snd p) pts 0"

definition isSummaryByRecord :: "topsql_item \<Rightarrow> bool" where
  "isSummaryByRecord r \<longleftrightarrow> (case by_text r of Some s \<Rightarrow> s \<noteq> [] | None \<Rightarrow> False)"

definition item_cpu :: "topsql_item \<Rightarrow> jsnum option" where
  "item_cpu r =
     map_option (\<lambda>pts.
       case cpu_time_ms_sum r of
         Some s \<Rightarrow> if s \<noteq> 0 \<and> isSummaryByRecord r then Fin s else sum_cpu pts
       | None \<Rightarrow> sum_cpu pts) (all_points (or_list (plans r)))"

record SQLRecord =
  rec_item :: topsql_item
  cpuTime :: jsnum

fun table_rows :: "jsnum \<Rightarrow> topsql_item list \<Rightarrow> (SQLRecord list \<times> jsnum) option" where
  "table_rows capacity [] = Some ([], capacity)"
| "table_rows capacity (r # rs) =
     (case item_cpu r of
        None \<Rightarrow> None
      | Some c \<Rightarrow>
          map_option (\<lambda>(rows, cap). (\<lparr>rec_item = r\<lparr>plans := Some (or_list (plans r))\<rparr>, cpuTime = c\<rparr> # rows, cap))
            (table_rows (if capacity < c then c else capacity) rs))"

definition useTableData :: "topsql_item list option \<Rightarrow> (SQLRecord list \<times> jsnum) option" where
  "useTableData records =
     (case records of
        None \<Rightarrow> Some ([], 0)
      | Some rs \<Rightarrow>
          map_option (\<lambda>(rows, cap).
            (js_sort (\<lambda>a b. if is_other (rec_item b) then - 1 else 0)
               (js_sort (\<lambda>a b. cpuTime b - cpuTime a) (filter (\<lambda>r. truthy (cpuTime r)) rows)), cap))
            (table_rows 0 rs))"

text \<open>\<open>specialRecord.ts\<close>, and the text and key of a row.\<close>

definition isOthersRecord :: "topsql_item \<Rightarrow> bool" where
  "isOthersRecord r \<longleftrightarrow> is_other r \<or> by_text r = Some ''other''"

definition isUnknownSQLRecord :: "topsql_item \<Rightarrow> bool" where
  "isUnknownSQLRecord r \<longleftrightarrow> (sql_text r = None \<or> sql_text r = Some []) \<and> \<not> is_other r"

definition isConvertNumber :: "string \<Rightarrow> bool" where
  "isConvertNumber v \<longleftrightarrow> js_Number v \<noteq> NaN"

text \<open>\<open>sql_text\<close> is a string once the answer is cleaned; \<^term>\<open>None\<close> is the \<open>TypeError\<close> of \<open>text.includes\<close> on undefined.\<close>

definition row_text :: "topsql_item \<Rightarrow> string option" where
  "row_text r =
     map_option (\<lambda>s.
       let parts = split_on CHR ''-'' s
       in if length parts > 1 \<and> isConvertNumber (parts ! 0)
          then parts ! 1 @ '' ( tid ='' @ parts ! 0 @ '' )'' else s)
       (if isSummaryByRecord r then by_text r
        else if isUnknownSQLRecord r
          then Some (''(SQL '' @ (case sql_digest r of Some d \<Rightarrow> slice d 0 8 | None \<Rightarrow> ''undefined'') @ '')'')
        else sql_text r)"

definition row_key :: "topsql_item \<Rightarrow> string" where
  "row_key r = (case sql_digest r of Some d \<Rightarrow> d | None \<Rightarrow> (case by_text r of Some s \<Rightarrow> s | None \<Rightarrow> []))"

subsection \<open>The chart\<close>

text \<open>Objects with string keys as association lists in insertion order.\<close>

fun obj_update :: "'k \<Rightarrow> ('v option \<Rightarrow> 'v) \<Rightarrow> ('k \<times> 'v) list \<Rightarrow> ('k \<times> 'v) list" where
  "obj_update k f [] = [(k, f None)]"
| "obj_update k f ((k', v) # m) = (if k' = k then (k, f (Some v)) # m else (k', v) # obj_update k f m)"

definition add_point :: "int \<times> jsnum \<Rightarrow> (int \<times> jsnum) list \<Rightarrow> (int \<times> jsnum) list" where
  "add_point p m =
     obj_update (fst p)
       (\<lambda>old. case old of None \<Rightarrow> snd p | Some v \<Rightarrow> if truthy v then v + snd p else snd p) m"

definition digest_key :: "topsql_item \<Rightarrow> string" where
  "digest_key s = (case sql_digest s of Some d \<Rightarrow> d | None \<Rightarrow> ''undefined'')"

text \<open>
  One series of the loop of \<open>useChartData\<close>, on the values by digest and timestamp and the sums by digest. The
  timestamps are keys past \<open>2 ^ 32\<close>, so that \<open>for ... in\<close> visits them in insertion order.
\<close>

type_synonym chart_acc = "(string \<times> (int \<times> jsnum) list) list \<times> (string \<times> jsnum) list"

definition add_series :: "topsql_item \<Rightarrow> (int \<times> jsnum) list \<Rightarrow> chart_acc \<Rightarrow> chart_acc" where
  "add_series s pts acc =
     (obj_update (digest_key s) (\<lambda>old. fold add_point pts (case old of Some m \<Rightarrow> m | None \<Rightarrow> [])) (fst acc),
      obj_update (digest_key s)
        (\<lambda>old. (case old of Some v \<Rightarrow> if truthy v then v else 0 | None \<Rightarrow> 0) + sum_cpu pts) (snd acc))"

fun chart_series :: "topsql_item list \<Rightarrow> chart_acc \<Rightarrow> chart_acc option" where
  "chart_series [] acc = Some acc"
| "chart_series (s # ss) acc =
     (case all_points (or_list (plans s)) of None \<Rightarrow> None | Some pts \<Rightarrow> chart_series ss (add_series s pts acc))"

definition orderedDigests :: "(string \<times> jsnum) list \<Rightarrow> string list" where
  "orderedDigests totals = map fst (filter (\<lambda>v. 0 < snd v) (js_sort (\<lambda>a b. snd b - snd a) totals))"

definition chart_by_query :: "topsql_item list \<Rightarrow> (string \<times> (int \<times> jsnum) list) list option" where
  "chart_by_query data =
     map_option (\<lambda>(vals, totals).
       map (\<lambda>d. (d, case map_of vals d of Some m \<Rightarrow> m | None \<Rightarrow> [])) (orderedDigests totals))
       (chart_series data ([], []))"

text \<open>
  By table or schema: the timestamps past the end of \<open>timestamp_sec\<close> are undefined (\<^term>\<open>None\<close> inside), and the
  result is \<^term>\<open>None\<close> when \<open>timestamp_sec\<close> is undefined and there are points.
\<close>

definition by_points :: "topsql_item \<Rightarrow> (int option \<times> rat) list option" where
  "by_points s =
     (let cs = or_list (by_cpu_time_ms s)
      in case by_timestamp_sec s of
           None \<Rightarrow> if cs = [] then Some [] else None
         | Some ts \<Rightarrow> Some (map (\<lambda>i. (if i < length ts then Some (ts ! i) else None, cs ! i)) [0..<length cs]))"

definition by_key :: "topsql_item \<Rightarrow> string" where
  "by_key s = (case by_text s of Some t \<Rightarrow> t | None \<Rightarrow> ''undefined'')"

fun chart_by_group ::
    "topsql_item list \<Rightarrow> (string \<times> (int option \<times> rat) list) list \<Rightarrow> (string \<times> (int option \<times> rat) list) list option" where
  "chart_by_group [] acc = Some acc"
| "chart_by_group (s # ss) acc =
     (case by_points s of
        None \<Rightarrow> None
      | Some pts \<Rightarrow>
          chart_by_group ss (obj_update (by_key s) (\<lambda>old. (case old of Some m \<Rightarrow> m | None \<Rightarrow> []) @ pts) acc))"

definition isQueryAggLevel :: "AggLevel \<Rightarrow> bool" where
  "isQueryAggLevel groupBy \<longleftrightarrow> \<not> (groupBy = Table \<or> groupBy = Schema)"

definition useDigestMap :: "topsql_item list \<Rightarrow> AggLevel \<Rightarrow> (string \<times> string option) list" where
  "useDigestMap data groupBy =
     (if \<not> isQueryAggLevel groupBy then []
      else fold (\<lambda>d. obj_update (digest_key d) (\<lambda>_. sql_text d)) data [])"

definition series_name :: "string \<Rightarrow> (string \<times> string option) list \<Rightarrow> AggLevel \<Rightarrow> string \<Rightarrow> string" where
  "series_name others digestMap groupBy originText =
     (let sql = (case map_of digestMap originText of Some (Some s) \<Rightarrow> s | _ \<Rightarrow> [])
      in if originText = [] then others
         else if sql = [] then
           (if isQueryAggLevel groupBy then ''(SQL '' @ slice originText 0 8 @ '')'' else originText)
         else if length sql > 50 then slice sql 0 50 @ ''...'' else sql)"

subsection \<open>The plans of a statement\<close>

definition OVERALL_IDENTIFIER :: string where "OVERALL_IDENTIFIER = ''__OVERALL_IDENTIFIER__''"
definition NO_PLAN_IDENTIFIER :: string where "NO_PLAN_IDENTIFIER = ''__NO_PLAN_IDENTIFIER__''"

text \<open>\<open>TopsqlSummaryPlanItem\<close> with a CPU time; the fields without a counterpart in the overall record are \<^term>\<open>None\<close> there.\<close>

record PlanRecord =
  pr_digest :: "string option"
  pr_text :: "string option"
  pr_stats :: exec_stats
  pr_timestamp_sec :: "int list option"
  pr_cpu_time_ms :: "rat list option"
  pr_cpuTime :: rat

definition isOverallRecord :: "PlanRecord \<Rightarrow> bool" where
  "isOverallRecord r \<longleftrightarrow> pr_digest r = Some OVERALL_IDENTIFIER"

definition isNoPlanRecord :: "PlanRecord \<Rightarrow> bool" where
  "isNoPlanRecord r \<longleftrightarrow> pr_digest r = None \<or> pr_digest r = Some [] \<or> pr_digest r = Some NO_PLAN_IDENTIFIER"

definition convertNoPlanRecord :: "PlanRecord \<Rightarrow> PlanRecord" where
  "convertNoPlanRecord r = (if isNoPlanRecord r then r\<lparr>pr_digest := Some NO_PLAN_IDENTIFIER\<rparr> else r)"

definition createOverallRecord :: "topsql_item \<Rightarrow> PlanRecord" where
  "createOverallRecord r =
     \<lparr>pr_digest = Some OVERALL_IDENTIFIER, pr_text = None, pr_stats = sql_stats r, pr_timestamp_sec = None,
      pr_cpu_time_ms = None, pr_cpuTime = (case cpu_time_total r of Some c \<Rightarrow> c | None \<Rightarrow> 0)\<rparr>"

definition plan_record :: "plan_item \<Rightarrow> PlanRecord" where
  "plan_record p =
     \<lparr>pr_digest = plan_digest p, pr_text = plan_text p, pr_stats = plan_stats p,
      pr_timestamp_sec = timestamp_sec p, pr_cpu_time_ms = cpu_time_ms p,
      pr_cpuTime = fold (\<lambda>t pt. pt + t) (or_list (cpu_time_ms p)) 0\<rparr>"

definition usePlanRecord :: "topsql_item \<Rightarrow> bool \<times> PlanRecord list" where
  "usePlanRecord r =
     (let ps = or_list (plans r)
      in if ps = [] then (False, [])
         else (let multi = length ps > 1;
                   records = map convertNoPlanRecord
                     (js_sort (\<lambda>a b. Fin (pr_cpuTime b - pr_cpuTime a)) (map plan_record ps))
               in (multi, if multi then createOverallRecord r # records else records)))"

subsection \<open>The selected record\<close>

text \<open>
  \<open>useRecordSelection\<close>: the stored and the internal key; \<open>sel\<close> is what the Selection of office-ui-fabric-react has
  selected and \<open>items\<close> its items. The second component is the key given to \<open>selectToKey\<close>.
\<close>

definition selectedRecord :: "('r \<Rightarrow> string) \<Rightarrow> 'r list \<Rightarrow> string option \<Rightarrow> 'r option" where
  "selectedRecord getKey selections k = find (\<lambda>r. Some (getKey r) = k) selections"

definition onSelectionChanged ::
    "('r \<Rightarrow> string) \<Rightarrow> 'r list \<Rightarrow> 'r list \<Rightarrow> string option \<Rightarrow> string option \<times> string option" where
  "onSelectionChanged getKey items sel k =
     (case sel of
        [] \<Rightarrow> (k, case k of
                    Some x \<Rightarrow> if x \<noteq> [] \<and> selectedRecord getKey items k \<noteq> None then Some x else None
                  | None \<Rightarrow> None)
      | r # _ \<Rightarrow> (if Some (getKey r) \<noteq> k then Some (getKey r) else k, None))"

definition selections_effect ::
    "('r \<Rightarrow> string) \<Rightarrow> 'r list \<Rightarrow> 'r list \<Rightarrow> string option \<Rightarrow> string option" where
  "selections_effect getKey items sel k =
     (case k of
        Some x \<Rightarrow> if x \<noteq> [] \<and> selectedRecord getKey items k \<noteq> None \<and> sel = [] then Some x else None
      | None \<Rightarrow> None)"

subsection \<open>Cleaning keeps the points aligned\<close>

text \<open>What the points of a plan mean: each CPU time other than zero, at its timestamp in milliseconds.\<close>

definition spec_points :: "int list option \<Rightarrow> rat list option \<Rightarrow> (int \<times> rat) list" where
  "spec_points ts cs =
     map (apfst (\<lambda>t. t * 1000)) (filter (\<lambda>p. snd p \<noteq> 0) (zip (or_list ts) (or_list cs)))"

definition cpu_points :: "topsql_item \<Rightarrow> (int \<times> rat) list" where
  "cpu_points d = concat (map (\<lambda>p. spec_points (timestamp_sec p) (cpu_time_ms p)) (or_list (plans d)))"

lemma or_list_simps [simp]: "or_list None = []" "or_list (Some xs) = xs"
  by (simp_all add: or_list_def)

lemma keep_times_zip: "keep_times (Some cs) ts = map fst (filter (\<lambda>p. snd p \<noteq> 0) (zip ts cs))"
proof (induction ts arbitrary: cs)
  case Nil
  show ?case by (simp add: keep_times_def)
next
  case (Cons t ts)
  have up: "[0..<length (t # ts)] = 0 # map Suc [0..<length ts]"
    by (simp add: upt_conv_Cons map_Suc_upt del: upt_Suc)
  show ?case
  proof (cases cs)
    case Nil
    then show ?thesis by (simp add: keep_times_def)
  next
    case (Cons c cs')
    then show ?thesis
      using Cons.IH [of cs'] unfolding keep_times_def up by (simp add: filter_map o_def)
  qed
qed

lemma clean_times_spec:
  "or_list (clean_times cs ts) = map fst (spec_points ts cs)"
proof (cases ts)
  case None
  then show ?thesis by (simp add: clean_times_def spec_points_def)
next
  case (Some ts')
  show ?thesis
  proof (cases cs)
    case None
    then show ?thesis using Some by (simp add: clean_times_def spec_points_def keep_times_def)
  next
    case (Some cs')
    then show ?thesis using \<open>ts = Some ts'\<close>
      by (simp add: clean_times_def spec_points_def keep_times_zip o_def)
  qed
qed

lemma filter_zip_nth:
  assumes "i < length (filter (\<lambda>p. snd p \<noteq> (0 :: rat)) (zip ts cs))"
  shows "i < length (filter (\<lambda>c. c \<noteq> 0) cs) \<and>
         filter (\<lambda>c. c \<noteq> 0) cs ! i = snd (filter (\<lambda>p. snd p \<noteq> 0) (zip ts cs) ! i)"
  using assms
proof (induction ts arbitrary: cs i)
  case (Cons t ts)
  then show ?case
  proof (cases cs)
    case (Cons c cs')
    then show ?thesis
      using Cons.prems Cons.IH [of i cs'] Cons.IH [of "i - 1" cs'] by (cases "c = 0"; cases i) auto
  qed simp
qed simp

lemma plan_points_clean:
  "plan_points (clean_plan p) = Some (map (apsnd Fin) (spec_points (timestamp_sec p) (cpu_time_ms p)))"
proof (cases "cpu_time_ms p")
  case None
  then show ?thesis
    by (simp add: plan_points_def clean_plan_def clean_times_spec clean_cpu_def spec_points_def)
next
  case (Some cs)
  show ?thesis
    by (rule arg_cong [of _ _ Some, THEN trans [rotated]], rule nth_equalityI)
      (insert Some, auto simp: plan_points_def clean_plan_def clean_times_spec clean_cpu_def spec_points_def
        filter_zip_nth)
qed

lemma all_points_clean:
  "all_points (map clean_plan ps) =
     Some (map (apsnd Fin) (concat (map (\<lambda>p. spec_points (timestamp_sec p) (cpu_time_ms p)) ps)))"
  by (induction ps) (simp_all add: plan_points_clean)

lemma sum_cpu_Fin: "sum_cpu (map (apsnd Fin) pts) = Fin (\<Sum>p\<leftarrow>pts. snd p)"
proof -
  have "fold (\<lambda>p s. s + snd p) (map (apsnd Fin) pts) (Fin a) = Fin (a + (\<Sum>p\<leftarrow>pts. snd p))" for a
    by (induction pts arbitrary: a) (simp_all add: add.assoc)
  then show ?thesis
    by (simp add: sum_cpu_def zero_jsnum_def)
qed

subsection \<open>Sorting\<close>

text \<open>A comparator that subtracts finite keys sorts in descending order of the keys.\<close>

lemma js_sort_desc:
  assumes "\<And>a b. a \<in> set xs \<Longrightarrow> b \<in> set xs \<Longrightarrow> cmp a b = Fin (f b - f a :: rat)"
  shows "sorted_wrt (\<lambda>a b. f b \<le> f a) (js_sort cmp xs)"
  by (rule js_sort_wrt [where A = "set xs"]) (auto simp: assms zero_jsnum_def)

lemma js_sort_desc_num:
  assumes "\<And>r. r \<in> set rows \<Longrightarrow> \<exists>q. g r = Fin q"
  shows "sorted_wrt (\<lambda>a b. g b \<le> g a) (js_sort (\<lambda>a b. g b - g a) rows)"
proof -
  define f where "f r = (case g r of Fin q \<Rightarrow> q | _ \<Rightarrow> 0)" for r
  have f: "g r = Fin (f r)" if "r \<in> set rows" for r
    using assms [OF that] by (auto simp: f_def)
  then have "sorted_wrt (\<lambda>a b. f b \<le> f a) (js_sort (\<lambda>a b. g b - g a) rows)"
    by (intro js_sort_desc) simp
  then show ?thesis
    by (rule sorted_wrt_mono_rel [rotated]) (simp add: f)
qed

text \<open>The comparator of the second sort of the table: the rows marked as others go last.\<close>

lemma js_sort_others:
  "js_sort (\<lambda>a b. if P b then - 1 else 0) xs = filter (\<lambda>x. \<not> P x) xs @ rev (filter P xs)"
proof -
  let ?cmp = "\<lambda>a b. if P b then - 1 else (0 :: jsnum)"
  have lt: "(- 1 :: jsnum) < 0" "\<not> (0 :: jsnum) < 0"
    by (simp_all add: zero_jsnum_def one_jsnum_def)
  have ins: "js_insert ?cmp x (ns @ os) = ns @ x # os"
    if "list_all (\<lambda>x. \<not> P x) ns" "list_all P os" for x ns os
    using that(1)
  proof (induction ns)
    case Nil
    then show ?case using that(2) by (cases os) (simp_all add: lt)
  qed (simp add: lt)
  have "fold (js_insert ?cmp) xs (ns @ os) = ns @ filter (\<lambda>x. \<not> P x) xs @ rev (filter P xs) @ os"
    if "list_all (\<lambda>x. \<not> P x) ns" "list_all P os" for ns os
    using that
  proof (induction xs arbitrary: ns os)
    case (Cons x xs)
    show ?case
    proof (cases "P x")
      case True
      then show ?thesis using Cons.IH [of ns "x # os"] Cons.prems by (simp add: ins)
    next
      case False
      then show ?thesis using Cons.IH [of "ns @ [x]" os] Cons.prems by (simp add: ins)
    qed
  qed simp
  from this [of "[]" "[]"] show ?thesis by (simp add: js_sort_def)
qed

subsection \<open>The rows of the table\<close>

definition item_total :: "topsql_item \<Rightarrow> rat" where
  "item_total d =
     (case cpu_time_ms_sum d of
        Some s \<Rightarrow> if s \<noteq> 0 \<and> isSummaryByRecord d then s else (\<Sum>p\<leftarrow>cpu_points d. snd p)
      | None \<Rightarrow> (\<Sum>p\<leftarrow>cpu_points d. snd p))"

definition clean_item :: "(string option \<Rightarrow> string) \<Rightarrow> topsql_item \<Rightarrow> topsql_item" where
  "clean_item formatSql d =
     d\<lparr>sql_text := Some (formatSql (sql_text d)), plans := map_option (map clean_plan) (plans d)\<rparr>"

lemma or_list_map_option [simp]: "or_list (map_option (map f) x) = map f (or_list x)"
  by (cases x) simp_all

lemma all_points_item: "all_points (or_list (plans (clean_item fmt d))) = Some (map (apsnd Fin) (cpu_points d))"
  by (simp add: clean_item_def all_points_clean cpu_points_def)

lemma item_cpu_clean: "item_cpu (clean_item fmt d) = Some (Fin (item_total d))"
  unfolding item_cpu_def all_points_item
  by (simp add: clean_item_def item_total_def isSummaryByRecord_def sum_cpu_Fin split: option.splits)

lemma table_rows_run:
  assumes "\<And>r. r \<in> set rs \<Longrightarrow> item_cpu r = Some (Fin (f r))"
  shows "table_rows (Fin c) rs =
           Some (map (\<lambda>r. \<lparr>rec_item = r\<lparr>plans := Some (or_list (plans r))\<rparr>, cpuTime = Fin (f r)\<rparr>) rs,
                 Fin (fold max (map f rs) c))"
  using assms
proof (induction rs arbitrary: c)
  case (Cons r rs)
  then show ?case
    by (auto simp: max_def)
qed simp

definition table_row :: "(string option \<Rightarrow> string) \<Rightarrow> topsql_item \<Rightarrow> SQLRecord" where
  "table_row fmt d =
     \<lparr>rec_item = (clean_item fmt d)\<lparr>plans := Some (or_list (plans (clean_item fmt d)))\<rparr>, cpuTime = Fin (item_total d)\<rparr>"

lemma table_rows_clean:
  "table_rows 0 (map (clean_item fmt) ys) =
     Some (map (table_row fmt) ys, Fin (fold max (map item_total ys) 0))"
proof -
  define f where "f r = (case item_cpu r of Some (Fin q) \<Rightarrow> q | _ \<Rightarrow> 0)" for r
  have "f (clean_item fmt d) = item_total d" for d
    by (simp add: f_def item_cpu_clean)
  moreover have "item_cpu r = Some (Fin (f r))" if "r \<in> set (map (clean_item fmt) ys)" for r
    using that by (auto simp: f_def item_cpu_clean)
  ultimately show ?thesis
    using table_rows_run [of "map (clean_item fmt) ys" f 0]
    by (simp add: table_row_def [abs_def] zero_jsnum_def o_def)
qed

lemma fold_max_Max: "fold max xs (c :: rat) = Max (insert c (set xs))"
  by (metis Max.set_eq_fold list.simps(15))

lemma truthy_Fin [simp]: "truthy (Fin q) \<longleftrightarrow> q \<noteq> 0"
  by (simp add: truthy_def)


subsection \<open>The series of the chart\<close>

lemma map_of_obj_update [simp]: "map_of (obj_update k f m) = (map_of m)(k \<mapsto> f (map_of m k))"
  by (induction m) auto

lemma keys_obj_update [simp]: "fst ` set (obj_update k f m) = insert k (fst ` set m)"
proof -
  have "dom (map_of (obj_update k f m)) = insert k (dom (map_of m))" by simp
  then show ?thesis by (simp only: dom_map_of_conv_image_fst)
qed

lemma distinct_obj_update [simp]: "distinct (map fst m) \<Longrightarrow> distinct (map fst (obj_update k f m))"
proof (induction m)
  case (Cons p m)
  have "fst p \<in> set (map fst (obj_update k f m)) \<longleftrightarrow> fst p \<in> insert k (set (map fst m))"
    using keys_obj_update [of k f m] by (simp flip: set_map)
  with Cons show ?case by (cases p) auto
qed simp

definition time_sum :: "(int \<times> rat) list \<Rightarrow> int \<Rightarrow> rat" where
  "time_sum pts t = (\<Sum>p\<leftarrow>pts. if fst p = t then snd p else 0)"

lemma time_sum_simps [simp]:
  "time_sum [] t = 0" "time_sum (p # pts) t = (if fst p = t then snd p else 0) + time_sum pts t"
  by (simp_all add: time_sum_def)

lemma time_sum_none [simp]: "t \<notin> fst ` set pts \<Longrightarrow> time_sum pts t = 0"
  by (induction pts) auto

lemma fold_add_point:
  "map_of m = (\<lambda>t. map_option Fin (g t)) \<Longrightarrow>
   map_of (fold add_point (map (apsnd Fin) pts) m) =
     (\<lambda>t. if t \<in> fst ` set pts then Some (Fin ((case g t of Some v \<Rightarrow> v | None \<Rightarrow> 0) + time_sum pts t))
          else map_option Fin (g t))"
proof (induction pts arbitrary: m g)
  case (Cons p pts)
  define g' where "g' = g(fst p \<mapsto> (case g (fst p) of Some v \<Rightarrow> v | None \<Rightarrow> 0) + snd p)"
  have "map_of (add_point (apsnd Fin p) m) = (\<lambda>t. map_option Fin (g' t))"
    by (rule ext) (auto simp: add_point_def Cons.prems g'_def split: option.splits)
  from Cons.IH [OF this] show ?case
    by (auto simp: g'_def fun_eq_iff split: option.splits)
qed auto

lemma distinct_fold_add_point:
  "distinct (map fst m) \<Longrightarrow> distinct (map fst (fold add_point pts m))"
  by (induction pts arbitrary: m) (simp_all add: add_point_def)

lemma map_of_points:
  "map_of (fold add_point (map (apsnd Fin) pts) []) =
     (\<lambda>t. if t \<in> fst ` set pts then Some (Fin (time_sum pts t)) else None)"
  using fold_add_point [of "[]" "\<lambda>_. None" pts] by (auto simp: fun_eq_iff)

text \<open>The points of all items of a digest, in the order of the items.\<close>

definition digest_points :: "topsql_item list \<Rightarrow> string \<Rightarrow> (int \<times> rat) list" where
  "digest_points xs k = concat (map cpu_points (filter (\<lambda>d. digest_key d = k) xs))"

definition chart_ok :: "topsql_item list \<Rightarrow> chart_acc \<Rightarrow> bool" where
  "chart_ok xs acc \<longleftrightarrow>
     (\<forall>k. map_of (fst acc) k = (if k \<in> digest_key ` set xs
        then Some (fold add_point (map (apsnd Fin) (digest_points xs k)) []) else None)) \<and>
     (\<forall>k. map_of (snd acc) k = (if k \<in> digest_key ` set xs
        then Some (Fin (\<Sum>p\<leftarrow>digest_points xs k. snd p)) else None)) \<and>
     distinct (map fst (snd acc))"

lemma digest_points_snoc:
  "digest_points (xs @ [d]) k = digest_points xs k @ (if digest_key d = k then cpu_points d else [])"
  by (simp add: digest_points_def)

lemma digest_points_none: "k \<notin> digest_key ` set xs \<Longrightarrow> digest_points xs k = []"
  by (auto simp: digest_points_def filter_empty_conv)

lemma chart_ok_add:
  assumes "chart_ok xs acc"
  shows "chart_ok (xs @ [d]) (add_series (clean_item fmt d) (map (apsnd Fin) (cpu_points d)) acc)"
proof -
  have key: "digest_key (clean_item fmt d) = digest_key d"
    by (simp add: digest_key_def clean_item_def)
  show ?thesis
    using assms unfolding chart_ok_def add_series_def key
    by (auto simp: digest_points_snoc digest_points_none sum_cpu_Fin zero_jsnum_def)
qed

lemma chart_series_ok:
  "chart_ok xs acc \<Longrightarrow>
   \<exists>acc'. chart_series (map (clean_item fmt) ys) acc = Some acc' \<and> chart_ok (xs @ ys) acc'"
proof (induction ys arbitrary: xs acc)
  case (Cons y ys)
  from Cons.IH [OF chart_ok_add [OF Cons.prems]] show ?case
    by (simp add: all_points_item)
qed simp

text \<open>What the chart should show, in terms of the items of the answer in any order.\<close>

definition digest_cpu :: "topsql_item list \<Rightarrow> string \<Rightarrow> int \<Rightarrow> rat" where
  "digest_cpu xs k t = (\<Sum>d\<leftarrow>xs. if digest_key d = k then time_sum (cpu_points d) t else 0)"

definition digest_total :: "topsql_item list \<Rightarrow> string \<Rightarrow> rat" where
  "digest_total xs k = (\<Sum>d\<leftarrow>xs. if digest_key d = k then (\<Sum>p\<leftarrow>cpu_points d. snd p) else 0)"

definition digest_times :: "topsql_item list \<Rightarrow> string \<Rightarrow> int set" where
  "digest_times xs k = (\<Union>d\<in>{d \<in> set xs. digest_key d = k}. fst ` set (cpu_points d))"

lemma time_sum_append [simp]: "time_sum (a @ b) t = time_sum a t + time_sum b t"
  by (simp add: time_sum_def)

lemma digest_points_spec:
  "time_sum (digest_points xs k) t = digest_cpu xs k t"
  "(\<Sum>p\<leftarrow>digest_points xs k. snd p) = digest_total xs k"
  "fst ` set (digest_points xs k) = digest_times xs k"
  by (induction xs) (auto simp: digest_points_def digest_cpu_def digest_total_def digest_times_def)

lemma digest_total_known: "0 < digest_total xs k \<Longrightarrow> k \<in> digest_key ` set xs"
  by (metis digest_points_none digest_points_spec(2) less_irrefl list.simps(8) sum_list.Nil)

lemma chart_ok_digests:
  assumes "chart_ok xs (vals, totals)"
  shows "distinct (orderedDigests totals)" "set (orderedDigests totals) = {k. 0 < digest_total xs k}"
    "sorted_wrt (\<lambda>a b. digest_total xs b \<le> digest_total xs a) (orderedDigests totals)"
proof -
  let ?sorted = "js_sort (\<lambda>a b. snd b - snd a) totals"
  have keys: "distinct (map fst totals)"
    and totals: "map_of totals k = (if k \<in> digest_key ` set xs then Some (Fin (digest_total xs k)) else None)" for k
    using assms by (simp_all add: chart_ok_def digest_points_spec)
  have "mset (map fst ?sorted) = mset (map fst totals)"
    by simp
  then have "distinct (map fst ?sorted)"
    using keys by (metis mset_eq_imp_distinct_iff)
  then show "distinct (orderedDigests totals)"
    by (simp add: orderedDigests_def distinct_map_filter)
  have val: "snd p = Fin (digest_total xs (fst p)) \<and> fst p \<in> digest_key ` set xs" if "p \<in> set totals" for p
    using that map_of_is_SomeI [OF keys, of "fst p" "snd p"] totals [of "fst p"] by (auto split: if_splits)
  have "0 < digest_total xs k \<longleftrightarrow> (\<exists>p\<in>set totals. fst p = k \<and> 0 < snd p)" for k
  proof
    assume "0 < digest_total xs k"
    moreover have "(k, Fin (digest_total xs k)) \<in> set totals"
      using totals [of k] digest_total_known [OF \<open>0 < digest_total xs k\<close>] by (simp add: map_of_SomeD)
    ultimately show "\<exists>p\<in>set totals. fst p = k \<and> 0 < snd p"
      by (force simp: zero_jsnum_def)
  qed (use val in \<open>auto simp: zero_jsnum_def\<close>)
  then show "set (orderedDigests totals) = {k. 0 < digest_total xs k}"
    by (auto simp: orderedDigests_def)
  have "sorted_wrt (\<lambda>a b. snd b \<le> snd a) ?sorted"
    using val by (intro js_sort_desc_num) blast
  then have "sorted_wrt (\<lambda>a b. digest_total xs (fst b) \<le> digest_total xs (fst a)) ?sorted"
    by (rule sorted_wrt_mono_rel [rotated]) (simp add: val)
  then show "sorted_wrt (\<lambda>a b. digest_total xs b \<le> digest_total xs a) (orderedDigests totals)"
    by (simp add: orderedDigests_def sorted_wrt_map sorted_wrt_filter)
qed

lemma digest_js_sort [simp]:
  "digest_cpu (js_sort cmp xs) = digest_cpu xs" "digest_total (js_sort cmp xs) = digest_total xs"
  "digest_times (js_sort cmp xs) = digest_times xs"
  by (simp_all add: digest_cpu_def digest_total_def digest_times_def fun_eq_iff)

text \<open>
  C18: for every answer by query, the chart of Top SQL is drawn without an error and loses no CPU time: there
  is one series for each digest of positive total CPU time, in descending order of it, and the
  series has at each timestamp of the digest the sum of the CPU times of all its plans there.
\<close>

theorem topsql_chart_conserves:
  "\<exists>series. chart_by_query (clean_query localeCompare formatSql xs) = Some series \<and>
     distinct (map fst series) \<and> set (map fst series) = {k. 0 < digest_total xs k} \<and>
     sorted_wrt (\<lambda>a b. digest_total xs (fst b) \<le> digest_total xs (fst a)) series \<and>
     list_all (\<lambda>(k, m). distinct (map fst m) \<and>
       map_of m = (\<lambda>t. if t \<in> digest_times xs k then Some (Fin (digest_cpu xs k t)) else None)) series"
proof -
  define ys where "ys = js_sort (\<lambda>a b. case (sql_digest a, sql_digest b) of
      (Some x, Some y) \<Rightarrow> localeCompare x y | (Some x, None) \<Rightarrow> localeCompare x ''undefined'' | _ \<Rightarrow> 0) xs"
  have data: "clean_query localeCompare formatSql xs = map (clean_item formatSql) ys"
    by (simp add: clean_query_def clean_item_def ys_def)
  have "chart_ok [] ([], [])"
    by (simp add: chart_ok_def)
  then obtain vals totals where acc: "chart_series (map (clean_item formatSql) ys) ([], []) = Some (vals, totals)"
    and ok: "chart_ok ys (vals, totals)"
    using chart_series_ok [of "[]" "([], [])" formatSql ys] by auto
  define series where "series =
    map (\<lambda>d. (d, case map_of vals d of Some m \<Rightarrow> m | None \<Rightarrow> [])) (orderedDigests totals)"
  have keys: "map fst series = orderedDigests totals"
    by (simp add: series_def o_def)
  have "distinct (map fst m) \<and>
        map_of m = (\<lambda>t. if t \<in> digest_times xs k then Some (Fin (digest_cpu xs k t)) else None)"
    if "(k, m) \<in> set series" for k m
  proof -
    have "k \<in> digest_key ` set ys"
      using that chart_ok_digests(2) [OF ok] digest_total_known by (auto simp: series_def)
    then have "m = fold add_point (map (apsnd Fin) (digest_points ys k)) []"
      using that ok by (auto simp: series_def chart_ok_def)
    then show ?thesis
      by (auto simp: distinct_fold_add_point map_of_points digest_points_spec ys_def fun_eq_iff)
  qed
  then have "list_all (\<lambda>(k, m). distinct (map fst m) \<and>
      map_of m = (\<lambda>t. if t \<in> digest_times xs k then Some (Fin (digest_cpu xs k t)) else None)) series"
    by (auto simp: list_all_iff)
  moreover have "chart_by_query (clean_query localeCompare formatSql xs) = Some series"
    by (simp add: chart_by_query_def data acc series_def)
  moreover have "sorted_wrt (\<lambda>a b. digest_total xs (fst b) \<le> digest_total xs (fst a)) series"
    using chart_ok_digests(3) [OF ok] by (simp add: series_def sorted_wrt_map ys_def)
  ultimately show ?thesis
    using chart_ok_digests(1,2) [OF ok] by (intro exI [of _ series]) (simp add: keys ys_def)
qed

subsection \<open>Zooming in\<close>

text \<open>
  A brush on the time axis zooms to whole seconds and never to less than 59 of them. A brush shorter than
  a minute is widened around itself, to at most 61 seconds and still containing it; a longer one
  stays inside what was brushed.
\<close>

theorem brush_zoom_window:
  assumes "a \<le> b"
  shows "\<exists>s e. handleBrushEnd (Some (a, b)) = Some (Absolute (js_int s) (js_int e)) \<and> 59 \<le> e - s \<and>
           (if b - a < 60000 then of_int s \<le> a / 1000 \<and> b / 1000 \<le> of_int e \<and> e - s \<le> 61
            else a / 1000 \<le> of_int s \<and> of_int e \<le> b / 1000)"
proof (cases "b - a < 60000")
  case True
  define t0 t1 where "t0 = a / 1000" and "t1 = b / 1000"
  define k where "k = \<lfloor>(t1 - t0) / 2\<rfloor>"
  define s e where "s = \<lceil>t0 + of_int k - 30\<rceil>" and "e = \<lfloor>t1 - of_int k + 30\<rfloor>"
  have delta: "0 \<le> t1 - t0" "t1 - t0 < 60"
    using assms True by (simp_all add: t0_def t1_def field_simps)
  have "of_int k \<le> (t1 - t0) / 2" "(t1 - t0) / 2 < of_int k + 1"
    unfolding k_def by linarith+
  then have k: "2 * of_int k \<le> t1 - t0" "t1 - t0 < 2 * of_int k + 2"
    by (simp_all add: field_simps)
  then have "of_int k < (of_int 30 :: rat)"
    using delta by simp
  then have "k \<le> 29"
    unfolding of_int_less_iff by simp
  then have k30: "of_int k \<le> (29 :: rat)"
    using of_int_le_iff [of k 29, where 'a = rat] by simp
  have s: "t0 + of_int k - 30 \<le> of_int s" "of_int s < t0 + of_int k - 29"
    and e: "t1 - of_int k + 29 < of_int e" "of_int e \<le> t1 - of_int k + 30"
    unfolding s_def e_def by linarith+
  have "of_int s \<le> t0" "t1 \<le> of_int e"
    using s e k30 by linarith+
  moreover have "(58 :: rat) < of_int (e - s)" "of_int (e - s) < (62 :: rat)"
    using s e k unfolding of_int_diff by linarith+
  then have "58 < e - s" "e - s < 62"
    by linarith+
  moreover have "handleBrushEnd (Some (a, b)) = Some (Absolute (js_int s) (js_int e))"
    using True by (simp add: handleBrushEnd_def fromTimeRangeValue_def s_def e_def k_def t0_def t1_def Let_def
        flip: diff_divide_distrib)
  ultimately show ?thesis
    using True by (intro exI [of _ s] exI [of _ e]) (simp add: t0_def t1_def)
next
  case False
  define s e where "s = \<lceil>a / 1000\<rceil>" and "e = \<lfloor>b / 1000\<rfloor>"
  have s: "a / 1000 \<le> of_int s" "of_int s < a / 1000 + 1" and e: "b / 1000 - 1 < of_int e" "of_int e \<le> b / 1000"
    unfolding s_def e_def by linarith+
  have "60 \<le> b / 1000 - a / 1000"
    using False by (simp add: field_simps)
  then have "(58 :: rat) < of_int (e - s)"
    using s e unfolding of_int_diff by linarith
  then have "58 < e - s"
    by linarith
  moreover have "handleBrushEnd (Some (a, b)) = Some (Absolute (js_int s) (js_int e))"
    using False by (simp add: handleBrushEnd_def fromTimeRangeValue_def s_def e_def Let_def flip: diff_divide_distrib)
  ultimately show ?thesis
    using False s e by (intro exI [of _ s] exI [of _ e]) simp
qed

theorem brush_zoom_window_witness:
  "\<exists>s e. handleBrushEnd (Some (1000500, 1003500)) = Some (Absolute (js_int s) (js_int e)) \<and> 59 \<le> e - s \<and>
     of_int s \<le> (10005 / 10 :: rat) \<and> (10035 / 10 :: rat) \<le> of_int e \<and> e - s \<le> 61"
  using brush_zoom_window [of 1000500 1003500] by simp

end
