(* ===== verification/MetricPanels.thy ===== *)
theory MetricPanels
  imports Prometheus
begin

text \<open>
  The metric panels of the monitoring and overview pages: \<open>apps/Monitoring/metricsQueries.ts\<close> and
  \<open>apps/Overview/metricsQueries.ts\<close> of the operator (\<open>tidb-dashboard-for-op\<close>) and cloud
  (\<open>tidb-dashboard-for-clinic-cloud\<close>) distributions, and \<open>apps/ResourceManager/uilts/metricQueries.ts\<close> of the
  library, with the colours of their series. A static check of the queries and legends is run on all
  of them.
\<close>

subsection \<open>Panels\<close>

datatype ColorType =
  BLUE_1 | BLUE_2 | BLUE_3 | BLUE_4 | GREEN_1 | GREEN_2 | GREEN_3 | GREEN_4
| RED_1 | RED_2 | RED_3 | RED_4 | RED_5 | PURPLE | ORANGE | YELLOW | PINK

text \<open>The colour of a series: none, fixed, or a function of its legend.\<close>

datatype series_color = NoColor | Color ColorType | ColorFn "string \<Rightarrow> ColorType option"

record QueryConfig =
  promql :: string
  legend :: string
  color :: series_color
  kind :: string

record metric_panel =
  title :: string
  queries :: "QueryConfig list"
  unit :: string
  nullValue :: "TransformNullValue option"

record MetricsQueryType =
  category :: string
  metrics :: "metric_panel list"

definition transformColorBySQLType :: "string \<Rightarrow> ColorType option" where
  "transformColorBySQLType legendLabel =
     (if legendLabel = ''Select'' then Some BLUE_3
      else if legendLabel = ''Commit'' then Some GREEN_2
      else if legendLabel = ''Insert'' then Some GREEN_3
      else if legendLabel = ''Update'' then Some GREEN_4
      else if legendLabel = ''general'' then Some PINK
      else None)"

definition transformColorByExecTimeOverview :: "string \<Rightarrow> ColorType option" where
  "transformColorByExecTimeOverview legendLabel =
     (if legendLabel = ''tso_wait'' then Some RED_5
      else if legendLabel = ''Commit'' then Some GREEN_4
      else if legendLabel = ''Prewrite'' then Some GREEN_3
      else if legendLabel = ''PessimisticLock'' then Some RED_4
      else if legendLabel = ''Get'' then Some BLUE_3
      else if legendLabel = ''BatchGet'' then Some BLUE_4
      else if legendLabel = ''Cop'' then Some BLUE_1
      else if legendLabel = ''ScanLock'' \<or> legendLabel = ''Scan'' then Some PURPLE
      else if legendLabel = ''execute time'' then Some YELLOW
      else None)"

text \<open>
  \<open>compare(v, w, op)\<close> of the package \<open>compare-versions\<close> is an argument; \<open>replace\<close> with a string removes the first
  occurrence only.
\<close>

type_synonym version_test = "string \<Rightarrow> string \<Rightarrow> string \<Rightarrow> bool"

definition loadTiKVStoragePromql :: "version_test \<Rightarrow> string option \<Rightarrow> string" where
  \<open>loadTiKVStoragePromql compare pdVersion =
     (case map_option (remove1 CHR ''v'') pdVersion of
        Some PDVersion \<Rightarrow>
          if PDVersion \<noteq> [] \<and> PDVersion \<noteq> ''N/A'' \<and> compare PDVersion ''5.4.1'' ''<''
          then ''sum(tikv_engine_size_bytes) by (instance)''
          else ''sum(tikv_store_size_bytes{type="used"}) by (instance)''
      | None \<Rightarrow> ''sum(tikv_store_size_bytes{type="used"}) by (instance)'')\<close>

subsection \<open>Monitoring page, operator distribution\<close>

definition op_database_time :: "metric_panel list" where
  \<open>op_database_time = [
    \<lparr>title = ''Database Time by SQL Types'',
     queries = [
       \<lparr>promql = ''sum(rate(tidb_server_handle_query_duration_seconds_sum{sql_type!="internal"}[$__rate_interval]))'',
         legend = ''database time'', color = Color YELLOW, kind = ''line''\<rparr>,
       \<lparr>promql = ''sum(rate(tidb_server_handle_query_duration_seconds_sum{sql_type!="internal"}[$__rate_interval])) by (sql_type)'',
         legend = ''{sql_type}'', color = ColorFn transformColorBySQLType, kind = ''bar_stacked''\<rparr>],
     unit = ''s'', nullValue = Some AS_ZERO\<rparr>,
    \<lparr>title = ''Database Time by SQL Phase'',
     queries = [
       \<lparr>promql = ''sum(rate(tidb_server_handle_query_duration_seconds_sum{sql_type!="internal"}[$__rate_interval]))'',
         legend = ''database time'', color = Color YELLOW, kind = ''line''\<rparr>,
       \<lparr>promql = ''sum(rate(tidb_session_parse_duration_seconds_sum{sql_type="general"}[$__rate_interval]))'',
         legend = ''parse'', color = Color RED_2, kind = ''bar_stacked''\<rparr>,
       \<lparr>promql = ''sum(rate(tidb_session_compile_duration_seconds_sum{sql_type="general"}[$__rate_interval]))'',
         legend = ''compile'', color = Color ORANGE, kind = ''bar_stacked''\<rparr>,
       \<lparr>promql = ''sum(rate(tidb_session_execute_duration_seconds_sum{sql_type="general"}[$__rate_interval]))'',
         legend = ''execute'', color = Color GREEN_3, kind = ''bar_stacked''\<rparr>,
       \<lparr>promql = ''sum(rate(tidb_server_get_token_duration_seconds_sum[$__rate_interval]))/1000000'',
         legend = ''get token'', color = Color RED_3, kind = ''bar_stacked''\<rparr>],
     unit = ''s'', nullValue = Some AS_ZERO\<rparr>,
    \<lparr>title = ''SQL Execute Time Overview'',
     queries = [
       \<lparr>promql = ''sum(rate(tidb_tikvclient_request_seconds_sum{store!="0"}[$__rate_interval])) by (type)'',
         legend = ''{type}'', color = ColorFn transformColorByExecTimeOverview, kind = ''bar_stacked''\<rparr>,
       \<lparr>promql = ''sum(rate(pd_client_cmd_handle_cmds_duration_seconds_sum{type="wait"}[$__rate_interval]))'',
         legend = ''tso_wait'', color = Color RED_5, kind = ''bar_stacked''\<rparr>],
     unit = ''s'', nullValue = None\<rparr>]\<close>

definition op_application_connection :: "metric_panel list" where
  \<open>op_application_connection = [
    \<lparr>title = ''Connection Count'',
     queries = [
       \<lparr>promql = ''sum(tidb_server_connections)'',
         legend = ''Total'', color = NoColor, kind = ''line''\<rparr>,
       \<lparr>promql = ''sum(tidb_server_tokens)'',
         legend = ''active connections'', color = NoColor, kind = ''line''\<rparr>],
     unit = ''short'', nullValue = Some AS_ZERO\<rparr>,
    \<lparr>title = ''Disconnection'',
     queries = [
       \<lparr>promql = ''sum(rate(tidb_server_disconnection_total[$__rate_interval])) by (instance, result)'',
         legend = ''{instance}-{result}'', color = NoColor, kind = ''area_stack''\<rparr>],
     unit = ''short'', nullValue = Some AS_ZERO\<rparr>]\<close>

definition op_sql_count :: "metric_panel list" where
  \<open>op_sql_count = [
    \<lparr>title = ''Query Per Second'',
     queries = [
       \<lparr>promql = ''sum(rate(tidb_executor_statement_total[$__rate_interval]))'',
         legend = ''Total'', color = NoColor, kind = ''line''\<rparr>,
       \<lparr>promql = ''sum(rate(tidb_executor_statement_total[$__rate_interval])) by (type)'',
         legend = ''{type}'', color = NoColor, kind = ''line''\<rparr>],
     unit = ''short'', nullValue = Some AS_ZERO\<rparr>,
    \<lparr>title = ''Failed Queries'',
     queries = [
       \<lparr>promql = ''increase(tidb_server_execute_error_total[$__rate_interval])'',
         legend = ''{type} @ {instance}'', color = NoColor, kind = ''line''\<rparr>],
     unit = ''short'', nullValue = Some AS_ZERO\<rparr>,
    \<lparr>title = ''Command Per Second'',
     queries = [
       \<lparr>promql = ''sum(rate(tidb_server_query_total[$__rate_interval])) by (type)'',
         legend = ''{type}'', color = NoColor, kind = ''line''\<rparr>],
     unit = ''short'', nullValue = Some AS_ZERO\<rparr>,
    \<lparr>title = ''Queries Using Plan Cache OPS'',
     queries = [
       \<lparr>promql = ''sum(rate(tidb_server_plan_cache_total[$__rate_interval])) by (type)'',
         legend = ''avg - hit'', color = NoColor, kind = ''line''\<rparr>,
       \<lparr>promql = ''sum(rate(tidb_server_plan_cache_miss_total[$__rate_interval]))'',
         legend = ''avg - miss'', color = NoColor, kind = ''line''\<rparr>],
     unit = ''short'', nullValue = Some AS_ZERO\<rparr>]\<close>

definition op_latency_break_down :: "metric_panel list" where
  \<open>op_latency_break_down = [
    \<lparr>title = ''Query Duration'',
     queries = [
       \<lparr>promql = ''sum(rate(tidb_server_handle_query_duration_seconds_sum{sql_type!="internal"}[$__rate_interval])) / sum(rate(tidb_server_handle_query_duration_seconds_count{sql_type!="internal"}[$__rate_interval]))'',
         legend = ''avg'', color = NoColor, kind = ''line''\<rparr>,
       \<lparr>promql = ''histogram_quantile(0.99, sum(rate(tidb_server_handle_query_duration_seconds_bucket{sql_type!="internal"}[$__rate_interval])) by (le))'',
         legend = ''99'', color = NoColor, kind = ''line''\<rparr>,
       \<lparr>promql = ''sum(rate(tidb_server_handle_query_duration_seconds_sum{sql_type!="internal"}[$__rate_interval])) by (sql_type) / sum(rate(tidb_server_handle_query_duration_seconds_count{sql_type!="internal"}[$__rate_interval])) by (sql_type)'',
         legend = ''avg-{sql_type}'', color = NoColor, kind = ''line''\<rparr>,
       \<lparr>promql = ''histogram_quantile(0.99, sum(rate(tidb_server_handle_query_duration_seconds_bucket{sql_type!="internal"}[$__rate_interval])) by (le,sql_type))'',
         legend = ''99-{sql_type}'', color = NoColor, kind = ''line''\<rparr>],
     unit = ''s'', nullValue = Some AS_ZERO\<rparr>,
    \<lparr>title = ''Average Idle Connection Duration'',
     queries = [
       \<lparr>promql = ''(sum(rate(tidb_server_conn_idle_duration_seconds_sum{in_txn='1'}[$__rate_interval])) / sum(rate(tidb_server_conn_idle_duration_seconds_count{in_txn='1'}[$__rate_interval])))'',
         legend = ''avg-in-txn'', color = NoColor, kind = ''line''\<rparr>,
       \<lparr>promql = ''(sum(rate(tidb_server_conn_idle_duration_seconds_sum{in_txn='0'}[$__rate_interval])) / sum(rate(tidb_server_conn_idle_duration_seconds_count{in_txn='0'}[$__rate_interval])))'',
         legend = ''avg-not-in-txn'', color = NoColor, kind = ''line''\<rparr>],
     unit = ''s'', nullValue = Some AS_ZERO\<rparr>,
    \<lparr>title = ''Get Token Duration'',
     queries = [
       \<lparr>promql = ''sum(rate(tidb_server_get_token_duration_seconds_sum[$__rate_interval])) / sum(rate(tidb_server_get_token_duration_seconds_count[$__rate_interval]))'',
         legend = ''avg'', color = NoColor, kind = ''line''\<rparr>,
       \<lparr>promql = ''histogram_quantile(0.99, sum(rate(tidb_server_get_token_duration_seconds_bucket[$__rate_interval])) by (le))'',
         legend = ''99'', color = NoColor, kind = ''line''\<rparr>],
     unit = CHR 0xB5 # ''s'', nullValue = Some AS_ZERO\<rparr>,
    \<lparr>title = ''Parse Duration'',
     queries = [
       \<lparr>promql = ''(sum(rate(tidb_session_parse_duration_seconds_sum{sql_type="general"}[$__rate_interval])) / sum(rate(tidb_session_parse_duration_seconds_count{sql_type="general"}[$__rate_interval])))'',
         legend = ''avg'', color = NoColor, kind = ''line''\<rparr>,
       \<lparr>promql = ''histogram_quantile(0.99, sum(rate(tidb_session_parse_duration_seconds_bucket{sql_type="general"}[$__rate_interval])) by (le))'',
         legend = ''99'', color = NoColor, kind = ''line''\<rparr>],
     unit = ''s'', nullValue = Some AS_ZERO\<rparr>,
    \<lparr>title = ''Compile Duration'',
     queries = [
       \<lparr>promql = ''(sum(rate(tidb_session_compile_duration_seconds_sum{sql_type="general"}[$__rate_interval])) / sum(rate(tidb_session_compile_duration_seconds_count{sql_type="general"}[$__rate_interval])))'',
         legend = ''avg'', color = NoColor, kind = ''line''\<rparr>,
       \<lparr>promql = ''histogram_quantile(0.99, sum(rate(tidb_session_compile_duration_seconds_bucket{sql_type="general"}[$__rate_interval])) by (le))'',
         legend = ''99'', color = NoColor, kind = ''line''\<rparr>],
     unit = ''s'', nullValue = Some AS_ZERO\<rparr>,
    \<lparr>title = ''Execute Duration'',
     queries = [
       \<lparr>promql = ''(sum(rate(tidb_session_execute_duration_seconds_sum{sql_type="general"}[$__rate_interval])) / sum(rate(tidb_session_execute_duration_seconds_count{sql_type="general"}[$__rate_interval])))'',
         legend = ''avg'', color = NoColor, kind = ''line''\<rparr>,
       \<lparr>promql = ''histogram_quantile(0.99, sum(rate(tidb_session_execute_duration_seconds_bucket{sql_type="general"}[$__rate_interval])) by (le))'',
         legend = ''99'', color = NoColor, kind = ''line''\<rparr>],
     unit = ''s'', nullValue = Some AS_ZERO\<rparr>]\<close>

definition op_transaction :: "metric_panel list" where
  \<open>op_transaction = [
    \<lparr>title = ''Transaction Per Second'',
     queries = [
       \<lparr>promql = ''sum(rate(tidb_session_transaction_duration_seconds_count{scope=~"general"}[$__rate_interval])) by (type, txn_mode)'',
         legend = ''{type}-{txn_mode}'', color = NoColor, kind = ''line''\<rparr>],
     unit = ''short'', nullValue = Some AS_ZERO\<rparr>,
    \<lparr>title = ''Transaction Duration'',
     queries = [
       \<lparr>promql = ''sum(rate(tidb_session_transaction_duration_seconds_sum{scope=~"general"}[$__rate_interval])) by (txn_mode)/ sum(rate(tidb_session_transaction_duration_seconds_count{scope=~"general"}[$__rate_interval])) by (txn_mode)'',
         legend = ''avg-{txn_mode}'', color = NoColor, kind = ''line''\<rparr>,
       \<lparr>promql = ''histogram_quantile(0.99, sum(rate(tidb_session_transaction_duration_seconds_bucket[$__rate_interval])) by (le, txn_mode))'',
         legend = ''99-{txn_mode}'', color = NoColor, kind = ''line''\<rparr>],
     unit = ''s'', nullValue = None\<rparr>]\<close>

definition op_core_path_duration_1 :: "metric_panel list" where
  \<open>op_core_path_duration_1 = [
    \<lparr>title = ''Avg TiDB KV Request Duration'',
     queries = [
       \<lparr>promql = ''sum(rate(tidb_tikvclient_request_seconds_sum{store!="0"}[$__rate_interval])) by (type)/ sum(rate(tidb_tikvclient_request_seconds_count{store!="0"}[$__rate_interval])) by (type)'',
         legend = ''{type}'', color = NoColor, kind = ''line''\<rparr>],
     unit = ''s'', nullValue = Some AS_ZERO\<rparr>,
    \<lparr>title = ''Avg TiKV GRPC Duration'',
     queries = [
       \<lparr>promql = ''sum(rate(tikv_grpc_msg_duration_seconds_sum{store!="0"}[$__rate_interval])) by (type)/ sum(rate(tikv_grpc_msg_duration_seconds_count{store!="0"}[$__rate_interval])) by (type)'',
         legend = ''{type}'', color = NoColor, kind = ''line''\<rparr>],
     unit = ''s'', nullValue = Some AS_ZERO\<rparr>,
    \<lparr>title = ''Average / P99 PD TSO Wait/RPC Duration'',
     queries = [
       \<lparr>promql = ''(sum(rate(pd_client_cmd_handle_cmds_duration_seconds_sum{type="wait"}[$__rate_interval])) / sum(rate(pd_client_cmd_handle_cmds_duration_seconds_count{type="wait"}[$__rate_interval])))'',
         legend = ''wait - avg'', color = NoColor, kind = ''line''\<rparr>,
       \<lparr>promql = ''histogram_quantile(0.99, sum(rate(pd_client_cmd_handle_cmds_duration_seconds_bucket{type="wait"}[$__rate_interval])) by (le))'',
         legend = ''wait - 99'', color = NoColor, kind = ''line''\<rparr>,
       \<lparr>promql = ''(sum(rate(pd_client_request_handle_requests_duration_seconds_sum{type="tso"}[$__rate_interval])) / sum(rate(pd_client_request_handle_requests_duration_seconds_count{type="tso"}[$__rate_interval])))'',
         legend = ''rpc - avg'', color = NoColor, kind = ''line''\<rparr>,
       \<lparr>promql = ''histogram_quantile(0.99, sum(rate(pd_client_request_handle_requests_duration_seconds_bucket{type="tso"}[$__rate_interval])) by (le))'',
         legend = ''rpc - 99'', color = NoColor, kind = ''line''\<rparr>],
     unit = ''s'', nullValue = Some AS_ZERO\<rparr>,
    \<lparr>title = ''Average / P99 Storage Async Write Duration'',
     queries = [
       \<lparr>promql = ''sum(rate(tikv_storage_engine_async_request_duration_seconds_sum{type="write"}[$__rate_interval])) / sum(rate(tikv_storage_engine_async_request_duration_seconds_count{type="write"}[$__rate_interval]))'',
         legend = ''avg'', color = NoColor, kind = ''line''\<rparr>,
       \<lparr>promql = ''histogram_quantile(0.99, sum(rate(tikv_storage_engine_async_request_duration_seconds_bucket{type="write"}[$__rate_interval])) by (le))'',
         legend = ''99'', color = NoColor, kind = ''line''\<rparr>],
     unit = ''s'', nullValue = Some AS_ZERO\<rparr>,
    \<lparr>title = ''Average / P99 Store Duration'',
     queries = [
       \<lparr>promql = ''sum(rate(tikv_raftstore_store_duration_secs_sum[$__rate_interval])) / sum(rate(tikv_raftstore_store_duration_secs_count[$__rate_interval]))'',
         legend = ''avg'', color = NoColor, kind = ''line''\<rparr>,
       \<lparr>promql = ''histogram_quantile(0.99, sum(rate(tikv_raftstore_store_duration_secs_bucket[$__rate_interval])) by (le))'',
         legend = ''99'', color = NoColor, kind = ''line''\<rparr>],
     unit = ''s'', nullValue = Some AS_ZERO\<rparr>,
    \<lparr>title = ''Average / P99 Apply Duration'',
     queries = [
       \<lparr>promql = ''(sum(rate(tikv_raftstore_apply_duration_secs_sum[$__rate_interval])) / sum(rate(tikv_raftstore_apply_duration_secs_count[$__rate_interval])))'',
         legend = ''avg'', color = NoColor, kind = ''line''\<rparr>,
       \<lparr>promql = ''histogram_quantile(0.99, sum(rate(tikv_raftstore_apply_duration_secs_bucket[$__rate_interval])) by (le))'',
         legend = ''99'', color = NoColor, kind = ''line''\<rparr>],
     unit = ''s'', nullValue = Some AS_ZERO\<rparr>,
    \<lparr>title = ''Average / P99 Append Log Duration'',
     queries = [
       \<lparr>promql = ''(sum(rate(tikv_raftstore_append_log_duration_seconds_sum[$__rate_interval])) / sum(rate(tikv_raftstore_append_log_duration_seconds_count[$__rate_interval])))'',
         legend = ''avg'', color = NoColor, kind = ''line''\<rparr>,
       \<lparr>promql = ''histogram_quantile(0.99, sum(rate(tikv_raftstore_append_log_duration_seconds_bucket[$__rate_interval])) by (le))'',
         legend = ''99'', color = NoColor, kind = ''line''\<rparr>],
     unit = ''s'', nullValue = Some AS_ZERO\<rparr>]\<close>

definition op_core_path_duration_2 :: "metric_panel list" where
  \<open>op_core_path_duration_2 = [
    \<lparr>title = ''Average / P99 Commit Log Duration'',
     queries = [
       \<lparr>promql = ''(sum(rate(tikv_raftstore_commit_log_duration_seconds_sum[$__rate_interval])) / sum(rate(tikv_raftstore_commit_log_duration_seconds_count[$__rate_interval])))'',
         legend = ''avg'', color = NoColor, kind = ''line''\<rparr>,
       \<lparr>promql = ''histogram_quantile(0.99, sum(rate(tikv_raftstore_commit_log_duration_seconds_bucket[$__rate_interval])) by (le))'',
         legend = ''99'', color = NoColor, kind = ''line''\<rparr>],
     unit = ''s'', nullValue = Some AS_ZERO\<rparr>,
    \<lparr>title = ''Average / P99 Apply Log Duration'',
     queries = [
       \<lparr>promql = ''(sum(rate(tikv_raftstore_apply_log_duration_seconds_sum[$__rate_interval])) / sum(rate(tikv_raftstore_apply_log_duration_seconds_count[$__rate_interval])))'',
         legend = ''avg'', color = NoColor, kind = ''line''\<rparr>,
       \<lparr>promql = ''histogram_quantile(0.99, sum(rate(tikv_raftstore_apply_log_duration_seconds_bucket[$__rate_interval])) by (le))'',
         legend = ''99'', color = NoColor, kind = ''line''\<rparr>],
     unit = ''s'', nullValue = Some AS_ZERO\<rparr>]\<close>

definition op_server_1 :: "version_test \<Rightarrow> string option \<Rightarrow> metric_panel list" where
  \<open>op_server_1 compare pdVersion = [
    \<lparr>title = ''TiDB Uptime'',
     queries = [
       \<lparr>promql = ''(time() - process_start_time_seconds{job="tidb"})'',
         legend = ''{instance}'', color = NoColor, kind = ''line''\<rparr>],
     unit = ''s'', nullValue = Some AS_ZERO\<rparr>,
    \<lparr>title = ''TiDB CPU Usage'',
     queries = [
       \<lparr>promql = ''rate(process_cpu_seconds_total{job="tidb"}[30s])'',
         legend = ''{instance}'', color = NoColor, kind = ''line''\<rparr>],
     unit = ''percentunit'', nullValue = Some AS_ZERO\<rparr>,
    \<lparr>title = ''TiDB Memory Usage'',
     queries = [
       \<lparr>promql = ''process_resident_memory_bytes{job="tidb"}'',
         legend = ''{instance}'', color = NoColor, kind = ''line''\<rparr>],
     unit = ''bytes'', nullValue = Some AS_ZERO\<rparr>,
    \<lparr>title = ''TiKV Uptime'',
     queries = [
       \<lparr>promql = ''(time() - process_start_time_seconds{job="tikv"})'',
         legend = ''{instance}'', color = NoColor, kind = ''line''\<rparr>],
     unit = ''s'', nullValue = None\<rparr>,
    \<lparr>title = ''TiKV CPU Usage'',
     queries = [
       \<lparr>promql = ''sum(rate(tikv_thread_cpu_seconds_total[$__rate_interval])) by (instance)'',
         legend = ''{instance}'', color = NoColor, kind = ''line''\<rparr>],
     unit = ''percentunit'', nullValue = None\<rparr>,
    \<lparr>title = ''TiKV Memory Usage'',
     queries = [
       \<lparr>promql = ''process_resident_memory_bytes{job=~".*tikv"}'',
         legend = ''{instance}'', color = NoColor, kind = ''line''\<rparr>],
     unit = ''bytes'', nullValue = None\<rparr>,
    \<lparr>title = ''TiKV IO MBps'',
     queries = [
       \<lparr>promql = ''sum(rate(tikv_engine_flow_bytes{db="kv", type="wal_file_bytes"}[$__rate_interval])) by (instance) + sum(rate(tikv_engine_flow_bytes{db="raft", type="wal_file_bytes"}[$__rate_interval])) by (instance) + sum(rate(raft_engine_write_size_sum[$__rate_interval])) by (instance)'',
         legend = ''{instance}-write'', color = NoColor, kind = ''line''\<rparr>,
       \<lparr>promql = ''sum(rate(tikv_engine_flow_bytes{db="kv", type=~"bytes_read|iter_bytes_read"}[$__rate_interval])) by (instance)'',
         legend = ''{instance}-read'', color = NoColor, kind = ''line''\<rparr>],
     unit = ''Bps'', nullValue = None\<rparr>,
    \<lparr>title = ''TiKV Storage Usage'',
     queries = [
       \<lparr>promql = loadTiKVStoragePromql compare pdVersion,
         legend = ''{instance}'', color = NoColor, kind = ''area_stack''\<rparr>],
     unit = ''decbytes'', nullValue = None\<rparr>,
    \<lparr>title = ''TiFlash Uptime'',
     queries = [
       \<lparr>promql = ''tiflash_system_asynchronous_metric_Uptime'',
         legend = ''{instance}'', color = NoColor, kind = ''line''\<rparr>],
     unit = ''s'', nullValue = Some AS_ZERO\<rparr>,
    \<lparr>title = ''TiFlash CPU Usage'',
     queries = [
       \<lparr>promql = ''rate(tiflash_proxy_process_cpu_seconds_total{job="tiflash"}[$__rate_interval])'',
         legend = ''{instance}'', color = NoColor, kind = ''line''\<rparr>],
     unit = ''percentunit'', nullValue = Some AS_ZERO\<rparr>,
    \<lparr>title = ''TiFlash Memory'',
     queries = [
       \<lparr>promql = ''tiflash_proxy_process_resident_memory_bytes{job="tiflash"}'',
         legend = ''{instance}'', color = NoColor, kind = ''line''\<rparr>],
     unit = ''bytes'', nullValue = Some AS_ZERO\<rparr>]\<close>

definition op_server_2 :: "metric_panel list" where
  \<open>op_server_2 = [
    \<lparr>title = ''TiFlash IO MBps'',
     queries = [
       \<lparr>promql = ''sum(rate(tiflash_system_profile_event_WriteBufferFromFileDescriptorWriteBytes[$__rate_interval])) by (instance) + sum(rate(tiflash_system_profile_event_PSMWriteBytes[$__rate_interval])) by (instance) + sum(rate(tiflash_system_profile_event_WriteBufferAIOWriteBytes[$__rate_interval])) by (instance)'',
         legend = ''{instance}-write'', color = NoColor, kind = ''line''\<rparr>,
       \<lparr>promql = ''sum(rate(tiflash_system_profile_event_ReadBufferFromFileDescriptorReadBytes[$__rate_interval])) by (instance) + sum(rate(tiflash_system_profile_event_PSMReadBytes[$__rate_interval])) by (instance) + sum(rate(tiflash_system_profile_event_ReadBufferAIOReadBytes[$__rate_interval])) by (instance)'',
         legend = ''{instance}-read'', color = NoColor, kind = ''line''\<rparr>],
     unit = ''Bps'', nullValue = None\<rparr>,
    \<lparr>title = ''TiFlash Storage Usage'',
     queries = [
       \<lparr>promql = ''sum(tiflash_system_current_metric_StoreSizeUsed) by (instance)'',
         legend = ''{instance}'', color = NoColor, kind = ''area_stack''\<rparr>],
     unit = ''bytes'', nullValue = None\<rparr>,
    \<lparr>title = ''TiProxy Uptime'',
     queries = [
       \<lparr>promql = ''(time() - process_start_time_seconds{job="tiproxy"})'',
         legend = ''{instance}'', color = NoColor, kind = ''line''\<rparr>],
     unit = ''s'', nullValue = Some AS_ZERO\<rparr>,
    \<lparr>title = ''TiProxy CPU Usage'',
     queries = [
       \<lparr>promql = ''rate(process_cpu_seconds_total{job="tiproxy"}[30s])'',
         legend = ''{instance}'', color = NoColor, kind = ''line''\<rparr>],
     unit = ''percentunit'', nullValue = Some AS_ZERO\<rparr>,
    \<lparr>title = ''TiProxy Memory Usage'',
     queries = [
       \<lparr>promql = ''process_resident_memory_bytes{job="tiproxy"}'',
         legend = ''{instance}'', color = NoColor, kind = ''line''\<rparr>],
     unit = ''bytes'', nullValue = Some AS_ZERO\<rparr>]\<close>

definition op_getMonitoringItems :: "version_test \<Rightarrow> string option \<Rightarrow> MetricsQueryType list" where
  \<open>op_getMonitoringItems compare pdVersion = [
     \<lparr>category = ''database_time'', metrics = op_database_time\<rparr>,
     \<lparr>category = ''application_connection'', metrics = op_application_connection\<rparr>,
     \<lparr>category = ''sql_count'', metrics = op_sql_count\<rparr>,
     \<lparr>category = ''latency_break_down'', metrics = op_latency_break_down\<rparr>,
     \<lparr>category = ''transaction'', metrics = op_transaction\<rparr>,
     \<lparr>category = ''core_path_duration'', metrics = op_core_path_duration_1 @ op_core_path_duration_2\<rparr>,
     \<lparr>category = ''server'', metrics = op_server_1 compare pdVersion @ op_server_2\<rparr>]\<close>

subsection \<open>Monitoring page, cloud distribution\<close>

definition cc_database_time :: "metric_panel list" where
  \<open>cc_database_time = [
    \<lparr>title = ''Database Time by SQL Types'',
     queries = [
       \<lparr>promql = ''sum(rate(tidb_server_handle_query_duration_seconds_sum{sql_type!="internal"}[$__rate_interval]))'',
         legend = ''database time'', color = Color YELLOW, kind = ''line''\<rparr>,
       \<lparr>promql = ''sum(rate(tidb_server_handle_query_duration_seconds_sum{sql_type!="internal"}[$__rate_interval])) by (sql_type)'',
         legend = ''{sql_type}'', color = ColorFn transformColorBySQLType, kind = ''bar_stacked''\<rparr>],
     unit = ''s'', nullValue = Some AS_ZERO\<rparr>,
    \<lparr>title = ''Database Time by SQL Phase'',
     queries = [
       \<lparr>promql = ''sum(rate(tidb_server_handle_query_duration_seconds_sum{sql_type!="internal"}[$__rate_interval]))'',
         legend = ''database time'', color = Color YELLOW, kind = ''line''\<rparr>,
       \<lparr>promql = ''sum(rate(tidb_session_parse_duration_seconds_sum{sql_type="general"}[$__rate_interval]))'',
         legend = ''parse'', color = Color RED_2, kind = ''bar_stacked''\<rparr>,
       \<lparr>promql = ''sum(rate(tidb_session_compile_duration_seconds_sum{sql_type="general"}[$__rate_interval]))'',
         legend = ''compile'', color = Color ORANGE, kind = ''bar_stacked''\<rparr>,
       \<lparr>promql = ''sum(rate(tidb_session_execute_duration_seconds_sum{sql_type="general"}[$__rate_interval]))'',
         legend = ''execute'', color = Color GREEN_3, kind = ''bar_stacked''\<rparr>,
       \<lparr>promql = ''sum(rate(tidb_server_get_token_duration_seconds_sum[$__rate_interval]))/1000000'',
         legend = ''get token'', color = Color RED_3, kind = ''bar_stacked''\<rparr>],
     unit = ''s'', nullValue = Some AS_ZERO\<rparr>,
    \<lparr>title = ''SQL Execute Time Overview'',
     queries = [
       \<lparr>promql = ''sum(rate(tidb_tikvclient_request_seconds_sum{store!="0"}[$__rate_interval])) by (type)'',
         legend = ''{type}'', color = ColorFn transformColorByExecTimeOverview, kind = ''bar_stacked''\<rparr>,
       \<lparr>promql = ''sum(rate(pd_client_cmd_handle_cmds_duration_seconds_sum{type="wait"}[$__rate_interval]))'',
         legend = ''tso_wait'', color = Color RED_5, kind = ''bar_stacked''\<rparr>],
     unit = ''s'', nullValue = None\<rparr>]\<close>

definition cc_application_connection :: "metric_panel list" where
  \<open>cc_application_connection = [
    \<lparr>title = ''Connection Count'',
     queries = [
       \<lparr>promql = ''sum(tidb_server_connections)'',
         legend = ''Total'', color = NoColor, kind = ''line''\<rparr>,
       \<lparr>promql = ''sum(tidb_server_tokens)'',
         legend = ''active connections'', color = NoColor, kind = ''line''\<rparr>],
     unit = ''short'', nullValue = Some AS_ZERO\<rparr>,
    \<lparr>title = ''Disconnection'',
     queries = [
       \<lparr>promql = ''sum(rate(tidb_server_disconnection_total[$__rate_interval])) by (instance, result)'',
         legend = ''{instance}-{result}'', color = NoColor, kind = ''area_stack''\<rparr>],
     unit = ''short'', nullValue = Some AS_ZERO\<rparr>]\<close>

definition cc_sql_count :: "metric_panel list" where
  \<open>cc_sql_count = [
    \<lparr>title = ''Query Per Second'',
     queries = [
       \<lparr>promql = ''sum(rate(tidb_executor_statement_total[$__rate_interval]))'',
         legend = ''Total'', color = NoColor, kind = ''line''\<rparr>,
       \<lparr>promql = ''sum(rate(tidb_executor_statement_total[$__rate_interval])) by (type)'',
         legend = ''{type}'', color = NoColor, kind = ''line''\<rparr>],
     unit = ''short'', nullValue = Some AS_ZERO\<rparr>,
    \<lparr>title = ''Failed Queries'',
     queries = [
       \<lparr>promql = ''sum(rate(tidb_server_execute_error_total[$__rate_interval]))'',
         legend = ''{type} @ {instance}'', color = NoColor, kind = ''line''\<rparr>],
     unit = ''short'', nullValue = Some AS_ZERO\<rparr>,
    \<lparr>title = ''Command Per Second'',
     queries = [
       \<lparr>promql = ''sum(rate(tidb_server_query_total[$__rate_interval])) by (type)'',
         legend = ''{type}'', color = NoColor, kind = ''line''\<rparr>],
     unit = ''short'', nullValue = Some AS_ZERO\<rparr>,
    \<lparr>title = ''Queries Using Plan Cache OPS'',
     queries = [
       \<lparr>promql = ''sum(rate(tidb_server_plan_cache_total[$__rate_interval]))'',
         legend = ''avg - hit'', color = NoColor, kind = ''line''\<rparr>,
       \<lparr>promql = ''sum(rate(tidb_server_plan_cache_miss_total[$__rate_interval]))'',
         legend = ''avg - miss'', color = NoColor, kind = ''line''\<rparr>],
     unit = ''short'', nullValue = Some AS_ZERO\<rparr>]\<close>

definition cc_latency_break_down :: "metric_panel list" where
  \<open>cc_latency_break_down = [
    \<lparr>title = ''Query Duration'',
     queries = [
       \<lparr>promql = ''sum(rate(tidb_server_handle_query_duration_seconds_sum{sql_type!="internal"}[$__rate_interval])) / sum(rate(tidb_server_handle_query_duration_seconds_count{sql_type!="internal"}[$__rate_interval]))'',
         legend = ''avg'', color = NoColor, kind = ''line''\<rparr>,
       \<lparr>promql = ''histogram_quantile(0.99, sum(rate(tidb_server_handle_query_duration_seconds_bucket{sql_type!="internal"}[$__rate_interval])) by (le))'',
         legend = ''99'', color = NoColor, kind = ''line''\<rparr>,
       \<lparr>promql = ''sum(rate(tidb_server_handle_query_duration_seconds_sum{sql_type!="internal"}[$__rate_interval])) by (sql_type) / sum(rate(tidb_server_handle_query_duration_seconds_count{sql_type!="internal"}[$__rate_interval])) by (sql_type)'',
         legend = ''avg-{sql_type}'', color = NoColor, kind = ''line''\<rparr>,
       \<lparr>promql = ''histogram_quantile(0.99, sum(rate(tidb_server_handle_query_duration_seconds_bucket[$__rate_interval])) by (le,sql_type))'',
         legend = ''99-{sql_type}'', color = NoColor, kind = ''line''\<rparr>],
     unit = ''s'', nullValue = Some AS_ZERO\<rparr>,
    \<lparr>title = ''Average Idle Connection Duration'',
     queries = [
       \<lparr>promql = ''(sum(rate(tidb_server_conn_idle_duration_seconds_sum{in_txn='1'}[$__rate_interval])) / sum(rate(tidb_server_conn_idle_duration_seconds_count{in_txn='1'}[$__rate_interval])))'',
         legend = ''avg-in-txn'', color = NoColor, kind = ''line''\<rparr>,
       \<lparr>promql = ''(sum(rate(tidb_server_conn_idle_duration_seconds_sum{in_txn='0'}[$__rate_interval])) / sum(rate(tidb_server_conn_idle_duration_seconds_count{in_txn='0'}[$__rate_interval])))'',
         legend = ''avg-not-in-txn'', color = NoColor, kind = ''line''\<rparr>],
     unit = ''s'', nullValue = Some AS_ZERO\<rparr>,
    \<lparr>title = ''Get Token Duration'',
     queries = [
       \<lparr>promql = ''sum(rate(tidb_server_get_token_duration_seconds_sum[$__rate_interval])) / sum(rate(tidb_server_get_token_duration_seconds_count[$__rate_interval]))'',
         legend = ''avg'', color = NoColor, kind = ''line''\<rparr>,
       \<lparr>promql = ''histogram_quantile(0.99, sum(rate(tidb_server_get_token_duration_seconds_bucket[$__rate_interval])) by (le))'',
         legend = ''99'', color = NoColor, kind = ''line''\<rparr>],
     unit = CHR 0xB5 # ''s'', nullValue = Some AS_ZERO\<rparr>,
    \<lparr>title = ''Parse Duration'',
     queries = [
       \<lparr>promql = ''(sum(rate(tidb_session_parse_duration_seconds_sum{sql_type="general"}[$__rate_interval])) / sum(rate(tidb_session_parse_duration_seconds_count{sql_type="general"}[$__rate_interval])))'',
         legend = ''avg'', color = NoColor, kind = ''line''\<rparr>,
       \<lparr>promql = ''histogram_quantile(0.99, sum(rate(tidb_session_parse_duration_seconds_bucket{sql_type="general"}[$__rate_interval])) by (le))'',
         legend = ''99'', color = NoColor, kind = ''line''\<rparr>],
     unit = ''s'', nullValue = Some AS_ZERO\<rparr>,
    \<lparr>title = ''Compile Duration'',
     queries = [
       \<lparr>promql = ''(sum(rate(tidb_session_compile_duration_seconds_sum{sql_type="general"}[$__rate_interval])) / sum(rate(tidb_session_compile_duration_seconds_count{sql_type="general"}[$__rate_interval])))'',
         legend = ''avg'', color = NoColor, kind = ''line''\<rparr>,
       \<lparr>promql = ''histogram_quantile(0.99, sum(rate(tidb_session_compile_duration_seconds_bucket{sql_type="general"}[$__rate_interval])) by (le))'',
         legend = ''99'', color = NoColor, kind = ''line''\<rparr>],
     unit = ''s'', nullValue = Some AS_ZERO\<rparr>,
    \<lparr>title = ''Execute Duration'',
     queries = [
       \<lparr>promql = ''(sum(rate(tidb_session_execute_duration_seconds_sum{sql_type="general"}[$__rate_interval])) / sum(rate(tidb_session_execute_duration_seconds_count{sql_type="general"}[$__rate_interval])))'',
         legend = ''avg'', color = NoColor, kind = ''line''\<rparr>,
       \<lparr>promql = ''histogram_quantile(0.99, sum(rate(tidb_session_execute_duration_seconds_bucket{sql_type="general"}[$__rate_interval])) by (le))'',
         legend = ''99'', color = NoColor, kind = ''line''\<rparr>],
     unit = ''s'', nullValue = Some AS_ZERO\<rparr>]\<close>

definition cc_transaction :: "metric_panel list" where
  \<open>cc_transaction = [
    \<lparr>title = ''Transaction Per Second'',
     queries = [
       \<lparr>promql = ''sum(rate(tidb_session_transaction_duration_seconds_count{scope=~"general"}[$__rate_interval])) by (type, txn_mode)'',
         legend = ''{type}-{txn_mode}'', color = NoColor, kind = ''line''\<rparr>],
     unit = ''short'', nullValue = Some AS_ZERO\<rparr>,
    \<lparr>title = ''Transaction Duration'',
     queries = [
       \<lparr>promql = ''sum(rate(tidb_session_transaction_duration_seconds_sum{scope=~"general"}[$__rate_interval])) by (txn_mode)/ sum(rate(tidb_session_transaction_duration_seconds_count{scope=~"general"}[$__rate_interval])) by (txn_mode)'',
         legend = ''avg-{txn_mode}'', color = NoColor, kind = ''line''\<rparr>,
       \<lparr>promql = ''histogram_quantile(0.99, sum(rate(tidb_session_transaction_duration_seconds_bucket[$__rate_interval])) by (le, txn_mode))'',
         legend = ''99-{txn_mode}'', color = NoColor, kind = ''line''\<rparr>],
     unit = ''s'', nullValue = None\<rparr>]\<close>

definition cc_core_path_duration_1 :: "metric_panel list" where
  \<open>cc_core_path_duration_1 = [
    \<lparr>title = ''Avg TiDB KV Request Duration'',
     queries = [
       \<lparr>promql = ''sum(rate(tidb_tikvclient_request_seconds_sum{store!="0"}[$__rate_interval])) by (type)/ sum(rate(tidb_tikvclient_request_seconds_count{store!="0"}[$__rate_interval])) by (type)'',
         legend = ''{type}'', color = NoColor, kind = ''line''\<rparr>],
     unit = ''s'', nullValue = Some AS_ZERO\<rparr>,
    \<lparr>title = ''Avg TiKV GRPC Duration'',
     queries = [
       \<lparr>promql = ''sum(rate(tikv_grpc_msg_duration_seconds_sum{store!="0"}[$__rate_interval])) by (type)/ sum(rate(tikv_grpc_msg_duration_seconds_count{store!="0"}[$__rate_interval])) by (type)'',
         legend = ''{type}'', color = NoColor, kind = ''line''\<rparr>],
     unit = ''s'', nullValue = Some AS_ZERO\<rparr>,
    \<lparr>title = ''Average / P99 PD TSO Wait/RPC Duration'',
     queries = [
       \<lparr>promql = ''(sum(rate(pd_client_cmd_handle_cmds_duration_seconds_sum{type="wait"}[$__rate_interval])) / sum(rate(pd_client_cmd_handle_cmds_duration_seconds_count{type="wait"}[$__rate_interval])))'',
         legend = ''wait - avg'', color = NoColor, kind = ''line''\<rparr>,
       \<lparr>promql = ''histogram_quantile(0.99, sum(rate(pd_client_cmd_handle_cmds_duration_seconds_bucket{type="wait"}[$__rate_interval])) by (le))'',
         legend = ''wait - 99'', color = NoColor, kind = ''line''\<rparr>,
       \<lparr>promql = ''(sum(rate(pd_client_request_handle_requests_duration_seconds_sum{type="tso"}[$__rate_interval])) / sum(rate(pd_client_request_handle_requests_duration_seconds_count{type="tso"}[$__rate_interval])))'',
         legend = ''rpc - avg'', color = NoColor, kind = ''line''\<rparr>,
       \<lparr>promql = ''histogram_quantile(0.99, sum(rate(pd_client_request_handle_requests_duration_seconds_bucket{type="tso"}[$__rate_interval])) by (le))'',
         legend = ''rpc - 99'', color = NoColor, kind = ''line''\<rparr>],
     unit = ''s'', nullValue = Some AS_ZERO\<rparr>,
    \<lparr>title = ''Average / P99 Storage Async Write Duration'',
     queries = [
       \<lparr>promql = ''sum(rate(tikv_storage_engine_async_request_duration_seconds_sum{type="write"}[$__rate_interval])) / sum(rate(tikv_storage_engine_async_request_duration_seconds_count{type="write"}[$__rate_interval]))'',
         legend = ''avg'', color = NoColor, kind = ''line''\<rparr>,
       \<lparr>promql = ''histogram_quantile(0.99, sum(rate(tikv_storage_engine_async_request_duration_seconds_bucket{type="write"}[$__rate_interval])) by (le))'',
         legend = ''99'', color = NoColor, kind = ''line''\<rparr>],
     unit = ''s'', nullValue = Some AS_ZERO\<rparr>,
    \<lparr>title = ''Average / P99 Store Duration'',
     queries = [
       \<lparr>promql = ''sum(rate(tikv_raftstore_store_duration_secs_sum[$__rate_interval])) / sum(rate(tikv_raftstore_store_duration_secs_count[$__rate_interval]))'',
         legend = ''avg'', color = NoColor, kind = ''line''\<rparr>,
       \<lparr>promql = ''histogram_quantile(0.99, sum(rate(tikv_raftstore_store_duration_secs_bucket[$__rate_interval])) by (le))'',
         legend = ''99'', color = NoColor, kind = ''line''\<rparr>],
     unit = ''s'', nullValue = Some AS_ZERO\<rparr>,
    \<lparr>title = ''Average / P99 Apply Duration'',
     queries = [
       \<lparr>promql = ''(sum(rate(tikv_raftstore_apply_duration_secs_sum[$__rate_interval])) / sum(rate(tikv_raftstore_apply_duration_secs_count[$__rate_interval])))'',
         legend = ''avg'', color = NoColor, kind = ''line''\<rparr>,
       \<lparr>promql = ''histogram_quantile(0.99, sum(rate(tikv_raftstore_apply_duration_secs_bucket[$__rate_interval])) by (le))'',
         legend = ''99'', color = NoColor, kind = ''line''\<rparr>],
     unit = ''s'', nullValue = Some AS_ZERO\<rparr>,
    \<lparr>title = ''Average / P99 Append Log Duration'',
     queries = [
       \<lparr>promql = ''(sum(rate(tikv_raftstore_append_log_duration_seconds_sum[$__rate_interval])) / sum(rate(tikv_raftstore_append_log_duration_seconds_count[$__rate_interval])))'',
         legend = ''avg'', color = NoColor, kind = ''line''\<rparr>,
       \<lparr>promql = ''histogram_quantile(0.99, sum(rate(tikv_raftstore_append_log_duration_seconds_bucket[$__rate_interval])) by (le))'',
         legend = ''99'', color = NoColor, kind = ''line''\<rparr>],
     unit = ''s'', nullValue = Some AS_ZERO\<rparr>]\<close>

definition cc_core_path_duration_2 :: "metric_panel list" where
  \<open>cc_core_path_duration_2 = [
    \<lparr>title = ''Average / P99 Commit Log Duration'',
     queries = [
       \<lparr>promql = ''(sum(rate(tikv_raftstore_commit_log_duration_seconds_sum[$__rate_interval])) / sum(rate(tikv_raftstore_commit_log_duration_seconds_count[$__rate_interval])))'',
         legend = ''avg'', color = NoColor, kind = ''line''\<rparr>,
       \<lparr>promql = ''histogram_quantile(0.99, sum(rate(tikv_raftstore_commit_log_duration_seconds_bucket[$__rate_interval])) by (le))'',
         legend = ''99'', color = NoColor, kind = ''line''\<rparr>],
     unit = ''s'', nullValue = Some AS_ZERO\<rparr>,
    \<lparr>title = ''Average / P99 Apply Log Duration'',
     queries = [
       \<lparr>promql = ''(sum(rate(tikv_raftstore_apply_log_duration_seconds_sum[$__rate_interval])) / sum(rate(tikv_raftstore_apply_log_duration_seconds_count[$__rate_interval])))'',
         legend = ''avg'', color = NoColor, kind = ''line''\<rparr>,
       \<lparr>promql = ''histogram_quantile(0.99, sum(rate(tikv_raftstore_apply_log_duration_seconds_bucket[$__rate_interval])) by (le))'',
         legend = ''99'', color = NoColor, kind = ''line''\<rparr>],
     unit = ''s'', nullValue = Some AS_ZERO\<rparr>]\<close>

definition cc_server_1 :: "version_test \<Rightarrow> string option \<Rightarrow> metric_panel list" where
  \<open>cc_server_1 compare pdVersion = [
    \<lparr>title = ''TiDB Uptime'',
     queries = [
       \<lparr>promql = ''(time() - process_start_time_seconds{component="tidb"})'',
         legend = ''{instance}'', color = NoColor, kind = ''line''\<rparr>],
     unit = ''s'', nullValue = Some AS_ZERO\<rparr>,
    \<lparr>title = ''TiDB CPU Usage'',
     queries = [
       \<lparr>promql = ''irate(process_cpu_seconds_total{component="tidb"}[$__rate_interval])'',
         legend = ''{instance}'', color = NoColor, kind = ''line''\<rparr>],
     unit = ''percentunit'', nullValue = Some AS_ZERO\<rparr>,
    \<lparr>title = ''TiDB Memory Usage'',
     queries = [
       \<lparr>promql = ''process_resident_memory_bytes{component="tidb"}'',
         legend = ''{instance}'', color = NoColor, kind = ''line''\<rparr>],
     unit = ''bytes'', nullValue = Some AS_ZERO\<rparr>,
    \<lparr>title = ''TiKV Uptime'',
     queries = [
       \<lparr>promql = ''(time() - process_start_time_seconds{component="tikv"})'',
         legend = ''{instance}'', color = NoColor, kind = ''line''\<rparr>],
     unit = ''s'', nullValue = None\<rparr>,
    \<lparr>title = ''TiKV CPU Usage'',
     queries = [
       \<lparr>promql = ''sum(rate(tikv_thread_cpu_seconds_total[$__rate_interval])) by (instance)'',
         legend = ''{instance}'', color = NoColor, kind = ''line''\<rparr>],
     unit = ''percentunit'', nullValue = None\<rparr>,
    \<lparr>title = ''TiKV Memory Usage'',
     queries = [
       \<lparr>promql = ''avg(process_resident_memory_bytes{component="tikv"}) by (instance)'',
         legend = ''{instance}'', color = NoColor, kind = ''line''\<rparr>],
     unit = ''bytes'', nullValue = None\<rparr>,
    \<lparr>title = ''TiKV IO MBps'',
     queries = [
       \<lparr>promql = ''sum(rate(tikv_engine_flow_bytes{db="kv", type="wal_file_bytes"}[$__rate_interval])) by (instance) + (sum(rate(tikv_engine_flow_bytes{db="raft", type="wal_file_bytes"}[$__rate_interval])) by (instance) or (0 * sum(rate(raft_engine_write_size_sum[$__rate_interval])) by (instance))) + (sum(rate(raft_engine_write_size_sum[$__rate_interval])) by (instance) or (0 * sum(rate(tikv_engine_flow_bytes{db="raft", type="wal_file_bytes"}[$__rate_interval])) by (instance)))'',
         legend = ''{instance}-write'', color = NoColor, kind = ''line''\<rparr>,
       \<lparr>promql = ''sum(rate(tikv_engine_flow_bytes{db="kv", type=~"bytes_read|iter_bytes_read"}[$__rate_interval])) by (instance)'',
         legend = ''{instance}-read'', color = NoColor, kind = ''line''\<rparr>],
     unit = ''Bps'', nullValue = None\<rparr>,
    \<lparr>title = ''TiKV Storage Usage'',
     queries = [
       \<lparr>promql = loadTiKVStoragePromql compare pdVersion,
         legend = ''{instance}'', color = NoColor, kind = ''area_stack''\<rparr>],
     unit = ''bytes'', nullValue = None\<rparr>,
    \<lparr>title = ''TiFlash Uptime'',
     queries = [
       \<lparr>promql = ''tiflash_system_asynchronous_metric_Uptime'',
         legend = ''{instance}'', color = NoColor, kind = ''line''\<rparr>],
     unit = ''s'', nullValue = Some AS_ZERO\<rparr>,
    \<lparr>title = ''TiFlash CPU Usage'',
     queries = [
       \<lparr>promql = ''rate(tiflash_proxy_process_cpu_seconds_total{component="tiflash"}[$__rate_interval])'',
         legend = ''{instance}'', color = NoColor, kind = ''line''\<rparr>],
     unit = ''percentunit'', nullValue = Some AS_ZERO\<rparr>,
    \<lparr>title = ''TiFlash Memory'',
     queries = [
       \<lparr>promql = ''tiflash_proxy_process_resident_memory_bytes{component="tiflash"}'',
         legend = ''{instance}'', color = NoColor, kind = ''line''\<rparr>],
     unit = ''bytes'', nullValue = Some AS_ZERO\<rparr>]\<close>

definition cc_server_2 :: "metric_panel list" where
  \<open>cc_server_2 = [
    \<lparr>title = ''TiFlash IO MBps'',
     queries = [
       \<lparr>promql = ''sum(rate(tiflash_system_profile_event_WriteBufferFromFileDescriptorWriteBytes[$__rate_interval])) by (instance) + sum(rate(tiflash_system_profile_event_PSMWriteBytes[$__rate_interval])) by (instance) + sum(rate(tiflash_system_profile_event_WriteBufferAIOWriteBytes[$__rate_interval])) by (instance)'',
         legend = ''{instance}-write'', color = NoColor, kind = ''line''\<rparr>,
       \<lparr>promql = ''sum(rate(tiflash_system_profile_event_ReadBufferFromFileDescriptorReadBytes[$__rate_interval])) by (instance) + sum(rate(tiflash_system_profile_event_PSMReadBytes[$__rate_interval])) by (instance) + sum(rate(tiflash_system_profile_event_ReadBufferAIOReadBytes[$__rate_interval])) by (instance)'',
         legend = ''{instance}-read'', color = NoColor, kind = ''line''\<rparr>],
     unit = ''Bps'', nullValue = None\<rparr>,
    \<lparr>title = ''TiFlash Storage Usage'',
     queries = [
       \<lparr>promql = ''sum(tiflash_system_current_metric_StoreSizeUsed) by (instance)'',
         legend = ''{instance}'', color = NoColor, kind = ''area_stack''\<rparr>],
     unit = ''bytes'', nullValue = None\<rparr>]\<close>

definition cc_getMonitoringItems :: "version_test \<Rightarrow> string option \<Rightarrow> MetricsQueryType list" where
  \<open>cc_getMonitoringItems compare pdVersion = [
     \<lparr>category = ''database_time'', metrics = cc_database_time\<rparr>,
     \<lparr>category = ''application_connection'', metrics = cc_application_connection\<rparr>,
     \<lparr>category = ''sql_count'', metrics = cc_sql_count\<rparr>,
     \<lparr>category = ''latency_break_down'', metrics = cc_latency_break_down\<rparr>,
     \<lparr>category = ''transaction'', metrics = cc_transaction\<rparr>,
     \<lparr>category = ''core_path_duration'', metrics = cc_core_path_duration_1 @ cc_core_path_duration_2\<rparr>,
     \<lparr>category = ''server'', metrics = cc_server_1 compare pdVersion @ cc_server_2\<rparr>]\<close>

subsection \<open>Overview and resource manager\<close>

definition op_overviewMetrics :: "metric_panel list" where
  \<open>op_overviewMetrics = [
    \<lparr>title = ''total_requests'',
     queries = [
       \<lparr>promql = ''sum(rate(tidb_executor_statement_total[$__rate_interval]))'',
         legend = ''Total'', color = NoColor, kind = ''line''\<rparr>,
       \<lparr>promql = ''sum(rate(tidb_executor_statement_total[$__rate_interval])) by (type)'',
         legend = ''{type}'', color = NoColor, kind = ''line''\<rparr>],
     unit = ''short'', nullValue = Some AS_ZERO\<rparr>,
    \<lparr>title = ''latency'',
     queries = [
       \<lparr>promql = ''sum(rate(tidb_server_handle_query_duration_seconds_sum{sql_type!="internal"}[$__rate_interval])) / sum(rate(tidb_server_handle_query_duration_seconds_count{sql_type!="internal"}[$__rate_interval]))'',
         legend = ''avg'', color = NoColor, kind = ''line''\<rparr>,
       \<lparr>promql = ''histogram_quantile(0.99, sum(rate(tidb_server_handle_query_duration_seconds_bucket{sql_type!="internal"}[$__rate_interval])) by (le))'',
         legend = ''99'', color = NoColor, kind = ''line''\<rparr>,
       \<lparr>promql = ''sum(rate(tidb_server_handle_query_duration_seconds_sum{sql_type!="internal"}[$__rate_interval])) by (sql_type) / sum(rate(tidb_server_handle_query_duration_seconds_count{sql_type!="internal"}[$__rate_interval])) by (sql_type)'',
         legend = ''avg-{sql_type}'', color = NoColor, kind = ''line''\<rparr>,
       \<lparr>promql = ''histogram_quantile(0.99, sum(rate(tidb_server_handle_query_duration_seconds_bucket{sql_type!="internal"}[$__rate_interval])) by (le,sql_type))'',
         legend = ''99-{sql_type}'', color = NoColor, kind = ''line''\<rparr>],
     unit = ''s'', nullValue = Some AS_ZERO\<rparr>,
    \<lparr>title = ''cpu'',
     queries = [
       \<lparr>promql = ''rate(process_cpu_seconds_total{job="tidb"}[$__rate_interval])'',
         legend = ''{instance}'', color = NoColor, kind = ''line''\<rparr>],
     unit = ''percentunit'', nullValue = Some AS_ZERO\<rparr>,
    \<lparr>title = ''memory'',
     queries = [
       \<lparr>promql = ''process_resident_memory_bytes{job="tidb"}'',
         legend = ''{instance}'', color = NoColor, kind = ''line''\<rparr>],
     unit = ''bytes'', nullValue = Some AS_ZERO\<rparr>,
    \<lparr>title = ''io'',
     queries = [
       \<lparr>promql = ''sum(rate(tikv_engine_flow_bytes{db="kv", type="wal_file_bytes"}[$__rate_interval])) by (instance) + sum(rate(tikv_engine_flow_bytes{db="raft", type="wal_file_bytes"}[$__rate_interval])) by (instance) + sum(rate(raft_engine_write_size_sum[$__rate_interval])) by (instance)'',
         legend = ''{instance}-write'', color = NoColor, kind = ''line''\<rparr>,
       \<lparr>promql = ''sum(rate(tikv_engine_flow_bytes{db="kv", type=~"bytes_read|iter_bytes_read"}[$__rate_interval])) by (instance)'',
         legend = ''{instance}-read'', color = NoColor, kind = ''line''\<rparr>],
     unit = ''Bps'', nullValue = None\<rparr>]\<close>

definition cc_overviewMetrics :: "metric_panel list" where
  \<open>cc_overviewMetrics = [
    \<lparr>title = ''total_requests'',
     queries = [
       \<lparr>promql = ''sum(rate(tidb_executor_statement_total[$__rate_interval]))'',
         legend = ''Total'', color = NoColor, kind = ''line''\<rparr>,
       \<lparr>promql = ''sum(rate(tidb_executor_statement_total[$__rate_interval])) by (type)'',
         legend = ''{type}'', color = NoColor, kind = ''line''\<rparr>],
     unit = ''short'', nullValue = Some AS_ZERO\<rparr>,
    \<lparr>title = ''latency'',
     queries = [
       \<lparr>promql = ''sum(rate(tidb_server_handle_query_duration_seconds_sum{sql_type!="internal"}[$__rate_interval])) / sum(rate(tidb_server_handle_query_duration_seconds_count{sql_type!="internal"}[$__rate_interval]))'',
         legend = ''avg'', color = NoColor, kind = ''line''\<rparr>,
       \<lparr>promql = ''histogram_quantile(0.99, sum(rate(tidb_server_handle_query_duration_seconds_bucket{sql_type!="internal"}[$__rate_interval])) by (le))'',
         legend = ''99'', color = NoColor, kind = ''line''\<rparr>,
       \<lparr>promql = ''sum(rate(tidb_server_handle_query_duration_seconds_sum{sql_type!="internal"}[$__rate_interval])) by (sql_type) / sum(rate(tidb_server_handle_query_duration_seconds_count{sql_type!="internal"}[$__rate_interval])) by (sql_type)'',
         legend = ''avg-{sql_type}'', color = NoColor, kind = ''line''\<rparr>,
       \<lparr>promql = ''histogram_quantile(0.99, sum(rate(tidb_server_handle_query_duration_seconds_bucket{sql_type!="internal"}[$__rate_interval])) by (le,sql_type))'',
         legend = ''99-{sql_type}'', color = NoColor, kind = ''line''\<rparr>],
     unit = ''s'', nullValue = Some AS_ZERO\<rparr>,
    \<lparr>title = ''cpu'',
     queries = [
       \<lparr>promql = ''irate(process_cpu_seconds_total{component="tidb"}[$__rate_interval])'',
         legend = ''{instance}'', color = NoColor, kind = ''line''\<rparr>],
     unit = ''percentunit'', nullValue = Some AS_ZERO\<rparr>,
    \<lparr>title = ''memory'',
     queries = [
       \<lparr>promql = ''process_resident_memory_bytes{component="tidb"}'',
         legend = ''{instance}'', color = NoColor, kind = ''line''\<rparr>],
     unit = ''bytes'', nullValue = Some AS_ZERO\<rparr>,
    \<lparr>title = ''io'',
     queries = [
       \<lparr>promql = ''sum(rate(tikv_engine_flow_bytes{db="kv", type="wal_file_bytes"}[$__rate_interval])) by (instance) + (sum(rate(tikv_engine_flow_bytes{db="raft", type="wal_file_bytes"}[$__rate_interval])) by (instance) or (0 * sum(rate(raft_engine_write_size_sum[$__rate_interval])) by (instance))) + (sum(rate(raft_engine_write_size_sum[$__rate_interval])) by (instance) or (0 * sum(rate(tikv_engine_flow_bytes{db="raft", type="wal_file_bytes"}[$__rate_interval])) by (instance)))'',
         legend = ''{instance}-write'', color = NoColor, kind = ''line''\<rparr>,
       \<lparr>promql = ''sum(rate(tikv_engine_flow_bytes{db="kv", type=~"bytes_read|iter_bytes_read"}[$__rate_interval])) by (instance)'',
         legend = ''{instance}-read'', color = NoColor, kind = ''line''\<rparr>],
     unit = ''Bps'', nullValue = None\<rparr>]\<close>

definition resource_metrics :: "metric_panel list" where
  \<open>resource_metrics = [
    \<lparr>title = ''Total RU Consumed'',
     queries = [
       \<lparr>promql = ''sum(rate(resource_manager_resource_unit_read_request_unit_sum[1m])) + sum(rate(resource_manager_resource_unit_write_request_unit_sum[1m]))'',
         legend = ''Total RU'', color = NoColor, kind = ''line''\<rparr>],
     unit = ''short'', nullValue = Some AS_ZERO\<rparr>,
    \<lparr>title = ''RU Consumed by Resource Groups'',
     queries = [
       \<lparr>promql = ''sum(rate(resource_manager_resource_unit_read_request_unit_sum[1m])) by (name) + sum(rate(resource_manager_resource_unit_write_request_unit_sum[1m])) by (name)'',
         legend = ''{name}'', color = NoColor, kind = ''line''\<rparr>],
     unit = ''short'', nullValue = Some AS_ZERO\<rparr>,
    \<lparr>title = ''TiDB CPU Usage'',
     queries = [
       \<lparr>promql = ''rate(process_cpu_seconds_total{job="tidb"}[30s])'',
         legend = ''{instance}'', color = NoColor, kind = ''line''\<rparr>,
       \<lparr>promql = ''tidb_server_maxprocs'',
         legend = ''Limit-{instance}'', color = NoColor, kind = ''line''\<rparr>],
     unit = ''percentunit'', nullValue = Some AS_ZERO\<rparr>,
    \<lparr>title = ''TiKV CPU Usage'',
     queries = [
       \<lparr>promql = ''sum(rate(tikv_thread_cpu_seconds_total[$__rate_interval])) by (instance)'',
         legend = ''{instance}'', color = NoColor, kind = ''line''\<rparr>,
       \<lparr>promql = ''tikv_server_cpu_cores_quota'',
         legend = ''Limit-{instance}'', color = NoColor, kind = ''line''\<rparr>],
     unit = ''percentunit'', nullValue = None\<rparr>,
    \<lparr>title = ''TiKV IO MBps'',
     queries = [
       \<lparr>promql = ''sum(rate(tikv_engine_flow_bytes{db="kv", type="wal_file_bytes"}[$__rate_interval])) by (instance) + sum(rate(tikv_engine_flow_bytes{db="raft", type="wal_file_bytes"}[$__rate_interval])) by (instance) + sum(rate(raft_engine_write_size_sum[$__rate_interval])) by (instance)'',
         legend = ''{instance}-write'', color = NoColor, kind = ''line''\<rparr>,
       \<lparr>promql = ''sum(rate(tikv_engine_flow_bytes{db="kv", type=~"bytes_read|iter_bytes_read"}[$__rate_interval])) by (instance)'',
         legend = ''{instance}-read'', color = NoColor, kind = ''line''\<rparr>],
     unit = ''Bps'', nullValue = None\<rparr>]\<close>

subsection \<open>Checks\<close>

text \<open>Brackets and quotes of a query are balanced; \<open>st\<close> holds the closing brackets that are due.\<close>

fun balanced :: "string \<Rightarrow> bool \<Rightarrow> string \<Rightarrow> bool" where
  \<open>balanced st quoted [] \<longleftrightarrow> st = [] \<and> \<not> quoted\<close>
| \<open>balanced st quoted (c # cs) \<longleftrightarrow>
     (if quoted then balanced st (c \<noteq> CHR 0x22) cs
      else if c = CHR 0x22 then balanced st True cs
      else if c = CHR ''('' then balanced (CHR '')'' # st) False cs
      else if c = CHR ''['' then balanced (CHR '']'' # st) False cs
      else if c = CHR ''{'' then balanced (CHR ''}'' # st) False cs
      else if c = CHR '')'' \<or> c = CHR '']'' \<or> c = CHR ''}'' then
        (case st of [] \<Rightarrow> False | d # st' \<Rightarrow> d = c \<and> balanced st' False cs)
      else balanced st False cs)\<close>

text \<open>The labels a legend asks for, \<open>{label}\<close>, and the labels of each \<open>by\<close> clause of a query.\<close>

fun legend_labels :: "string \<Rightarrow> string list" where
  "legend_labels [] = []"
| "legend_labels (c # cs) =
     (if c = CHR ''{'' then takeWhile (\<lambda>d. d \<noteq> CHR ''}'') cs # legend_labels cs else legend_labels cs)"

fun by_clauses :: "string \<Rightarrow> string list list" where
  "by_clauses [] = []"
| "by_clauses (c # cs) =
     (if c = CHR ''b'' \<and> take 3 cs = ''y (''
      then map trim (split_on CHR '','' (takeWhile (\<lambda>d. d \<noteq> CHR '')'') (drop 3 cs))) # by_clauses cs
      else by_clauses cs)"

fun aggregates :: "string \<Rightarrow> bool" where
  "aggregates [] = False"
| "aggregates (c # cs) \<longleftrightarrow>
     (c = CHR ''s'' \<and> take 3 cs = ''um('') \<or> (c = CHR ''a'' \<and> take 3 cs = ''vg('') \<or> aggregates cs"

definition legend_ok :: "QueryConfig \<Rightarrow> bool" where
  "legend_ok q \<longleftrightarrow>
     (legend_labels (legend q) = [] \<or> by_clauses (promql q) \<noteq> [] \<or> \<not> aggregates (promql q)) \<and>
     list_all (\<lambda>l. list_all (\<lambda>ls. l \<in> set ls) (by_clauses (promql q))) (legend_labels (legend q))"

text \<open>No variable but the rate interval is left in a query, and a query is drawn as one of the known kinds.\<close>

definition query_ok :: "QueryConfig \<Rightarrow> bool" where
  "query_ok q \<longleftrightarrow>
     promql q \<noteq> [] \<and> legend q \<noteq> [] \<and> balanced [] False (promql q) \<and>
     CHR ''$'' \<notin> set (replaceAll (promql q) rate_interval []) \<and>
     (kind q = ''line'' \<or> kind q = ''bar_stacked'' \<or> kind q = ''area_stack'')"

definition panel_ok :: "metric_panel \<Rightarrow> bool" where
  "panel_ok p \<longleftrightarrow> title p \<noteq> [] \<and> unit p \<noteq> [] \<and> queries p \<noteq> [] \<and> list_all query_ok (queries p)"

abbreviation legends_ok :: "metric_panel list \<Rightarrow> bool" where
  "legends_ok \<equiv> list_all (\<lambda>p. list_all legend_ok (queries p))"

lemma loadTiKVStoragePromql_cases:
  \<open>loadTiKVStoragePromql compare pdVersion = ''sum(tikv_engine_size_bytes) by (instance)'' \<or>
   loadTiKVStoragePromql compare pdVersion = ''sum(tikv_store_size_bytes{type="used"}) by (instance)''\<close>
  by (simp add: loadTiKVStoragePromql_def split: option.split)

lemma op_database_time_typed [simp]: "list_all panel_ok op_database_time"
  by code_simp

lemma op_database_time_legends [simp]: "legends_ok op_database_time"
  by code_simp

lemma op_application_connection_typed [simp]: "list_all panel_ok op_application_connection"
  by code_simp

lemma op_application_connection_legends [simp]: "legends_ok op_application_connection"
  by code_simp

lemma op_sql_count_typed [simp]: "list_all panel_ok op_sql_count"
  by code_simp

lemma op_sql_count_legends [simp]: "legends_ok op_sql_count"
  by code_simp

lemma op_latency_break_down_typed [simp]: "list_all panel_ok op_latency_break_down"
  by code_simp

lemma op_latency_break_down_legends [simp]: "legends_ok op_latency_break_down"
  by code_simp

lemma op_transaction_typed [simp]: "list_all panel_ok op_transaction"
  by code_simp

lemma op_transaction_legends [simp]: "legends_ok op_transaction"
  by code_simp

lemma op_core_path_duration_1_typed [simp]: "list_all panel_ok op_core_path_duration_1"
  by code_simp

lemma op_core_path_duration_1_legends [simp]: "legends_ok op_core_path_duration_1"
  by code_simp

lemma op_core_path_duration_2_typed [simp]: "list_all panel_ok op_core_path_duration_2"
  by code_simp

lemma op_core_path_duration_2_legends [simp]: "legends_ok op_core_path_duration_2"
  by code_simp

lemma op_server_1_typed [simp]: "list_all panel_ok (op_server_1 compare pdVersion)"
  using loadTiKVStoragePromql_cases [of compare pdVersion] unfolding op_server_1_def
  by (elim disjE; simp only:; code_simp)

lemma op_server_1_legends [simp]: "legends_ok (op_server_1 compare pdVersion)"
  using loadTiKVStoragePromql_cases [of compare pdVersion] unfolding op_server_1_def
  by (elim disjE; simp only:; code_simp)

lemma op_server_2_typed [simp]: "list_all panel_ok op_server_2"
  by code_simp

lemma op_server_2_legends [simp]: "legends_ok op_server_2"
  by code_simp

lemma cc_database_time_typed [simp]: "list_all panel_ok cc_database_time"
  by code_simp

lemma cc_database_time_legends [simp]: "legends_ok cc_database_time"
  by code_simp

lemma cc_application_connection_typed [simp]: "list_all panel_ok cc_application_connection"
  by code_simp

lemma cc_application_connection_legends [simp]: "legends_ok cc_application_connection"
  by code_simp

lemma cc_sql_count_typed [simp]: "list_all panel_ok cc_sql_count"
  by code_simp

lemma cc_latency_break_down_typed [simp]: "list_all panel_ok cc_latency_break_down"
  by code_simp

lemma cc_latency_break_down_legends [simp]: "legends_ok cc_latency_break_down"
  by code_simp

lemma cc_transaction_typed [simp]: "list_all panel_ok cc_transaction"
  by code_simp

lemma cc_transaction_legends [simp]: "legends_ok cc_transaction"
  by code_simp

lemma cc_core_path_duration_1_typed [simp]: "list_all panel_ok cc_core_path_duration_1"
  by code_simp

lemma cc_core_path_duration_1_legends [simp]: "legends_ok cc_core_path_duration_1"
  by code_simp

lemma cc_core_path_duration_2_typed [simp]: "list_all panel_ok cc_core_path_duration_2"
  by code_simp

lemma cc_core_path_duration_2_legends [simp]: "legends_ok cc_core_path_duration_2"
  by code_simp

lemma cc_server_1_typed [simp]: "list_all panel_ok (cc_server_1 compare pdVersion)"
  using loadTiKVStoragePromql_cases [of compare pdVersion] unfolding cc_server_1_def
  by (elim disjE; simp only:; code_simp)

lemma cc_server_1_legends [simp]: "legends_ok (cc_server_1 compare pdVersion)"
  using loadTiKVStoragePromql_cases [of compare pdVersion] unfolding cc_server_1_def
  by (elim disjE; simp only:; code_simp)

lemma cc_server_2_typed [simp]: "list_all panel_ok cc_server_2"
  by code_simp

lemma cc_server_2_legends [simp]: "legends_ok cc_server_2"
  by code_simp

lemma op_overviewMetrics_typed [simp]: "list_all panel_ok op_overviewMetrics"
  by code_simp

lemma op_overviewMetrics_legends [simp]: "legends_ok op_overviewMetrics"
  by code_simp

lemma cc_overviewMetrics_typed [simp]: "list_all panel_ok cc_overviewMetrics"
  by code_simp

lemma cc_overviewMetrics_legends [simp]: "legends_ok cc_overviewMetrics"
  by code_simp

lemma resource_metrics_typed [simp]: "list_all panel_ok resource_metrics"
  by code_simp

lemma resource_metrics_legends [simp]: "legends_ok resource_metrics"
  by code_simp

subsection \<open>Resolving the templates of the panels\<close>

text \<open>Text without brackets and quotes does not matter for the balance of a query.\<close>

definition plain :: "string \<Rightarrow> bool" where
  "plain s \<longleftrightarrow> set s \<inter> {CHR 0x22, CHR ''('', CHR '')'', CHR ''['', CHR '']'', CHR ''{'', CHR ''}''} = {}"

lemma balanced_plain: "plain r \<Longrightarrow> balanced st quoted (r @ s) = balanced st quoted s"
  by (induction r) (auto simp: plain_def)

lemma replace_from_skip: "n \<le> length s \<Longrightarrow> replace_from n p r s = replace_from 0 p r (drop n s)"
proof (induction s arbitrary: n)
  case (Cons c s)
  then show ?case by (cases n) auto
qed simp

lemma balanced_replace:
  assumes "plain p" "plain r" "p \<noteq> []"
  shows "balanced st quoted (replace_from 0 p r s) = balanced st quoted s"
proof (induction s arbitrary: st quoted rule: length_induct)
  case (1 s)
  show ?case
  proof (cases s)
    case (Cons c cs)
    show ?thesis
    proof (cases "prefix p s")
      case True
      then obtain rest where rest: "s = p @ rest" by (auto elim: prefixE)
      then have "drop (length p - 1) cs = rest"
        using Cons assms(3) by (cases p) auto
      then have "replace_from 0 p r s = r @ replace_from 0 p r rest"
        using True Cons rest assms(3) replace_from_skip [of "length p - 1" cs p r]
        by (cases p) (auto dest: prefix_length_le)
      moreover have "length rest < length s"
        using rest assms(3) by simp
      ultimately show ?thesis
        using 1 rest by (simp add: balanced_plain assms)
    next
      case False
      then have "replace_from 0 p r s = c # replace_from 0 p r cs"
        using Cons by simp
      moreover have "balanced st' q' (replace_from 0 p r cs) = balanced st' q' cs" for st' q'
        using 1 Cons by simp
      ultimately show ?thesis
        using Cons by (simp split: list.splits)
    qed
  qed simp
qed

lemma set_replace_from: "set (replace_from n p r s) \<subseteq> set (replace_from n p [] s) \<union> set r"
  by (induction n p r s rule: replace_from.induct) auto

definition resolved_ok :: "QueryOptions \<Rightarrow> QueryConfig \<Rightarrow> bool" where
  "resolved_ok options q \<longleftrightarrow>
     balanced [] False (resolveQueryTemplate (promql q) options) \<and>
     CHR ''$'' \<notin> set (resolveQueryTemplate (promql q) options)"

abbreviation resolved_panels :: "QueryOptions \<Rightarrow> metric_panel list \<Rightarrow> bool" where
  "resolved_panels options \<equiv> list_all (\<lambda>p. list_all (resolved_ok options) (queries p))"

lemma query_ok_resolved:
  assumes "q_step options = Fin s" and "query_ok q"
  shows "resolved_ok options q"
proof -
  obtain a where "js_max (q_step options) (Fin 4 * DEFAULT_MIN_INTERVAL_SEC) = Fin a"
    by (simp add: assms(1) DEFAULT_MIN_INTERVAL_SEC_def)
  then have res: "resolveQueryTemplate (promql q) options =
      replace_from 0 rate_interval (show_num (Fin a) @ ''s'') (promql q)"
    by (simp add: resolveQueryTemplate_def replaceAll_def del: show_num.simps)
  have chars: "is_digit c \<or> c \<in> {CHR ''-'', CHR ''.'', CHR ''s''}" if "c \<in> set (show_num (Fin a) @ ''s'')" for c
    using that show_num_chars [of c a] by (auto simp del: show_num.simps)
  have "plain (show_num (Fin a) @ ''s'')" "CHR ''$'' \<notin> set (show_num (Fin a) @ ''s'')"
    using chars unfolding plain_def
    by (fastforce simp: is_digit_def code_def simp del: show_num.simps set_append)+
  moreover have "plain rate_interval" "rate_interval \<noteq> []"
    by (simp_all add: plain_def rate_interval_def)
  ultimately show ?thesis
    using assms(2) set_replace_from [of 0 rate_interval "show_num (Fin a) @ ''s''" "promql q"]
    by (auto simp: resolved_ok_def query_ok_def res balanced_replace replaceAll_def simp del: show_num.simps set_append)
qed

lemma panels_resolved:
  "q_step options = Fin s \<Longrightarrow> list_all panel_ok ps \<Longrightarrow> resolved_panels options ps"
  by (auto simp: list_all_iff panel_ok_def intro: query_ok_resolved)

lemmas monitoring_defs = op_getMonitoringItems_def cc_getMonitoringItems_def



text \<open>
  The legend of every series can be filled in: each label a legend asks for is one of the labels by which
  every aggregation of its query groups. The one exception is the panel of failed queries of the cloud
  distribution, which sums over all labels but asks for the type and the instance.
\<close>

theorem metric_legends_named:
  "list_all (\<lambda>c. legends_ok (metrics c)) (op_getMonitoringItems compare pdVersion) \<and>
   legends_ok (op_overviewMetrics @ cc_overviewMetrics @ resource_metrics) \<and>
   map (\<lambda>q. (promql q, legend q))
     (filter (\<lambda>q. \<not> legend_ok q) (concat (map queries (concat (map metrics (cc_getMonitoringItems compare pdVersion)))))) =
   [(''sum(rate(tidb_server_execute_error_total[$__rate_interval]))'', ''{type} @ {instance}'')]"
proof -
  have none: "filter (\<lambda>q. \<not> legend_ok q) (concat (map queries ps)) = []" if "legends_ok ps" for ps
    using that by (auto simp: list_all_iff filter_empty_conv)
  have "map (\<lambda>q. (promql q, legend q)) (filter (\<lambda>q. \<not> legend_ok q) (concat (map queries cc_sql_count))) =
      [(''sum(rate(tidb_server_execute_error_total[$__rate_interval]))'', ''{type} @ {instance}'')]"
    by code_simp
  then show ?thesis
    by (simp add: monitoring_defs none)
qed

end
