(* ===== verification/InstanceSelect.thy ===== *)
theory InstanceSelect
  imports InstanceTable Selection
begin

text \<open>
  \<open>components/InstanceSelect\<close>: the drop-down that lets the user choose instances. It composes the instance
  table (\<open>buildInstanceTable\<close>) with the filtered selection (\<open>SelectionWithFilter\<close>) and keeps a value, the keys
  chosen, in step with it: a change of the selection writes the value, a change of the value resets
  the selection. \<open>ValueDisplay.tsx\<close> is the text of the value.
\<close>

subsection \<open>The component\<close>

record ('x, 'i) inst_select =
  sel :: "('x IInstanceTableItem, 'i) swf"
  internalVal :: "key list option"
  dataHasLoaded :: bool

definition or_empty :: "'a list option \<Rightarrow> 'a list" where
  "or_empty v = (case v of Some xs \<Rightarrow> xs | None \<Rightarrow> [])"

definition new_select :: "('x IInstanceTableItem, 'i) fabric \<Rightarrow> key list option \<Rightarrow> ('x, 'i) inst_select" where
  "new_select F v = \<lparr>sel = new_swf F, internalVal = v, dataHasLoaded = False\<rparr>"

text \<open>The rows: none while one of the requests is loading.\<close>

definition tableItems ::
    "(InstanceKind \<Rightarrow> string) \<Rightarrow> bool list \<Rightarrow> 'x IBuildInstanceTableProps \<Rightarrow> 'x IInstanceTableItem list" where
  "tableItems kindName loading p = (if True \<in> set loading then [] else fst (buildInstanceTable kindName p))"

text \<open>An operation on the selection, and \<open>onSelectionChanged\<close> when it notifies.\<close>

definition sel_op ::
    "('x IInstanceTableItem, 'i) fabric \<Rightarrow>
     (('x IInstanceTableItem, 'i) swf \<Rightarrow> ('x IInstanceTableItem, 'i) swf) \<Rightarrow>
     ('x, 'i) inst_select \<Rightarrow> ('x, 'i) inst_select" where
  "sel_op F f st =
     (let s = f (sel st)
      in if notified s = notified (sel st) then st\<lparr>sel := s\<rparr>
         else (let (items, s') = getAllSelection F s
               in st\<lparr>sel := s', internalVal := Some (map item_key items)\<rparr>))"

definition value_effect :: "('x IInstanceTableItem, 'i) fabric \<Rightarrow> ('x, 'i) inst_select \<Rightarrow> ('x, 'i) inst_select" where
  "value_effect F st = sel_op F (resetAllSelection F (or_empty (internalVal st))) st"

text \<open>The effect of new rows: only the first rows are taken over.\<close>

definition load_items ::
    "('x IInstanceTableItem, 'i) fabric \<Rightarrow> bool \<Rightarrow> 'x IInstanceTableItem list \<Rightarrow>
     ('x, 'i) inst_select \<Rightarrow> ('x, 'i) inst_select" where
  "load_items F defaultSelectAll items st =
     (if dataHasLoaded st \<or> items = [] then st
      else (let st = sel_op F (call (i_setChangeEvents F False False)) st;
                st = sel_op F (setAllItems F items) st;
                st = (if or_empty (internalVal st) \<noteq> []
                      then sel_op F (resetAllSelection F (or_empty (internalVal st))) st
                      else if defaultSelectAll then sel_op F (setAllSelectionSelected F True) st
                      else st);
                st = sel_op F (call (i_setChangeEvents F True False)) st
            in st\<lparr>dataHasLoaded := True\<rparr>))"

definition getInstanceByKeys :: "'x IInstanceTableItem list \<Rightarrow> key list \<Rightarrow> 'x IInstanceTableItem option list" where
  "getInstanceByKeys items ks =
     (let keyToItemMap = fold (\<lambda>i m. m(item_key i \<mapsto> i)) items Map.empty in map keyToItemMap ks)"

definition getInstanceByKey :: "'x IInstanceTableItem list \<Rightarrow> key \<Rightarrow> 'x IInstanceTableItem option" where
  "getInstanceByKey items k = getInstanceByKeys items [k] ! 0"

text \<open>
  What happens to a loaded component: the user acts on the rows, the filter changes the rows shown, the
  owner of the component sets the value. The effect on the value runs whenever the value has changed.
\<close>

datatype ('x, 'i) is_event =
    IUser "'i upd"
  | IFilter "'x IInstanceTableItem list"
  | IValue "key list"

fun is_handle :: "('x IInstanceTableItem, 'i) fabric \<Rightarrow> ('x, 'i) is_event \<Rightarrow> ('x, 'i) inst_select \<Rightarrow> ('x, 'i) inst_select" where
  "is_handle F (IUser f) st = (if user_op F f then sel_op F (call f) st else st)"
| "is_handle F (IFilter items) st = sel_op F (setItems F items None) st"
| "is_handle F (IValue ks) st = st\<lparr>internalVal := Some ks\<rparr>"

definition settle_value ::
    "('x IInstanceTableItem, 'i) fabric \<Rightarrow> key list option \<Rightarrow> ('x, 'i) inst_select \<Rightarrow> ('x, 'i) inst_select" where
  "settle_value F old st = (if internalVal st = old then st else value_effect F st)"

definition is_step :: "('x IInstanceTableItem, 'i) fabric \<Rightarrow> ('x, 'i) is_event \<Rightarrow> ('x, 'i) inst_select \<Rightarrow> ('x, 'i) inst_select" where
  "is_step F e st = (let st1 = is_handle F e st in settle_value F (internalVal st) st1)"

subsection \<open>The text of the value\<close>

record InstanceStat =
  all_count :: nat
  selected_count :: nat

definition instanceStats :: "'x IInstanceTableItem list \<Rightarrow> key list \<Rightarrow> InstanceKind \<Rightarrow> InstanceStat" where
  "instanceStats items selectedKeys =
     fold (\<lambda>i st. st(instanceKind i :=
             \<lparr>all_count = Suc (all_count (st (instanceKind i))),
              selected_count = (if item_key i \<in> set selectedKeys then Suc (selected_count (st (instanceKind i)))
                                else selected_count (st (instanceKind i)))\<rparr>))
       items (\<lambda>_. \<lparr>all_count = 0, selected_count = 0\<rparr>)"

definition ValueDisplay ::
    "string \<Rightarrow> (InstanceKind \<Rightarrow> string) \<Rightarrow> (nat \<Rightarrow> InstanceKind \<Rightarrow> string) \<Rightarrow>
     'x IInstanceTableItem list \<Rightarrow> key list \<Rightarrow> string" where
  "ValueDisplay allText partialAll partialN items selectedKeys =
     (let stats = instanceStats items selectedKeys;
          hasUnselected = list_ex (\<lambda>ik. selected_count (stats ik) \<noteq> all_count (stats ik)) InstanceKinds;
          p = map (\<lambda>ik. if all_count (stats ik) = selected_count (stats ik) then partialAll ik
                        else partialN (selected_count (stats ik)) ik)
                (filter (\<lambda>ik. selected_count (stats ik) > 0) InstanceKinds)
      in if \<not> hasUnselected then allText else join '', '' p)"

subsection \<open>The value and the selection agree\<close>

lemma or_empty_simps [simp]: "or_empty None = []" "or_empty (Some xs) = xs"
  by (simp_all add: or_empty_def)

definition agree :: "('x IInstanceTableItem, 'i) fabric \<Rightarrow> ('i \<Rightarrow> nat) \<Rightarrow> ('x, 'i) inst_select \<Rightarrow> bool" where
  "agree F suspended st \<longleftrightarrow>
     swf_inv F suspended (sel st) \<and> synced F (sel st) \<and> distinct (or_empty (internalVal st)) \<and>
     set (or_empty (internalVal st)) \<inter> fst ` set (allItemsMap (sel st)) = selected_keys F (sel st)"

text \<open>The owner sets a value without repetitions.\<close>

definition event_ok :: "('x, 'i) is_event \<Rightarrow> bool" where
  "event_ok e \<longleftrightarrow> (case e of IValue ks \<Rightarrow> distinct ks | _ \<Rightarrow> True)"

lemma notified_call [simp]:
  "notified (call f s) = (if snd (f (inner s)) then Suc (notified s) else notified s)"
  by (simp add: call_def triggerSelectionChanged_def Let_def split: prod.split)

lemma call_quiet: "\<not> snd (f (inner s)) \<Longrightarrow> call f s = s\<lparr>inner := fst (f (inner s))\<rparr>"
  by (cases "f (inner s)") (simp add: call_def)

lemma notified_call_mono: "notified s \<le> notified (call f s)"
  by simp

lemma notified_select_keys: "notified s \<le> notified (select_keys F ks s)"
proof (induction ks arbitrary: s)
  case (Cons k ks)
  from order_trans [OF notified_call_mono Cons.IH] show ?case
    unfolding select_keys_def by simp
qed (simp add: select_keys_def)

lemma notified_trigger [simp]: "notified (triggerSelectionChanged s) = Suc (notified s)"
  by (simp add: triggerSelectionChanged_def)

lemma notified_reset: "notified (resetAllSelection F ks s) = notified s \<Longrightarrow> unChanged ks s"
proof (rule ccontr)
  assume "notified (resetAllSelection F ks s) = notified s" and "\<not> unChanged ks s"
  define s1 where "s1 = call (i_setAllSelected F False) (call (i_setChangeEvents F False False)
    (s\<lparr>allSelectedKeysSet := fold set_add (filter (\<lambda>k. k \<in> fst ` set (allItemsMap s)) ks) []\<rparr>))"
  define s2 where "s2 = select_keys F (filter (\<lambda>k. k \<in> set (itemKeysSet s)) ks) s1"
  have "notified s \<le> notified s1"
    by (simp add: s1_def)
  also have "\<dots> \<le> notified s2"
    by (simp add: s2_def notified_select_keys)
  also have "\<dots> \<le> notified (call (i_setChangeEvents F True True) s2)"
    by (rule notified_call_mono)
  finally show False
    using \<open>notified (resetAllSelection F ks s) = notified s\<close> \<open>\<not> unChanged ks s\<close>
    by (simp add: resetAllSelection_def Let_def s1_def [symmetric] s2_def [symmetric] del: notified_call)
qed

lemma allItemsMap_getAllSelection [simp]: "allItemsMap (snd (getAllSelection F s)) = allItemsMap s"
  by (cases "allSelectionCache s") (simp_all add: getAllSelection_fresh getAllSelection_cached)

lemma allItemsMap_reset [simp]: "allItemsMap (resetAllSelection F ks s) = allItemsMap s"
  by (simp add: resetAllSelection_def Let_def)

lemma cache_reset: "\<not> unChanged ks s \<Longrightarrow> allSelectionCache (resetAllSelection F ks s) = None"
  by (simp add: resetAllSelection_def Let_def)

lemma selection_keys:
  assumes "swf_inv F suspended s"
  shows "map (getKey F) (selection F s) = filter (key_selected F s) (map fst (allItemsMap s))"
    and "distinct (map (getKey F) (selection F s))"
proof -
  have "map (getKey F) (map snd ps) = map fst ps" if "set ps \<subseteq> set (allItemsMap s)" for ps
    using that assms by (induction ps) (auto simp: swf_inv_def)
  from this [of "filter (\<lambda>(k, i). key_selected F s k) (allItemsMap s)"]
  show eq: "map (getKey F) (selection F s) = filter (key_selected F s) (map fst (allItemsMap s))"
    by (simp add: selection_def filter_map o_def case_prod_unfold)
  show "distinct (map (getKey F) (selection F s))"
    unfolding eq using assms by (simp add: swf_inv_def)
qed

lemma sel_op_notified:
  "notified (f (sel st)) \<noteq> notified (sel st) \<Longrightarrow> sel_op F f st =
     st\<lparr>sel := snd (getAllSelection F (f (sel st))),
        internalVal := Some (map item_key (fst (getAllSelection F (f (sel st)))))\<rparr>"
  by (simp add: sel_op_def Let_def case_prod_unfold)

lemma sel_op_quiet: "notified (f (sel st)) = notified (sel st) \<Longrightarrow> sel_op F f st = st\<lparr>sel := f (sel st)\<rparr>"
  by (simp add: sel_op_def)

lemma getAllSelection_inner:
  assumes "itemKeysSet s = []"
  shows "fst (getAllSelection F (s\<lparr>inner := i\<rparr>)) = fst (getAllSelection F s)"
    "snd (getAllSelection F (s\<lparr>inner := i\<rparr>)) = (snd (getAllSelection F s))\<lparr>inner := i\<rparr>"
  using assms by (simp_all add: getAllSelection_def Let_def split: option.split)

lemma fields_getAllSelection [simp]:
  "inner (snd (getAllSelection F s)) = inner s" "itemKeysSet (snd (getAllSelection F s)) = itemKeysSet s"
  "notified (snd (getAllSelection F s)) = notified s"
  by (cases "allSelectionCache s"; simp add: getAllSelection_fresh getAllSelection_cached)+

text \<open>
  The contract of the wrapped selection for this client: rows are told apart by their \<open>key\<close>, and nothing is
  announced when nothing can have changed, that is when change events are suspended, when they are
  resumed with no change pending, and when all of no items are selected.
\<close>

locale instance_selection =
  fabric_selection F suspended pending for F :: "('x IInstanceTableItem, 'i) fabric" and suspended pending +
  assumes item_keys: "getKey F = item_key"
    and events_quiet: "\<not> snd (i_setChangeEvents F False q i)"
      "snd (i_setChangeEvents F True q i) \<Longrightarrow> pending i"
      "pending (fst (i_setChangeEvents F b q i)) \<Longrightarrow> pending i"
    and setAll_quiet: "i_getItems F i = [] \<Longrightarrow> \<not> snd (i_setAllSelected F b i)"
      "i_getItems F i = [] \<Longrightarrow> pending (fst (i_setAllSelected F b i)) \<Longrightarrow> pending i"
begin

lemma agree_read:
  assumes "swf_inv F suspended s" and "allSelectionCache s = None"
  shows "agree F suspended
    (st\<lparr>sel := snd (getAllSelection F s), internalVal := Some (map item_key (fst (getAllSelection F s)))\<rparr>)"
proof -
  note read = getAllSelection_ok [OF assms(1)]
  have "item_key ` set (selection F s) = selected_keys F s"
    using selected_keys_selection [of s F] assms(1) by (simp add: swf_inv_def item_keys)
  then show ?thesis
    using read selection_keys(2) [OF assms(1)] assms(2)
    by (auto simp: agree_def item_keys selected_keys_def [of F s])
qed

text \<open>An operation that keeps the selection, or notifies with an empty cache, leads to agreement.\<close>

lemma agree_sel_op:
  assumes "swf_inv F suspended (f (sel st))"
    and "notified (f (sel st)) \<noteq> notified (sel st) \<Longrightarrow> allSelectionCache (f (sel st)) = None"
    and "notified (f (sel st)) = notified (sel st) \<Longrightarrow> agree F suspended (st\<lparr>sel := f (sel st)\<rparr>)"
  shows "agree F suspended (sel_op F f st)"
proof (cases "notified (f (sel st)) = notified (sel st)")
  case True
  then show ?thesis using assms(3) by (simp add: sel_op_def)
next
  case False
  then show ?thesis
    using agree_read [OF assms(1) assms(2)] by (simp add: sel_op_notified)
qed

text \<open>Setting the value settles at once: the effect leads to agreement, and then it changes nothing.\<close>

lemma agree_value_effect:
  assumes "swf_inv F suspended (sel st)" and "synced F (sel st)" and "distinct (or_empty (internalVal st))"
  shows "agree F suspended (value_effect F st)"
proof -
  note reset = resetAllSelection_ok [OF assms]
  show ?thesis
    unfolding value_effect_def
  proof (rule agree_sel_op)
    show "swf_inv F suspended (resetAllSelection F (or_empty (internalVal st)) (sel st))"
      by (rule reset)
    show "notified (resetAllSelection F (or_empty (internalVal st)) (sel st)) \<noteq> notified (sel st) \<Longrightarrow>
        allSelectionCache (resetAllSelection F (or_empty (internalVal st)) (sel st)) = None"
      by (cases "unChanged (or_empty (internalVal st)) (sel st)")
        (simp add: resetAllSelection_def, simp add: cache_reset)
    show "agree F suspended (st\<lparr>sel := resetAllSelection F (or_empty (internalVal st)) (sel st)\<rparr>)"
      using reset assms(3) by (simp add: agree_def)
  qed
qed

lemma value_effect_settled: "agree F suspended st \<Longrightarrow> value_effect F st = st"
  using unChanged_iff [of "or_empty (internalVal st)" "sel st"]
  by (simp add: value_effect_def sel_op_def resetAllSelection_def agree_def synced_def swf_inv_def)

text \<open>Each event keeps the agreement.\<close>

lemma agree_user:
  assumes "agree F suspended st" and f: "user_op F f"
  shows "agree F suspended (sel_op F (call f) st)"
proof (rule agree_sel_op)
  have inv: "swf_inv F suspended (sel st)"
    using assms(1) by (simp add: agree_def)
  then show inv': "swf_inv F suspended (call f (sel st))"
    by (rule inv_user_op) (rule f)
  show "allSelectionCache (call f (sel st)) = None" if "notified (call f (sel st)) \<noteq> notified (sel st)"
    using that by (simp split: if_splits)
  assume "notified (call f (sel st)) = notified (sel st)"
  then have "\<not> snd (f (inner (sel st)))"
    by (simp split: if_splits)
  moreover have m: "mutates F f"
    using f by (rule mutates.intros)
  moreover have "\<not> pending (fst (f (inner (sel st))))"
    using inv m by (simp add: swf_inv_def quiescent mutates_suspended)
  ultimately have "i_isKeySelected F (inner (call f (sel st))) = i_isKeySelected F (inner (sel st))"
    using mutates_notes [of f "inner (sel st)"] by auto
  then have "key_selected F (call f (sel st)) = key_selected F (sel st)"
    by (simp add: key_selected_def fun_eq_iff)
  then show "agree F suspended (st\<lparr>sel := call f (sel st)\<rparr>)"
    using assms(1) inv' by (simp add: agree_def synced_def selected_keys_def)
qed

lemma agree_filter:
  assumes "agree F suspended st"
  shows "agree F suspended (sel_op F (setItems F items None) st)"
proof (rule agree_sel_op)
  have inv: "swf_inv F suspended (sel st)" "synced F (sel st)" and zero: "suspended (inner (sel st)) = 0"
    using assms by (simp_all add: agree_def) (simp add: swf_inv_def)
  note kept = inv_setItems [OF inv(1), of items None] selected_setItems [OF inv, of items None]
    setItems_parts(4,6) [OF zero, of items None]
  show "swf_inv F suspended (setItems F items None (sel st))"
    using kept by blast
  show "allSelectionCache (setItems F items None (sel st)) = None"
    using kept by blast
  show "agree F suspended (st\<lparr>sel := setItems F items None (sel st)\<rparr>)"
    using kept assms by (simp add: agree_def)
qed

lemma agree_step:
  assumes "agree F suspended st" and "event_ok e"
  shows "agree F suspended (is_step F e st)"
proof (cases e)
  case (IUser f)
  then have "agree F suspended (is_handle F e st)"
    using assms by (simp add: agree_user)
  then show ?thesis
    by (simp add: is_step_def settle_value_def value_effect_settled Let_def)
next
  case (IFilter items)
  then have "agree F suspended (is_handle F e st)"
    using assms by (simp add: agree_filter)
  then show ?thesis
    by (simp add: is_step_def settle_value_def value_effect_settled Let_def)
next
  case (IValue ks)
  then have "agree F suspended (value_effect F (is_handle F e st))"
    using assms by (intro agree_value_effect) (simp_all add: agree_def event_ok_def)
  moreover have "is_handle F e st = st" if "internalVal (is_handle F e st) = internalVal st"
    using that IValue by simp
  ultimately show ?thesis
    using assms(1) by (auto simp: is_step_def settle_value_def Let_def)
qed

lemma agree_run:
  "agree F suspended st \<Longrightarrow> list_all event_ok es \<Longrightarrow> agree F suspended (fold (is_step F) es st)"
  by (induction es arbitrary: st) (simp_all add: agree_step)

text \<open>Before the first rows no item is shown, and nothing the component does then is announced by the inner selection.\<close>

definition blank :: "nat \<Rightarrow> 'i \<Rightarrow> bool" where
  "blank n i \<longleftrightarrow> i_getItems F i = [] \<and> suspended i = n \<and> \<not> pending i"

lemma blank_new: "blank 0 (i_new F)"
  by (simp add: blank_def new_items quiescent)

lemma blank_off:
  assumes "blank n (inner s)"
  shows "\<exists>i. call (i_setChangeEvents F False q) s = s\<lparr>inner := i\<rparr> \<and> blank (Suc n) i"
  using assms events_quiet(1) [of q "inner s"] events_quiet(3) [of False q "inner s"]
  by (intro exI [of _ "fst (i_setChangeEvents F False q (inner s))"])
    (auto simp: call_quiet blank_def events_keep events_off(1))

lemma blank_on:
  assumes "blank (Suc n) (inner s)"
  shows "\<exists>i. call (i_setChangeEvents F True q) s = s\<lparr>inner := i\<rparr> \<and> blank n i"
  using assms events_quiet(2) [of q "inner s"] events_quiet(3) [of True q "inner s"]
  by (intro exI [of _ "fst (i_setChangeEvents F True q (inner s))"])
    (auto intro!: call_quiet simp: blank_def events_keep events_on(1))

lemma blank_setAll:
  assumes "blank n (inner s)"
  shows "\<exists>i. call (i_setAllSelected F b) s = s\<lparr>inner := i\<rparr> \<and> blank n i"
  using assms setAll_quiet [of "inner s" b]
  by (intro exI [of _ "fst (i_setAllSelected F b (inner s))"])
    (auto simp: call_quiet blank_def setAll_items mutates_suspended mutates.intros)

lemma blank_reset:
  assumes "blank n (inner s)" and "itemKeysSet s = []" and "\<not> unChanged ks s"
  shows "\<exists>i. resetAllSelection F ks s = triggerSelectionChanged
           (s\<lparr>allSelectedKeysSet := fold set_add (filter (\<lambda>k. k \<in> fst ` set (allItemsMap s)) ks) [], inner := i\<rparr>) \<and>
         blank n i"
proof -
  define s0 where "s0 = s\<lparr>allSelectedKeysSet := fold set_add (filter (\<lambda>k. k \<in> fst ` set (allItemsMap s)) ks) []\<rparr>"
  obtain i1 where i1: "call (i_setChangeEvents F False False) s0 = s0\<lparr>inner := i1\<rparr>" "blank (Suc n) i1"
    using blank_off [of n s0] assms(1) by (auto simp: s0_def)
  obtain i2 where i2: "call (i_setAllSelected F False) (s0\<lparr>inner := i1\<rparr>) = s0\<lparr>inner := i2\<rparr>" "blank (Suc n) i2"
    using blank_setAll [of "Suc n" "s0\<lparr>inner := i1\<rparr>"] i1(2) by auto
  obtain i3 where i3: "call (i_setChangeEvents F True True) (s0\<lparr>inner := i2\<rparr>) = s0\<lparr>inner := i3\<rparr>" "blank n i3"
    using blank_on [of n "s0\<lparr>inner := i2\<rparr>"] i2(2) by auto
  have "select_keys F [] t = t" for t :: "('x IInstanceTableItem, 'i) swf"
    by (simp add: select_keys_def)
  moreover have "itemKeysSet s0 = []"
    by (simp add: s0_def assms(2))
  ultimately have "resetAllSelection F ks s = triggerSelectionChanged (s0\<lparr>inner := i3\<rparr>)"
    using assms(3) by (simp add: resetAllSelection_def Let_def s0_def [symmetric] i1 i2 i3)
  then show ?thesis
    using i3(2) by (auto simp: s0_def)
qed

lemma blank_selectAll:
  assumes "blank n (inner s)"
  shows "\<exists>i. setAllSelectionSelected F True s = triggerSelectionChanged
           (s\<lparr>allSelectedKeysSet := fold set_add (map fst (allItemsMap s)) (allSelectedKeysSet s), inner := i\<rparr>) \<and>
         blank n i"
proof -
  obtain i1 where i1: "call (i_setChangeEvents F False False) s = s\<lparr>inner := i1\<rparr>" "blank (Suc n) i1"
    using blank_off [OF assms] by auto
  let ?s1 = "s\<lparr>inner := i1, allSelectedKeysSet := fold set_add (map fst (allItemsMap s)) (allSelectedKeysSet s)\<rparr>"
  obtain i2 where i2: "call (i_setAllSelected F True) ?s1 = ?s1\<lparr>inner := i2\<rparr>" "blank (Suc n) i2"
    using blank_setAll [of "Suc n" ?s1] i1(2) by auto
  obtain i3 where i3: "call (i_setChangeEvents F True True) (?s1\<lparr>inner := i2\<rparr>) = ?s1\<lparr>inner := i3\<rparr>" "blank n i3"
    using blank_on [of n "?s1\<lparr>inner := i2\<rparr>"] i2(2) by auto
  show ?thesis
    using i1 i2 i3 by (auto simp: setAllSelectionSelected_def Let_def)
qed

text \<open>A selection with rows of which none is shown: its selected keys are the recorded ones.\<close>

definition hidden :: "'x IInstanceTableItem list \<Rightarrow> ('x IInstanceTableItem, 'i) swf \<Rightarrow> bool" where
  "hidden items s \<longleftrightarrow>
     allItemsMap s = item_map F items \<and> itemKeysSet s = [] \<and> distinct (allSelectedKeysSet s)"

lemma hidden_selected: "hidden items s \<Longrightarrow> selected_keys F s = item_key ` set items \<inter> set (allSelectedKeysSet s)"
  by (auto simp: hidden_def selected_keys_def key_selected_def item_map_ok item_keys)

lemma hidden_inv: "hidden items s \<Longrightarrow> blank 0 (inner s) \<Longrightarrow> allSelectionCache s = None \<Longrightarrow> swf_inv F suspended s"
  using item_map_ok(1,2) [of F items] by (simp add: hidden_def swf_inv_def blank_def keys_of_def)

text \<open>The end of loading: change events are resumed, and nothing is announced.\<close>

lemma load_end:
  assumes "blank 1 (inner (sel st))"
  obtains i where "sel_op F (call (i_setChangeEvents F True False)) st = st\<lparr>sel := (sel st)\<lparr>inner := i\<rparr>\<rparr>"
    and "blank 0 i"
  using blank_on [of 0 "sel st" False] assms by (auto simp: sel_op_quiet)

lemma load_read:
  fixes st :: "('x, 'i) inst_select"
  assumes "hidden items s" and "blank 1 (inner s)" and "allSelectionCache s = None"
  defines "st' \<equiv> st\<lparr>sel := snd (getAllSelection F s), internalVal := Some (map item_key (fst (getAllSelection F s)))\<rparr>"
  shows "agree F suspended (sel_op F (call (i_setChangeEvents F True False)) st') \<and>
    selected_keys F (sel (sel_op F (call (i_setChangeEvents F True False)) st')) = selected_keys F s"
proof -
  obtain i where i: "sel_op F (call (i_setChangeEvents F True False)) st' = st'\<lparr>sel := (sel st')\<lparr>inner := i\<rparr>\<rparr>"
    and b: "blank 0 i"
    using load_end [of st'] assms(2) by (auto simp: st'_def)
  let ?s = "s\<lparr>inner := i\<rparr>"
  have h: "hidden items ?s" and inv: "swf_inv F suspended ?s" and cache: "allSelectionCache ?s = None"
    using assms b hidden_inv [of items ?s] by (simp_all add: hidden_def)
  have "st'\<lparr>sel := (sel st')\<lparr>inner := i\<rparr>\<rparr> =
      st\<lparr>sel := snd (getAllSelection F ?s), internalVal := Some (map item_key (fst (getAllSelection F ?s)))\<rparr>"
    using assms(1) by (simp add: st'_def getAllSelection_inner hidden_def)
  moreover have "selected_keys F ?s = selected_keys F s"
    using hidden_selected [OF h] hidden_selected [OF assms(1)] by simp
  ultimately show ?thesis
    using agree_read [OF inv cache, of st] getAllSelection_ok(3) [OF inv] by (simp add: i)
qed

text \<open>The state in which the rows are known and change events are still suspended.\<close>

lemma load_start:
  obtains s where "sel_op F (setAllItems F items) (sel_op F (call (i_setChangeEvents F False False)) (new_select F v)) =
      \<lparr>sel = s, internalVal = v, dataHasLoaded = False\<rparr>"
    and "hidden items s" and "allSelectedKeysSet s = []" and "blank 1 (inner s)" and "allSelectionCache s = None"
proof -
  obtain i where off: "call (i_setChangeEvents F False False) (new_swf F) = (new_swf F)\<lparr>inner := i\<rparr>" and b: "blank 1 i"
    using blank_off [of 0 "new_swf F" False] blank_new by (auto simp: new_swf_def)
  let ?s1 = "(new_swf F)\<lparr>inner := i\<rparr>"
  let ?s = "?s1\<lparr>allSelectionCache := None, allItems := items, allItemsMap := item_map F items\<rparr>"
  have "sel_op F (call (i_setChangeEvents F False False)) (new_select F v) =
      \<lparr>sel = ?s1, internalVal = v, dataHasLoaded = False\<rparr>"
    by (simp add: new_select_def sel_op_def off Let_def)
  moreover have "setAllItems F items ?s1 = ?s"
    using b by (simp add: setAllItems_def Let_def blank_def item_map_def)
  then have "sel_op F (setAllItems F items) \<lparr>sel = ?s1, internalVal = v, dataHasLoaded = False\<rparr> =
      \<lparr>sel = ?s, internalVal = v, dataHasLoaded = False\<rparr>"
    by (simp add: sel_op_def Let_def)
  moreover have "hidden items ?s" "allSelectedKeysSet ?s = []" "blank 1 (inner ?s)" "allSelectionCache ?s = None"
    using b by (simp_all add: hidden_def new_swf_def)
  ultimately show thesis
    by (intro that [of ?s]) simp_all
qed

lemma load_quiet:
  assumes "hidden items s" and "blank 1 (inner s)" and "allSelectionCache s = None"
    and "allSelectedKeysSet s = []" and "distinct (or_empty v)" and "set (or_empty v) \<inter> item_key ` set items = {}"
  defines "st \<equiv> \<lparr>sel = s, internalVal = v, dataHasLoaded = False\<rparr>"
  shows "agree F suspended (sel_op F (call (i_setChangeEvents F True False)) st) \<and>
    selected_keys F (sel (sel_op F (call (i_setChangeEvents F True False)) st)) = {}"
proof -
  obtain i where i: "sel_op F (call (i_setChangeEvents F True False)) st = st\<lparr>sel := s\<lparr>inner := i\<rparr>\<rparr>" and b: "blank 0 i"
    using load_end [of st] assms(2) by (auto simp: st_def)
  let ?s = "s\<lparr>inner := i\<rparr>"
  have h: "hidden items ?s" and "swf_inv F suspended ?s"
    using assms b hidden_inv [of items ?s] by (simp_all add: hidden_def)
  moreover have "selected_keys F ?s = {}"
    using hidden_selected [OF h] assms(4) by simp
  ultimately show ?thesis
    unfolding i using assms(4-6) by (simp add: agree_def st_def synced_def hidden_def item_map_ok item_keys)
qed

lemma load_op:
  assumes "hidden items (sel st)" and "distinct X" and "blank 1 i"
    and f: "f (sel st) = triggerSelectionChanged ((sel st)\<lparr>allSelectedKeysSet := X, inner := i\<rparr>)"
  shows "agree F suspended (sel_op F (call (i_setChangeEvents F True False)) (sel_op F f st)) \<and>
    selected_keys F (sel (sel_op F (call (i_setChangeEvents F True False)) (sel_op F f st))) = item_key ` set items \<inter> set X"
proof -
  have h: "hidden items (f (sel st))" and ok: "blank 1 (inner (f (sel st)))" "allSelectionCache (f (sel st)) = None"
    using assms by (simp_all add: hidden_def)
  have "sel_op F f st = st\<lparr>sel := snd (getAllSelection F (f (sel st))),
      internalVal := Some (map item_key (fst (getAllSelection F (f (sel st)))))\<rparr>"
    by (rule sel_op_notified) (simp add: f)
  then show ?thesis
    using load_read [OF h ok, of st] hidden_selected [OF h] by (simp add: f)
qed

lemma load_agree:
  fixes defaultSelectAll :: bool
  assumes "items \<noteq> []" and "distinct (or_empty v)"
  defines "st \<equiv> load_items F defaultSelectAll items (new_select F v)"
  shows "agree F suspended st \<and> dataHasLoaded st \<and>
    selected_keys F (sel st) =
      (if or_empty v \<noteq> [] then set (or_empty v) \<inter> item_key ` set items
       else if defaultSelectAll then item_key ` set items else {})"
proof -
  let ?on = "sel_op F (call (i_setChangeEvents F True False))"
  obtain s where start: "sel_op F (setAllItems F items) (sel_op F (call (i_setChangeEvents F False False)) (new_select F v)) =
      \<lparr>sel = s, internalVal = v, dataHasLoaded = False\<rparr>"
    and h: "hidden items s" and none: "allSelectedKeysSet s = []" and b: "blank 1 (inner s)"
    and cache: "allSelectionCache s = None"
    using load_start [of items v] by blast
  let ?st = "\<lparr>sel = s, internalVal = v, dataHasLoaded = False\<rparr>"
  define st3 where "st3 = (if or_empty v \<noteq> [] then sel_op F (resetAllSelection F (or_empty v)) ?st
    else if defaultSelectAll then sel_op F (setAllSelectionSelected F True) ?st else ?st)"
  have st: "st = (?on st3)\<lparr>dataHasLoaded := True\<rparr>"
    using assms(1) by (simp add: st_def load_items_def start Let_def st3_def) (simp add: new_select_def)
  have known: "fst ` set (allItemsMap s) = item_key ` set items"
    using h by (simp add: hidden_def item_map_ok item_keys)
  have unch: "unChanged (or_empty v) s \<longleftrightarrow> set (or_empty v) \<inter> item_key ` set items = {}"
    using unChanged_iff [of "or_empty v" s] assms(2) none known by simp
  consider (reset) "or_empty v \<noteq> []" "\<not> unChanged (or_empty v) s" | (all) "or_empty v = []" defaultSelectAll
    | (same) "st3 = ?st" "set (or_empty v) \<inter> item_key ` set items = {}" "or_empty v \<noteq> [] \<or> \<not> defaultSelectAll"
    using unch by (fastforce simp: st3_def sel_op_def resetAllSelection_def)
  then have "agree F suspended (?on st3) \<and> selected_keys F (sel (?on st3)) =
      (if or_empty v \<noteq> [] then set (or_empty v) \<inter> item_key ` set items
       else if defaultSelectAll then item_key ` set items else {})"
  proof cases
    case reset
    let ?X = "fold set_add (filter (\<lambda>k. k \<in> fst ` set (allItemsMap s)) (or_empty v)) []"
    obtain i where i: "resetAllSelection F (or_empty v) s = triggerSelectionChanged
        (s\<lparr>allSelectedKeysSet := ?X, inner := i\<rparr>)" "blank 1 i"
      using blank_reset [OF b _ reset(2)] h by (auto simp: hidden_def)
    have "agree F suspended (?on st3) \<and> selected_keys F (sel (?on st3)) = item_key ` set items \<inter> set ?X"
      using load_op [of items ?st ?X i "resetAllSelection F (or_empty v)"] h i reset(1) by (simp add: st3_def)
    then show ?thesis
      using reset(1) known by auto
  next
    case all
    let ?X = "fold set_add (map fst (allItemsMap s)) []"
    obtain i where i: "setAllSelectionSelected F True s = triggerSelectionChanged
        (s\<lparr>allSelectedKeysSet := ?X, inner := i\<rparr>)" "blank 1 i"
      using blank_selectAll [OF b] none by auto
    have "agree F suspended (?on st3) \<and> selected_keys F (sel (?on st3)) = item_key ` set items \<inter> set ?X"
      using load_op [of items ?st ?X i "setAllSelectionSelected F True"] h i all by (simp add: st3_def)
    then show ?thesis
      using all known by simp
  next
    case same
    then show ?thesis
      using load_quiet [OF h b cache none assms(2)] by auto
  qed
  then show ?thesis
    by (simp add: st agree_def)
qed

end

interpretation iref: instance_selection "fabric_ref item_key" r_susp "\<lambda>i. r_changed i \<and> 0 < r_susp i"
  by unfold_locales (auto simp: fabric_ref_def ref_events_def ref_upd_def vis_def Let_def split: if_splits)

subsection \<open>Properties\<close>

lemma allItemsMap_sel_op [simp]: "allItemsMap (sel (sel_op F f st)) = allItemsMap (f (sel st))"
  by (simp add: sel_op_def Let_def case_prod_unfold)

lemma allItemsMap_setItems [simp]: "allItemsMap (setItems F items c s) = allItemsMap s"
  by (simp add: setItems_def Let_def)

lemma allItemsMap_is_step [simp]: "allItemsMap (sel (is_step F e st)) = allItemsMap (sel st)"
  by (cases e) (simp_all add: is_step_def settle_value_def value_effect_def Let_def)

lemma allItemsMap_run: "allItemsMap (sel (fold (is_step F) es st)) = allItemsMap (sel st)"
  by (induction es arbitrary: st) simp_all

lemma allItemsMap_load:
  assumes "items \<noteq> []"
  shows "allItemsMap (sel (load_items F defaultSelectAll items (new_select F v))) = item_map F items"
proof -
  have "allItemsMap (setAllItems F items s) = item_map F items" for s
    by (simp add: setAllItems_def Let_def item_map_def)
  moreover have "allItemsMap (setAllSelectionSelected F True s) = allItemsMap s" for s
    by (simp add: setAllSelectionSelected_def Let_def)
  ultimately show ?thesis
    using assms by (simp add: load_items_def new_select_def Let_def)
qed


text \<open>
  The first rows: the value given is selected as far as it names rows; without a value, all rows or none.
\<close>

theorem instance_select_loaded:
  fixes F :: "('x IInstanceTableItem, 'i) fabric" and all :: bool
  assumes "instance_selection F suspended pending" and "items \<noteq> []" and "distinct (or_empty v)"
  shows "selected_keys F (sel (load_items F all items (new_select F v))) =
    (if or_empty v \<noteq> [] then set (or_empty v) \<inter> item_key ` set items
     else if all then item_key ` set items else {})"
  using instance_selection.load_agree [OF assms, of all] by simp

definition sample_items :: "nat IInstanceTableItem list" where
  "sample_items =
     [mk_item PD \<lparr>ip = ''a'', port = 1, rest = 0\<rparr>, mk_item TIDB \<lparr>ip = ''b'', port = 2, rest = 0\<rparr>,
      mk_item TIDB \<lparr>ip = ''c'', port = 3, rest = 0\<rparr>]"

theorem instance_select_loaded_witness:
  "selected_keys (fabric_ref item_key) (sel (load_items (fabric_ref item_key) True sample_items
     (new_select (fabric_ref item_key) None))) = item_key ` set sample_items"
  using instance_select_loaded [OF iref.instance_selection_axioms, of sample_items None True]
  by (simp add: sample_items_def)


text \<open>The text of the value: the stats count the rows of each kind, and \<open>All Instances\<close> stands for all rows.\<close>

lemma instanceStats_count:
  "instanceStats items ks k =
     \<lparr>all_count = length (filter (\<lambda>i. instanceKind i = k) items),
      selected_count = length (filter (\<lambda>i. instanceKind i = k \<and> item_key i \<in> set ks) items)\<rparr>"
proof -
  define upd where "upd = (\<lambda>(i :: 'a IInstanceTableItem) st. st(instanceKind i :=
      \<lparr>all_count = Suc (all_count (st (instanceKind i))),
       selected_count = (if item_key i \<in> set ks then Suc (selected_count (st (instanceKind i)))
                         else selected_count (st (instanceKind i)))\<rparr>))"
  have "fold upd items st k =
      \<lparr>all_count = all_count (st k) + length (filter (\<lambda>i. instanceKind i = k) items),
       selected_count = selected_count (st k) + length (filter (\<lambda>i. instanceKind i = k \<and> item_key i \<in> set ks) items)\<rparr>"
    for st :: "InstanceKind \<Rightarrow> InstanceStat"
    by (induction items arbitrary: st) (auto simp: upd_def)
  from this [of "\<lambda>_. \<lparr>all_count = 0, selected_count = 0\<rparr>"] show ?thesis
    by (simp add: instanceStats_def upd_def)
qed

theorem value_display_all:
  assumes "item_key ` set items \<subseteq> set ks"
  shows "ValueDisplay allText partialAll partialN items ks = allText"
proof -
  have "filter (\<lambda>i. instanceKind i = k \<and> item_key i \<in> set ks) items = filter (\<lambda>i. instanceKind i = k) items" for k
    using assms by (intro filter_cong) auto
  then show ?thesis
    by (simp add: ValueDisplay_def Let_def instanceStats_count list_ex_iff)
qed

end
