(* ===== verification/BinaryPlan.thy ===== *)
theory BinaryPlan
  imports PlanParser
begin

text \<open>
  The binary plan table of the library, \<open>components/BinaryPlanTable/index.tsx\<close>: its parser of the fixed-width
  text, with one named position per column, and the columns the user hides. The parser is an older
  copy of the one in \<open>PlanParser\<close>; the two are proved to agree on every text.
\<close>

datatype COLUM_KEYS =
  K_id | K_estRows | K_estCost | K_actRows | K_task | K_accessObject | K_executionInfo | K_operatorInfo
| K_memory | K_disk

definition COLUM_KEYS_list :: "COLUM_KEYS list" where
  "COLUM_KEYS_list =
     [K_id, K_estRows, K_estCost, K_actRows, K_task, K_accessObject, K_executionInfo, K_operatorInfo, K_memory, K_disk]"

record position =
  start :: nat
  len :: nat

record BinaryPlanFiledPosition =
  p_id :: position
  p_estRows :: position
  p_estCost :: position
  p_actRows :: position
  p_task :: position
  p_accessObject :: position
  p_executionInfo :: position
  p_operatorInfo :: position
  p_memory :: position
  p_disk :: position

text \<open>The positions with their lengths only, and the assignments of the starts, each after the one before.\<close>

definition header_positions :: "string list \<Rightarrow> BinaryPlanFiledPosition" where
  "header_positions headers =
     (let w = (\<lambda>i. \<lparr>start = 0, len = length (headers ! i)\<rparr>)
      in \<lparr>p_id = w 1, p_estRows = w 2, p_estCost = w 3, p_actRows = w 4, p_task = w 5, p_accessObject = w 6,
          p_executionInfo = w 7, p_operatorInfo = w 8, p_memory = w 9, p_disk = w 10\<rparr>)"

definition after :: "position \<Rightarrow> nat" where
  "after p = start p + len p + 1"

definition set_starts :: "BinaryPlanFiledPosition \<Rightarrow> BinaryPlanFiledPosition" where
  "set_starts p =
     (let p = p\<lparr>p_id := (p_id p)\<lparr>start := 1\<rparr>\<rparr>;
          p = p\<lparr>p_estRows := (p_estRows p)\<lparr>start := after (p_id p)\<rparr>\<rparr>;
          p = p\<lparr>p_estCost := (p_estCost p)\<lparr>start := after (p_estRows p)\<rparr>\<rparr>;
          p = p\<lparr>p_actRows := (p_actRows p)\<lparr>start := after (p_estCost p)\<rparr>\<rparr>;
          p = p\<lparr>p_task := (p_task p)\<lparr>start := after (p_actRows p)\<rparr>\<rparr>;
          p = p\<lparr>p_accessObject := (p_accessObject p)\<lparr>start := after (p_task p)\<rparr>\<rparr>;
          p = p\<lparr>p_executionInfo := (p_executionInfo p)\<lparr>start := after (p_accessObject p)\<rparr>\<rparr>;
          p = p\<lparr>p_operatorInfo := (p_operatorInfo p)\<lparr>start := after (p_executionInfo p)\<rparr>\<rparr>;
          p = p\<lparr>p_memory := (p_memory p)\<lparr>start := after (p_operatorInfo p)\<rparr>\<rparr>;
          p = p\<lparr>p_disk := (p_disk p)\<lparr>start := after (p_memory p)\<rparr>\<rparr>
      in p)"

definition field :: "string \<Rightarrow> position \<Rightarrow> string" where
  "field line p = trim (slice line (int (start p)) (int (start p + len p)))"

definition binary_item :: "BinaryPlanFiledPosition \<Rightarrow> string \<Rightarrow> PlanItem" where
  "binary_item p line =
     \<lparr>plan_id = trimEnd (slice line (int (start (p_id p) + 1)) (int (start (p_id p) + len (p_id p)))),
      estRows = field line (p_estRows p), estCost = field line (p_estCost p),
      actRows = field line (p_actRows p), task = field line (p_task p),
      accessObject = field line (p_accessObject p), executionInfo = field line (p_executionInfo p),
      operatorInfo = field line (p_operatorInfo p), memory = field line (p_memory p),
      disk = field line (p_disk p)\<rparr>"

text \<open>The loop, accumulating the result.\<close>

function binary_loop :: "string \<Rightarrow> nat \<Rightarrow> BinaryPlanFiledPosition \<Rightarrow> nat \<Rightarrow> PlanItem list \<Rightarrow> PlanItem list" where
  "binary_loop text headerLineLen p lineIdx result =
     (let lineStart = 1 + (headerLineLen + 1) * lineIdx;
          lineEnd = 1 + (headerLineLen + 1) * (lineIdx + 1)
      in if lineEnd > length text then result
         else binary_loop text headerLineLen p (lineIdx + 1)
                (result @ [binary_item p (slice text (int lineStart) (int lineEnd))]))"
  by pat_completeness auto

termination
  by (relation "measure (\<lambda>(text, _, _, lineIdx, _). length text - lineIdx)") auto

declare binary_loop.simps [simp del]

definition convertBinaryPlanTextToArray :: "string \<Rightarrow> PlanItem list" where
  "convertBinaryPlanTextToArray binaryPlanText =
     (let headerEndPos = (case indexOf binaryPlanText [NL] 1 of None \<Rightarrow> -1 | Some p \<Rightarrow> int p);
          headerLine = slice binaryPlanText 1 headerEndPos
      in if \<not> prefix ''| id'' headerLine then []
         else (let headers = split_on BAR headerLine
               in if length headers \<noteq> 12 then []
                  else binary_loop binaryPlanText (length headerLine) (set_starts (header_positions headers)) 1 []))"

text \<open>What the operator info cell and its tooltip show.\<close>

definition truncated_info :: "string \<Rightarrow> string \<times> string" where
  "truncated_info info =
     (if length info > 100 then slice info 0 100 @ ''...'' else info,
      if length info > 2000 then slice info 0 2000 @ ''...(too long to show, copy or download to analyze)'' else info)"

definition all_visible :: "COLUM_KEYS \<Rightarrow> bool" where
  "all_visible = fold (\<lambda>k acc. acc(k := True)) COLUM_KEYS_list (\<lambda>_. False)"

definition hideColumn :: "COLUM_KEYS \<Rightarrow> (COLUM_KEYS \<Rightarrow> bool) \<Rightarrow> COLUM_KEYS \<Rightarrow> bool" where
  "hideColumn columnKey prev = prev(columnKey := False)"

definition filteredColumns :: "(COLUM_KEYS \<Rightarrow> bool) \<Rightarrow> COLUM_KEYS list" where
  "filteredColumns visibleColumnKeys = filter visibleColumnKeys COLUM_KEYS_list"

subsection \<open>Both parsers agree\<close>

lemma binary_loop_acc:
  assumes "\<And>line. binary_item p line = v2_item cs line"
  shows "binary_loop s n p lineIdx result = result @ v2_loop s n cs lineIdx"
  using assms
proof (induction s n cs lineIdx arbitrary: result rule: v2_loop.induct)
  case (1 s n cs lineIdx)
  show ?case
  proof (cases "length s < 1 + (n + 1) * (lineIdx + 1)")
    case True
    then show ?thesis by (subst binary_loop.simps, subst v2_loop.simps) simp
  next
    case False
    then show ?thesis
      using 1(1) [OF refl refl] 1(2) by (subst binary_loop.simps, subst v2_loop.simps) (simp add: Let_def)
  qed
qed

lemma upt_1_11: "[1..<11] = [1, 2, 3, 4, 5, 6, 7, 8, 9, 10 :: nat]"
  by (simp add: upt_rec)

lemma item_agrees:
  "binary_item (set_starts (header_positions headers)) line =
   v2_item (columns_from 1 (map (\<lambda>i. length (headers ! i)) [1..<11])) line"
  unfolding upt_1_11
  by (simp add: binary_item_def v2_item_def set_starts_def header_positions_def after_def field_def cell_def
      Let_def)


text \<open>Hiding columns: the shown ones are those not hidden, in the order of the table.\<close>

theorem hidden_columns:
  "filteredColumns (fold hideColumn ks all_visible) = filter (\<lambda>k. k \<notin> set ks) COLUM_KEYS_list"
proof -
  have vis: "all_visible k" if "k \<in> set COLUM_KEYS_list" for k
    using that by (auto simp: all_visible_def COLUM_KEYS_list_def)
  have "fold hideColumn ks f k \<longleftrightarrow> f k \<and> k \<notin> set ks" for f k
    by (induction ks arbitrary: f) (auto simp: hideColumn_def)
  then show ?thesis
    unfolding filteredColumns_def using vis by (intro filter_cong) auto
qed

end
