(* ===== verification/Session.thy ===== *)
theory Session
  imports UrlCodec Json
begin

text \<open>
  Signing in and routing of the operator distribution: \<open>utils/auth.ts\<close>, \<open>utils/authSSO.ts\<close>, \<open>utils/store.ts\<close>,
  \<open>utils/registry.ts\<close> (and its copy in the cloud distribution), the error interceptor of
  \<open>client/index.tsx\<close>, the listeners of \<open>dashboardApp/main.tsx\<close>, and \<open>utils/routing.ts\<close> of the library. The
  browser is a record of its storages and location; answers of the server are arguments.
\<close>

subsection \<open>The browser\<close>

record 'w browser =
  localStorage :: "string \<rightharpoonup> string"
  sessionStorage :: "string \<rightharpoonup> string"
  protocol :: string
  host :: string
  pathname_b :: string
  loc_search :: string
  hash :: string
  tokenEvents :: "string option list"
  whoAmI :: "'w option"
  whoPending :: "string list"

text \<open>\<open>tokenEvents\<close> are the emitted \<open>tokenChanged\<close> events, \<open>whoPending\<close> the tokens of the unanswered \<open>infoWhoami\<close> requests.\<close>

subsection \<open>Routing\<close>

definition signInRoute :: string where "signInRoute = ''/signin''"
definition portalRoute :: string where "portalRoute = ''/portal''"

definition isLocationMatch :: "string \<Rightarrow> bool \<Rightarrow> string \<Rightarrow> bool" where
  "isLocationMatch s matchPrefix h =
     (let h = (if h = [] \<or> h = ''#'' then ''#/'' else h)
      in if matchPrefix then indexOf h (CHR ''#'' # s) 0 = Some 0 else trim h = CHR ''#'' # s)"

definition isSignInPage :: "string \<Rightarrow> bool" where
  "isSignInPage h = isLocationMatch signInRoute True h"

definition isPortalPage :: "string \<Rightarrow> bool" where
  "isPortalPage h = isLocationMatch portalRoute True h"

definition getPathInLocationHash :: "string \<Rightarrow> string" where
  "getPathInLocationHash h = (case indexOf h ''?'' 0 of None \<Rightarrow> h | Some pos \<Rightarrow> take pos h)"

subsection \<open>The token\<close>

definition tokenKey :: string where "tokenKey = ''dashboard_auth_token''"

definition getAuthToken :: "'w browser \<Rightarrow> string option" where
  "getAuthToken b = localStorage b tokenKey"

text \<open>The listener of the token event in \<open>store.ts\<close>: who am I, up to the answer.\<close>

definition reloadWhoAmI :: "'w browser \<Rightarrow> 'w browser" where
  "reloadWhoAmI b =
     (case getAuthToken b of
        None \<Rightarrow> b\<lparr>whoAmI := None\<rparr>
      | Some t \<Rightarrow> if t = [] then b\<lparr>whoAmI := None\<rparr> else b\<lparr>whoPending := whoPending b @ [t]\<rparr>)"

text \<open>The answer to the \<open>n\<close>-th unanswered request; \<^term>\<open>None\<close> when it failed.\<close>

definition whoAmI_answer :: "nat \<Rightarrow> 'w option \<Rightarrow> 'w browser \<Rightarrow> 'w browser" where
  "whoAmI_answer n res b =
     (if n < length (whoPending b)
      then b\<lparr>whoPending := take n (whoPending b) @ drop (Suc n) (whoPending b), whoAmI := res\<rparr> else b)"

definition emit :: "string option \<Rightarrow> 'w browser \<Rightarrow> 'w browser" where
  "emit t b = reloadWhoAmI (b\<lparr>tokenEvents := tokenEvents b @ [t]\<rparr>)"

definition setAuthToken :: "string \<Rightarrow> 'w browser \<Rightarrow> 'w browser" where
  "setAuthToken token b =
     (if getAuthToken b \<noteq> Some token
      then emit (Some token) (b\<lparr>localStorage := (localStorage b)(tokenKey \<mapsto> token)\<rparr>) else b)"

definition clearAuthToken :: "'w browser \<Rightarrow> 'w browser" where
  "clearAuthToken b =
     (case getAuthToken b of
        Some t \<Rightarrow> if t \<noteq> [] then emit None (b\<lparr>localStorage := (localStorage b)(tokenKey := None)\<rparr>) else b
      | None \<Rightarrow> b)"

definition getAuthTokenAsBearer :: "'w browser \<Rightarrow> string option" where
  "getAuthTokenAsBearer b =
     (case getAuthToken b of Some t \<Rightarrow> if t = [] then None else Some (''Bearer '' @ t) | None \<Rightarrow> None)"

subsection \<open>Single sign-on\<close>

definition possible :: string where
  "possible = ''ABCDEFGHIJKLMNOPQRSTUVWXYZabcdefghijklmnopqrstuvwxyz0123456789''"

text \<open>\<open>rnd\<close> are the results of \<open>Math.random()\<close>, one per character.\<close>

definition newRandomString :: "rat list \<Rightarrow> string" where
  "newRandomString rnd = map (\<lambda>r. possible ! nat \<lfloor>r * of_nat (length possible)\<rfloor>) rnd"

definition getBaseURL :: "'w browser \<Rightarrow> string" where
  "getBaseURL b = protocol b @ ''//'' @ host b @ pathname_b b"

definition getRedirectURL :: "'w browser \<Rightarrow> string" where
  "getRedirectURL b = getBaseURL b @ ''?sso_callback=1''"

record sso_request =
  codeVerifier :: string
  redirectUrl :: string
  sso_state :: string

definition getAuthURL :: "rat list \<Rightarrow> rat list \<Rightarrow> 'w browser \<Rightarrow> sso_request \<times> 'w browser" where
  "getAuthURL rnd1 rnd2 b =
     (let v = newRandomString rnd1; s = newRandomString rnd2;
          b = b\<lparr>sessionStorage := (sessionStorage b)(''sso.codeVerifier'' \<mapsto> v, ''sso.state'' \<mapsto> s)\<rparr>
      in (\<lparr>codeVerifier = v, redirectUrl = getRedirectURL b, sso_state = s\<rparr>, b))"

definition search_param :: "string \<Rightarrow> 'w browser \<Rightarrow> string option" where
  "search_param k b = map_of (parse_search (loc_search b)) k"

definition isSSOCallback :: "'w browser \<Rightarrow> bool" where
  "isSSOCallback b \<longleftrightarrow> search_param ''sso_callback'' b \<noteq> None"

definition json_null :: "string option \<Rightarrow> json" where
  "json_null v = (case v of Some s \<Rightarrow> JStr s | None \<Rightarrow> JNull)"

definition sso_extra :: "'w browser \<Rightarrow> json" where
  "sso_extra b =
     JObj [(''code'', json_null (search_param ''code'' b)),
           (''code_verifier'', json_null (sessionStorage b ''sso.codeVerifier'')),
           (''redirect_url'', JStr (getRedirectURL b))]"

datatype sso_result = Replaced string | SsoFailed string

definition invalid_state :: string where
  "invalid_state = ''Invalid OIDC state: You may see this error when your SSO sign in is outdated.''"

text \<open>
  The callback page. \<open>login\<close> is \<open>userLogin\<close> with the type for single sign-on, from the extra field of the message to
  an error or the token; a failure shows a dialog, whose button replaces the location.
\<close>

definition handleSSOCallback :: "(string \<Rightarrow> string + string) \<Rightarrow> 'w browser \<Rightarrow> sso_result \<times> 'w browser" where
  "handleSSOCallback login b =
     (if search_param ''state'' b \<noteq> sessionStorage b ''sso.state'' then (SsoFailed invalid_state, b)
      else (case login (stringify (sso_extra b)) of
              Inl e \<Rightarrow> (SsoFailed e, b)
            | Inr token \<Rightarrow>
                (let b = b\<lparr>sessionStorage := (sessionStorage b)(''sso.codeVerifier'' := None, ''sso.state'' := None)\<rparr>;
                     b = setAuthToken token b
                 in (Replaced (getBaseURL b), b\<lparr>loc_search := [], hash := []\<rparr>))))"

subsection \<open>Errors of requests\<close>

record api_error =
  networkError :: bool
  body_code :: "string option"
  body_message :: "string option"
  err_message :: string
  err_method :: string
  err_url :: string
  defaultHandling :: bool

datatype shown = Toast string string | Notification string string | Dialog string

definition error_code :: "api_error \<Rightarrow> string option" where
  "error_code err = (if networkError err then Some ''common.network'' else body_code err)"

definition error_content :: "(string \<Rightarrow> string option) \<Rightarrow> api_error \<Rightarrow> string" where
  "error_content translation err =
     (case translation (''error.'' @ (case error_code err of Some c \<Rightarrow> c | None \<Rightarrow> [])) of
        Some s \<Rightarrow> s
      | None \<Rightarrow>
          (case body_message err of
             Some m \<Rightarrow> if m \<noteq> [] then m else if err_message err \<noteq> [] then err_message err else ''Internal error''
           | None \<Rightarrow> if err_message err \<noteq> [] then err_message err else ''Internal error''))"

text \<open>
  The interceptor: what is shown, whether the error counts as handled, and the browser afterwards; the error is
  passed on in every case. \<open>replace\<close> removes the first occurrence of the base path.
\<close>

definition remove_first :: "string \<Rightarrow> string \<Rightarrow> string" where
  "remove_first p s = (case indexOf s p 0 of None \<Rightarrow> s | Some i \<Rightarrow> take i s @ drop (i + length p) s)"

definition handle_error ::
    "(string \<Rightarrow> string option) \<Rightarrow> string \<Rightarrow> api_error \<Rightarrow> 'w browser \<Rightarrow> shown list \<times> bool \<times> 'w browser" where
  "handle_error translation basePath err b =
     (let content = error_content translation err; method = toLowerCase (err_method err)
      in if error_code err = Some ''common.unauthenticated'' \<or> error_code err = Some ''error.api.unauthorized''
         then (if \<not> isLocationMatch ''/'' False (hash b) \<and> \<not> isSignInPage (hash b)
               then [Toast content (the (error_code err))] else [],
               True, (clearAuthToken b)\<lparr>hash := CHR ''#'' # signInRoute\<rparr>)
         else if defaultHandling err
         then (if method = ''get''
               then [Notification (split_on CHR ''?'' (remove_first basePath (err_url err)) ! 0) content]
               else if method \<in> {''post'', ''put'', ''delete'', ''patch''} then [Dialog content] else [],
               True, b)
         else ([], False, b))"

text \<open>The listener of \<open>single-spa:app-change\<close>.\<close>

definition app_change :: "'w browser \<Rightarrow> 'w browser" where
  "app_change b =
     (if \<not> isSignInPage (hash b) \<and> getAuthTokenAsBearer b = None then b\<lparr>hash := CHR ''#'' # signInRoute\<rparr> else b)"

text \<open>The message listener of the portal page.\<close>

definition handlePortalEvent ::
    "string \<Rightarrow> string \<Rightarrow> bool \<Rightarrow> string \<Rightarrow> bool \<Rightarrow> string \<Rightarrow> 'w browser \<Rightarrow> 'w browser" where
  "handlePortalEvent type token hideNav lang skipNgmCheck redirectPath b =
     (if type \<noteq> ''DASHBOARD_PORTAL_EVENT'' then b
      else (let b = setAuthToken token b;
                opts = JObj [(''hideNav'', JBool hideNav), (''lang'', JStr lang), (''skipNgmCheck'', JBool skipNgmCheck)];
                b = b\<lparr>localStorage := (localStorage b)(''dashboard_app_options'' \<mapsto> stringify opts)\<rparr>
            in b\<lparr>hash := CHR ''#'' # redirectPath\<rparr>))"

subsection \<open>The registry of applications\<close>

record spa =
  app_id :: string
  routerPrefix :: string
  indexRoute :: string
  isDefaultRouter :: bool

record AppRegistry =
  defaultRouter :: string
  apps :: "string \<rightharpoonup> spa"

definition new_registry :: AppRegistry where
  "new_registry = \<lparr>defaultRouter = [], apps = Map.empty\<rparr>"

definition register :: "spa \<Rightarrow> AppRegistry \<Rightarrow> AppRegistry" where
  "register app r =
     (let app = (if indexRoute app = [] then app\<lparr>indexRoute := routerPrefix app\<rparr> else app);
          r = (if defaultRouter r = [] \<or> isDefaultRouter app then r\<lparr>defaultRouter := indexRoute app\<rparr> else r)
      in r\<lparr>apps := (apps r)(app_id app \<mapsto> app)\<rparr>)"

definition register_cc :: "string list option \<Rightarrow> string list option \<Rightarrow> spa \<Rightarrow> AppRegistry \<Rightarrow> AppRegistry" where
  "register_cc appsDisabled appsEnabled app r =
     (if (case appsDisabled of Some d \<Rightarrow> app_id app \<in> set d | None \<Rightarrow> False) then r
      else if (case appsEnabled of Some e \<Rightarrow> app_id app \<notin> set e | None \<Rightarrow> False) then r
      else register app r)"

definition getDefaultRouter :: "AppRegistry \<Rightarrow> string" where
  "getDefaultRouter r = (if defaultRouter r = [] then ''/'' else defaultRouter r)"

definition getActiveApp :: "string list \<Rightarrow> AppRegistry \<Rightarrow> spa option" where
  "getActiveApp mountedApps r =
     (case find (\<lambda>a. apps r a \<noteq> None) mountedApps of Some a \<Rightarrow> apps r a | None \<Rightarrow> None)"

subsection \<open>The token and its events\<close>

lemma reloadWhoAmI_simps [simp]:
  "localStorage (reloadWhoAmI b) = localStorage b" "sessionStorage (reloadWhoAmI b) = sessionStorage b"
  "tokenEvents (reloadWhoAmI b) = tokenEvents b" "hash (reloadWhoAmI b) = hash b"
  "loc_search (reloadWhoAmI b) = loc_search b" "getBaseURL (reloadWhoAmI b) = getBaseURL b"
  by (simp_all add: reloadWhoAmI_def getBaseURL_def split: option.split)

lemma token_simps [simp]:
  "sessionStorage (setAuthToken t b) = sessionStorage b" "hash (setAuthToken t b) = hash b"
  "getBaseURL (setAuthToken t b) = getBaseURL b" "getAuthToken (setAuthToken t b) = Some t"
  by (simp_all add: setAuthToken_def emit_def getAuthToken_def getBaseURL_def)
    (simp_all add: reloadWhoAmI_def split: option.split)

text \<open>Everything that may happen to the token.\<close>

datatype 'w session_event =
    SetToken string
  | ClearToken
  | WhoAnswer nat "'w option"
  | ApiError "string \<Rightarrow> string option" string api_error
  | AppChange
  | Sso "string \<Rightarrow> string + string"
  | Goto string string

fun session_step :: "'w session_event \<Rightarrow> 'w browser \<Rightarrow> 'w browser" where
  "session_step (SetToken t) b = setAuthToken t b"
| "session_step ClearToken b = clearAuthToken b"
| "session_step (WhoAnswer n r) b = whoAmI_answer n r b"
| "session_step (ApiError tr base e) b = snd (snd (handle_error tr base e b))"
| "session_step AppChange b = app_change b"
| "session_step (Sso login) b = snd (handleSSOCallback login b)"
| "session_step (Goto s h) b = b\<lparr>loc_search := s, hash := h\<rparr>"

text \<open>The announced tokens: each differs from the one before, and the last is the stored one.\<close>

fun alternating :: "'a \<Rightarrow> 'a list \<Rightarrow> bool" where
  "alternating x [] = True"
| "alternating x (y # ys) = (x \<noteq> y \<and> alternating y ys)"

definition events_ok :: "string option \<Rightarrow> 'w browser \<Rightarrow> bool" where
  "events_ok t0 b \<longleftrightarrow> alternating t0 (tokenEvents b) \<and> getAuthToken b = last (t0 # tokenEvents b)"

lemma alternating_snoc: "alternating x (ys @ [y]) \<longleftrightarrow> alternating x ys \<and> last (x # ys) \<noteq> y"
  by (induction ys arbitrary: x) auto

lemma events_ok_set: "events_ok t0 b \<Longrightarrow> events_ok t0 (setAuthToken t b)"
  by (auto simp: events_ok_def setAuthToken_def emit_def getAuthToken_def alternating_snoc)

lemma events_ok_clear: "events_ok t0 b \<Longrightarrow> events_ok t0 (clearAuthToken b)"
  by (auto simp: events_ok_def clearAuthToken_def emit_def getAuthToken_def alternating_snoc split: option.split)

lemma events_ok_other:
  "events_ok t0 b \<Longrightarrow> localStorage b' = localStorage b \<Longrightarrow> tokenEvents b' = tokenEvents b \<Longrightarrow> events_ok t0 b'"
  by (simp add: events_ok_def getAuthToken_def)

lemma events_ok_sso: "events_ok t0 b \<Longrightarrow> events_ok t0 (snd (handleSSOCallback login b))"
proof -
  assume ok: "events_ok t0 b"
  let ?b = "b\<lparr>sessionStorage := (sessionStorage b)(''sso.codeVerifier'' := None, ''sso.state'' := None)\<rparr>"
  have "events_ok t0 ((setAuthToken t ?b)\<lparr>loc_search := [], hash := []\<rparr>)" for t
    by (rule events_ok_other [OF events_ok_set [of t0 ?b t]])
      (rule events_ok_other [OF ok], simp_all)
  then show ?thesis
    using ok by (simp add: handleSSOCallback_def Let_def split: sum.split)
qed

lemma events_ok_step: "events_ok t0 b \<Longrightarrow> events_ok t0 (session_step e b)"
proof (cases e)
  case (WhoAnswer n r)
  assume "events_ok t0 b"
  then show ?thesis using WhoAnswer by (auto simp: whoAmI_answer_def elim: events_ok_other)
next
  case (ApiError tr base err)
  assume ok: "events_ok t0 b"
  have "events_ok t0 ((clearAuthToken b)\<lparr>hash := h\<rparr>)" for h
    by (rule events_ok_other [OF events_ok_clear [OF ok]]) simp_all
  then show ?thesis using ok ApiError by (simp add: handle_error_def Let_def)
next
  case AppChange
  assume "events_ok t0 b"
  then show ?thesis using AppChange by (auto simp: app_change_def elim: events_ok_other)
next
  case (Goto s h)
  assume "events_ok t0 b"
  then show ?thesis using Goto by (auto elim: events_ok_other)
qed (simp_all add: events_ok_set events_ok_clear events_ok_sso)

text \<open>
  Every change of the stored token is announced exactly once. After any sequence of sign-ins, sign-outs, failed
  requests, navigation and answers, the events emitted since the start alternate, none repeating the
  token before it, and the last one announced the token that is stored.
\<close>

theorem token_events_follow:
  fixes es :: "'w session_event list"
  assumes "tokenEvents b = []"
  defines "b' \<equiv> fold session_step es b"
  shows "alternating (getAuthToken b) (tokenEvents b') \<and>
    getAuthToken b' = last (getAuthToken b # tokenEvents b')"
proof -
  have "events_ok (getAuthToken b) b"
    using assms(1) by (simp add: events_ok_def)
  then have "events_ok (getAuthToken b) b'"
    unfolding b'_def by (induction es arbitrary: b rule: rev_induct) (simp_all add: events_ok_step)
  then show ?thesis by (simp add: events_ok_def)
qed

definition sample_browser :: "nat browser" where
  "sample_browser =
     \<lparr>localStorage = Map.empty, sessionStorage = Map.empty, protocol = ''http:'', host = ''h'', pathname_b = ''/'',
      loc_search = [], hash = ''#/signin'', tokenEvents = [], whoAmI = None, whoPending = []\<rparr>"

theorem token_events_follow_witness:
  "getAuthToken (fold session_step [SetToken ''a'', SetToken ''a'', ClearToken, SetToken ''b''] sample_browser) =
   last (getAuthToken sample_browser #
     tokenEvents (fold session_step [SetToken ''a'', SetToken ''a'', ClearToken, SetToken ''b''] sample_browser))"
  using token_events_follow [of sample_browser "[SetToken ''a'', SetToken ''a'', ClearToken, SetToken ''b'']"]
  by (simp add: sample_browser_def)

text \<open>
  A request for the user that is answered after the sign-out shows a user without a token.
\<close>

theorem whoami_stale:
  assumes "getAuthToken b = None" "whoPending b = []" "t \<noteq> []"
  shows "getAuthToken (fold session_step [SetToken t, ClearToken, WhoAnswer 0 (Some u)] b) = None \<and>
    whoAmI (fold session_step [SetToken t, ClearToken, WhoAnswer 0 (Some u)] b) = Some u"
  using assms
  by (simp add: setAuthToken_def clearAuthToken_def emit_def getAuthToken_def reloadWhoAmI_def whoAmI_answer_def)

theorem whoami_stale_witness:
  "whoAmI (fold session_step [SetToken ''t'', ClearToken, WhoAnswer 0 (Some 7)] sample_browser) = Some 7"
  using whoami_stale [of sample_browser "''t''" 7] by (simp add: sample_browser_def getAuthToken_def)

subsection \<open>Single sign-on\<close>

lemma newRandomString_ok:
  assumes "list_all (\<lambda>r. 0 \<le> r \<and> r < 1) rnd"
  shows "length (newRandomString rnd) = length rnd \<and> set (newRandomString rnd) \<subseteq> set possible"
proof -
  have "nat \<lfloor>r * of_nat (length possible)\<rfloor> < length possible" if "0 \<le> r" "r < 1" for r :: rat
  proof -
    have "0 < length possible" by (simp add: possible_def)
    then have "r * of_nat (length possible) < of_nat (length possible)"
      using that(2) by simp
    then show ?thesis
      using that(1) by (simp add: floor_less_iff nat_less_iff)
  qed
  then show ?thesis
    using assms by (auto simp: newRandomString_def list_all_iff)
qed

text \<open>
  C12: signing in with single sign-on works, and only with the state of the started sign-in. When the identity
  provider answers with the code and the state of the last request, the server is asked with that
  code, the stored verifier and the redirect address, its token is stored, the one-time secrets are
  removed and the page is replaced. A callback whose state differs from the stored one changes nothing,
  asks nothing and reports the error.
\<close>

theorem sso_login_flow:
  fixes b :: "'w browser" and rnd2 :: "rat list"
  assumes "login (stringify (JObj [(''code'', JStr c), (''code_verifier'', JStr (newRandomString rnd1)),
             (''redirect_url'', JStr (getRedirectURL b))])) = Inr token"
  defines "b1 \<equiv> snd (getAuthURL rnd1 rnd2 b)"
  defines "cb \<equiv> (\<lambda>state. b1\<lparr>loc_search := CHR ''?'' # show_search
             [(''sso_callback'', ''1''), (''code'', c), (''state'', state)]\<rparr>)"
  shows "fst (getAuthURL rnd1 rnd2 b) = \<lparr>codeVerifier = newRandomString rnd1, redirectUrl = getRedirectURL b,
           sso_state = newRandomString rnd2\<rparr> \<and>
    isSSOCallback (cb state) \<and>
    (if state = newRandomString rnd2
     then fst (handleSSOCallback login (cb state)) = Replaced (getBaseURL b) \<and>
          getAuthToken (snd (handleSSOCallback login (cb state))) = Some token \<and>
          sessionStorage (snd (handleSSOCallback login (cb state))) ''sso.state'' = None \<and>
          sessionStorage (snd (handleSSOCallback login (cb state))) ''sso.codeVerifier'' = None
     else handleSSOCallback login (cb state) = (SsoFailed invalid_state, cb state))"
proof -
  have search: "parse_search (CHR ''?'' # show_search ps) = ps" for ps
  proof -
    have "parse_search (CHR ''?'' # show_search ps) = parse_search (show_search ps)"
      by (cases "show_search ps") (auto simp: parse_search_def dest: show_search_no_question)
    then show ?thesis by simp
  qed
  have params: "search_param ''state'' (cb state) = Some state" "search_param ''code'' (cb state) = Some c"
    "search_param ''sso_callback'' (cb state) = Some ''1''" for state
    by (simp_all add: search_param_def cb_def search)
  have store: "sessionStorage (cb state) ''sso.state'' = Some (newRandomString rnd2)"
    "sessionStorage (cb state) ''sso.codeVerifier'' = Some (newRandomString rnd1)"
    "getRedirectURL (cb state) = getRedirectURL b" "getBaseURL (cb state) = getBaseURL b" for state
    by (simp_all add: cb_def b1_def getAuthURL_def Let_def getRedirectURL_def getBaseURL_def)
  have login: "login (stringify (sso_extra (cb state))) = Inr token" for state
    using assms(1) by (simp add: sso_extra_def params store json_null_def del: stringify.simps)
  have base: "getBaseURL (b'\<lparr>sessionStorage := x\<rparr>) = getBaseURL b'"
    "getAuthToken (b'\<lparr>loc_search := s, hash := h\<rparr>) = getAuthToken b'" for b' :: "'w browser" and x s h
    by (simp_all add: getBaseURL_def getAuthToken_def)
  have "fst (getAuthURL rnd1 rnd2 b) = \<lparr>codeVerifier = newRandomString rnd1, redirectUrl = getRedirectURL b,
      sso_state = newRandomString rnd2\<rparr>"
    by (simp add: getAuthURL_def Let_def getRedirectURL_def getBaseURL_def)
  then show ?thesis
    by (simp add: isSSOCallback_def params handleSSOCallback_def store login Let_def base)
qed

theorem sso_login_flow_witness:
  "getAuthToken (snd (handleSSOCallback (\<lambda>_. Inr ''tok'')
     ((snd (getAuthURL [0, 1 / 2] [1 / 4] sample_browser))\<lparr>loc_search := CHR ''?'' # show_search
        [(''sso_callback'', ''1''), (''code'', ''c''), (''state'', newRandomString [1 / 4])]\<rparr>))) = Some ''tok''"
  using sso_login_flow [of "\<lambda>_. Inr ''tok''" "''c''" "[0, 1 / 2]" sample_browser "''tok''" "[1 / 4]"
    "newRandomString [1 / 4]"] by simp

text \<open>
  A callback without a state is accepted when no sign-in was started: both sides of the comparison are null.
\<close>

theorem sso_missing_state:
  assumes "search_param ''state'' b = None" and "sessionStorage b ''sso.state'' = None"
    and "login (stringify (sso_extra b)) = Inr token"
  shows "getAuthToken (snd (handleSSOCallback login b)) = Some token"
proof -
  have "getAuthToken (b'\<lparr>loc_search := s, hash := h\<rparr>) = getAuthToken b'" for b' :: "'a browser" and s h
    by (simp add: getAuthToken_def)
  then show ?thesis
    using assms by (simp add: handleSSOCallback_def Let_def)
qed

theorem sso_missing_state_witness:
  "getAuthToken (snd (handleSSOCallback (\<lambda>_. Inr ''tok'')
     (sample_browser\<lparr>loc_search := ''?sso_callback=1&code=stolen''\<rparr>))) = Some ''tok''"
proof -
  have "search_param ''state'' (sample_browser\<lparr>loc_search := ''?sso_callback=1&code=stolen''\<rparr>) = None"
    by code_simp
  then show ?thesis
    by (rule sso_missing_state) (simp_all add: sample_browser_def)
qed

subsection \<open>Errors and guards\<close>

lemma sign_in_route: "isSignInPage (CHR ''#'' # signInRoute)"
  by (simp add: isSignInPage_def isLocationMatch_def signInRoute_def indexOf_def Let_def)

lemma clear_no_token: "getAuthTokenAsBearer (clearAuthToken b) = None"
  by (auto simp: getAuthTokenAsBearer_def clearAuthToken_def emit_def getAuthToken_def split: option.splits)

text \<open>
  C15: an answer that says the user is not authenticated always leads to the sign-in page without a token, whatever
  handling the request asked for, and counts as handled; every other error leaves token and page as
  they are and is shown at most once, and not at all when the request handles its errors itself.
\<close>

theorem unauthenticated_signs_out:
  "case handle_error translation basePath err b of (shown, handled, b') \<Rightarrow>
     if error_code err = Some ''common.unauthenticated'' \<or> error_code err = Some ''error.api.unauthorized''
     then handled \<and> isSignInPage (hash b') \<and> getAuthTokenAsBearer b' = None \<and> app_change b' = b' \<and>
       (isSignInPage (hash b) \<longrightarrow> shown = [])
     else b' = b \<and> length shown \<le> 1 \<and> handled = defaultHandling err \<and> (\<not> handled \<longrightarrow> shown = [])"
proof -
  have "getAuthTokenAsBearer (b'\<lparr>hash := h\<rparr>) = getAuthTokenAsBearer b'" for b' :: "'a browser" and h
    by (simp add: getAuthTokenAsBearer_def getAuthToken_def)
  then show ?thesis
    by (simp add: handle_error_def Let_def app_change_def sign_in_route clear_no_token)
qed

theorem unauthenticated_signs_out_witness:
  "isSignInPage (hash (snd (snd (handle_error (\<lambda>_. None) ''/api''
     \<lparr>networkError = False, body_code = Some ''common.unauthenticated'', body_message = None, err_message = ''e'',
      err_method = ''GET'', err_url = ''/api/x'', defaultHandling = True\<rparr> sample_browser))))"
  using unauthenticated_signs_out [where translation = "\<lambda>_. None" and basePath = "''/api''" and b = sample_browser and
    err = "\<lparr>networkError = False, body_code = Some ''common.unauthenticated'', body_message = None, err_message = ''e'',
      err_method = ''GET'', err_url = ''/api/x'', defaultHandling = True\<rparr>"]
  by (simp add: error_code_def case_prod_unfold)

subsection \<open>The registry\<close>

definition app_enabled :: "string list option \<Rightarrow> string list option \<Rightarrow> spa \<Rightarrow> bool" where
  "app_enabled d e a \<longleftrightarrow>
     (case d of Some ds \<Rightarrow> app_id a \<notin> set ds | None \<Rightarrow> True) \<and> (case e of Some es \<Rightarrow> app_id a \<in> set es | None \<Rightarrow> True)"

definition index_of :: "spa \<Rightarrow> string" where
  "index_of a = (if indexRoute a = [] then routerPrefix a else indexRoute a)"

lemma register_cc_fold:
  "fold (register_cc d e) as r = fold register (filter (app_enabled d e) as) r"
  by (induction as arbitrary: r) (auto simp: register_cc_def app_enabled_def split: option.splits)

lemma defaultRouter_fold:
  assumes "list_all (\<lambda>a. index_of a \<noteq> []) as"
  shows "defaultRouter (fold register as r) =
    (case filter isDefaultRouter as of
       d # ds \<Rightarrow> index_of (last (d # ds))
     | [] \<Rightarrow> if defaultRouter r \<noteq> [] then defaultRouter r else (case as of [] \<Rightarrow> [] | a # _ \<Rightarrow> index_of a))"
  using assms
proof (induction as arbitrary: r)
  case (Cons a as)
  have "defaultRouter (register a r) = (if defaultRouter r = [] \<or> isDefaultRouter a then index_of a else defaultRouter r)"
    by (simp add: register_def index_of_def Let_def)
  with Cons show ?case
    by (auto split: list.splits)
qed simp

text \<open>
  The cloud distribution registers exactly as the operator distribution would if it were given only the
  applications that are not disabled and, when a list of enabled ones is set, are in it; and the page
  opened first is the index of the last application marked as default, or else of the first one.
\<close>

theorem registry_default_route:
  assumes "list_all (\<lambda>a. index_of a \<noteq> []) as"
  shows "fold (register_cc d e) as new_registry = fold register (filter (app_enabled d e) as) new_registry \<and>
    getDefaultRouter (fold register as new_registry) =
      (case filter isDefaultRouter as of
         a # rest \<Rightarrow> index_of (last (a # rest))
       | [] \<Rightarrow> (case as of [] \<Rightarrow> ''/'' | a # _ \<Rightarrow> index_of a))"
proof -
  have "index_of (last (x # xs)) \<noteq> []" if "filter isDefaultRouter as = x # xs" for x xs
  proof -
    have "last (x # xs) \<in> set (filter isDefaultRouter as)"
      unfolding that by (rule last_in_set) simp
    then show ?thesis using assms by (auto simp: list_all_iff)
  qed
  then show ?thesis
    using assms defaultRouter_fold [OF assms, of new_registry]
    by (auto simp: register_cc_fold getDefaultRouter_def new_registry_def split: list.splits)
qed

theorem registry_default_route_witness:
  "getDefaultRouter (fold register
     [\<lparr>app_id = ''a'', routerPrefix = ''/a'', indexRoute = [], isDefaultRouter = False\<rparr>,
      \<lparr>app_id = ''b'', routerPrefix = ''/b'', indexRoute = ''/b/x'', isDefaultRouter = True\<rparr>] new_registry) = ''/b/x''"
  using registry_default_route [of
    "[\<lparr>app_id = ''a'', routerPrefix = ''/a'', indexRoute = [], isDefaultRouter = False\<rparr>,
      \<lparr>app_id = ''b'', routerPrefix = ''/b'', indexRoute = ''/b/x'', isDefaultRouter = True\<rparr>]" None None]
  by (simp add: index_of_def)

end
