(* ===== verification/SearchLogs.thy ===== *)
theory SearchLogs
  imports InstanceSelect TimeRange "HOL-Library.Multiset" "HOL-Library.List_Lexorder" "HOL-Library.Char_ord"
begin

text \<open>
  The log search pages, \<open>apps/SearchLogs\<close>: the form and its request (\<open>SearchHeader.tsx\<close>), the progress of the tasks
  (\<open>SearchProgress.tsx\<close>), polling (\<open>LogSearchDetail.tsx\<close>), the colours of the components
  (\<open>SearchResult.tsx\<close>) and the deletion of searches (\<open>LogSearchHistory.tsx\<close>). Instances come from the
  instance selector; the remaining field of an instance that matters here is its status port.
\<close>

subsection \<open>Levels and states\<close>

datatype LogLevel = LUnknown | LDebug | LInfo | LWarn | LTrace | LCritical | LError

fun LogLevelText :: "LogLevel \<Rightarrow> string" where
  "LogLevelText LUnknown = ''UNKNOWN''"
| "LogLevelText LDebug = ''DEBUG''"
| "LogLevelText LInfo = ''INFO''"
| "LogLevelText LWarn = ''WARN''"
| "LogLevelText LTrace = ''TRACE''"
| "LogLevelText LCritical = ''CRITICAL''"
| "LogLevelText LError = ''ERROR''"

definition ValidLogLevels :: "LogLevel list" where
  "ValidLogLevels = [LDebug, LInfo, LWarn, LCritical, LError]"

datatype TaskState = TRunning | TFinished | TError

record target_node =
  t_kind :: string
  t_display_name :: string
  t_ip :: string
  t_port :: int

record search_task =
  task_id :: int
  task_state :: "TaskState option"
  task_size :: "rat option"
  task_target :: "target_node option"

subsection \<open>The form\<close>

record search_form =
  f_timeRange :: "TimeRange option"
  f_logLevel :: nat
  f_instances :: "key list option"
  f_keywords :: "string option"

record search_request =
  targets :: "target_node list"
  start_time :: jsnum
  end_time :: jsnum
  min_level :: nat
  patterns :: "string list"

text \<open>
  \<open>s.split(/\s+/)\<close>: the texts between maximal runs of white space, the first and the last possibly empty. \<open>gap\<close> is
  true inside a run.
\<close>

fun split_gap :: "bool \<Rightarrow> string \<Rightarrow> string list" where
  "split_gap gap [] = [[]]"
| "split_gap gap (c # s) =
     (if is_space c then (if gap then split_gap True s else [] # split_gap True s)
      else (case split_gap False s of w # ws \<Rightarrow> (c # w) # ws | [] \<Rightarrow> [[c]]))"

definition split_spaces :: "string \<Rightarrow> string list" where
  "split_spaces s = split_gap False s"

text \<open>The port of the log server: \<open>status_port\<close> of TiDB and TiProxy, \<open>port\<close> of the others.\<close>

type_synonym log_instance = "int option IInstanceTableItem"

definition target_port :: "log_instance \<Rightarrow> int option" where
  "target_port i =
     (case instanceKind i of TIDB \<Rightarrow> rest i | TIPROXY \<Rightarrow> rest i | _ \<Rightarrow> Some (port i))"

definition mk_target :: "log_instance \<Rightarrow> target_node option" where
  "mk_target i =
     map_option (\<lambda>p. \<lparr>t_kind = kind_str (instanceKind i), t_display_name = item_key i, t_ip = ip i, t_port = p\<rparr>)
       (target_port i)"

datatype search_outcome =
    MissingFields
  | NotReady
  | UnknownInstance
  | Send search_request

text \<open>
  \<open>ready\<close>: the instance selector is mounted. \<^const>\<open>UnknownInstance\<close> is the \<open>TypeError\<close> of reading a field of an instance
  that is not in the table.
\<close>

definition handleSearch :: "jsnum \<Rightarrow> bool \<Rightarrow> log_instance list \<Rightarrow> search_form \<Rightarrow> search_outcome" where
  "handleSearch now ready items f =
     (if or_empty (f_instances f) = [] \<or> f_logLevel f = 0 \<or> f_timeRange f = None then MissingFields
      else if \<not> ready then NotReady
      else (let found = getInstanceByKeys items (or_empty (f_instances f))
            in if None \<in> set found then UnknownInstance
               else (let (st, en) = calcTimeRange now (f_timeRange f)
                     in Send \<lparr>targets = List.map_filter mk_target (map the found),
                              start_time = st * Fin 1000, end_time = en * Fin 1000, min_level = f_logLevel f,
                              patterns = split_spaces (or_empty (f_keywords f))\<rparr>)))"

text \<open>The form that the detail page restores from a search and its tasks.\<close>

definition restore_form :: "search_request \<Rightarrow> search_task list \<Rightarrow> search_form" where
  "restore_form r tasks =
     \<lparr>f_timeRange = Some (Absolute (js_div (start_time r) (Fin 1000)) (js_div (end_time r) (Fin 1000))),
      f_logLevel = (if min_level r = 0 then 2 else min_level r),
      f_instances = Some (List.map_filter (\<lambda>t. case task_target t of
          Some n \<Rightarrow> if t_display_name n \<noteq> [] then Some (t_display_name n) else None | None \<Rightarrow> None) tasks),
      f_keywords = Some (join '' '' (patterns r))\<rparr>"

subsection \<open>Progress\<close>

datatype icon = LoadingIcon | SuccessIcon | FailIcon

fun taskStateIcons :: "TaskState \<Rightarrow> icon" where
  "taskStateIcons TRunning = LoadingIcon"
| "taskStateIcons TFinished = SuccessIcon"
| "taskStateIcons TError = FailIcon"

record leaf_node =
  leaf_key :: string
  leaf_title :: string
  leaf_icon :: icon
  leaf_disabled :: bool

text \<open>\<open>bytes\<close> formats a size, \<open>getValueFormat('bytes')\<close> with one digit.\<close>

definition leaf_of :: "(rat option \<Rightarrow> string) \<Rightarrow> search_task \<Rightarrow> leaf_node" where
  "leaf_of bytes t =
     \<lparr>leaf_key = show_int (task_id t),
      leaf_title = (case task_target t of Some n \<Rightarrow> t_display_name n | None \<Rightarrow> []) @ '' ('' @ bytes (task_size t) @ '')'',
      leaf_icon = taskStateIcons (case task_state t of Some s \<Rightarrow> s | None \<Rightarrow> TError),
      leaf_disabled = (task_size t = None \<or> task_size t = Some 0 \<or> task_state t \<noteq> Some TFinished)\<rparr>"

definition getLeafNodes :: "(rat option \<Rightarrow> string) \<Rightarrow> search_task list \<Rightarrow> leaf_node list" where
  "getLeafNodes bytes tasks = map (leaf_of bytes) tasks"

definition parentNodeIcon :: "search_task list \<Rightarrow> icon" where
  "parentNodeIcon tasks =
     (if list_ex (\<lambda>t. task_state t = Some TRunning) tasks then LoadingIcon
      else if \<not> list_ex (\<lambda>t. task_state t \<noteq> Some TFinished) tasks then SuccessIcon
      else FailIcon)"

definition parentNodeCheckable :: "search_task list \<Rightarrow> bool" where
  "parentNodeCheckable tasks \<longleftrightarrow>
     list_ex (\<lambda>t. task_state t = Some TFinished) tasks \<and>
     0 < fold (\<lambda>t acc. acc + (case task_size t of Some s \<Rightarrow> s | None \<Rightarrow> 0)) tasks 0"

definition sumBy_size :: "search_task list \<Rightarrow> rat option" where
  "sumBy_size tasks =
     (if tasks \<noteq> [] \<and> list_all (\<lambda>t. task_size t = None) tasks then None
      else Some (sum_list (List.map_filter task_size tasks)))"

text \<open>\<open>descr\<close> are the words for finished and failed tasks; running tasks are counted and not shown.\<close>

definition describeProgress :: "string \<times> string \<Rightarrow> (rat option \<Rightarrow> string) \<Rightarrow> search_task list \<Rightarrow> string" where
  "describeProgress descr bytes tasks =
     (let n = (\<lambda>s. length (filter (\<lambda>t. task_state t = Some s) tasks));
          res = (if n TFinished > 0 then [show_nat (n TFinished) @ '' '' @ fst descr] else []) @
                (if n TError > 0 then [show_nat (n TError) @ '' '' @ snd descr] else [])
      in join '', '' res @ '' ('' @ bytes (sumBy_size tasks) @ '')'')"

record parent_node =
  node_key :: string
  node_title :: string
  node_icon :: icon
  node_disabled :: bool
  node_children :: "leaf_node list"

definition tasks_of :: "InstanceKind \<Rightarrow> search_task list \<Rightarrow> search_task list" where
  "tasks_of ik tasks = filter (\<lambda>t. map_option t_kind (task_target t) = Some (kind_str ik)) tasks"

definition treeData ::
    "(InstanceKind \<Rightarrow> string) \<Rightarrow> string \<times> string \<Rightarrow> (rat option \<Rightarrow> string) \<Rightarrow> search_task list \<Rightarrow> parent_node list" where
  "treeData kindName descr bytes tasks =
     List.map_filter (\<lambda>ik. let ts = tasks_of ik tasks
       in if ts = [] then None
          else Some \<lparr>node_key = kind_str ik, node_title = kindName ik @ '' '' @ describeProgress descr bytes ts,
                     node_icon = parentNodeIcon ts, node_disabled = \<not> parentNodeCheckable ts,
                     node_children = getLeafNodes bytes ts\<rparr>) InstanceKinds"

text \<open>
  Downloading: the keys sent for the token, and the address of the download; \<open>token\<close> is the answer.
\<close>

definition download_keys :: "int \<Rightarrow> string list \<Rightarrow> string list option" where
  "download_keys taskGroupID checkedKeys =
     (if taskGroupID < 0 then None else Some (filter (\<lambda>k. k \<notin> kind_str ` set InstanceKinds) checkedKeys))"

definition download_url :: "string \<Rightarrow> string \<Rightarrow> string option" where
  "download_url apiPathBase token = (if token = [] then None else Some (apiPathBase @ ''/logs/download?token='' @ token))"

definition downloadDisabled :: "string list \<Rightarrow> bool" where
  "downloadDisabled checkedKeys \<longleftrightarrow> checkedKeys = []"

definition cancelDisabled :: "search_task list \<Rightarrow> bool" where
  "cancelDisabled tasks \<longleftrightarrow> \<not> list_ex (\<lambda>t. task_state t = Some TRunning) tasks"

definition retryDisabled :: "search_task list \<Rightarrow> bool" where
  "retryDisabled tasks \<longleftrightarrow>
     list_ex (\<lambda>t. task_state t = Some TRunning) tasks \<or> \<not> list_ex (\<lambda>t. task_state t = Some TError) tasks"

definition isFinished :: "int \<Rightarrow> search_task list option \<Rightarrow> bool" where
  "isFinished taskGroupID data =
     (if taskGroupID < 0 then True
      else case data of None \<Rightarrow> False | Some tasks \<Rightarrow> \<not> list_ex (\<lambda>t. task_state t = Some TRunning) tasks)"

subsection \<open>Results and history\<close>

text \<open>The colour index of each task: its place in the order of kind and name, as a fraction.\<close>

definition component_name :: "search_task \<Rightarrow> string" where
  "component_name t =
     (case task_target t of
        Some n \<Rightarrow> t_kind n @ '' '' @ t_display_name n
      | None \<Rightarrow> ''undefined undefined'')"

definition sortIndexes :: "search_task list \<Rightarrow> (int \<times> rat) list" where
  "sortIndexes tasks =
     (let sorted = sort_key component_name tasks
      in map (\<lambda>i. (task_id (sorted ! i), of_nat i / of_nat (length sorted))) [0..<length sorted])"

definition componentByTaskId :: "search_task list \<Rightarrow> int \<Rightarrow> rat option" where
  "componentByTaskId tasks = fold (\<lambda>(k, v) m. m(k \<mapsto> v)) (sortIndexes tasks) Map.empty"

text \<open>
  Deleting searches one after the other: \<open>del\<close> tells whether a deletion succeeds; the first failure rejects the
  rest. The deleted keys, and whether the list is fetched again.
\<close>

fun delete_all :: "('k \<Rightarrow> bool) \<Rightarrow> 'k list \<Rightarrow> 'k list \<times> bool" where
  "delete_all del [] = ([], True)"
| "delete_all del (k # ks) = (if del k then (case delete_all del ks of (d, ok) \<Rightarrow> (k # d, ok)) else ([], False))"

definition handleDeleteAll :: "(string \<Rightarrow> bool) \<Rightarrow> int option list \<Rightarrow> string list \<times> bool" where
  "handleDeleteAll del ids = delete_all del (map show_int (List.map_filter id ids))"

subsection \<open>Keywords\<close>

definition no_space :: "string \<Rightarrow> bool" where
  "no_space w \<longleftrightarrow> list_all (\<lambda>c. \<not> is_space c) w"

text \<open>What \<^const>\<open>split_gap\<close> returns inside and outside a run of white space: only the outer words may be empty.\<close>

definition words_in :: "string list \<Rightarrow> bool" where
  "words_in ws \<longleftrightarrow> ws \<noteq> [] \<and> list_all no_space ws \<and> list_all (\<lambda>w. w \<noteq> []) (butlast ws)"

definition words_out :: "string list \<Rightarrow> bool" where
  "words_out ws \<longleftrightarrow> ws \<noteq> [] \<and> no_space (hd ws) \<and> (tl ws = [] \<or> words_in (tl ws))"

lemma split_gap_words: "if gap then words_in (split_gap gap s) else words_out (split_gap gap s)"
proof (induction s arbitrary: gap)
  case Nil
  show ?case by (simp add: words_in_def words_out_def no_space_def)
next
  case (Cons c s)
  show ?case
  proof (cases "is_space c")
    case True
    then show ?thesis
      using Cons.IH [of True] by (auto simp: words_out_def no_space_def)
  next
    case False
    obtain w ws where s: "split_gap False s = w # ws" and out: "words_out (w # ws)"
      using Cons.IH [of False] by (cases "split_gap False s") (auto simp: words_out_def)
    then show ?thesis
      using False by (auto simp: words_out_def words_in_def no_space_def)
  qed
qed

lemma split_gap_word: "no_space w \<Longrightarrow> split_gap False w = [w]"
  by (induction w) (auto simp: no_space_def)

lemma split_gap_space: "no_space w \<Longrightarrow> split_gap False (w @ CHR '' '' # s) = w # split_gap True s"
  by (induction w) (auto simp: no_space_def is_space_def code_def)

lemma split_gap_start: "no_space w \<Longrightarrow> w \<noteq> [] \<Longrightarrow> split_gap True (w @ s) = split_gap False (w @ s)"
  by (cases w) (auto simp: no_space_def)

lemma split_in: "words_in ws \<Longrightarrow> split_gap True (join '' '' ws) = ws"
proof (induction ws rule: induct_list012)
  case (2 w)
  then show ?case
    using split_gap_start [of w "[]"] by (cases "w = []") (auto simp: words_in_def split_gap_word)
next
  case (3 w v vs)
  then have "no_space w" "w \<noteq> []" "words_in (v # vs)"
    by (auto simp: words_in_def)
  then show ?case
    using "3.IH"(2) by (simp add: split_gap_start split_gap_space)
qed (simp add: words_in_def)

lemma split_spaces_join: "split_spaces (join '' '' (split_spaces s)) = split_spaces s"
proof -
  have "words_out (split_spaces s)"
    using split_gap_words [of False s] by (simp add: split_spaces_def)
  then obtain w ws where "split_spaces s = w # ws" "no_space w" "ws = [] \<or> words_in ws"
    by (cases "split_spaces s") (auto simp: words_out_def)
  moreover from this(3) have "split_gap False (join '' '' (w # ws)) = w # ws"
    using \<open>no_space w\<close> by (cases ws) (auto simp: split_gap_word split_gap_space split_in words_in_def)
  ultimately show ?thesis
    by (simp add: split_spaces_def)
qed

subsection \<open>Resubmitting a search\<close>

lemma getInstanceByKeys_nth:
  "getInstanceByKeys items ks = map (map_of (rev (map (\<lambda>i. (item_key i, i)) items))) ks"
proof -
  have "fold (\<lambda>i m. m(item_key i \<mapsto> i)) items m = m ++ map_of (rev (map (\<lambda>i. (item_key i, i)) items))" for m
  proof (induction items arbitrary: m)
    case (Cons i items)
    then show ?case by (auto simp: map_add_def fun_eq_iff split: option.splits)
  qed simp
  then show ?thesis
    by (simp add: getInstanceByKeys_def)
qed

lemma found_key: "map_of (rev (map (\<lambda>i. (item_key i, i)) items)) k = Some i \<Longrightarrow> item_key i = k \<and> i \<in> set items"
  by (auto dest!: map_of_SomeD)

lemma table_keys: "i \<in> set (tableItems kindName loading p) \<Longrightarrow> item_key i \<noteq> []"
  by (auto simp: tableItems_def buildInstanceTable_def group_loop_rows mk_item_def split: if_splits option.splits)

text \<open>The targets of the found instances name the instances they came from.\<close>

lemma targets_found:
  assumes "\<And>i. i \<in> set items \<Longrightarrow> item_key i \<noteq> []"
    and "map (map_of (rev (map (\<lambda>i. (item_key i, i)) items))) ks = map Some is"
  shows "getInstanceByKeys items (map t_display_name (List.map_filter mk_target is)) =
           map Some (filter (\<lambda>i. mk_target i \<noteq> None) is)"
    and "list_all (\<lambda>n. t_display_name n \<noteq> []) (List.map_filter mk_target is)"
proof -
  let ?m = "map_of (rev (map (\<lambda>i. (item_key i, i)) items))"
  have all: "?m (item_key i) = Some i \<and> item_key i \<noteq> []" if "i \<in> set is" for i
  proof -
    have "Some i \<in> set (map ?m ks)"
      unfolding assms(2) using that by simp
    then obtain k where "?m k = Some i"
      by auto
    with found_key [OF this] assms(1) show ?thesis by auto
  qed
  have name: "t_display_name n = item_key i" if "mk_target i = Some n" for i n
    using that by (auto simp: mk_target_def)
  show "getInstanceByKeys items (map t_display_name (List.map_filter mk_target is)) =
      map Some (filter (\<lambda>i. mk_target i \<noteq> None) is)"
    unfolding getInstanceByKeys_nth using all
  proof (induction "is")
    case (Cons i "is")
    have i: "?m (item_key i) = Some i"
      using Cons.prems by simp
    have IH: "map ?m (map t_display_name (List.map_filter mk_target is)) = map Some (filter (\<lambda>i. mk_target i \<noteq> None) is)"
      using Cons.prems by (intro Cons.IH) simp
    show ?case
      using i IH by (cases "mk_target i") (simp_all only: map_filter_simps option.case list.map filter.simps name if_True if_False
          option.distinct not_False_eq_True not_True_eq_False simp_thms refl)
  qed (simp add: map_filter_simps)
  show "list_all (\<lambda>n. t_display_name n \<noteq> []) (List.map_filter mk_target is)"
    using all by (auto simp: list_all_iff map_filter_def name)
qed

lemma map_filter_again:
  "List.map_filter f (filter (\<lambda>i. f i \<noteq> None) xs) = List.map_filter f xs"
  by (induction xs) (auto simp: map_filter_simps)

lemma restored_instances:
  assumes "map task_target tasks = map Some ns" and "list_all (\<lambda>n. t_display_name n \<noteq> []) ns"
  shows "f_instances (restore_form r tasks) = Some (map t_display_name ns)"
proof -
  have "List.map_filter (\<lambda>t. case task_target t of
      Some n \<Rightarrow> if t_display_name n \<noteq> [] then Some (t_display_name n) else None | None \<Rightarrow> None) tasks = map t_display_name ns"
    using assms by (induction tasks arbitrary: ns) (auto simp: map_filter_simps map_eq_Cons_conv)
  then show ?thesis by (simp add: restore_form_def)
qed

text \<open>
  C21: a search can be repeated from its detail page. When a form is sent, and the tasks of the search have the
  targets of the request, then the form that the detail page restores sends, at any later time, a
  request with the same targets, times, level and keywords.
\<close>

theorem search_resubmits:
  fixes now' :: jsnum
  assumes "items = tableItems kindName loading p"
    and sent: "handleSearch now True items f = Send r" and "targets r \<noteq> []"
    and "start_time r = Fin a" and "end_time r = Fin b"
    and "map task_target tasks = map Some (targets r)"
  shows "handleSearch now' True items (restore_form r tasks) = Send r"
proof -
  have keys: "item_key i \<noteq> []" if "i \<in> set items" for i
    using that assms(1) by (simp add: table_keys)
  let ?found = "getInstanceByKeys items (or_empty (f_instances f))"
  have level: "f_logLevel f \<noteq> 0" and known: "None \<notin> set ?found"
    using sent by (auto simp: handleSearch_def Let_def split: if_splits)
  have r: "targets r = List.map_filter mk_target (map the ?found)" "min_level r = f_logLevel f"
    "patterns r = split_spaces (or_empty (f_keywords f))"
    using sent by (auto simp: handleSearch_def Let_def split: if_splits prod.splits)
  have "map Some (map the ?found) = ?found"
    unfolding map_map comp_def using known by (intro map_idI) (metis option.collapse)
  then have "map (map_of (rev (map (\<lambda>i. (item_key i, i)) items))) (or_empty (f_instances f)) = map Some (map the ?found)"
    by (simp add: getInstanceByKeys_nth)
  note again = targets_found [OF keys this, folded r(1)]
  have insts: "f_instances (restore_form r tasks) = Some (map t_display_name (targets r))"
    using assms(6) again(2) by (rule restored_instances)
  let ?g = "restore_form r tasks"
  have time: "calcTimeRange now' (f_timeRange ?g) = (Fin (a / 1000), Fin (b / 1000))"
    using assms(4,5) by (simp add: restore_form_def calcTimeRange_def toTimeRangeValue_def zero_jsnum_def)
  have "handleSearch now' True items ?g = Send
      \<lparr>targets = List.map_filter mk_target (filter (\<lambda>i. mk_target i \<noteq> None) (map the ?found)),
       start_time = Fin a, end_time = Fin b, min_level = f_logLevel ?g,
       patterns = split_spaces (or_empty (f_keywords ?g))\<rparr>"
    using assms(3) level r(2)
    by (simp add: handleSearch_def Let_def insts again(1) time) (auto simp: restore_form_def)
  also have "\<dots> = Send r"
    using assms(4,5) level r(2)
    by (simp only: map_filter_again r(1) [symmetric])
      (auto simp: restore_form_def r(3) split_spaces_join intro!: search_request.equality)
  finally show ?thesis .
qed

definition log_cluster :: "int option IBuildInstanceTableProps" where
  "log_cluster =
     \<lparr>dataPD = Some [\<lparr>ip = ''a'', port = 1, rest = None\<rparr>],
      dataTiDB = Some [\<lparr>ip = ''b'', port = 2, rest = Some 3\<rparr>, \<lparr>ip = ''c'', port = 4, rest = None\<rparr>],
      dataTiKV = None, dataTiFlash = None, dataTiCDC = None, dataTiProxy = None, dataTSO = None,
      dataScheduling = None, includeTiFlash = True\<rparr>"

definition log_form :: search_form where
  "log_form = \<lparr>f_timeRange = Some (Recent (Fin 60)), f_logLevel = 3, f_instances = Some [''b:2'', ''c:4'', ''a:1''],
     f_keywords = Some ''foo  bar''\<rparr>"

definition log_request :: search_request where
  "log_request =
     \<lparr>targets = [\<lparr>t_kind = ''tidb'', t_display_name = ''b:2'', t_ip = ''b'', t_port = 3\<rparr>,
                 \<lparr>t_kind = ''pd'', t_display_name = ''a:1'', t_ip = ''a'', t_port = 1\<rparr>],
      start_time = Fin 40000, end_time = Fin 101000, min_level = 3, patterns = [''foo'', ''bar'']\<rparr>"

definition log_tasks :: "search_task list" where
  "log_tasks = map (\<lambda>n. \<lparr>task_id = t_port n, task_state = Some TRunning, task_size = None, task_target = Some n\<rparr>)
     (targets log_request)"

lemma log_sent:
  "handleSearch (Fin 100) True (tableItems kind_str [] log_cluster) log_form = Send log_request"
proof -
  have ports: "show_int 1 = ''1''" "show_int 2 = ''2''" "show_int 4 = ''4''"
    by code_simp+
  have "getInstanceByKeys (tableItems kind_str [] log_cluster) [''b:2'', ''c:4'', ''a:1''] =
      map Some [mk_item TIDB \<lparr>ip = ''b'', port = 2, rest = Some 3\<rparr>, mk_item TIDB \<lparr>ip = ''c'', port = 4, rest = None\<rparr>,
                mk_item PD \<lparr>ip = ''a'', port = 1, rest = None\<rparr>]"
    by (simp add: getInstanceByKeys_def tableItems_def buildInstanceTable_def log_cluster_def kinds_of_def
        InstanceKinds_def mk_item_def ports)
  moreover have "calcTimeRange (Fin 100) (Some (Recent (Fin 60))) = (Fin 40, Fin 101)"
    by code_simp
  moreover have "split_spaces ''foo  bar'' = [''foo'', ''bar'']"
    by code_simp
  ultimately show ?thesis
    by (simp add: handleSearch_def log_form_def log_request_def mk_target_def target_port_def mk_item_def
        map_filter_simps ports)
qed

theorem search_resubmits_witness:
  "handleSearch (Fin 900000) True (tableItems kind_str [] log_cluster) (restore_form log_request log_tasks) = Send log_request"
  by (rule search_resubmits [OF refl log_sent]) (simp_all add: log_request_def log_tasks_def)

subsection \<open>The progress tree\<close>

definition known_kind :: "search_task \<Rightarrow> bool" where
  "known_kind t \<longleftrightarrow> (\<exists>ik \<in> set InstanceKinds. map_option t_kind (task_target t) = Some (kind_str ik))"

lemma kind_str_inj: "kind_str a = kind_str b \<longleftrightarrow> a = b"
  by (cases a; cases b) simp_all

lemma distinct_kinds: "distinct InstanceKinds"
  by (simp add: InstanceKinds_def)

text \<open>Grouping by pairwise distinct kinds keeps every task of those kinds once.\<close>

lemma mset_by_kind:
  "distinct iks \<Longrightarrow> mset (concat (map (\<lambda>ik. tasks_of ik tasks) iks)) =
     filter_mset (\<lambda>t. \<exists>ik \<in> set iks. map_option t_kind (task_target t) = Some (kind_str ik)) (mset tasks)"
proof (induction iks)
  case (Cons ik iks)
  let ?here = "\<lambda>t. map_option t_kind (task_target t) = Some (kind_str ik)"
  let ?later = "\<lambda>t. \<exists>ik \<in> set iks. map_option t_kind (task_target t) = Some (kind_str ik)"
  have "\<not> (?here t \<and> ?later t)" for t
    using Cons.prems by (auto simp: kind_str_inj)
  then have "filter_mset ?here M + filter_mset ?later M = filter_mset (\<lambda>t. ?here t \<or> ?later t) M" for M
    by (induction M) auto
  then show ?case
    using Cons by (simp add: tasks_of_def)
qed simp

lemma treeData_children:
  "concat (map node_children (treeData kindName descr bytes tasks)) =
     map (leaf_of bytes) (concat (map (\<lambda>ik. tasks_of ik tasks) InstanceKinds))"
proof -
  have "concat (map node_children (List.map_filter (\<lambda>ik. let ts = tasks_of ik tasks
       in if ts = [] then None
          else Some \<lparr>node_key = kind_str ik, node_title = kindName ik @ '' '' @ describeProgress descr bytes ts,
                     node_icon = parentNodeIcon ts, node_disabled = \<not> parentNodeCheckable ts,
                     node_children = getLeafNodes bytes ts\<rparr>) iks)) =
      map (leaf_of bytes) (concat (map (\<lambda>ik. tasks_of ik tasks) iks))" for iks
    by (induction iks) (auto simp: map_filter_simps Let_def getLeafNodes_def)
  then show ?thesis by (simp add: treeData_def)
qed

lemma treeData_node:
  assumes "n \<in> set (treeData kindName descr bytes tasks)"
  obtains ts where "ts \<noteq> []" "node_icon n = parentNodeIcon ts" "node_children n = map (leaf_of bytes) ts"
  using assms by (auto simp: treeData_def Let_def map_filter_def getLeafNodes_def split: if_splits)

lemma leaf_icon_iff:
  "leaf_icon (leaf_of bytes t) = LoadingIcon \<longleftrightarrow> task_state t = Some TRunning"
  "leaf_icon (leaf_of bytes t) = SuccessIcon \<longleftrightarrow> task_state t = Some TFinished"
  by (auto simp: leaf_of_def elim!: taskStateIcons.elims split: option.splits)

lemma kind_not_id: "show_int i \<noteq> kind_str ik"
proof
  assume "show_int i = kind_str ik"
  then have "is_digit (last (kind_str ik)) \<or> last (kind_str ik) = CHR ''-''"
    using show_int_chars [of "last (kind_str ik)" i] by (metis last_in_set show_int_nonempty)
  then show False
    by (cases ik) (auto simp: is_digit_def code_def)
qed

lemma tree_icons:
  assumes "n \<in> set (treeData kindName descr bytes tasks)"
  shows "node_icon n = LoadingIcon \<longleftrightarrow> LoadingIcon \<in> leaf_icon ` set (node_children n)"
    and "node_icon n = SuccessIcon \<longleftrightarrow> leaf_icon ` set (node_children n) \<subseteq> {SuccessIcon}"
proof -
  obtain ts where ts: "ts \<noteq> []" "node_icon n = parentNodeIcon ts" "node_children n = map (leaf_of bytes) ts"
    using assms by (rule treeData_node)
  have loading: "LoadingIcon \<in> leaf_icon ` set (node_children n) \<longleftrightarrow> list_ex (\<lambda>t. task_state t = Some TRunning) ts"
    by (simp only: ts(3) set_map image_image image_iff list_ex_iff) (metis leaf_icon_iff(1))
  have success: "leaf_icon ` set (node_children n) \<subseteq> {SuccessIcon} \<longleftrightarrow> \<not> list_ex (\<lambda>t. task_state t \<noteq> Some TFinished) ts"
    by (simp add: ts(3) list_ex_iff image_subset_iff leaf_icon_iff(2))
  show "node_icon n = LoadingIcon \<longleftrightarrow> LoadingIcon \<in> leaf_icon ` set (node_children n)"
    "node_icon n = SuccessIcon \<longleftrightarrow> leaf_icon ` set (node_children n) \<subseteq> {SuccessIcon}"
    unfolding loading success using ts(1) by (auto simp: ts(2) parentNodeIcon_def list_ex_iff)
qed

lemma tree_keys:
  "node_key ` set (treeData kindName descr bytes tasks) \<subseteq> kind_str ` set InstanceKinds"
  "leaf_key ` set (concat (map node_children (treeData kindName descr bytes tasks))) \<inter> kind_str ` set InstanceKinds = {}"
proof -
  show "node_key ` set (treeData kindName descr bytes tasks) \<subseteq> kind_str ` set InstanceKinds"
    by (auto simp: treeData_def Let_def map_filter_def split: if_splits)
  show "leaf_key ` set (concat (map node_children (treeData kindName descr bytes tasks))) \<inter> kind_str ` set InstanceKinds = {}"
    unfolding treeData_children by (auto simp: leaf_of_def kind_not_id simp del: set_concat)
qed

text \<open>
  The tree of a search's progress shows each task of a known kind exactly once, under its kind; the icon of
  a kind is loading exactly when the icon of one of its tasks is, and success exactly when all of them are; and
  downloading checked nodes of the tree asks for exactly the checked tasks, never for a kind.
\<close>

theorem search_progress_tree:
  fixes kindName :: "InstanceKind \<Rightarrow> string" and descr :: "string \<times> string" and bytes :: "rat option \<Rightarrow> string"
    and tasks :: "search_task list"
  defines "tree \<equiv> treeData kindName descr bytes tasks"
  assumes "0 \<le> g"
    and "set checked \<subseteq> node_key ` set tree \<union> leaf_key ` set (concat (map node_children tree))"
  shows "mset (concat (map node_children tree)) = image_mset (leaf_of bytes) (filter_mset known_kind (mset tasks)) \<and>
    list_all (\<lambda>n. (node_icon n = LoadingIcon) = (LoadingIcon \<in> leaf_icon ` set (node_children n)) \<and>
      (node_icon n = SuccessIcon) = (leaf_icon ` set (node_children n) \<subseteq> {SuccessIcon})) tree \<and>
    download_keys g checked = Some (filter (\<lambda>k. k \<in> leaf_key ` set (concat (map node_children tree))) checked)"
proof (intro conjI)
  show "mset (concat (map node_children tree)) = image_mset (leaf_of bytes) (filter_mset known_kind (mset tasks))"
    using mset_by_kind [OF distinct_kinds, of tasks]
    by (simp only: tree_def treeData_children mset_map known_kind_def [abs_def])
  show "list_all (\<lambda>n. (node_icon n = LoadingIcon) = (LoadingIcon \<in> leaf_icon ` set (node_children n)) \<and>
      (node_icon n = SuccessIcon) = (leaf_icon ` set (node_children n) \<subseteq> {SuccessIcon})) tree"
    unfolding list_all_iff tree_def using tree_icons by blast
  have "k \<notin> kind_str ` set InstanceKinds \<longleftrightarrow> k \<in> leaf_key ` set (concat (map node_children tree))"
    if "k \<in> set checked" for k
    using assms(3) that tree_keys [of kindName descr bytes tasks] unfolding tree_def by blast
  then show "download_keys g checked = Some (filter (\<lambda>k. k \<in> leaf_key ` set (concat (map node_children tree))) checked)"
    using assms(2) unfolding download_keys_def by (simp cong: filter_cong)
qed

definition progress_tasks :: "search_task list" where
  "progress_tasks =
     [\<lparr>task_id = 7, task_state = Some TFinished, task_size = Some 10,
       task_target = Some \<lparr>t_kind = ''tidb'', t_display_name = ''b:2'', t_ip = ''b'', t_port = 3\<rparr>\<rparr>,
      \<lparr>task_id = 8, task_state = Some TError, task_size = None, task_target = None\<rparr>]"

lemma progress_tree:
  "map (\<lambda>n. (node_key n, map leaf_key (node_children n))) (treeData kind_str (''ok'', ''failed'') (\<lambda>_. []) progress_tasks) =
     [(''tidb'', [''7''])]"
  by code_simp

theorem search_progress_tree_witness:
  "download_keys 1 [''tidb'', ''7''] = Some [''7'']"
proof -
  let ?tree = "treeData kind_str (''ok'', ''failed'') (\<lambda>_. []) progress_tasks"
  from progress_tree have keys: "node_key ` set ?tree = {''tidb''}" "leaf_key ` set (concat (map node_children ?tree)) = {''7''}"
    by (auto simp: map_eq_Cons_conv)
  then show ?thesis
    using search_progress_tree [of 1 "[''tidb'', ''7'']" kind_str "(''ok'', ''failed'')" "\<lambda>_. []" progress_tasks]
    by (simp only:) simp
qed

text \<open>
  A retry is offered exactly while nothing runs and something failed, so the page has then stopped polling, and
  \<open>toggleReload\<close>, which only remounts the progress, does not start it again.
\<close>

lemma retry_not_polled: "\<not> retryDisabled tasks \<Longrightarrow> isFinished g (Some tasks) \<and> cancelDisabled tasks"
  by (simp add: retryDisabled_def isFinished_def cancelDisabled_def)

text \<open>The colour index of a task lies in the range from 0 to 1, without 1.\<close>

lemma componentByTaskId_range:
  assumes "componentByTaskId tasks i = Some x"
  shows "0 \<le> x \<and> x < 1"
proof -
  have "fold (\<lambda>(k, v) m. m(k \<mapsto> v)) kvs m i = Some x \<Longrightarrow> m i = Some x \<or> (i, x) \<in> set kvs" for kvs m
  proof (induction kvs arbitrary: m)
    case (Cons kv kvs)
    obtain k v where kv: "kv = (k, v)"
      by (cases kv)
    show ?case
      using Cons.IH [of "m(k \<mapsto> v)"] Cons.prems by (auto simp: kv split: if_splits)
  qed simp
  from this [of "sortIndexes tasks" Map.empty] assms have "(i, x) \<in> set (sortIndexes tasks)"
    by (simp add: componentByTaskId_def)
  then show ?thesis
    by (auto simp: sortIndexes_def Let_def divide_less_eq_1)
qed

text \<open>Deleting stops at the first failure: the searches before it are deleted, and the list is fetched only after all.\<close>

lemma delete_all_prefix:
  "delete_all del ks = (takeWhile del ks, list_all del ks)"
  by (induction ks) auto

end
