(* ===== verification/JsObject.thy ===== *)
theory JsObject
  imports JsString
begin

text \<open>
  Objects used as dictionaries, with the order in which \<open>Object.keys\<close>, \<open>Object.values\<close> and \<open>Object.entries\<close> list
  their properties: first the array indices in ascending order, then the other keys in the order of their creation. An
  object is the list of its entries in that order.
\<close>

type_synonym 'v js_object = "(string \<times> 'v) list"

text \<open>An array index is the canonical decimal of a number below \<open>2^32 - 1\<close>.\<close>

definition array_index :: "string \<Rightarrow> nat option" where
  "array_index k =
     (if k \<noteq> [] \<and> list_all is_digit k \<and> show_nat (digits_val k) = k \<and> int (digits_val k) < 2 ^ 32 - 1
      then Some (digits_val k) else None)"

definition key_before :: "string \<Rightarrow> string \<Rightarrow> bool" where
  "key_before k l \<longleftrightarrow>
     (case (array_index k, array_index l) of
        (Some i, Some j) \<Rightarrow> i < j | (Some i, None) \<Rightarrow> True | (None, _) \<Rightarrow> False)"

text \<open>A new key goes before the first key that has to follow it.\<close>

fun obj_insert :: "string \<Rightarrow> 'v \<Rightarrow> 'v js_object \<Rightarrow> 'v js_object" where
  "obj_insert k v [] = [(k, v)]"
| "obj_insert k v ((l, w) # m) = (if key_before k l then (k, v) # (l, w) # m else (l, w) # obj_insert k v m)"

definition obj_put :: "string \<Rightarrow> 'v \<Rightarrow> 'v js_object \<Rightarrow> 'v js_object" where
  "obj_put k v m =
     (if k \<in> fst ` set m then map (\<lambda>(l, w). (l, if l = k then v else w)) m else obj_insert k v m)"

abbreviation obj_values :: "'v js_object \<Rightarrow> 'v list" where
  "obj_values m \<equiv> map snd m"

abbreviation obj_keys :: "'v js_object \<Rightarrow> string list" where
  "obj_keys m \<equiv> map fst m"

text \<open>\<open>Object.fromEntries\<close> and the spread \<open>{...a, ...b}\<close> of objects.\<close>

definition fromEntries :: "(string \<times> 'v) list \<Rightarrow> 'v js_object" where
  "fromEntries kvs = fold (\<lambda>(k, v). obj_put k v) kvs []"

definition obj_assign :: "'v js_object \<Rightarrow> 'v js_object \<Rightarrow> 'v js_object" where
  "obj_assign a b = fold (\<lambda>(k, v). obj_put k v) b a"

lemma array_index_show_nat: "int n < 2 ^ 32 - 1 \<Longrightarrow> array_index (show_nat n) = Some n"
  by (auto simp: array_index_def list_all_iff dest: show_nat_digits)

lemma set_obj_insert [simp]: "set (obj_insert k v m) = insert (k, v) (set m)"
  by (induction k v m rule: obj_insert.induct) auto

lemma length_obj_insert [simp]: "length (obj_insert k v m) = Suc (length m)"
  by (induction k v m rule: obj_insert.induct) auto

lemma map_of_obj_insert: "k \<notin> fst ` set m \<Longrightarrow> map_of (obj_insert k v m) = (map_of m)(k \<mapsto> v)"
  by (induction k v m rule: obj_insert.induct) (auto simp: fun_eq_iff)

lemma distinct_obj_insert: "k \<notin> fst ` set m \<Longrightarrow> distinct (map fst m) \<Longrightarrow> distinct (map fst (obj_insert k v m))"
  by (induction k v m rule: obj_insert.induct) (auto simp: image_iff)

lemma map_of_obj_put [simp]: "map_of (obj_put k v m) = (map_of m)(k \<mapsto> v)"
proof (cases "k \<in> fst ` set m")
  case True
  have "map_of (map (\<lambda>(l, w). (l, if l = k then v else w)) m) x = ((map_of m)(k \<mapsto> v)) x" if "x \<noteq> k \<or> k \<in> fst ` set m" for x
    using that by (induction m) (auto simp: image_iff split: if_splits, force)
  with True show ?thesis by (auto simp: obj_put_def fun_eq_iff)
qed (simp add: obj_put_def map_of_obj_insert)

lemma keys_obj_put [simp]: "fst ` set (obj_put k v m) = insert k (fst ` set m)"
  by (auto simp: obj_put_def image_iff split: if_splits) force+

lemma distinct_obj_put [simp]: "distinct (map fst m) \<Longrightarrow> distinct (map fst (obj_put k v m))"
  by (auto simp: obj_put_def distinct_obj_insert case_prod_beta comp_def)

lemma distinct_fold_put [simp]:
  "distinct (map fst m) \<Longrightarrow> distinct (map fst (fold (\<lambda>(k, v). obj_put k v) kvs m))"
  by (induction kvs arbitrary: m) auto

lemma distinct_fromEntries [simp]: "distinct (map fst (fromEntries kvs))"
  by (simp add: fromEntries_def)

lemma map_of_fold_put: "map_of (fold (\<lambda>(k, v). obj_put k v) kvs m) = map_of m ++ map_of (rev kvs)"
  by (induction kvs arbitrary: m) (auto simp: map_add_def fun_eq_iff split: option.splits)

lemma map_of_fromEntries: "map_of (fromEntries kvs) = map_of (rev kvs)"
  by (simp add: fromEntries_def map_of_fold_put)

lemma map_of_rev_eq: "distinct (map fst b) \<Longrightarrow> map_of (rev b) = map_of b"
  by (rule map_of_eqI) (auto simp: rev_map [symmetric])

lemma map_of_obj_assign: "distinct (map fst b) \<Longrightarrow> map_of (obj_assign a b) = map_of a ++ map_of b"
  by (simp add: obj_assign_def map_of_fold_put map_of_rev_eq)

text \<open>The order of the keys: the invariant of every object.\<close>

definition keys_ordered :: "'v js_object \<Rightarrow> bool" where
  "keys_ordered m \<longleftrightarrow> sorted_wrt (\<lambda>k l. \<not> key_before l k) (map fst m)"

lemma key_before_trans: "key_before k l \<Longrightarrow> \<not> key_before x l \<Longrightarrow> \<not> key_before x k"
  by (auto simp: key_before_def split: option.splits)

lemma keys_ordered_insert: "keys_ordered m \<Longrightarrow> keys_ordered (obj_insert k v m)"
proof (induction m)
  case (Cons e m)
  obtain l w where e: "e = (l, w)" by (cases e)
  have tl: "keys_ordered m" and hd: "\<forall>x \<in> fst ` set m. \<not> key_before x l"
    using Cons.prems by (auto simp: keys_ordered_def e)
  show ?case
  proof (cases "key_before k l")
    case True
    have "\<not> key_before x k" if "x = l \<or> x \<in> fst ` set m" for x
      using that hd key_before_trans [OF True, of x] True by (auto simp: key_before_def split: option.splits)
    then show ?thesis
      using True Cons.prems by (auto simp: e keys_ordered_def)
  next
    case False
    have "\<forall>x \<in> fst ` set (obj_insert k v m). \<not> key_before x l"
      using False hd by auto
    with False show ?thesis
      using Cons.IH [OF tl] by (simp add: keys_ordered_def e)
  qed
qed (simp add: keys_ordered_def)

lemma keys_ordered_put [simp]: "keys_ordered m \<Longrightarrow> keys_ordered (obj_put k v m)"
  by (auto simp: obj_put_def keys_ordered_insert) (auto simp: keys_ordered_def case_prod_beta comp_def)

lemma keys_ordered_fold_put [simp]: "keys_ordered m \<Longrightarrow> keys_ordered (fold (\<lambda>(k, v). obj_put k v) kvs m)"
  by (induction kvs arbitrary: m) auto

lemma keys_ordered_fromEntries: "keys_ordered (fromEntries kvs)"
  unfolding fromEntries_def by (rule keys_ordered_fold_put) (simp add: keys_ordered_def)

end
