(* ===== verification/OptimizerTrace.thy ===== *)
theory OptimizerTrace
  imports JsObject Json
begin

text \<open>
  The optimizer trace viewer, \<open>apps/OptimizerTrace\<close>: the candidates of physical operators as trees
  (\<open>index.tsx\<close>, \<open>PhysicalOperatorTree.tsx\<close>), the trees of logical operators (\<open>LogicalOperatorTree.tsx\<close>) and the tree
  of costs (\<open>PhysicalCostTree.tsx\<close>), which is built in place: a cost that only names another one is made to share the
  parameter object of that one, so the objects live in an explicit heap. All trees are printed in the
  language of \<open>graphviz\<close>.
\<close>

subsection \<open>Numbers and labels\<close>

abbreviation NL :: string where "NL \<equiv> [CHR 0x0A]"

text \<open>\<open>Number.prototype.toFixed\<close> below \<open>10^21\<close>: the nearest multiple, the larger one of two.\<close>

definition pad_left :: "nat \<Rightarrow> string \<Rightarrow> string" where
  "pad_left n s = replicate (n - length s) (CHR ''0'') @ s"

definition fixed_digits :: "nat \<Rightarrow> rat \<Rightarrow> string" where
  "fixed_digits d x =
     (let n = nat \<lfloor>x * 10 ^ d + 1 / 2\<rfloor>
      in show_nat (n div 10 ^ d) @ ''.'' @ pad_left d (show_nat (n mod 10 ^ d)))"

definition toFixed :: "nat \<Rightarrow> rat \<Rightarrow> string" where
  "toFixed d x = (if x < 0 then CHR ''-'' # fixed_digits d (- x) else fixed_digits d x)"

definition createLabels :: "(string \<times> string) list \<Rightarrow> string" where
  "createLabels labels =
     (let ls = filter (\<lambda>(k, v). v \<noteq> []) labels
      in if ls = [] then []
         else ''['' @ join '' '' (map (\<lambda>(k, v). k @ ''='' @ [QUOTE] @ v @ [QUOTE]) ls) @ '']'')"

subsection \<open>Operators\<close>

record operator_node =
  op_id :: int
  op_children :: "int list option"
  op_type :: string
  op_cost :: rat
  op_selected :: bool
  op_info :: string
  op_mapping :: string

definition node_name :: "operator_node \<Rightarrow> string" where
  "node_name n = op_type n @ ''_'' @ show_int (op_id n)"

definition children_of :: "operator_node \<Rightarrow> int list" where
  "children_of n = (case op_children n of Some cs \<Rightarrow> cs | None \<Rightarrow> [])"

text \<open>The logical tree: \<open>color\<close> is the colour of nodes and links, \<open>nodeName\<close> the selected node.\<close>

definition logical_define :: "string \<Rightarrow> string option \<Rightarrow> operator_node list \<Rightarrow> string list" where
  "logical_define color nodeName data =
     map (\<lambda>n. show_int (op_id n) @ '' '' @
       createLabels [(''label'', node_name n), (''color'', color),
         (''fillcolor'', if Some (node_name n) = nodeName then ''#bfdbfe'' else ''white''),
         (''tooltip'', ''info: '' @ op_info n)] @ '';'' @ NL) data"

definition logical_link :: "(string \<times> string) list \<Rightarrow> operator_node list \<Rightarrow> string list" where
  "logical_link labels data =
     map (\<lambda>n. concat (map (\<lambda>c. show_int (op_id n) @ '' -> '' @ show_int c @ '' '' @ createLabels labels @ '';'' @ NL)
       (children_of n))) data"

text \<open>
  The candidates by key: the new format has them by key, the old one in two lists. \<open>costs\<close> holds the cost of a
  name, of the new format.
\<close>

record trace_physical =
  candidates :: "operator_node js_object option"
  selected_candidates :: "operator_node list option"
  discarded_candidates :: "operator_node list option"

abbreviation or_nil :: "'a list option \<Rightarrow> 'a list" where
  "or_nil x \<equiv> (case x of Some xs \<Rightarrow> xs | None \<Rightarrow> [])"

definition allCandidatesMap :: "trace_physical \<Rightarrow> operator_node js_object" where
  "allCandidatesMap d =
     (case candidates d of
        Some m \<Rightarrow> m
      | None \<Rightarrow> fold (\<lambda>c acc. obj_put (show_int (op_id c)) c acc)
                 (or_nil (selected_candidates d) @ or_nil (discarded_candidates d)) [])"

definition fix_cost :: "(string \<Rightarrow> rat option) \<Rightarrow> operator_node \<Rightarrow> operator_node" where
  "fix_cost costs c = c\<lparr>op_cost := (case costs (node_name c) of Some x \<Rightarrow> x | None \<Rightarrow> op_cost c)\<rparr>"

definition fixed_map :: "(string \<Rightarrow> rat option) \<Rightarrow> trace_physical \<Rightarrow> operator_node js_object" where
  "fixed_map costs d = map (\<lambda>(k, c). (k, fix_cost costs c)) (allCandidatesMap d)"

text \<open>The children of a node are the candidates with their keys; an unknown key gives \<open>undefined\<close>.\<close>

definition childrenNodes :: "operator_node js_object \<Rightarrow> operator_node \<Rightarrow> operator_node option list" where
  "childrenNodes m c = map (\<lambda>i. map_of m (show_int i)) (children_of c)"

definition add_candidate :: "operator_node \<Rightarrow> operator_node list js_object \<Rightarrow> operator_node list js_object" where
  "add_candidate c acc =
     (if op_mapping c = [] then acc
      else obj_put (op_mapping c) (or_nil (map_of acc (op_mapping c)) @ [c]) acc)"

definition operatorCandidates :: "operator_node js_object \<Rightarrow> operator_node list js_object" where
  "operatorCandidates m = fold add_candidate (obj_values m) []"

datatype trace_error = TypeError | StackOverflow | NoCost string

text \<open>What the page shows for a logical operator: the selected and the other candidates.\<close>

definition OperatorCandidates ::
    "operator_node js_object \<Rightarrow> string \<Rightarrow> trace_error + (operator_node list \<times> operator_node list)" where
  "OperatorCandidates m logicalNodeName =
     (case map_of (operatorCandidates m) logicalNodeName of
        None \<Rightarrow> Inl TypeError
      | Some cs \<Rightarrow> Inr (filter op_selected cs, filter (\<lambda>c. \<not> op_selected c) cs))"

text \<open>
  Flattening a tree of candidates. \<open>n\<close> is the depth of the call stack that is left; the children of a node that does
  not exist cannot be read.
\<close>

fun convertTreeToArry ::
    "nat \<Rightarrow> operator_node js_object \<Rightarrow> operator_node option \<Rightarrow> trace_error + operator_node list"
and convertForest ::
    "nat \<Rightarrow> operator_node js_object \<Rightarrow> operator_node option list \<Rightarrow> trace_error + operator_node list" where
  "convertTreeToArry 0 m x = Inl StackOverflow"
| "convertTreeToArry (Suc n) m None = Inl TypeError"
| "convertTreeToArry (Suc n) m (Some c) =
     (case convertForest n m (childrenNodes m c) of Inl e \<Rightarrow> Inl e | Inr arr \<Rightarrow> Inr (c # arr))"
| "convertForest n m [] = Inr []"
| "convertForest n m (x # xs) =
     (case convertTreeToArry n m x of
        Inl e \<Rightarrow> Inl e
      | Inr a \<Rightarrow> (case convertForest n m xs of Inl e \<Rightarrow> Inl e | Inr b \<Rightarrow> Inr (a @ b)))"

definition physical_define :: "string \<Rightarrow> operator_node list \<Rightarrow> string list" where
  "physical_define nodeName allDatas =
     map (\<lambda>n. show_int (op_id n) @ '' '' @
       createLabels [(''label'', node_name n @ NL @ ''cost: '' @ toFixed 4 (op_cost n)),
         (''color'', if op_selected n then ''#4169E1'' else []),
         (''fillcolor'', if node_name n = nodeName then ''#7dd3fc'' else ''white''),
         (''tooltip'', ''info: '' @ op_info n)] @ '';'' @ NL) allDatas"

definition physical_link :: "operator_node list \<Rightarrow> string list" where
  "physical_link allDatas =
     map (\<lambda>n. concat (map (\<lambda>c. show_int (op_id n) @ '' -> '' @ show_int c @ '' '' @
       createLabels [(''color'', if op_selected n then ''#4169E1'' else [])] @ '';'' @ NL) (children_of n))) allDatas"

subsection \<open>The tree of costs\<close>

text \<open>
  A parameter object \<^emph>\<open>object\<close> maps names to numbers or to parameters. A parameter has such an object, none (\<open>undefined\<close>: a
  leaf that was a number) or \<open>null\<close>, which stands for the object of the cost with its name. Both kinds of
  JavaScript objects have addresses in the heap: \<open>objs\<close> has the parameter objects, \<open>cells\<close> the parameters; the
  addresses from \<open>next_cell\<close> on are free.
\<close>

type_synonym addr = nat

datatype cost_params = Null | Undefined | Obj addr

record cost_param =
  cp_id :: int
  cp_name :: string
  cp_desc :: string
  cp_cost :: rat
  cp_params :: cost_params

datatype cost_value = Num rat | Param addr

record cost_root =
  cr_id :: int
  cr_type :: string
  cr_cost :: rat
  cr_desc :: string
  cr_params :: addr

type_synonym cost_map = "string \<Rightarrow> cost_root option"

record cost_heap =
  objs :: "addr \<Rightarrow> cost_value js_object"
  cells :: "addr \<Rightarrow> cost_param"
  next_cell :: addr
  globalId :: int

definition set_cell :: "addr \<Rightarrow> cost_param \<Rightarrow> cost_heap \<Rightarrow> cost_heap" where
  "set_cell p x h = h\<lparr>cells := (cells h)(p := x)\<rparr>"

text \<open>\<open>param.id = globalId++\<close>.\<close>

definition number_cell :: "addr \<Rightarrow> cost_heap \<Rightarrow> cost_heap" where
  "number_cell p h = (set_cell p ((cells h p)\<lparr>cp_id := globalId h\<rparr>) h)\<lparr>globalId := globalId h + 1\<rparr>"

text \<open>\<open>null\<close> is replaced by the object of the named cost, which is shared from then on.\<close>

definition resolve_cell :: "cost_map \<Rightarrow> addr \<Rightarrow> cost_heap \<Rightarrow> trace_error + cost_heap" where
  "resolve_cell costs p h =
     (if cp_params (cells h p) = Null then
        (case costs (cp_name (cells h p)) of
           None \<Rightarrow> Inl (NoCost (cp_name (cells h p)))
         | Some r \<Rightarrow> Inr (set_cell p ((cells h p)\<lparr>cp_params := Obj (cr_params r), cp_desc := cr_desc r\<rparr>) h))
      else Inr h)"

text \<open>A number becomes a new leaf.\<close>

definition new_leaf :: "addr \<Rightarrow> string \<Rightarrow> rat \<Rightarrow> cost_heap \<Rightarrow> cost_heap" where
  "new_leaf a k v h =
     h\<lparr>cells := (cells h)(next_cell h := \<lparr>cp_id = globalId h, cp_name = k, cp_desc = [], cp_cost = v, cp_params = Undefined\<rparr>),
       objs := (objs h)(a := obj_put k (Param (next_cell h)) (objs h a)),
       next_cell := Suc (next_cell h), globalId := globalId h + 1\<rparr>"

text \<open>
  The two mutually recursive functions; \<open>n\<close> is the depth of the call stack that is left. The keys of an object are read
  once and its values when they are visited.
\<close>

function (sequential) buildCostParam :: "nat \<Rightarrow> cost_map \<Rightarrow> addr \<Rightarrow> cost_heap \<Rightarrow> trace_error + cost_heap"
and buildCostParams :: "nat \<Rightarrow> cost_map \<Rightarrow> string list \<Rightarrow> addr \<Rightarrow> cost_heap \<Rightarrow> trace_error + cost_heap" where
  "buildCostParam 0 costs p h = Inl StackOverflow"
| "buildCostParam (Suc n) costs p h =
     (case resolve_cell costs p (number_cell p h) of
        Inl e \<Rightarrow> Inl e
      | Inr h1 \<Rightarrow> (case cp_params (cells h1 p) of
          Obj b \<Rightarrow> buildCostParams n costs (obj_keys (objs h1 b)) b h1
        | _ \<Rightarrow> Inr h1))"
| "buildCostParams n costs [] a h = Inr h"
| "buildCostParams n costs (k # ks) a h =
     (case map_of (objs h a) k of
        Some (Num v) \<Rightarrow> buildCostParams n costs ks a (new_leaf a k v h)
      | Some (Param p) \<Rightarrow> (case buildCostParam n costs p h of
          Inl e \<Rightarrow> Inl e | Inr h1 \<Rightarrow> buildCostParams n costs ks a h1)
      | None \<Rightarrow> Inl TypeError)"
  by pat_completeness auto
termination
  by (relation "measures [\<lambda>x. case x of Inl (n, _) \<Rightarrow> n | Inr (n, _) \<Rightarrow> n,
      \<lambda>x. case x of Inl _ \<Rightarrow> 0 | Inr (_, _, ks, _) \<Rightarrow> Suc (length ks)]") auto

definition buildCostTree :: "nat \<Rightarrow> cost_map \<Rightarrow> cost_root \<Rightarrow> cost_heap \<Rightarrow> trace_error + cost_heap" where
  "buildCostTree n costs r h =
     buildCostParams n costs (obj_keys (objs h (cr_params r))) (cr_params r) (h\<lparr>globalId := cr_id r + 1\<rparr>)"

text \<open>
  Printing the built tree. \<open>expands\<close> are the numbers of the nodes that the user has opened; a number that is still in an
  object is passed over.
\<close>

definition param_line :: "cost_param \<Rightarrow> string" where
  "param_line x =
     show_int (cp_id x) @ '' '' @
     createLabels (if cp_params x = Undefined
       then [(''label'', cp_name x @ NL @ toFixed 4 (cp_cost x)), (''fillcolor'', ''#cffafe''), (''tooltip'', show_int (cp_id x))]
       else [(''label'', cp_name x @ NL @ ''cost: '' @ toFixed 4 (cp_cost x) @ NL @ ''desc: '' @ cp_desc x),
             (''fillcolor'', ''white''), (''tooltip'', show_int (cp_id x))]) @ '';'' @ NL"

fun genGraphvizNodeParam :: "nat \<Rightarrow> (int \<Rightarrow> bool) \<Rightarrow> cost_heap \<Rightarrow> addr \<Rightarrow> string list option"
and genGraphvizNodeParams :: "nat \<Rightarrow> (int \<Rightarrow> bool) \<Rightarrow> cost_heap \<Rightarrow> cost_value list \<Rightarrow> string list option" where
  "genGraphvizNodeParam 0 expands h p = None"
| "genGraphvizNodeParam (Suc n) expands h p =
     (let x = cells h p
      in case cp_params x of
           Obj b \<Rightarrow> if expands (cp_id x)
                    then map_option ((#) (param_line x)) (genGraphvizNodeParams n expands h (obj_values (objs h b)))
                    else Some [param_line x]
         | _ \<Rightarrow> Some [param_line x])"
| "genGraphvizNodeParams n expands h [] = Some []"
| "genGraphvizNodeParams n expands h (Num v # vs) = genGraphvizNodeParams n expands h vs"
| "genGraphvizNodeParams n expands h (Param p # vs) =
     (case (genGraphvizNodeParam n expands h p, genGraphvizNodeParams n expands h vs) of
        (Some a, Some b) \<Rightarrow> Some (a @ b) | _ \<Rightarrow> None)"

definition root_line :: "cost_root \<Rightarrow> string" where
  "root_line r =
     show_int (cr_id r) @ '' '' @
     createLabels [(''label'', cr_type r @ ''_'' @ show_int (cr_id r) @ NL @ ''cost: '' @ toFixed 4 (cr_cost r) @ NL @
         ''desc: '' @ cr_desc r),
       (''fillcolor'', ''white''), (''tooltip'', show_int (cr_id r))] @ '';'' @ NL"

definition genGraphvizNodes :: "nat \<Rightarrow> (int \<Rightarrow> bool) \<Rightarrow> cost_heap \<Rightarrow> cost_root \<Rightarrow> string list option" where
  "genGraphvizNodes n expands h r =
     (if expands (cr_id r)
      then map_option ((#) (root_line r)) (genGraphvizNodeParams n expands h (obj_values (objs h (cr_params r))))
      else Some [root_line r])"

definition link_line :: "int \<Rightarrow> int \<Rightarrow> string" where
  "link_line i j = show_int i @ '' -> '' @ show_int j @ '';'' @ NL"

fun genGraphvizLineParam :: "nat \<Rightarrow> (int \<Rightarrow> bool) \<Rightarrow> cost_heap \<Rightarrow> int \<Rightarrow> addr \<Rightarrow> string list option"
and genGraphvizLineParams :: "nat \<Rightarrow> (int \<Rightarrow> bool) \<Rightarrow> cost_heap \<Rightarrow> int \<Rightarrow> cost_value list \<Rightarrow> string list option" where
  "genGraphvizLineParam 0 expands h parentId p = None"
| "genGraphvizLineParam (Suc n) expands h parentId p =
     (let x = cells h p
      in if \<not> expands parentId then Some []
         else case cp_params x of
           Obj b \<Rightarrow> map_option ((#) (link_line parentId (cp_id x)))
                      (genGraphvizLineParams n expands h (cp_id x) (obj_values (objs h b)))
         | _ \<Rightarrow> Some [link_line parentId (cp_id x)])"
| "genGraphvizLineParams n expands h parentId [] = Some []"
| "genGraphvizLineParams n expands h parentId (Num v # vs) = genGraphvizLineParams n expands h parentId vs"
| "genGraphvizLineParams n expands h parentId (Param p # vs) =
     (case (genGraphvizLineParam n expands h parentId p, genGraphvizLineParams n expands h parentId vs) of
        (Some a, Some b) \<Rightarrow> Some (a @ b) | _ \<Rightarrow> None)"

definition genGraphvizLines :: "nat \<Rightarrow> (int \<Rightarrow> bool) \<Rightarrow> cost_heap \<Rightarrow> cost_root \<Rightarrow> string list option" where
  "genGraphvizLines n expands h r = genGraphvizLineParams n expands h (cr_id r) (obj_values (objs h (cr_params r)))"

text \<open>Opening or closing the clicked node, and closing all for another name.\<close>

definition toggle_expand :: "int \<Rightarrow> (int \<Rightarrow> bool) \<Rightarrow> int \<Rightarrow> bool" where
  "toggle_expand i expands = expands(i := \<not> expands i)"

subsection \<open>Building the tree of costs\<close>

text \<open>
  The costs refer to each other without a cycle: \<open>rank\<close> decreases from an object to the objects of its parameters, and every
  named cost exists.
\<close>

definition param_wf :: "cost_map \<Rightarrow> (addr \<Rightarrow> nat) \<Rightarrow> cost_heap \<Rightarrow> nat \<Rightarrow> addr \<Rightarrow> bool" where
  "param_wf costs rank h n p \<longleftrightarrow>
     p < next_cell h \<and>
     (case cp_params (cells h p) of
        Undefined \<Rightarrow> True
      | Obj b \<Rightarrow> rank b < n
      | Null \<Rightarrow> (\<exists>r. costs (cp_name (cells h p)) = Some r \<and> rank (cr_params r) < n))"

definition heap_wf :: "cost_map \<Rightarrow> (addr \<Rightarrow> nat) \<Rightarrow> cost_heap \<Rightarrow> bool" where
  "heap_wf costs rank h \<longleftrightarrow>
     (\<forall>a. distinct (obj_keys (objs h a))) \<and>
     (\<forall>a k p. map_of (objs h a) k = Some (Param p) \<longrightarrow> param_wf costs rank h (rank a) p)"

text \<open>The parameters in \<open>S\<close> have pairwise different numbers from \<open>g\<close> on, all given out already.\<close>

definition numbered :: "int \<Rightarrow> addr set \<Rightarrow> cost_heap \<Rightarrow> bool" where
  "numbered g S h \<longleftrightarrow>
     g \<le> globalId h \<and> S \<subseteq> {..<next_cell h} \<and> inj_on (\<lambda>p. cp_id (cells h p)) S \<and>
     (\<forall>p \<in> S. g \<le> cp_id (cells h p) \<and> cp_id (cells h p) < globalId h)"

text \<open>What building keeps: keys, parameters, names and costs; a number may become a leaf with that cost.\<close>

definition leaf_at :: "cost_heap \<Rightarrow> addr \<Rightarrow> string \<Rightarrow> rat \<Rightarrow> bool" where
  "leaf_at h a k v \<longleftrightarrow>
     (\<exists>q < next_cell h. map_of (objs h a) k = Some (Param q) \<and> cp_name (cells h q) = k \<and> cp_cost (cells h q) = v \<and>
        cp_params (cells h q) = Undefined)"

definition cell_kept :: "cost_param \<Rightarrow> cost_param \<Rightarrow> bool" where
  "cell_kept x y \<longleftrightarrow> cp_name y = cp_name x \<and> cp_cost y = cp_cost x \<and> (cp_params x \<noteq> Null \<longrightarrow> cp_params y = cp_params x)"

definition extends :: "cost_heap \<Rightarrow> cost_heap \<Rightarrow> bool" where
  "extends h h' \<longleftrightarrow>
     next_cell h \<le> next_cell h' \<and>
     (\<forall>a. obj_keys (objs h' a) = obj_keys (objs h a)) \<and>
     (\<forall>p < next_cell h. cell_kept (cells h p) (cells h' p)) \<and>
     (\<forall>a k p. map_of (objs h a) k = Some (Param p) \<longrightarrow> map_of (objs h' a) k = Some (Param p)) \<and>
     (\<forall>a k v. map_of (objs h a) k = Some (Num v) \<longrightarrow> map_of (objs h' a) k = Some (Num v) \<or> leaf_at h' a k v)"

lemma extends_refl [simp]: "extends h h"
  by (simp add: extends_def cell_kept_def)

lemma leaf_at_extends: "leaf_at h a k v \<Longrightarrow> extends h h' \<Longrightarrow> leaf_at h' a k v"
  unfolding leaf_at_def extends_def cell_kept_def
  by (metis cost_params.distinct(1) less_le_trans)

lemma extends_trans [trans]:
  assumes "extends h h1" and "extends h1 h2"
  shows "extends h h2"
proof -
  have "cell_kept (cells h p) (cells h2 p)" if "p < next_cell h" for p
    using that assms unfolding extends_def cell_kept_def by (metis less_le_trans)
  moreover have "map_of (objs h2 a) k = Some (Num v) \<or> leaf_at h2 a k v" if "map_of (objs h a) k = Some (Num v)" for a k v
    using that assms(1) leaf_at_extends [OF _ assms(2)] assms(2) unfolding extends_def by metis
  ultimately show ?thesis
    using assms unfolding extends_def by (metis le_trans)
qed

text \<open>An object is built when all it reaches are numbered parameters, none of them a mere name.\<close>

definition param_done :: "(addr \<Rightarrow> bool) \<Rightarrow> addr set \<Rightarrow> cost_heap \<Rightarrow> addr \<Rightarrow> bool" where
  "param_done B S h p \<longleftrightarrow>
     p \<in> S \<and> p < next_cell h \<and>
     (cp_params (cells h p) = Undefined \<or> (\<exists>b. cp_params (cells h p) = Obj b \<and> B b))"

lemma param_done_mono [mono]: "B \<le> C \<Longrightarrow> param_done B S h p \<longrightarrow> param_done C S h p"
  by (auto simp: param_done_def)

inductive built :: "addr set \<Rightarrow> cost_heap \<Rightarrow> addr \<Rightarrow> bool" for S h where
  built: "(\<And>k v. map_of (objs h a) k = Some v \<Longrightarrow> \<exists>p. v = Param p \<and> param_done (built S h) S h p) \<Longrightarrow> built S h a"

inductive_simps built_simps: "built S h a"

lemma param_done_extends:
  assumes "param_done B S h p" and "extends h h'" and "S \<subseteq> S'" and "\<And>b. B b \<Longrightarrow> B' b"
  shows "param_done B' S' h' p"
  using assms unfolding param_done_def extends_def cell_kept_def
  by (metis cost_params.distinct(1,3) less_le_trans subsetD)

lemma built_extends:
  assumes "built S h a" and "extends h h'" and "S \<subseteq> S'"
  shows "built S' h' a"
  using assms(1)
proof (induction rule: built.induct)
  case (built a)
  show ?case
  proof (rule built.built)
    fix k v'
    assume v': "map_of (objs h' a) k = Some v'"
    then have "k \<in> fst ` set (objs h' a)"
      by (force dest: map_of_SomeD)
    then have "k \<in> fst ` set (objs h a)"
      using assms(2) by (metis extends_def list.set_map)
    then obtain v where v: "map_of (objs h a) k = Some v"
      by (metis map_of_eq_None_iff not_None_eq)
    then obtain p where "v = Param p" and p: "param_done (\<lambda>b. built S h b \<and> built S' h' b) S h p"
      using built by blast
    then have "v' = Param p"
      using v v' assms(2) by (simp add: extends_def)
    moreover have "param_done (built S' h') S' h' p"
      using p assms(2,3) by (rule param_done_extends) simp
    ultimately show "\<exists>p. v' = Param p \<and> param_done (built S' h') S' h' p" by blast
  qed
qed

text \<open>The three elementary changes of the heap.\<close>

lemma keys_put_known: "k \<in> fst ` set m \<Longrightarrow> obj_keys (obj_put k v m) = obj_keys m"
  by (auto simp: obj_put_def)

lemma heap_wfD: "heap_wf costs rank h \<Longrightarrow> map_of (objs h a) k = Some (Param p) \<Longrightarrow> param_wf costs rank h (rank a) p"
  by (simp add: heap_wf_def)

lemma param_wf_kept:
  assumes "param_wf costs rank h n p" and "next_cell h \<le> next_cell h'"
    and "cp_params (cells h' p) = cp_params (cells h p)" and "cp_name (cells h' p) = cp_name (cells h p)"
  shows "param_wf costs rank h' n p"
  using assms unfolding param_wf_def by (cases "cp_params (cells h p)") auto

lemma param_wf_mono: "param_wf costs rank h m p \<Longrightarrow> m < n \<Longrightarrow> param_wf costs rank h (n - 1) p"
  unfolding param_wf_def by (cases "cp_params (cells h p)") auto

lemma heap_wfI:
  assumes "\<And>a. distinct (obj_keys (objs h a))"
    and "\<And>a k p. map_of (objs h a) k = Some (Param p) \<Longrightarrow> param_wf costs rank h (rank a) p"
  shows "heap_wf costs rank h"
  unfolding heap_wf_def using assms by blast

lemma heap_wf_distinct: "heap_wf costs rank h \<Longrightarrow> distinct (obj_keys (objs h a))"
  by (simp only: heap_wf_def)

lemma number_cell_simps [simp]:
  "objs (number_cell p h) = objs h" "next_cell (number_cell p h) = next_cell h"
  "globalId (number_cell p h) = globalId h + 1"
  "cells (number_cell p h) q = (if q = p then (cells h p)\<lparr>cp_id := globalId h\<rparr> else cells h q)"
  by (simp_all add: number_cell_def set_cell_def)

lemma number_cell_ok:
  assumes "p < next_cell h"
  shows "extends h (number_cell p h)"
    and "heap_wf costs rank h \<Longrightarrow> heap_wf costs rank (number_cell p h)"
    and "numbered g S h \<Longrightarrow> numbered g (insert p S) (number_cell p h)"
proof -
  show "extends h (number_cell p h)"
    by (simp add: extends_def cell_kept_def)
  show "heap_wf costs rank (number_cell p h)" if "heap_wf costs rank h"
  proof (rule heap_wfI)
    fix a k q
    assume "map_of (objs (number_cell p h) a) k = Some (Param q)"
    then have "map_of (objs h a) k = Some (Param q)" by (simp only: number_cell_simps)
    from heap_wfD [OF that this] show "param_wf costs rank (number_cell p h) (rank a) q"
      by (rule param_wf_kept) simp_all
  qed (use heap_wf_distinct [OF that] in simp)
  show "numbered g (insert p S) (number_cell p h)" if "numbered g S h"
    using that assms by (fastforce simp: numbered_def inj_on_def)
qed

lemma numbered_kept:
  assumes "numbered g S h" and "\<And>p. cp_id (cells h' p) = cp_id (cells h p)"
    and "next_cell h' = next_cell h" and "globalId h' = globalId h"
  shows "numbered g S h'"
  using assms(1) unfolding numbered_def assms(2-4) .

lemma resolve_cell_ok:
  assumes "heap_wf costs rank h" and "param_wf costs rank h n p"
  obtains h1 where "resolve_cell costs p h = Inr h1" "extends h h1" "heap_wf costs rank h1" "param_wf costs rank h1 n p"
    "cp_params (cells h1 p) \<noteq> Null" "\<And>g S. numbered g S h \<Longrightarrow> numbered g S h1"
proof (cases "cp_params (cells h p) = Null")
  case True
  then obtain r where r: "costs (cp_name (cells h p)) = Some r" "rank (cr_params r) < n"
    using assms(2) by (auto simp: param_wf_def)
  let ?h = "set_cell p ((cells h p)\<lparr>cp_params := Obj (cr_params r), cp_desc := cr_desc r\<rparr>) h"
  have "heap_wf costs rank ?h"
  proof (rule heap_wfI)
    fix a k q
    assume "map_of (objs ?h a) k = Some (Param q)"
    then have "map_of (objs h a) k = Some (Param q)"
      by (simp add: set_cell_def)
    note q = heap_wfD [OF assms(1) this]
    show "param_wf costs rank ?h (rank a) q"
    proof (cases "q = p")
      case True
      then show ?thesis
        using q r(1) \<open>cp_params (cells h p) = Null\<close> by (simp add: param_wf_def set_cell_def)
    qed (intro param_wf_kept [OF q], simp_all add: set_cell_def)
  qed (use heap_wf_distinct [OF assms(1)] in \<open>simp add: set_cell_def\<close>)
  moreover have "extends h ?h"
    using True by (simp add: extends_def cell_kept_def set_cell_def)
  moreover have "numbered g S ?h" if "numbered g S h" for g S
    using that by (rule numbered_kept) (simp_all add: set_cell_def)
  moreover have "param_wf costs rank ?h n p"
    using assms(2) r(2) by (simp add: param_wf_def set_cell_def)
  ultimately show ?thesis
    using True r(1) by (intro that [of ?h]) (simp_all add: resolve_cell_def, simp add: set_cell_def)
qed (use assms in \<open>intro that [of h], simp_all add: resolve_cell_def\<close>)

lemma new_leaf_ok:
  assumes "map_of (objs h a) k = Some (Num v)" and "heap_wf costs rank h"
  shows "extends h (new_leaf a k v h)" and "heap_wf costs rank (new_leaf a k v h)"
    and "numbered g S h \<Longrightarrow> numbered g (insert (next_cell h) S) (new_leaf a k v h)"
    and "leaf_at (new_leaf a k v h) a k v"
    and "map_of (objs (new_leaf a k v h) a) k = Some (Param (next_cell h))"
    and "cp_params (cells (new_leaf a k v h) (next_cell h)) = Undefined"
proof -
  have k: "k \<in> fst ` set (objs h a)"
    using assms(1) by (force dest: map_of_SomeD)
  show leaf: "leaf_at (new_leaf a k v h) a k v"
    by (auto simp: leaf_at_def new_leaf_def)
  show "extends h (new_leaf a k v h)"
    using assms(1) leaf by (auto simp: extends_def new_leaf_def cell_kept_def keys_put_known [OF k])
  have "param_wf costs rank (new_leaf a k v h) n q" if "param_wf costs rank h n q" for n q
    using that param_wf_def [of costs rank h n q] by (intro param_wf_kept [OF that]) (auto simp: new_leaf_def)
  moreover have "param_wf costs rank (new_leaf a k v h) n (next_cell h)" for n
    by (simp add: param_wf_def new_leaf_def)
  moreover have distinct: "distinct (obj_keys (objs (new_leaf a k v h) b))" for b
    using heap_wf_distinct [OF assms(2)] by (simp add: new_leaf_def)
  moreover have "q = next_cell h \<or> map_of (objs h b) l = Some (Param q)"
    if "map_of (objs (new_leaf a k v h) b) l = Some (Param q)" for b l q
    using that by (simp add: new_leaf_def split: if_splits)
  ultimately show "heap_wf costs rank (new_leaf a k v h)"
    using heap_wfD [OF assms(2)] by (intro heap_wfI) (rule distinct, blast)
  show "numbered g (insert (next_cell h) S) (new_leaf a k v h)" if "numbered g S h"
    using that by (fastforce simp: numbered_def new_leaf_def inj_on_def)
qed (simp_all add: new_leaf_def)

text \<open>Building visits and completes all that is reachable, on a stack deeper than the rank.\<close>

definition build_ok ::
    "cost_map \<Rightarrow> (addr \<Rightarrow> nat) \<Rightarrow> int \<Rightarrow> addr set \<Rightarrow> cost_heap \<Rightarrow> (addr set \<Rightarrow> cost_heap \<Rightarrow> bool) \<Rightarrow> trace_error + cost_heap \<Rightarrow> bool" where
  "build_ok costs rank g S h P res \<longleftrightarrow>
     (\<exists>h' S'. res = Inr h' \<and> extends h h' \<and> heap_wf costs rank h' \<and> S \<subseteq> S' \<and> numbered g S' h' \<and> P S' h')"

definition entry_done :: "addr \<Rightarrow> string \<Rightarrow> addr set \<Rightarrow> cost_heap \<Rightarrow> bool" where
  "entry_done a k S h \<longleftrightarrow> (\<exists>p. map_of (objs h a) k = Some (Param p) \<and> param_done (built S h) S h p)"

lemma entry_done_extends:
  assumes "entry_done a k S h" and "extends h h'" and "S \<subseteq> S'"
  shows "entry_done a k S' h'"
proof -
  obtain p where p: "map_of (objs h a) k = Some (Param p)" "param_done (built S h) S h p"
    using assms(1) unfolding entry_done_def by blast
  have "map_of (objs h' a) k = Some (Param p)"
    using assms(2) p(1) unfolding extends_def by blast
  moreover have "param_done (built S' h') S' h' p"
    using p(2) assms(2,3) by (rule param_done_extends) (rule built_extends [OF _ assms(2,3)])
  ultimately show ?thesis
    unfolding entry_done_def by blast
qed

lemma built_entries: "(\<And>k. k \<in> fst ` set (objs h a) \<Longrightarrow> entry_done a k S h) \<Longrightarrow> built S h a"
  by (rule built.built) (force simp: entry_done_def dest: map_of_SomeD)

lemma build_ok_step:
  assumes "extends h h1" and "S \<subseteq> S1" and "build_ok costs rank g S1 h1 P res"
    and "\<And>S' h'. extends h1 h' \<Longrightarrow> S1 \<subseteq> S' \<Longrightarrow> P S' h' \<Longrightarrow> Q S' h'"
  shows "build_ok costs rank g S h Q res"
proof -
  obtain h' S' where "res = Inr h'" "extends h1 h'" "heap_wf costs rank h'" "S1 \<subseteq> S'" "numbered g S' h'" "P S' h'"
    using assms(3) unfolding build_ok_def by blast
  then show ?thesis
    unfolding build_ok_def using assms(2) assms(4) [of h' S'] extends_trans [OF assms(1)] by blast
qed

lemma build_total:
  "heap_wf costs rank h \<Longrightarrow> numbered g S h \<Longrightarrow> param_wf costs rank h n p \<Longrightarrow>
     build_ok costs rank g S h (\<lambda>S' h'. param_done (built S' h') S' h' p) (buildCostParam (Suc n) costs p h)"
  "heap_wf costs rank h \<Longrightarrow> numbered g S h \<Longrightarrow> rank a < n \<Longrightarrow> set ks \<subseteq> fst ` set (objs h a) \<Longrightarrow>
     build_ok costs rank g S h (\<lambda>S' h'. \<forall>k \<in> set ks. entry_done a k S' h') (buildCostParams n costs ks a h)"
proof (induction "Suc n" costs p h and n costs ks a h arbitrary: n S and S rule: buildCostParam_buildCostParams.induct)
  case (2 n costs p h)
  have p: "p < next_cell h"
    using "2.prems"(3) by (simp add: param_wf_def)
  note num = number_cell_ok [OF p]
  let ?h = "number_cell p h"
  have "param_wf costs rank ?h n p"
    using "2.prems"(3) by (rule param_wf_kept) simp_all
  then obtain h1 where h1: "resolve_cell costs p ?h = Inr h1" "extends ?h h1" "heap_wf costs rank h1"
      "param_wf costs rank h1 n p" "cp_params (cells h1 p) \<noteq> Null" "\<And>g S. numbered g S ?h \<Longrightarrow> numbered g S h1"
    using resolve_cell_ok [OF num(2) [OF "2.prems"(1)]] by metis
  have n1: "numbered g (insert p S) h1"
    using h1(6) num(3) [OF "2.prems"(2)] by blast
  have p1: "p < next_cell h1"
    using h1(4) by (simp add: param_wf_def)
  have ext: "extends h h1"
    using num(1) h1(2) by (rule extends_trans)
  show ?case
  proof (cases "cp_params (cells h1 p)")
    case (Obj b)
    then have "rank b < n"
      using h1(4) by (simp add: param_wf_def)
    then have "build_ok costs rank g (insert p S) h1 (\<lambda>S' h'. \<forall>k \<in> set (obj_keys (objs h1 b)). entry_done b k S' h')
        (buildCostParams n costs (obj_keys (objs h1 b)) b h1)"
      using "2.hyps" [OF h1(1) Obj h1(3) n1] by simp
    then show ?thesis
      unfolding buildCostParam.simps h1(1) sum.case Obj cost_params.case
    proof (rule build_ok_step [OF ext subset_insertI])
      fix S' h'
      assume e: "extends h1 h'" "insert p S \<subseteq> S'" "\<forall>k \<in> set (obj_keys (objs h1 b)). entry_done b k S' h'"
      have "fst ` set (objs h' b) = fst ` set (objs h1 b)"
        using e(1) by (metis extends_def list.set_map)
      then have "built S' h' b"
        using e(3) by (intro built_entries) auto
      then show "param_done (built S' h') S' h' p"
        using e p1 Obj unfolding param_done_def extends_def cell_kept_def by (metis cost_params.distinct(3) insert_subset less_le_trans)
    qed
  qed (use h1 ext n1 p1 in \<open>auto simp: build_ok_def param_done_def intro!: exI [of _ h1] exI [of _ "insert p S"]\<close>)
next
  case (3 n costs a h)
  then show ?case by (auto simp: build_ok_def)
next
  case (4 n costs k ks a h)
  have keys: "set ks \<subseteq> fst ` set (objs h' a)" if "extends h h'" for h'
    using that "4.prems"(4) by (metis extends_def insert_subset list.set_map list.simps(15))
  have finish: "build_ok costs rank g S h (\<lambda>S' h'. \<forall>k' \<in> set (k # ks). entry_done a k' S' h') (buildCostParams n costs ks a h1)"
    if "extends h h1" "S \<subseteq> S1" "entry_done a k S1 h1"
      "build_ok costs rank g S1 h1 (\<lambda>S' h'. \<forall>k \<in> set ks. entry_done a k S' h') (buildCostParams n costs ks a h1)" for h1 S1
    using that(1,2,4) by (rule build_ok_step) (use entry_done_extends [OF that(3)] in auto)
  obtain v where v: "map_of (objs h a) k = Some v"
    using "4.prems"(4) by (metis insert_subset list.simps(15) map_of_eq_None_iff not_None_eq)
  show ?case
  proof (cases v)
    case (Num x)
    note leaf = new_leaf_ok [OF v [unfolded Num] "4.prems"(1)]
    let ?h = "new_leaf a k x h" and ?S = "insert (next_cell h) S"
    have "entry_done a k ?S ?h"
      unfolding entry_done_def param_done_def using leaf(5,6) by (intro exI [of _ "next_cell h"]) (simp add: new_leaf_def)
    moreover have "build_ok costs rank g ?S ?h (\<lambda>S' h'. \<forall>k \<in> set ks. entry_done a k S' h') (buildCostParams n costs ks a ?h)"
      using "4.hyps"(1) [OF v Num leaf(2) leaf(3) [OF "4.prems"(2)] "4.prems"(3) keys [OF leaf(1)]] .
    ultimately show ?thesis
      using finish [OF leaf(1) subset_insertI] by (simp only: buildCostParams.simps v Num option.case cost_value.case)
  next
    case (Param p)
    have wf: "param_wf costs rank h (n - 1) p"
      using heap_wfD [OF "4.prems"(1) v [unfolded Param]] "4.prems"(3) by (rule param_wf_mono) 
    from "4.prems"(3) have n: "n = Suc (n - 1)" by simp
    from "4.hyps"(2) [OF v Param n "4.prems"(1,2) wf] obtain h1 S1 where
      r: "buildCostParam n costs p h = Inr h1" and h1: "extends h h1" "heap_wf costs rank h1" "S \<subseteq> S1" "numbered g S1 h1"
        "param_done (built S1 h1) S1 h1 p"
      unfolding build_ok_def n [symmetric] by blast
    have "map_of (objs h1 a) k = Some (Param p)"
      using h1(1) v [unfolded Param] unfolding extends_def by blast
    then have "entry_done a k S1 h1"
      unfolding entry_done_def using h1(5) by blast
    moreover note "4.hyps"(3) [OF v Param r h1(2,4) "4.prems"(3) keys [OF h1(1)]]
    ultimately show ?thesis
      using finish [OF h1(1,3)] by (simp only: buildCostParams.simps v Param r option.case cost_value.case sum.case)
  qed
qed

lemma build_complete:
  assumes "heap_wf costs rank h" and "rank (cr_params r) < n"
  shows "\<exists>h' S. buildCostTree n costs r h = Inr h' \<and> extends h h' \<and> heap_wf costs rank h' \<and> built S h' (cr_params r) \<and>
    inj_on (\<lambda>p. cp_id (cells h' p)) S \<and> cr_id r \<notin> (\<lambda>p. cp_id (cells h' p)) ` S"
proof -
  let ?h = "h\<lparr>globalId := cr_id r + 1\<rparr>" and ?ks = "obj_keys (objs h (cr_params r))"
  have wf: "heap_wf costs rank ?h"
    using assms(1) by (simp add: heap_wf_def param_wf_def cong: cost_params.case_cong)
  have "numbered (cr_id r + 1) {} ?h"
    by (simp add: numbered_def)
  from build_total(2) [OF wf this assms(2), of ?ks] obtain h' S where
    "buildCostParams n costs ?ks (cr_params r) ?h = Inr h'" and h': "extends ?h h'" "heap_wf costs rank h'"
      "numbered (cr_id r + 1) S h'" "\<forall>k \<in> set ?ks. entry_done (cr_params r) k S h'"
    unfolding build_ok_def by auto
  moreover have "extends h ?h"
    by (simp add: extends_def cell_kept_def)
  then have "extends h h'"
    using h'(1) by (rule extends_trans)
  moreover have "built S h' (cr_params r)"
  proof (rule built_entries)
    fix k
    assume "k \<in> fst ` set (objs h' (cr_params r))"
    then have "k \<in> set ?ks"
      using \<open>extends h h'\<close> by (metis extends_def list.set_map)
    then show "entry_done (cr_params r) k S h'"
      using h'(4) by blast
  qed
  ultimately show ?thesis
    by (intro exI [of _ h'] exI [of _ S]) (auto simp: buildCostTree_def numbered_def)
qed

text \<open>
  C16: building the tree of costs always ends and completes it. When the costs refer to each other without a
  cycle and every named cost exists, then on a call stack deeper than the longest chain of references the build succeeds; all
  names, costs and parameters of the input are kept and every number becomes a leaf with that cost; every
  parameter that can be reached from the root, also through a shared object, is numbered, and two different
  parameters never have the same number, nor the number of the root.
\<close>

theorem cost_tree_built:
  assumes "heap_wf costs rank h" and "rank (cr_params r) < n"
  shows "\<exists>h' S. buildCostTree n costs r h = Inr h' \<and> extends h h' \<and> heap_wf costs rank h' \<and> built S h' (cr_params r) \<and>
    inj_on (\<lambda>p. cp_id (cells h' p)) S \<and> cr_id r \<notin> (\<lambda>p. cp_id (cells h' p)) ` S"
  using assms by (rule build_complete)

subsection \<open>Drawing the tree of costs\<close>

text \<open>
  \<open>es\<close> are the links to draw below the node with number \<open>i\<close> and the values \<open>vs\<close>: those to the parameters in \<open>vs\<close>, and from
  each opened parameter on to the parameters of its object.
\<close>

definition links :: "int \<Rightarrow> cost_value list \<Rightarrow> (int \<times> addr) set" where
  "links i vs = {(i, p) | p. Param p \<in> set vs}"

definition opened :: "(int \<Rightarrow> bool) \<Rightarrow> cost_heap \<Rightarrow> addr \<Rightarrow> (int \<times> addr) set" where
  "opened expands h p =
     (case cp_params (cells h p) of
        Obj b \<Rightarrow> if expands (cp_id (cells h p)) then links (cp_id (cells h p)) (obj_values (objs h b)) else {}
      | _ \<Rightarrow> {})"

definition drawn :: "(int \<Rightarrow> bool) \<Rightarrow> cost_heap \<Rightarrow> int \<Rightarrow> cost_value list \<Rightarrow> (int \<times> addr) list \<Rightarrow> bool" where
  "drawn expands h i vs es \<longleftrightarrow> set es = links i vs \<union> (\<Union>e \<in> set es. opened expands h (snd e))"

lemma links_simps [simp]:
  "links i [] = {}" "links i (Num v # vs) = links i vs" "links i (Param p # vs) = insert (i, p) (links i vs)"
  by (auto simp: links_def)

lemma drawn_Nil: "drawn expands h i [] []"
  by (simp add: drawn_def)

lemma drawn_Num: "drawn expands h i vs es \<Longrightarrow> drawn expands h i (Num v # vs) es"
  by (simp add: drawn_def)

lemma drawn_Param:
  assumes "drawn expands h i vs es" and "set fs = opened expands h p \<union> (\<Union>e \<in> set fs. opened expands h (snd e))"
  shows "drawn expands h i (Param p # vs) ((i, p) # fs @ es)"
proof -
  have "set ((i, p) # fs @ es) = insert (i, p) (set es \<union> set fs)" by auto
  also have "\<dots> = insert (i, p) ((links i vs \<union> (\<Union>e \<in> set es. opened expands h (snd e))) \<union>
      (opened expands h p \<union> (\<Union>e \<in> set fs. opened expands h (snd e))))"
    using assms unfolding drawn_def by argo
  also have "\<dots> = links i (Param p # vs) \<union> (\<Union>e \<in> set ((i, p) # fs @ es). opened expands h (snd e))"
    by auto
  finally show ?thesis
    unfolding drawn_def .
qed

text \<open>The lines of the nodes and of the links follow the same list.\<close>

abbreviation node_lines :: "cost_heap \<Rightarrow> (int \<times> addr) list \<Rightarrow> string list" where
  "node_lines h es \<equiv> map (\<lambda>e. param_line (cells h (snd e))) es"

abbreviation link_lines :: "cost_heap \<Rightarrow> (int \<times> addr) list \<Rightarrow> string list" where
  "link_lines h es \<equiv> map (\<lambda>e. link_line (fst e) (cp_id (cells h (snd e)))) es"

lemma lines_closed:
  "\<not> expands i \<Longrightarrow> (\<And>p. Param p \<in> set vs \<Longrightarrow> 0 < n) \<Longrightarrow> genGraphvizLineParams n expands h i vs = Some []"
proof (induction vs)
  case (Cons v vs)
  then show ?case
    by (cases v; cases n) auto
qed simp

lemma value_wf:
  assumes "heap_wf costs rank h" and "Param q \<in> set (obj_values (objs h b))" and "rank b < m"
  shows "0 < m \<and> param_wf costs rank h (m - 1) q"
proof -
  obtain k where "(k, Param q) \<in> set (objs h b)"
    using assms(2) by auto
  then have "map_of (objs h b) k = Some (Param q)"
    using heap_wf_distinct [OF assms(1)] by simp
  from heap_wfD [OF assms(1) this] show ?thesis
    using param_wf_mono [OF _ assms(3)] assms(3) by auto
qed

text \<open>\<open>T\<close> is a set of parameters with the parameters of their objects.\<close>

lemma lines_drawn:
  assumes "heap_wf costs rank h"
    and T: "\<And>p b q. p \<in> T \<Longrightarrow> cp_params (cells h p) = Obj b \<Longrightarrow> Param q \<in> set (obj_values (objs h b)) \<Longrightarrow> q \<in> T"
  shows "(\<And>p. Param p \<in> set vs \<Longrightarrow> p \<in> T \<and> 0 < n \<and> param_wf costs rank h (n - 1) p) \<Longrightarrow> expands i \<Longrightarrow>
    \<exists>es. genGraphvizNodeParams n expands h vs = Some (node_lines h es) \<and>
      genGraphvizLineParams n expands h i vs = Some (link_lines h es) \<and> drawn expands h i vs es \<and> snd ` set es \<subseteq> T"
proof (induction n arbitrary: vs i rule: less_induct)
  case (less n)
  from less.prems show ?case
  proof (induction vs)
    case Nil
    then show ?case by (intro exI [of _ "[]"]) (simp add: drawn_Nil)
  next
    case (Cons v vs)
    from Cons.IH [OF Cons.prems] obtain es where es: "genGraphvizNodeParams n expands h vs = Some (node_lines h es)"
      "genGraphvizLineParams n expands h i vs = Some (link_lines h es)" "drawn expands h i vs es"
      "snd ` set es \<subseteq> T"
      by auto
    show ?case
    proof (cases v)
      case (Num x)
      then show ?thesis using es drawn_Num by fastforce
    next
      case (Param p)
      then obtain m where n: "n = Suc m" and p: "param_wf costs rank h m p" and t: "p \<in> T"
        using Cons.prems(1) [of p] by (cases n) auto
      have "\<exists>fs. genGraphvizNodeParam n expands h p = Some (node_lines h ((i, p) # fs)) \<and>
          genGraphvizLineParam n expands h i p = Some (link_lines h ((i, p) # fs)) \<and>
          set fs = opened expands h p \<union> (\<Union>e \<in> set fs. opened expands h (snd e)) \<and> snd ` set fs \<subseteq> T"
      proof (cases "cp_params (cells h p)")
        case (Obj b)
        then have b: "rank b < m"
          using p by (simp add: param_wf_def)
        show ?thesis
        proof (cases "expands (cp_id (cells h p))")
          case True
          from less.IH [of m "obj_values (objs h b)" "cp_id (cells h p)"] value_wf [OF assms(1) _ b] True n T [OF t Obj]
          obtain fs where "genGraphvizNodeParams m expands h (obj_values (objs h b)) = Some (node_lines h fs)"
            "genGraphvizLineParams m expands h (cp_id (cells h p)) (obj_values (objs h b)) = Some (link_lines h fs)"
            "drawn expands h (cp_id (cells h p)) (obj_values (objs h b)) fs" "snd ` set fs \<subseteq> T"
            by blast
          then show ?thesis
            using True Obj Cons.prems(2) by (intro exI [of _ fs]) (simp add: n Let_def drawn_def opened_def)
        next
          case False
          then have "genGraphvizLineParams m expands h (cp_id (cells h p)) (obj_values (objs h b)) = Some []"
            using value_wf [OF assms(1) _ b] by (intro lines_closed) auto
          then show ?thesis
            using False Obj Cons.prems(2) by (intro exI [of _ "[]"]) (simp add: n opened_def)
        qed
      qed (use Cons.prems(2) in \<open>auto simp: n opened_def intro!: exI [of _ "[]"]\<close>)
      then obtain fs where fs: "genGraphvizNodeParam n expands h p = Some (node_lines h ((i, p) # fs))"
        "genGraphvizLineParam n expands h i p = Some (link_lines h ((i, p) # fs))"
        "set fs = opened expands h p \<union> (\<Union>e \<in> set fs. opened expands h (snd e))" "snd ` set fs \<subseteq> T"
        by blast
      show ?thesis
        using drawn_Param [OF es(3) fs(3)] es fs(1,2,4) Param t by (intro exI [of _ "(i, p) # fs @ es"]) auto
    qed
  qed
qed

text \<open>
  The drawing of a built tree is consistent. For any set of opened nodes the two printing functions succeed on the same
  stack as the build; they print one node line and one link line for each link of the opened part, in the same order, after
  the line of the root: every link ends at a declared node and starts at the root or at an opened node, and no child of
  an opened node is left out. Nodes with the same number are the same parameter, and none has the number of the root.
\<close>

theorem cost_tree_drawn:
  assumes "heap_wf costs rank h" and "rank (cr_params r) < n" and "buildCostTree n costs r h = Inr h'"
  shows "\<exists>es. genGraphvizNodes n expands h' r = Some (root_line r # node_lines h' es) \<and>
    genGraphvizLines n expands h' r = Some (link_lines h' es) \<and>
    (if expands (cr_id r) then drawn expands h' (cr_id r) (obj_values (objs h' (cr_params r))) es else es = []) \<and>
    inj_on (\<lambda>p. cp_id (cells h' p)) (snd ` set es) \<and> cr_id r \<notin> (\<lambda>p. cp_id (cells h' p)) ` snd ` set es"
proof -
  obtain S where S: "heap_wf costs rank h'" "built S h' (cr_params r)" "inj_on (\<lambda>p. cp_id (cells h' p)) S"
    "cr_id r \<notin> (\<lambda>p. cp_id (cells h' p)) ` S"
    using build_complete [OF assms(1,2)] assms(3) by auto
  let ?vs = "obj_values (objs h' (cr_params r))" and ?T = "{p. param_done (built S h') S h' p}"
  have entries: "q \<in> ?T" if "built S h' b" "Param q \<in> set (obj_values (objs h' b))" for b q
    using that heap_wf_distinct [OF S(1), of b] by (subst (asm) built_simps) (force simp del: map_of_eq_None_iff)
  have closed: "q \<in> ?T" if "p \<in> ?T" "cp_params (cells h' p) = Obj b" "Param q \<in> set (obj_values (objs h' b))" for p b q
    using entries [OF _ that(3)] that(1,2) by (simp add: param_done_def)
  have wf: "0 < n \<and> param_wf costs rank h' (n - 1) p" if "Param p \<in> set ?vs" for p
    using value_wf [OF S(1) that assms(2)] .
  show ?thesis
  proof (cases "expands (cr_id r)")
    case True
    have "\<exists>es. genGraphvizNodeParams n expands h' ?vs = Some (node_lines h' es) \<and>
        genGraphvizLineParams n expands h' (cr_id r) ?vs = Some (link_lines h' es) \<and> drawn expands h' (cr_id r) ?vs es \<and>
        snd ` set es \<subseteq> ?T"
      using entries [OF S(2)] wf True by (intro lines_drawn [OF S(1) closed]) blast+
    then obtain es where es: "genGraphvizNodeParams n expands h' ?vs = Some (node_lines h' es)"
      "genGraphvizLineParams n expands h' (cr_id r) ?vs = Some (link_lines h' es)" "drawn expands h' (cr_id r) ?vs es"
      "snd ` set es \<subseteq> S"
      by (auto simp: param_done_def)
    show ?thesis
      using es(1-3) True inj_on_subset [OF S(3) es(4)] S(4) es(4)
      by (intro exI [of _ es]) (auto simp: genGraphvizNodes_def genGraphvizLines_def)
  next
    case False
    then show ?thesis
      using lines_closed [of expands "cr_id r" ?vs n h'] wf
      by (intro exI [of _ "[]"]) (simp add: genGraphvizNodes_def genGraphvizLines_def)
  qed
qed

subsection \<open>Candidates of an operator\<close>

lemma fold_add_candidate:
  "name \<noteq> [] \<Longrightarrow> or_nil (map_of (fold add_candidate cs acc) name) =
     or_nil (map_of acc name) @ filter (\<lambda>c. op_mapping c = name) cs"
  "name \<noteq> [] \<Longrightarrow> map_of (fold add_candidate cs acc) name = None \<longleftrightarrow>
     map_of acc name = None \<and> filter (\<lambda>c. op_mapping c = name) cs = []"
proof (induction cs arbitrary: acc)
  case (Cons c cs)
  { case 1
    then show ?case
      by (simp add: Cons.IH(1)) (simp add: add_candidate_def) }
  { case 2
    then show ?case
      by (simp add: Cons.IH(2)) (simp add: add_candidate_def) }
qed simp_all

text \<open>
  The candidates shown for a logical operator are all candidates that map to it, in the order of the
  trace, first the selected ones and then the others; for an operator that no candidate maps to the page fails.
\<close>

theorem operator_candidates_shown:
  fixes m :: "operator_node js_object" and name :: string
  assumes "name \<noteq> []"
  defines "cs \<equiv> filter (\<lambda>c. op_mapping c = name) (obj_values m)"
  shows "OperatorCandidates m name =
    (if cs = [] then Inl TypeError else Inr (filter op_selected cs, filter (\<lambda>c. \<not> op_selected c) cs))"
proof (cases "map_of (operatorCandidates m) name")
  case None
  then show ?thesis
    using fold_add_candidate(2) [OF assms(1), of "obj_values m" "[]"]
    by (simp add: OperatorCandidates_def operatorCandidates_def cs_def)
next
  case (Some ds)
  then have "ds = cs" "cs \<noteq> []"
    using fold_add_candidate [OF assms(1), of "obj_values m" "[]"] by (simp_all add: operatorCandidates_def cs_def)
  then show ?thesis
    using Some by (simp add: OperatorCandidates_def)
qed

text \<open>The children of the candidates exist and their \<open>rank\<close> decreases, so no candidate is below itself.\<close>

definition acyclic_ops :: "(operator_node \<Rightarrow> nat) \<Rightarrow> operator_node js_object \<Rightarrow> bool" where
  "acyclic_ops rank m \<longleftrightarrow>
     (\<forall>c \<in> set (obj_values m). \<forall>i \<in> set (children_of c). \<exists>d. map_of m (show_int i) = Some d \<and> rank d < rank c)"

definition closed_ops :: "operator_node js_object \<Rightarrow> operator_node list \<Rightarrow> bool" where
  "closed_ops m arr \<longleftrightarrow>
     set arr \<subseteq> set (obj_values m) \<and>
     (\<forall>d \<in> set arr. \<forall>i \<in> set (children_of d). \<exists>e \<in> set arr. map_of m (show_int i) = Some e)"

lemma closed_ops_append: "closed_ops m a \<Longrightarrow> closed_ops m b \<Longrightarrow> closed_ops m (a @ b)"
  by (fastforce simp: closed_ops_def)

lemma convertForest_total:
  assumes "acyclic_ops rank m"
  shows "(\<And>c. c \<in> set cs \<Longrightarrow> c \<in> set (obj_values m) \<and> rank c < n) \<Longrightarrow>
    \<exists>arr. convertForest n m (map Some cs) = Inr arr \<and> set cs \<subseteq> set arr \<and> closed_ops m arr"
proof (induction n arbitrary: cs)
  case 0
  then have "cs = []" by (cases cs) auto
  then show ?case by (simp add: closed_ops_def)
next
  case (Suc n)
  from Suc.prems show ?case
  proof (induction cs)
    case Nil
    then show ?case by (simp add: closed_ops_def)
  next
    case (Cons c cs)
    have c: "c \<in> set (obj_values m)" "rank c < Suc n"
      using Cons.prems [of c] by simp_all
    define ds where "ds = map (\<lambda>i. the (map_of m (show_int i))) (children_of c)"
    have child: "\<exists>d. map_of m (show_int i) = Some d \<and> d \<in> set (obj_values m) \<and> rank d < n" if "i \<in> set (children_of c)" for i
      using assms c that unfolding acyclic_ops_def by (force dest: map_of_SomeD)
    then have ds: "childrenNodes m c = map Some ds"
      unfolding childrenNodes_def ds_def map_map comp_def by (intro map_cong refl) (metis option.sel)
    have "\<exists>arr. convertForest n m (map Some ds) = Inr arr \<and> set ds \<subseteq> set arr \<and> closed_ops m arr"
      using child by (intro Suc.IH) (force simp: ds_def)
    then obtain arr where arr: "convertForest n m (map Some ds) = Inr arr" "set ds \<subseteq> set arr" "closed_ops m arr"
      by blast
    have "closed_ops m (c # arr)"
      using arr(2,3) c(1) child unfolding closed_ops_def ds_def by (auto simp: image_subset_iff) (metis option.sel)
    moreover obtain rest where "convertForest (Suc n) m (map Some cs) = Inr rest" "set cs \<subseteq> set rest" "closed_ops m rest"
      using Cons.IH Cons.prems by auto
    ultimately show ?case
      using closed_ops_append [of m "c # arr" rest] by (auto simp: ds arr(1))
  qed
qed

text \<open>
  A tree of candidates is flattened completely. When the children of the candidates exist, have their numbers
  as keys and no candidate is below itself, flattening succeeds on a stack deeper than the tree, begins with the
  candidate itself and contains every child of each operator it contains, so that every link that is
  drawn ends at a node that is drawn.
\<close>

theorem operator_tree_closed:
  assumes "acyclic_ops rank m" and "list_all (\<lambda>(k, c). k = show_int (op_id c)) m"
    and "c \<in> set (obj_values m)" and "rank c < n"
  shows "\<exists>arr. convertTreeToArry n m (Some c) = Inr (c # arr) \<and> set (c # arr) \<subseteq> set (obj_values m) \<and>
    (\<Union>d \<in> set (c # arr). set (children_of d)) \<subseteq> op_id ` set (c # arr)"
proof -
  obtain arr where arr: "convertForest n m [Some c] = Inr arr" "closed_ops m arr"
    using convertForest_total [OF assms(1), of "[c]" n] assms(3,4) by auto
  then obtain as where c: "convertTreeToArry n m (Some c) = Inr (c # as)" and as: "arr = c # as"
    using assms(4) by (cases n) (auto split: sum.splits)
  have "op_id e = i" if "map_of m (show_int i) = Some e" for e i
  proof -
    have "show_int i = show_int (op_id e)"
      using map_of_SomeD [OF that] assms(2) by (auto simp: list_all_iff)
    then show ?thesis
      by (metis option.inject parseInt_show_int)
  qed
  then have "i \<in> op_id ` set (c # as)" if "d \<in> set (c # as)" "i \<in> set (children_of d)" for d i
    using that arr(2) unfolding as closed_ops_def by (metis imageI)
  then have "(\<Union>d \<in> set (c # as). set (children_of d)) \<subseteq> op_id ` set (c # as)"
    by (intro UN_least subsetI)
  then show ?thesis
    using c arr(2) unfolding as closed_ops_def by blast
qed

subsection \<open>A sample trace\<close>

text \<open>Two parameters of the first cost name the second one, whose only parameter they then share.\<close>

definition sample_root :: cost_root where
  "sample_root = \<lparr>cr_id = 1, cr_type = ''A'', cr_cost = 3, cr_desc = ''x+b+c'', cr_params = 0\<rparr>"

definition sample_costs :: cost_map where
  "sample_costs =
     [''A_1'' \<mapsto> sample_root, ''B_2'' \<mapsto> \<lparr>cr_id = 2, cr_type = ''B'', cr_cost = 2, cr_desc = ''y'', cr_params = 1\<rparr>]"

definition sample_heap :: cost_heap where
  "sample_heap =
     \<lparr>objs = (\<lambda>a. if a = 0 then [(''x'', Num 1), (''b'', Param 0), (''c'', Param 1)]
                  else if a = 1 then [(''y'', Num 2)] else []),
      cells = (\<lambda>p. \<lparr>cp_id = 0, cp_name = ''B_2'', cp_desc = [], cp_cost = 2, cp_params = Null\<rparr>),
      next_cell = 2, globalId = 1\<rparr>"

definition sample_rank :: "addr \<Rightarrow> nat" where
  "sample_rank a = (if a = 0 then 1 else 0)"

lemma sample_wf: "heap_wf sample_costs sample_rank sample_heap"
  by (auto simp: heap_wf_def sample_heap_def param_wf_def sample_costs_def sample_rank_def split: if_splits)

lemma sample_rank_root: "sample_rank (cr_params sample_root) < 2"
  by (simp add: sample_rank_def sample_root_def)

theorem cost_tree_built_witness:
  "\<exists>h' S. buildCostTree 2 sample_costs sample_root sample_heap = Inr h' \<and> extends sample_heap h' \<and>
     heap_wf sample_costs sample_rank h' \<and> built S h' (cr_params sample_root) \<and> inj_on (\<lambda>p. cp_id (cells h' p)) S \<and>
     cr_id sample_root \<notin> (\<lambda>p. cp_id (cells h' p)) ` S"
  using cost_tree_built [OF sample_wf sample_rank_root] .

lemma sample_lines:
  "(case buildCostTree 2 sample_costs sample_root sample_heap of
      Inr h' \<Rightarrow> genGraphvizLines 2 (\<lambda>_. True) h' sample_root | Inl _ \<Rightarrow> None) =
   Some [link_line 1 2, link_line 1 3, link_line 3 6, link_line 1 5, link_line 5 6]"
  by code_simp

theorem cost_tree_drawn_witness:
  "\<exists>h' es. buildCostTree 2 sample_costs sample_root sample_heap = Inr h' \<and>
     genGraphvizNodes 2 (\<lambda>_. True) h' sample_root = Some (root_line sample_root # node_lines h' es) \<and> length es = 5"
proof -
  obtain h' where h': "buildCostTree 2 sample_costs sample_root sample_heap = Inr h'"
    "genGraphvizLines 2 (\<lambda>_. True) h' sample_root = Some [link_line 1 2, link_line 1 3, link_line 3 6, link_line 1 5, link_line 5 6]"
    using sample_lines by (auto split: sum.splits)
  from cost_tree_drawn [OF sample_wf sample_rank_root h'(1), of "\<lambda>_. True"] obtain es where
    es: "genGraphvizNodes 2 (\<lambda>_. True) h' sample_root = Some (root_line sample_root # node_lines h' es)"
    "genGraphvizLines 2 (\<lambda>_. True) h' sample_root = Some (link_lines h' es)"
    by blast
  have "length es = 5"
    using arg_cong [OF es(2) [unfolded h'(2)], of "\<lambda>x. length (the x)"] by simp
  with h'(1) es(1) show ?thesis by blast
qed

definition sample_op :: "int \<Rightarrow> int list \<Rightarrow> bool \<Rightarrow> operator_node" where
  "sample_op i cs sel =
     \<lparr>op_id = i, op_children = Some cs, op_type = ''Sort'', op_cost = 1, op_selected = sel, op_info = [], op_mapping = ''Sort_9''\<rparr>"

definition sample_ops :: "operator_node js_object" where
  "sample_ops = allCandidatesMap
     \<lparr>candidates = None, selected_candidates = Some [sample_op 7 [3] True],
      discarded_candidates = Some [sample_op 3 [] False]\<rparr>"

lemma sample_ops_eq: "sample_ops = [(''3'', sample_op 3 [] False), (''7'', sample_op 7 [3] True)]"
  by code_simp

theorem operator_candidates_shown_witness:
  "OperatorCandidates sample_ops ''Sort_9'' = Inr ([sample_op 7 [3] True], [sample_op 3 [] False]) \<and>
   OperatorCandidates sample_ops ''Join_1'' = Inl TypeError"
  using operator_candidates_shown [of "''Sort_9''" sample_ops] operator_candidates_shown [of "''Join_1''" sample_ops]
  by (simp add: sample_ops_eq sample_op_def)

theorem operator_tree_closed_witness:
  "\<exists>arr. convertTreeToArry 8 sample_ops (Some (sample_op 7 [3] True)) = Inr (sample_op 7 [3] True # arr) \<and>
     3 \<in> op_id ` set (sample_op 7 [3] True # arr)"
proof -
  have show3: "show_int 3 = ''3''" "show_int 7 = ''7''"
    by code_simp+
  have "acyclic_ops (\<lambda>c. nat (op_id c)) sample_ops" "list_all (\<lambda>(k, c). k = show_int (op_id c)) sample_ops"
    by (simp_all add: acyclic_ops_def sample_ops_eq sample_op_def children_of_def show3)
  from operator_tree_closed [OF this, of "sample_op 7 [3] True" 8] show ?thesis
    by (auto simp: sample_ops_eq sample_op_def children_of_def)
qed

end
