(* ===== verification/Configuration.thy ===== *)
theory Configuration
  imports Json InstanceTable
begin

text \<open>
  The configuration page, \<open>apps/Configuration\<close>: the editor of a value, which sends a value of the type of the old one
  (\<open>InlineEditor.tsx\<close>), and the table of the items with its groups, whose state is kept while only the rows
  change (\<open>index.tsx\<close>). A value is plain data, \<^const>\<open>None\<close> for \<open>undefined\<close>.
\<close>

subsection \<open>Values\<close>

text \<open>\<open>String(value)\<close> of plain data.\<close>

fun json_String :: "json \<Rightarrow> string" where
  "json_String JNull = ''null''"
| "json_String (JBool b) = (if b then ''true'' else ''false'')"
| "json_String (JNum n) = show_num n"
| "json_String (JStr s) = s"
| "json_String (JArr xs) = join '','' (map (\<lambda>x. if x = JNull then [] else json_String x) xs)"
| "json_String (JObj ps) = ''[object Object]''"

definition value_String :: "json option \<Rightarrow> string" where
  "value_String v = (case v of Some j \<Rightarrow> json_String j | None \<Rightarrow> ''undefined'')"

datatype js_type = TypeString | TypeNumber | TypeBoolean | TypeObject | TypeUndefined

fun typeof :: "json option \<Rightarrow> js_type" where
  "typeof (Some (JStr s)) = TypeString"
| "typeof (Some (JNum n)) = TypeNumber"
| "typeof (Some (JBool b)) = TypeBoolean"
| "typeof (Some j) = TypeObject"
| "typeof None = TypeUndefined"

datatype edit_error = NotANumber string | NotABoolean string

definition valueWithSameType :: "string \<Rightarrow> json option \<Rightarrow> edit_error + json" where
  "valueWithSameType newValue oldValue =
     (case typeof oldValue of
        TypeString \<Rightarrow> Inr (JStr newValue)
      | TypeNumber \<Rightarrow> (let v = js_Number newValue in if v = NaN then Inl (NotANumber newValue) else Inr (JNum v))
      | TypeBoolean \<Rightarrow>
          (let w = trim (toLowerCase newValue)
           in if w \<in> {''true'', ''yes'', ''1''} then Inr (JBool True)
              else if w \<in> {''false'', ''no'', ''0''} then Inr (JBool False)
              else Inl (NotABoolean newValue))
      | _ \<Rightarrow> Inr (JStr newValue))"

subsection \<open>The editor\<close>

text \<open>
  \<open>posts\<close> has the values sent and not answered yet, each with the text that is shown again when it is refused: the
  handler keeps the props it was called with.
\<close>

record editor =
  ed_value :: "json option"
  ed_displayValue :: string
  isVisible :: bool
  inputVal :: string
  isPosting :: bool
  posts :: "(json \<times> string) list"

definition new_editor :: "json option \<Rightarrow> editor" where
  "new_editor v =
     \<lparr>ed_value = v, ed_displayValue = value_String v, isVisible = False, inputVal = value_String v, isPosting = False,
      posts = []\<rparr>"

datatype editor_event =
    SetVisible bool
  | Input string
  | Cancel
  | Save
  | Answer bool
  | Reject
  | NewValue "json option"

definition handleCancel :: "editor \<Rightarrow> editor" where
  "handleCancel e = e\<lparr>isVisible := False, inputVal := ed_displayValue e\<rparr>"

definition editor_save :: "bool \<Rightarrow> editor \<Rightarrow> editor" where
  "editor_save hasSave e =
     (if \<not> hasSave then e\<lparr>isVisible := False\<rparr>
      else case valueWithSameType (inputVal e) (ed_value e) of
             Inl _ \<Rightarrow> e\<lparr>inputVal := ed_displayValue e, isVisible := False, isPosting := False\<rparr>
           | Inr v \<Rightarrow> e\<lparr>isPosting := True, posts := posts e @ [(v, ed_displayValue e)]\<rparr>)"

text \<open>The end of the oldest save: accepted, refused (\<open>false\<close>), or failed.\<close>

definition save_answered :: "bool \<Rightarrow> editor \<Rightarrow> editor" where
  "save_answered ok e =
     (case posts e of
        [] \<Rightarrow> e
      | (v, shown) # ps \<Rightarrow>
          (if ok then e\<lparr>isVisible := False\<rparr> else e\<lparr>inputVal := shown\<rparr>)\<lparr>isPosting := False, posts := ps\<rparr>)"

definition save_rejected :: "editor \<Rightarrow> editor" where
  "save_rejected e =
     (case posts e of
        [] \<Rightarrow> e
      | (v, shown) # ps \<Rightarrow> e\<lparr>inputVal := shown, isVisible := False, isPosting := False, posts := ps\<rparr>)"

definition display_effect :: "json option \<Rightarrow> editor \<Rightarrow> editor" where
  "display_effect v e =
     e\<lparr>ed_value := v, ed_displayValue := value_String v,
       inputVal := (if value_String v = ed_displayValue e then inputVal e else value_String v)\<rparr>"

text \<open>The input and the buttons are disabled while a value is posted.\<close>

fun editor_step :: "bool \<Rightarrow> editor_event \<Rightarrow> editor \<Rightarrow> editor" where
  "editor_step s (SetVisible b) e = e\<lparr>isVisible := b\<rparr>"
| "editor_step s (Input t) e = (if isPosting e then e else e\<lparr>inputVal := t\<rparr>)"
| "editor_step s Cancel e = (if isPosting e then e else handleCancel e)"
| "editor_step s Save e = (if isPosting e then e else editor_save s e)"
| "editor_step s (Answer ok) e = save_answered ok e"
| "editor_step s Reject e = save_rejected e"
| "editor_step s (NewValue v) e = display_effect v e"

subsection \<open>The table\<close>

record config_item =
  ci_id :: "string option"
  ci_value :: "json option"
  is_multi_value :: bool
  is_editable :: bool

type_synonym config_row = "string \<times> config_item"

datatype value_view = MultiValues string | ReadOnly string | Editable "json option" string

definition Value :: "config_item \<Rightarrow> value_view" where
  "Value i =
     (if is_multi_value i then MultiValues (value_String (ci_value i))
      else if \<not> is_editable i then ReadOnly (value_String (ci_value i))
      else Editable (ci_value i) (value_String (ci_value i)))"

text \<open>The answer to an edit: the values of the warnings, or a failure; \<^const>\<open>True\<close> stands for \<open>undefined\<close>.\<close>

definition handleSave :: "string list option option \<Rightarrow> bool \<times> string option \<times> bool" where
  "handleSave resp =
     (case resp of
        None \<Rightarrow> (False, None, False)
      | Some ws \<Rightarrow>
          (True, case ws of Some (w # ms) \<Rightarrow> Some (join [CHR 0x0A, CHR 0x0A] (w # ms)) | _ \<Rightarrow> None, True))"

definition config_kinds :: "string list" where
  "config_kinds = [''tidb_variable'', ''pd_config'', ''tikv_config'', ''tidb_config'']"

definition config_shown :: "string \<Rightarrow> config_item \<Rightarrow> bool" where
  "config_shown filterValue i \<longleftrightarrow>
     filterValue = [] \<or>
     (case ci_id i of None \<Rightarrow> True | Some s \<Rightarrow> contains (toLowerCase s) filterValue) \<or>
     contains (toLowerCase (value_String (ci_value i))) filterValue"

record config_group =
  cg_key :: string
  cg_name :: string
  cg_startIndex :: nat
  cg_count :: nat

fun config_loop ::
    "(string \<Rightarrow> string) \<Rightarrow> (string \<Rightarrow> config_item list) \<Rightarrow> string \<Rightarrow> string list \<Rightarrow>
     config_row list \<Rightarrow> config_group list \<Rightarrow> nat \<Rightarrow> config_row list \<times> config_group list" where
  "config_loop t items filterValue [] newRows newGroups start = (newRows, newGroups)"
| "config_loop t items filterValue (k # ks) newRows newGroups start =
     (let rows = newRows @ map (Pair k) (filter (config_shown filterValue) (items k))
      in config_loop t items filterValue ks rows
           (newGroups @ [\<lparr>cg_key = k, cg_name = t (''configuration.common.kind.'' @ k), cg_startIndex = start,
                          cg_count = length rows - start\<rparr>])
           (length rows))"

text \<open>
  The state of the table. The list component writes its own state \<open>'u\<close> (which groups are folded) into the group
  objects; \<open>lastSavedGroups\<close> is a copy of the groups without it.
\<close>

definition group_json :: "config_group \<Rightarrow> json" where
  "group_json g =
     JObj [(''key'', JStr (cg_key g)), (''name'', JStr (cg_name g)), (''startIndex'', JNum (js_int (int (cg_startIndex g)))),
           (''count'', JNum (js_int (int (cg_count g))))]"

definition groups_text :: "config_group list \<Rightarrow> string" where
  "groups_text gs = stringify (JArr (map group_json gs))"

record 'u config_table =
  tab_rows :: "config_row list"
  tab_groups :: "(config_group \<times> 'u option) list"
  lastSavedGroups :: "config_group list"

definition table_effect ::
    "(string \<Rightarrow> string) \<Rightarrow> (string \<Rightarrow> config_item list) option \<Rightarrow> string \<Rightarrow> 'u config_table \<Rightarrow> 'u config_table" where
  "table_effect t data filterValue s =
     (case data of
        None \<Rightarrow> s\<lparr>tab_rows := [], tab_groups := [], lastSavedGroups := []\<rparr>
      | Some items \<Rightarrow>
          (let (newRows, newGroups) = config_loop t items filterValue config_kinds [] [] 0;
               s = s\<lparr>tab_rows := newRows\<rparr>
           in if groups_text (lastSavedGroups s) = groups_text newGroups then s
              else s\<lparr>tab_groups := map (\<lambda>g. (g, None)) newGroups, lastSavedGroups := newGroups\<rparr>))"

text \<open>The list component folds the \<open>i\<close>-th group.\<close>

definition fold_group :: "nat \<Rightarrow> 'u \<Rightarrow> 'u config_table \<Rightarrow> 'u config_table" where
  "fold_group i u s =
     (if i < length (tab_groups s) then s\<lparr>tab_groups := (tab_groups s)[i := (fst (tab_groups s ! i), Some u)]\<rparr> else s)"

subsection \<open>Types of edited values\<close>

definition edit_type :: "js_type \<Rightarrow> js_type" where
  "edit_type t = (if t \<in> {TypeNumber, TypeBoolean} then t else TypeString)"

lemma valueWithSameType_typed:
  "valueWithSameType s old = Inr v \<Longrightarrow> typeof (Some v) = edit_type (typeof old) \<and> v \<noteq> JNum NaN"
  by (cases "typeof old") (auto simp: valueWithSameType_def edit_type_def Let_def split: if_splits)

lemma valueWithSameType_error:
  "(\<exists>e. valueWithSameType s old = Inl e) \<longleftrightarrow>
     typeof old = TypeNumber \<and> js_Number s = NaN \<or>
     typeof old = TypeBoolean \<and> trim (toLowerCase s) \<notin> {''true'', ''yes'', ''1'', ''false'', ''no'', ''0''}"
  by (cases "typeof old") (auto simp: valueWithSameType_def Let_def)

text \<open>Clearing the input of a number is not refused: the empty text is the number 0.\<close>

lemma empty_edit_is_zero: "valueWithSameType [] (Some (JNum n)) = Inr (JNum 0)"
proof -
  have "js_Number [] = 0" by code_simp
  then show ?thesis by (simp add: valueWithSameType_def zero_jsnum_def)
qed

lemma unchanged_edit:
  "valueWithSameType (value_String (Some (JStr s))) (Some (JStr s)) = Inr (JStr s)"
  "valueWithSameType (value_String (Some (JNum (js_int i)))) (Some (JNum (js_int i))) = Inr (JNum (js_int i))"
  "valueWithSameType (value_String (Some (JBool b))) (Some (JBool b)) = Inr (JBool b)"
proof -
  show "valueWithSameType (value_String (Some (JStr s))) (Some (JStr s)) = Inr (JStr s)"
    by (simp add: valueWithSameType_def value_String_def)
  show "valueWithSameType (value_String (Some (JNum (js_int i)))) (Some (JNum (js_int i))) = Inr (JNum (js_int i))"
    by (simp add: valueWithSameType_def value_String_def)
  have "trim (toLowerCase ''true'') = ''true''" "trim (toLowerCase ''false'') = ''false''"
    by code_simp+
  then show "valueWithSameType (value_String (Some (JBool b))) (Some (JBool b)) = Inr (JBool b)"
    by (simp add: valueWithSameType_def value_String_def)
qed

text \<open>Values that come back unchanged when the editor is saved without a change of its text.\<close>

fun plain_value :: "json \<Rightarrow> bool" where
  "plain_value (JStr s) = True"
| "plain_value (JBool b) = True"
| "plain_value (JNum n) = (case n of Fin q \<Rightarrow> q = of_int \<lfloor>q\<rfloor> | _ \<Rightarrow> False)"
| "plain_value _ = False"

lemma unchanged_plain: "plain_value v \<Longrightarrow> valueWithSameType (value_String (Some v)) (Some v) = Inr v"
proof (cases v)
  case (JNum n)
  then show "plain_value v \<Longrightarrow> ?thesis"
    using unchanged_edit(2) [of "case n of Fin q \<Rightarrow> \<lfloor>q\<rfloor>"] by (cases n) auto
qed (auto simp: unchanged_edit)

definition editor_inv :: "editor \<Rightarrow> bool" where
  "editor_inv e \<longleftrightarrow> length (posts e) \<le> 1 \<and> (isPosting e \<longleftrightarrow> posts e \<noteq> [])"

lemma editor_inv_step: "editor_inv e \<Longrightarrow> editor_inv (editor_step s ev e)"
  by (cases ev) (auto simp: editor_inv_def handleCancel_def editor_save_def save_answered_def save_rejected_def
      display_effect_def split: sum.splits list.splits)

lemma editor_inv_run: "editor_inv e \<Longrightarrow> editor_inv (fold (editor_step s) evs e)"
  by (induction evs arbitrary: e) (auto intro: editor_inv_step)

text \<open>
  C17: whatever the user and the server do, the editor of a value has at most one value on its way, exactly while it shows that
  it is posting; a value that is sent has the type of the old value, or is a string when that is neither number nor
  boolean, and is never \<open>NaN\<close>; and a refused value is replaced by the text shown when it was sent.
\<close>

theorem config_editor_safe:
  fixes s :: bool and evs :: "editor_event list" and v :: "json option"
  defines "e \<equiv> fold (editor_step s) evs (new_editor v)"
  defines "e' \<equiv> editor_step s Save e"
  shows "length (posts e') \<le> 1 \<and> isPosting e' = (posts e' \<noteq> []) \<and>
    (posts e' = posts e \<or> (\<exists>w. posts e' = [(w, ed_displayValue e)] \<and> typeof (Some w) = edit_type (typeof (ed_value e)) \<and>
       w \<noteq> JNum NaN)) \<and>
    (posts e' = [] \<or> inputVal (save_answered False e') = snd (hd (posts e')) \<and> posts (save_answered False e') = [])"
proof -
  have e: "editor_inv e"
    unfolding e_def by (rule editor_inv_run) (simp add: editor_inv_def new_editor_def)
  then have e': "editor_inv e'"
    unfolding e'_def by (rule editor_inv_step)
  have "posts e' = posts e \<or> (\<exists>w. posts e' = [(w, ed_displayValue e)] \<and> typeof (Some w) = edit_type (typeof (ed_value e)) \<and>
      w \<noteq> JNum NaN)"
    using e valueWithSameType_typed unfolding e'_def
    by (auto simp: editor_save_def editor_inv_def split: sum.splits)
  moreover have "posts e' = [] \<or> inputVal (save_answered False e') = snd (hd (posts e')) \<and> posts (save_answered False e') = []"
    using e' by (cases "posts e'") (auto simp: editor_inv_def save_answered_def)
  ultimately show ?thesis
    using e' by (simp add: editor_inv_def)
qed

subsection \<open>Groups of the table\<close>

definition shown_rows :: "(string \<Rightarrow> config_item list) \<Rightarrow> string \<Rightarrow> string \<Rightarrow> config_row list" where
  "shown_rows items filterValue k = map (Pair k) (filter (config_shown filterValue) (items k))"

text \<open>A group describes the slice of the table with the rows of its kind, which may be empty.\<close>

definition config_group_ok :: "(string \<Rightarrow> config_row list) \<Rightarrow> config_row list \<Rightarrow> config_group \<Rightarrow> bool" where
  "config_group_ok rows table g \<longleftrightarrow>
     cg_startIndex g + cg_count g \<le> length table \<and>
     take (cg_count g) (drop (cg_startIndex g) table) = rows (cg_key g)"

lemma config_group_ok_append: "config_group_ok rows td g \<Longrightarrow> config_group_ok rows (td @ xs) g"
  by (auto simp: config_group_ok_def)

lemma config_loop_Cons:
  "config_loop t items f (k # ks) td gd st =
     (let rows = td @ shown_rows items f k
      in config_loop t items f ks rows
           (gd @ [\<lparr>cg_key = k, cg_name = t (''configuration.common.kind.'' @ k), cg_startIndex = st, cg_count = length rows - st\<rparr>])
           (length rows))"
  by (simp add: shown_rows_def)

lemma config_loop_groups:
  "list_all (config_group_ok (shown_rows items f) td) gd \<Longrightarrow>
     list_all (config_group_ok (shown_rows items f) (fst (config_loop t items f ks td gd (length td))))
       (snd (config_loop t items f ks td gd (length td))) \<and>
     fst (config_loop t items f ks td gd (length td)) = td @ concat (map (shown_rows items f) ks) \<and>
     map cg_key (snd (config_loop t items f ks td gd (length td))) = map cg_key gd @ ks"
proof (induction ks arbitrary: td gd)
  case (Cons k ks)
  let ?td = "td @ shown_rows items f k"
  let ?g = "\<lparr>cg_key = k, cg_name = t (''configuration.common.kind.'' @ k), cg_startIndex = length td,
    cg_count = length ?td - length td\<rparr>"
  have "config_group_ok (shown_rows items f) ?td ?g"
    by (simp add: config_group_ok_def)
  then have "list_all (config_group_ok (shown_rows items f) ?td) (gd @ [?g])"
    using Cons.prems by (auto simp: list_all_iff intro: config_group_ok_append)
  from Cons.IH [OF this] show ?case
    unfolding config_loop_Cons Let_def by (intro conjI) (blast, simp_all)
qed simp

lemma group_json_inject: "map group_json gs = map group_json gs' \<longleftrightarrow> gs = gs'"
proof -
  have "inj group_json"
    by (rule injI) (auto simp: group_json_def intro: config_group.equality)
  then show ?thesis by (rule inj_map_eq_map)
qed

lemma groups_text_inject: "groups_text gs = groups_text gs' \<longleftrightarrow> gs = gs'"
proof
  assume "groups_text gs = groups_text gs'"
  then have "JArr (map group_json gs) = JArr (map group_json gs')"
    unfolding groups_text_def by (intro stringify_inject) (auto simp: group_json_def)
  then show "gs = gs'"
    by (simp only: json.inject group_json_inject)
qed simp

definition new_table :: "'u config_table" where
  "new_table = \<lparr>tab_rows = [], tab_groups = [], lastSavedGroups = []\<rparr>"

text \<open>A run of the page: fresh data or filters, and groups folded by the user.\<close>

datatype 'u table_event = Effect "(string \<Rightarrow> config_item list) option" string | Fold nat 'u

fun table_step :: "(string \<Rightarrow> string) \<Rightarrow> 'u table_event \<Rightarrow> 'u config_table \<Rightarrow> 'u config_table" where
  "table_step t (Effect data f) s = table_effect t data f s"
| "table_step t (Fold i u) s = fold_group i u s"

lemma saved_groups_step:
  "map fst (tab_groups s) = lastSavedGroups s \<Longrightarrow>
     map fst (tab_groups (table_step t ev s)) = lastSavedGroups (table_step t ev s)"
proof (cases ev)
  case (Fold i u)
  assume saved: "map fst (tab_groups s) = lastSavedGroups s"
  have "(lastSavedGroups s)[i := fst (tab_groups s ! i)] = lastSavedGroups s" if "i < length (tab_groups s)"
    unfolding saved [symmetric] using that by (simp add: list_update_same_conv)
  then show ?thesis
    using saved by (auto simp: Fold fold_group_def map_update)
qed (auto simp: table_effect_def Let_def comp_def split: option.splits prod.splits)

lemma saved_groups_run:
  "map fst (tab_groups s) = lastSavedGroups s \<Longrightarrow>
     map fst (tab_groups (fold (table_step t) evs s)) = lastSavedGroups (fold (table_step t) evs s)"
  by (induction evs arbitrary: s) (auto intro: saved_groups_step)

text \<open>
  After every change of the data or of the filter, in any run of the page, the rows are the items of each kind that the
  filter leaves, kind after kind, each group describes exactly the slice of the rows of its kind, and the groups stand
  in the fixed order of the kinds. When the groups did not change, what the user folded stays folded.
\<close>

theorem config_table_groups:
  fixes t :: "string \<Rightarrow> string" and items :: "string \<Rightarrow> config_item list" and f :: string and evs :: "'u table_event list"
  defines "s \<equiv> fold (table_step t) evs new_table"
  defines "s' \<equiv> table_step t (Effect (Some items) f) s"
  shows "tab_rows s' = concat (map (shown_rows items f) config_kinds) \<and>
    list_all (\<lambda>g. config_group_ok (shown_rows items f) (tab_rows s') (fst g)) (tab_groups s') \<and>
    map (cg_key \<circ> fst) (tab_groups s') = config_kinds \<and>
    (map fst (tab_groups s) = map fst (tab_groups s') \<longrightarrow> tab_groups s' = tab_groups s)"
proof -
  have saved: "map fst (tab_groups s) = lastSavedGroups s" "map fst (tab_groups s') = lastSavedGroups s'"
    unfolding s'_def s_def by (intro saved_groups_step saved_groups_run; simp add: new_table_def)+
  let ?res = "config_loop t items f config_kinds [] [] 0"
  note loop = config_loop_groups [of items f "[]" "[]" t config_kinds, simplified]
  have rows: "tab_rows s' = fst ?res" and groups: "lastSavedGroups s' = snd ?res"
    by (auto simp: s'_def table_effect_def Let_def groups_text_inject split: prod.splits)
  have "list_all (config_group_ok (shown_rows items f) (tab_rows s')) (map fst (tab_groups s'))"
    "map cg_key (map fst (tab_groups s')) = config_kinds" "tab_rows s' = concat (map (shown_rows items f) config_kinds)"
    unfolding saved(2) rows groups using loop by blast+
  moreover have "tab_groups s' = tab_groups s" if "map fst (tab_groups s) = map fst (tab_groups s')"
  proof -
    have "groups_text (lastSavedGroups s) = groups_text (snd ?res)"
      using that saved groups by simp
    then show ?thesis
      by (auto simp: s'_def table_effect_def Let_def split: prod.splits)
  qed
  ultimately show ?thesis
    by (simp add: list.pred_map comp_def)
qed

definition sample_config :: "string \<Rightarrow> config_item list" where
  "sample_config k =
     (if k = ''pd_config'' then [\<lparr>ci_id = Some ''log.level'', ci_value = Some (JStr ''info''), is_multi_value = False, is_editable = True\<rparr>]
      else [])"

lemma sample_config_shown: "filter (config_shown f) (sample_config k) = sample_config k" if "f = [] \<or> f = ''log''"
proof -
  have "config_shown f \<lparr>ci_id = Some ''log.level'', ci_value = Some (JStr ''info''), is_multi_value = False, is_editable = True\<rparr>"
    using that by (elim disjE) (simp_all add: config_shown_def, code_simp)
  then show ?thesis
    by (simp add: sample_config_def)
qed

theorem config_table_groups_witness:
  "tab_groups (table_step id (Effect (Some sample_config) ''log'') (fold (table_step id)
     [Effect (Some sample_config) [], Fold 1 True] new_table)) =
   tab_groups (fold (table_step id) [Effect (Some sample_config) [], Fold 1 True] new_table)"
proof -
  have "config_loop id sample_config ''log'' ks td gd st = config_loop id sample_config [] ks td gd st" for ks td gd st
    by (induction ks arbitrary: td gd st) (simp_all add: sample_config_shown Let_def)
  then have "map fst (tab_groups (fold (table_step id) [Effect (Some sample_config) [], Fold 1 True] (new_table :: bool config_table))) =
      map fst (tab_groups (table_step id (Effect (Some sample_config) ''log'') (fold (table_step id)
        [Effect (Some sample_config) [], Fold 1 True] (new_table :: bool config_table))))"
    by (simp add: table_effect_def fold_group_def groups_text_inject Let_def split: prod.splits)
  then show ?thesis
    using config_table_groups [of id sample_config "''log''" "[Effect (Some sample_config) [], Fold 1 True] :: bool table_event list"]
    by blast
qed

end
