(* ===== verification/CardTable.thy ===== *)
theory CardTable
  imports JsSort JsObject "HOL-Library.List_Lexorder" "HOL-Library.Char_ord"
begin

text \<open>
  The table component of the pages, \<open>components/CardTable/index.tsx\<close>: sorting, visible columns, the order after a click on a
  header and the highlighted row; and the drop-down that chooses the columns,
  \<open>components/ColumnsSelector/index.tsx\<close>. A row is read through the accessor \<open>field\<close>.
\<close>

subsection \<open>Sorting rows\<close>

datatype cell = CNum jsnum | CStr string | CUndefined

fun cell_Number :: "cell \<Rightarrow> jsnum" where
  "cell_Number (CNum n) = n"
| "cell_Number (CStr s) = js_Number s"
| "cell_Number CUndefined = NaN"

text \<open>The operator \<open><\<close>: texts by code units, everything else as numbers.\<close>

fun cell_less :: "cell \<Rightarrow> cell \<Rightarrow> bool" where
  "cell_less (CStr s) (CStr t) = (s < t)"
| "cell_less a b = (cell_Number a < cell_Number b)"

definition copyAndSort :: "(string option \<Rightarrow> 'r \<Rightarrow> cell) \<Rightarrow> 'r list \<Rightarrow> string option \<Rightarrow> bool \<Rightarrow> 'r list" where
  "copyAndSort field items k isSortedDescending =
     js_sort (\<lambda>a b. if (if isSortedDescending then cell_less (field k a) (field k b) else cell_less (field k b) (field k a))
                    then 1 else - 1) items"

subsection \<open>Columns\<close>

record column =
  col_key :: string
  fieldName :: "string option"
  isResizable :: "bool option"
  columnActionsMode :: "nat option"

record final_column = column +
  isSorted :: bool
  isSortedDescending :: bool

definition dummyColumn :: final_column where
  "dummyColumn =
     \<lparr>col_key = ''dummy'', fieldName = None, isResizable = None, columnActionsMode = None, isSorted = False,
      isSortedDescending = False\<rparr>"

text \<open>\<open>ColumnActionsMode.disabled\<close> is 0, so a missing mode and the mode 0 are the same.\<close>

definition mk_final_column :: "string option \<Rightarrow> bool \<Rightarrow> column \<Rightarrow> final_column" where
  "mk_final_column orderBy desc c =
     \<lparr>col_key = col_key c, fieldName = fieldName c,
      isResizable = Some (case isResizable c of Some b \<Rightarrow> b | None \<Rightarrow> True),
      columnActionsMode = Some (case columnActionsMode c of Some m \<Rightarrow> m | None \<Rightarrow> 0),
      isSorted = (Some (col_key c) = orderBy), isSortedDescending = desc\<rparr>"

definition finalColumns ::
    "column list \<Rightarrow> (string \<Rightarrow> bool) option \<Rightarrow> string option \<Rightarrow> bool \<Rightarrow> bool \<Rightarrow> final_column list" where
  "finalColumns columns visibleColumnKeys orderBy desc extendLastColumn =
     map (mk_final_column orderBy desc)
       (case visibleColumnKeys of None \<Rightarrow> columns | Some v \<Rightarrow> filter (\<lambda>c. v (col_key c)) columns) @
     (if extendLastColumn then [] else [dummyColumn])"

definition finalItems ::
    "(string option \<Rightarrow> 'r \<Rightarrow> cell) \<Rightarrow> 'r list \<Rightarrow> final_column list \<Rightarrow> string option \<Rightarrow> nat option \<Rightarrow> 'r list" where
  "finalItems field items cols orderBy visibleItemsCount =
     (let newItems = (case List.find (\<lambda>c. Some (col_key c) = orderBy) cols of
            Some c \<Rightarrow> copyAndSort field items (fieldName c) (isSortedDescending c)
          | None \<Rightarrow> items)
      in case visibleItemsCount of Some n \<Rightarrow> take n newItems | None \<Rightarrow> newItems)"

text \<open>The order that a click on the header of a column asks for.\<close>

definition onColumnClick :: "string option \<Rightarrow> bool \<Rightarrow> string \<Rightarrow> string \<times> bool" where
  "onColumnClick orderBy desc k = (if Some k = orderBy then (k, \<not> desc) else (k, True))"

text \<open>The highlighted row is \<open>clickedRowIndex || -1\<close>; the row scrolled to is \<open>clickedRowIndex ?? -1\<close>.\<close>

definition highlight_row :: "int option \<Rightarrow> int" where
  "highlight_row i = (case i of Some n \<Rightarrow> if n = 0 then - 1 else n | None \<Rightarrow> - 1)"

definition focus_row :: "int \<Rightarrow> int option \<Rightarrow> int option" where
  "focus_row activeIdx i =
     (case i of Some n \<Rightarrow> if activeIdx = - 1 \<and> 0 \<le> n then Some n else None | None \<Rightarrow> None)"

definition showSkeleton :: "bool \<Rightarrow> bool \<Rightarrow> 'r list \<Rightarrow> bool" where
  "showSkeleton hideLoadingWhenNotEmpty loading items \<longleftrightarrow>
     \<not> hideLoadingWhenNotEmpty \<and> loading \<or> items = [] \<and> loading"

subsection \<open>Choosing columns\<close>

definition filteredColumns :: "column list \<Rightarrow> column list" where
  "filteredColumns columns = filter (\<lambda>c. col_key c \<noteq> ''dummy'') columns"

definition all_keys :: "bool \<Rightarrow> column list \<Rightarrow> bool js_object" where
  "all_keys checked columns = fold (\<lambda>c acc. obj_put (col_key c) checked acc) columns []"

definition visibleKeys :: "bool js_object option \<Rightarrow> column list \<Rightarrow> bool js_object" where
  "visibleKeys visibleColumnKeys columns =
     (case visibleColumnKeys of Some v \<Rightarrow> v | None \<Rightarrow> all_keys True columns)"

text \<open>The box for all columns: whether it is half set, and whether it is set.\<close>

definition updateCheckAllStatus :: "bool js_object \<Rightarrow> column list \<Rightarrow> bool \<times> bool" where
  "updateCheckAllStatus columnKeys columns =
     (let n = length (filter (\<lambda>(k, b). b \<and> k \<noteq> ''dummy'') columnKeys);
          all = length (filteredColumns columns)
      in (0 < n \<and> n < all, n = all))"

definition handleCheckAllChange :: "bool \<Rightarrow> column list \<Rightarrow> bool js_object" where
  "handleCheckAllChange checked columns = all_keys checked columns"

definition handleCheckChange :: "bool \<Rightarrow> string \<Rightarrow> bool js_object \<Rightarrow> bool js_object" where
  "handleCheckChange checked k keys = obj_put k checked keys"

subsection \<open>Properties\<close>

text \<open>Columns whose cells compare: all finite numbers or all texts.\<close>

definition comparable :: "cell set \<Rightarrow> bool" where
  "comparable C \<longleftrightarrow> (\<forall>c \<in> C. \<exists>q. c = CNum (Fin q)) \<or> (\<forall>c \<in> C. \<exists>s. c = CStr s)"

lemma comparable_cases:
  assumes "comparable C"
  obtains "\<And>c. c \<in> C \<Longrightarrow> \<exists>q. c = CNum (Fin q)" | "\<And>c. c \<in> C \<Longrightarrow> \<exists>s. c = CStr s"
  using assms by (auto simp: comparable_def)

lemma cell_less_order:
  assumes "comparable C" and "a \<in> C" "b \<in> C" "c \<in> C"
  shows "\<not> cell_less b a \<Longrightarrow> \<not> cell_less c b \<Longrightarrow> \<not> cell_less c a"
    and "cell_less a b \<Longrightarrow> \<not> cell_less b a"
proof -
  have "(\<not> cell_less b a \<longrightarrow> \<not> cell_less c b \<longrightarrow> \<not> cell_less c a) \<and> (cell_less a b \<longrightarrow> \<not> cell_less b a)"
    using assms(1)
  proof (cases rule: comparable_cases)
    case 1
    then obtain x y z where "a = CNum (Fin x)" "b = CNum (Fin y)" "c = CNum (Fin z)"
      using assms(2-4) by metis
    then show ?thesis by auto
  next
    case 2
    then obtain x y z where "a = CStr x" "b = CStr y" "c = CStr z"
      using assms(2-4) by metis
    then show ?thesis by auto
  qed
  then show "\<not> cell_less b a \<Longrightarrow> \<not> cell_less c b \<Longrightarrow> \<not> cell_less c a" "cell_less a b \<Longrightarrow> \<not> cell_less b a"
    by blast+
qed

lemma copyAndSort_sorted:
  assumes "comparable (field k ` set items)"
  shows "sorted_wrt (\<lambda>a b. \<not> (if desc then cell_less (field k a) (field k b) else cell_less (field k b) (field k a)))
    (copyAndSort field items k desc)"
  unfolding copyAndSort_def
proof (rule js_sort_wrt [where A = "set items"])
  show "if (if (if desc then cell_less (field k a) (field k b) else cell_less (field k b) (field k a)) then 1 else - 1) < (0 :: jsnum)
      then \<not> (if desc then cell_less (field k a) (field k b) else cell_less (field k b) (field k a))
      else \<not> (if desc then cell_less (field k b) (field k a) else cell_less (field k a) (field k b))"
    if "a \<in> set items" "b \<in> set items" for a b
    using cell_less_order(2) [OF assms, of "field k a" "field k b"] cell_less_order(2) [OF assms, of "field k b" "field k a"] that
    by (auto simp: zero_jsnum_def one_jsnum_def)
qed (use cell_less_order(1) [OF assms] in \<open>auto split: if_splits\<close>)

text \<open>
  The rows of a table ordered by a visible column whose cells are all finite numbers or all texts are a
  permutation of the items in the direction of the column, cut off after the number of visible items.
\<close>

theorem card_table_sorted:
  assumes "List.find (\<lambda>c. Some (col_key c) = orderBy) (finalColumns columns visible orderBy desc extendLast) = Some c"
    and "comparable (field (fieldName c) ` set items)" and "col_key c \<noteq> ''dummy''"
  shows "\<exists>rows. mset rows = mset items \<and>
    sorted_wrt (\<lambda>a b. \<not> (if desc then cell_less (field (fieldName c) a) (field (fieldName c) b)
                          else cell_less (field (fieldName c) b) (field (fieldName c) a))) rows \<and>
    finalItems field items (finalColumns columns visible orderBy desc extendLast) orderBy (Some n) = take n rows"
proof -
  have "c \<in> set (finalColumns columns visible orderBy desc extendLast)"
    using assms(1) by (auto simp: find_Some_iff)
  then have "isSortedDescending c = desc"
    using assms(3) by (auto simp: finalColumns_def mk_final_column_def dummyColumn_def split: if_splits)
  then show ?thesis
    using copyAndSort_sorted [of field "fieldName c" items desc] assms(2)
    by (intro exI [of _ "copyAndSort field items (fieldName c) desc"])
      (simp add: finalItems_def assms(1) Let_def copyAndSort_def [of _ items])
qed

lemma keys_all_keys: "set (map fst (all_keys b columns)) = col_key ` set columns" "distinct (map fst (all_keys b columns))"
  "snd ` set (all_keys b columns) \<subseteq> {b}"
proof -
  have "fst ` set (fold (\<lambda>c acc. obj_put (col_key c) b acc) columns acc) = fst ` set acc \<union> col_key ` set columns \<and>
      (distinct (map fst acc) \<longrightarrow> distinct (map fst (fold (\<lambda>c acc. obj_put (col_key c) b acc) columns acc)))" for acc
    by (induction columns arbitrary: acc) auto
  from this [of "[]"] show "set (map fst (all_keys b columns)) = col_key ` set columns" "distinct (map fst (all_keys b columns))"
    by (simp_all add: all_keys_def)
  have "snd ` set (fold (\<lambda>c acc. obj_put (col_key c) b acc) columns acc) \<subseteq> {b}" if "snd ` set acc \<subseteq> {b}" for acc
    using that
  proof (induction columns arbitrary: acc)
    case (Cons c columns)
    have "snd ` set (obj_put (col_key c) b acc) \<subseteq> {b}"
      using Cons.prems by (cases b) (auto simp: obj_put_def image_subset_iff split: if_splits)
    from Cons.IH [OF this] show ?case by simp
  qed simp
  then show "snd ` set (all_keys b columns) \<subseteq> {b}"
    by (simp add: all_keys_def)
qed

text \<open>
  Checking or clearing the box for all columns leaves it fully set or fully clear, whatever the columns are, as long
  as their keys differ.
\<close>

theorem columns_check_all:
  assumes "distinct (map col_key columns)"
  shows "updateCheckAllStatus (handleCheckAllChange b columns) columns = (False, b \<or> filteredColumns columns = [])"
proof -
  let ?m = "all_keys b columns"
  have snd: "snd e = b" if "e \<in> set ?m" for e
    using keys_all_keys(3) [of b columns] that by auto
  have "length (filter (\<lambda>(k, v). v \<and> k \<noteq> ''dummy'') ?m) = (if b then length (filter (\<lambda>e. fst e \<noteq> ''dummy'') ?m) else 0)"
    using snd by (auto simp: filter_empty_conv case_prod_beta intro!: arg_cong [of _ _ length] filter_cong)
  also have "length (filter (\<lambda>e. fst e \<noteq> ''dummy'') ?m) = card (set (filter (\<lambda>k. k \<noteq> ''dummy'') (map fst ?m)))"
    using distinct_filter [OF keys_all_keys(2), of "\<lambda>k. k \<noteq> ''dummy''" b columns]
    by (subst distinct_card) (auto simp: filter_map comp_def)
  also have "set (filter (\<lambda>k. k \<noteq> ''dummy'') (map fst ?m)) = set (filter (\<lambda>k. k \<noteq> ''dummy'') (map col_key columns))"
    using keys_all_keys(1) [of b columns] by auto
  also have "card \<dots> = length (filteredColumns columns)"
    using distinct_filter [OF assms, of "\<lambda>k. k \<noteq> ''dummy''"]
    by (subst distinct_card) (auto simp: filteredColumns_def filter_map comp_def)
  finally show ?thesis
    by (auto simp: updateCheckAllStatus_def handleCheckAllChange_def Let_def)
qed

text \<open>Remembered keys of columns that are no longer there are counted: the box is set although a column is hidden.\<close>

definition sample_column :: "string \<Rightarrow> column" where
  "sample_column k = \<lparr>col_key = k, fieldName = Some k, isResizable = None, columnActionsMode = None\<rparr>"

lemma stale_keys_check_all:
  "updateCheckAllStatus [(''a'', False), (''old'', True)] [sample_column ''a''] = (False, True)"
  by code_simp

theorem card_table_sorted_witness:
  "\<exists>rows. mset rows = mset [3, 1, 2 :: rat] \<and>
     finalItems (\<lambda>_ q. CNum (Fin q)) [3, 1, 2] (finalColumns [sample_column ''a''] None (Some ''a'') False False) (Some ''a'') (Some 2) =
     take 2 rows"
proof -
  have "List.find (\<lambda>c. Some (col_key c) = Some ''a'') (finalColumns [sample_column ''a''] None (Some ''a'') False False) =
      Some (mk_final_column (Some ''a'') False (sample_column ''a''))"
    by (simp add: finalColumns_def mk_final_column_def sample_column_def)
  from card_table_sorted [OF this, of "\<lambda>_ q. CNum (Fin q)" "[3, 1, 2]" 2] show ?thesis
    by (auto simp: comparable_def mk_final_column_def sample_column_def)
qed

end
