(* ===== verification/Profiling.thy ===== *)
theory Profiling
  imports SearchLogs UrlCodec JsSort
begin

text \<open>
  The profiling pages: \<open>apps/InstanceProfiling\<close> (the form, the progress and the views of a profile) and
  \<open>apps/ContinuousProfiling\<close> (the time window of the list, the profiles of one time and their views). Both detail
  pages group their rows by the kinds of instances, with the same loop.
\<close>

subsection \<open>Rows grouped by kind\<close>

record kind_group =
  kg_key :: string
  kg_name :: string
  kg_startIndex :: nat
  kg_count :: nat

text \<open>\<open>rows k\<close> are the rows pushed for kind \<open>k\<close>.\<close>

fun kind_loop ::
    "(InstanceKind \<Rightarrow> string) \<Rightarrow> (InstanceKind \<Rightarrow> 'r list) \<Rightarrow> InstanceKind list \<Rightarrow> 'r list \<Rightarrow> kind_group list \<Rightarrow> nat \<Rightarrow>
     'r list \<times> kind_group list" where
  "kind_loop kindName rows [] newRows newGroups start = (newRows, newGroups)"
| "kind_loop kindName rows (k # ks) newRows newGroups start =
     (let newRows = newRows @ rows k
      in if 0 < int (length newRows) - int start
         then kind_loop kindName rows ks newRows
                (newGroups @ [\<lparr>kg_key = kindName k, kg_name = kindName k, kg_startIndex = start,
                               kg_count = length newRows - start\<rparr>])
                (length newRows)
         else kind_loop kindName rows ks newRows newGroups start)"

subsection \<open>Profiling of instances\<close>

datatype ViewOptions = VFlameGraph | VGraph | VDownload | VText
datatype taskState = PError | PRunning | PSuccess | PSkipped
datatype RawDataType = Protobuf | Jeprof | Text

record profiling_task =
  pt_id :: int
  pt_state :: taskState
  pt_started_at :: rat
  pt_kind :: string
  pt_display_name :: string
  pt_raw_data_type :: "RawDataType option"

record mapped_task = profiling_task +
  pt_progress :: "jsnum option"
  view_options :: "ViewOptions list option"

definition task_progress :: "rat \<Rightarrow> rat \<Rightarrow> rat \<Rightarrow> jsnum" where
  "task_progress server_time started_at duration =
     (let progress = js_div (Fin (server_time - started_at)) (Fin duration);
          progress = (if Fin (99 / 100) < progress then Fin (99 / 100) else progress)
      in if progress < 0 then 0 else progress)"

definition task_view_options :: "profiling_task \<Rightarrow> ViewOptions list option" where
  "task_view_options t =
     (case pt_raw_data_type t of
        Some Protobuf \<Rightarrow> Some [VFlameGraph, VGraph, VDownload]
      | Some Jeprof \<Rightarrow> Some [VFlameGraph, VGraph, VDownload]
      | Some Text \<Rightarrow> Some [VText]
      | None \<Rightarrow>
          (if pt_kind t \<in> {''tidb'', ''pd''} then Some [VGraph]
           else if pt_kind t \<in> {''tikv'', ''tiflash''} then Some [VFlameGraph]
           else None))"

definition mapData :: "rat \<Rightarrow> rat \<Rightarrow> profiling_task list \<Rightarrow> mapped_task list" where
  "mapData server_time duration tasks =
     map (\<lambda>t. profiling_task.extend t
       \<lparr>pt_progress = (if pt_state t = PRunning then Some (task_progress server_time (pt_started_at t) duration) else None),
        view_options = task_view_options t\<rparr>) tasks"

definition group_finished :: "int option \<Rightarrow> bool" where
  "group_finished groupState \<longleftrightarrow> groupState = Some 2 \<or> groupState = Some 3"

definition profiling_table ::
    "(InstanceKind \<Rightarrow> string) \<Rightarrow> mapped_task list \<Rightarrow> (mapped_task \<times> string) list \<times> kind_group list" where
  "profiling_table kindName tasks =
     kind_loop kindName (\<lambda>k. map (\<lambda>t. (t, kindName k)) (filter (\<lambda>t. pt_kind t = kind_str k) tasks)) InstanceKinds [] [] 0"

text \<open>Opening a result: what is asked for the token, and the address that is opened with it.\<close>

fun view_str :: "ViewOptions \<Rightarrow> string" where
  "view_str VFlameGraph = ''flamegraph''"
| "view_str VGraph = ''graph''"
| "view_str VDownload = ''download''"
| "view_str VText = ''text''"

fun action_type :: "ViewOptions \<Rightarrow> string" where
  "action_type VDownload = ''single_download''"
| "action_type _ = ''single_view''"

definition view_url :: "string \<Rightarrow> string \<Rightarrow> string" where
  "view_url apiPathBase token = apiPathBase @ ''/profiling/single/view?token='' @ token"

definition speedscope_url :: "string \<Rightarrow> string \<Rightarrow> string \<Rightarrow> string" where
  "speedscope_url publicPathBase profileURL title =
     publicPathBase @ ''/speedscope/#profileURL='' @ encodeURIComponent profileURL @ ''&title='' @ title"

definition openResult :: "string \<Rightarrow> string \<Rightarrow> ViewOptions \<Rightarrow> profiling_task \<Rightarrow> string \<Rightarrow> string option" where
  "openResult apiPathBase publicPathBase openAs rec token =
     (if token = [] then None
      else Some (case openAs of
        VDownload \<Rightarrow> apiPathBase @ ''/profiling/single/download?token='' @ token
      | VFlameGraph \<Rightarrow>
          speedscope_url publicPathBase
            (view_url apiPathBase token @ ''&output_type='' @ (if pt_raw_data_type rec = Some Protobuf then ''protobuf'' else ''text''))
            (pt_kind rec @ ''_'' @ pt_display_name rec)
      | _ \<Rightarrow> view_url apiPathBase token @ ''&output_type='' @ view_str openAs))"

subsection \<open>Starting a profile\<close>

definition profilingTypeOptions :: "string list" where
  "profilingTypeOptions = [''CPU'', ''Heap'', ''Goroutine'', ''Mutex'']"

definition profile_port :: "log_instance \<Rightarrow> int option" where
  "profile_port i =
     (if instanceKind i \<in> {PD, TSO, SCHEDULING} then Some (port i) else rest i)"

definition profile_target :: "log_instance \<Rightarrow> target_node option" where
  "profile_target i =
     map_option (\<lambda>p. \<lparr>t_kind = kind_str (instanceKind i), t_display_name = item_key i, t_ip = ip i, t_port = p\<rparr>)
       (profile_port i)"

record start_request =
  sr_targets :: "target_node list"
  duration_secs :: nat
  requsted_profiling_types :: "string list"

datatype start_outcome = StartMissing | StartNotReady | StartUnknown | Start start_request

definition handleFinish ::
    "bool \<Rightarrow> log_instance list \<Rightarrow> key list option \<Rightarrow> nat \<Rightarrow> string list option \<Rightarrow> start_outcome" where
  "handleFinish ready items instances duration types =
     (if or_empty instances = [] then StartMissing
      else if \<not> ready then StartNotReady
      else (let found = getInstanceByKeys items (or_empty instances)
            in if None \<in> set found then StartUnknown
               else Start
                 \<lparr>sr_targets = List.map_filter profile_target (map the found), duration_secs = duration,
                  requsted_profiling_types =
                    map toLowerCase (if or_empty types = [] then profilingTypeOptions else or_empty types)\<rparr>))"

text \<open>The text for the targets of a profile: \<open>stats\<close> are the entries of the statistics.\<close>

definition targetNameMap :: "(InstanceKind \<Rightarrow> string) \<Rightarrow> string \<rightharpoonup> string" where
  "targetNameMap kindName = map_of (map (\<lambda>k. (''num_'' @ kind_str k @ ''_nodes'', kindName k)) InstanceKinds)"

definition combineTargetStats :: "(InstanceKind \<Rightarrow> string) \<Rightarrow> (string \<times> nat) list \<Rightarrow> string" where
  "combineTargetStats kindName stats =
     join '', '' (List.map_filter (\<lambda>(k, n). case targetNameMap kindName k of
        Some name \<Rightarrow> if name \<noteq> [] then Some (show_nat n @ '' '' @ name) else None | None \<Rightarrow> None) stats)"

subsection \<open>Continuous profiling\<close>

datatype conprof_action = VIEW_FLAMEGRAPH | VIEW_GRAPH | VIEW_TEXT | DOWNLOAD

record conprof_profile =
  pf_component :: string
  pf_address :: string
  pf_profile_type :: string
  pf_state :: string

definition profileTypeSortOrder :: "string \<Rightarrow> int" where
  "profileTypeSortOrder t =
     (if t = ''profile'' then 1 else if t = ''heap'' then 2 else if t = ''goroutine'' then 3
      else if t = ''mutex'' then 4 else 0)"

definition profile_cmp :: "conprof_profile \<Rightarrow> conprof_profile \<Rightarrow> jsnum" where
  "profile_cmp a b =
     (if pf_component b < pf_component a then 1
      else js_int (profileTypeSortOrder (pf_profile_type a) - profileTypeSortOrder (pf_profile_type b)))"

definition conprof_table ::
    "(InstanceKind \<Rightarrow> string) \<Rightarrow> conprof_profile list \<Rightarrow> conprof_profile list \<times> kind_group list" where
  "conprof_table kindName profiles =
     kind_loop kindName (\<lambda>k. filter (\<lambda>p. pf_component p = kind_str k) (js_sort profile_cmp profiles)) InstanceKinds [] [] 0"

definition dataFormat :: "conprof_action \<Rightarrow> conprof_profile \<Rightarrow> string" where
  "dataFormat action rec =
     (if pf_component rec \<in> {''tikv'', ''tiflash''} \<and> pf_profile_type rec = ''heap'' then
        (case action of
           VIEW_FLAMEGRAPH \<Rightarrow> ''text'' | VIEW_GRAPH \<Rightarrow> ''svg'' | DOWNLOAD \<Rightarrow> ''jeprof'' | _ \<Rightarrow> [])
      else
        (case action of
           VIEW_GRAPH \<Rightarrow> ''svg'' | VIEW_TEXT \<Rightarrow> ''text'' | VIEW_FLAMEGRAPH \<Rightarrow> ''protobuf'' | DOWNLOAD \<Rightarrow> ''protobuf''))"

definition token_query :: "string \<Rightarrow> conprof_action \<Rightarrow> conprof_profile \<Rightarrow> string" where
  "token_query ts action rec =
     ''ts='' @ ts @ ''&profile_type='' @ pf_profile_type rec @ ''&component='' @ pf_component rec @
     ''&address='' @ pf_address rec @ ''&data_format='' @ dataFormat action rec"

definition conprof_view :: "string \<Rightarrow> string \<Rightarrow> string" where
  "conprof_view apiPathBase token = apiPathBase @ ''/continuous_profiling/single_profile/view?token='' @ token"

definition conprof_open :: "string \<Rightarrow> string \<Rightarrow> conprof_action \<Rightarrow> conprof_profile \<Rightarrow> string \<Rightarrow> string option" where
  "conprof_open apiPathBase publicPathBase action rec token =
     (if token = [] then None
      else Some (case action of
        VIEW_FLAMEGRAPH \<Rightarrow>
          speedscope_url publicPathBase (conprof_view apiPathBase token @ ''&output_type='' @ dataFormat action rec)
            (pf_component rec @ ''_'' @ pf_address rec @ ''_'' @ pf_profile_type rec)
      | DOWNLOAD \<Rightarrow> apiPathBase @ ''/continuous_profiling/download?token='' @ token
      | _ \<Rightarrow> conprof_view apiPathBase token))"

definition actionsKey :: "bool \<Rightarrow> bool \<Rightarrow> conprof_profile \<Rightarrow> conprof_action list" where
  "actionsKey enablePreviewGoroutine enableDotGraph rec =
     (if pf_state rec \<noteq> ''finished'' \<and> pf_state rec \<noteq> ''success'' then []
      else if pf_profile_type rec = ''goroutine'' then (if enablePreviewGoroutine then [VIEW_TEXT] else [DOWNLOAD])
      else if enableDotGraph then [VIEW_FLAMEGRAPH, VIEW_GRAPH, DOWNLOAD] else [VIEW_FLAMEGRAPH, DOWNLOAD])"

text \<open>The end of the window of the list in the address, as a Unix time, and the window that is asked for.\<close>

definition conprof_endTime :: "TimeRange \<Rightarrow> string" where
  "conprof_endTime tr = (case tr of Recent _ \<Rightarrow> [] | Absolute a b \<Rightarrow> show_num b)"

definition setEndTime :: "int \<Rightarrow> int option \<Rightarrow> TimeRange" where
  "setEndTime durationHour v =
     (case v of
        None \<Rightarrow> Recent (js_int (durationHour * 60 * 60))
      | Some endUnix \<Rightarrow> Absolute (js_int (endUnix - durationHour * 60 * 60)) (js_int endUnix))"

text \<open>The outer \<^const>\<open>None\<close> is \<open>undefined\<close>, the inner one an invalid date.\<close>

definition rangeEndTime :: "string \<Rightarrow> int option option" where
  "rangeEndTime endTime = (if endTime = [] then None else Some (parseInt endTime))"

definition conprof_window :: "int \<Rightarrow> int \<Rightarrow> TimeRange \<Rightarrow> (int \<times> int) option" where
  "conprof_window now durationHour tr =
     map_option (\<lambda>e. (e - durationHour * 3600, e))
       (case rangeEndTime (conprof_endTime tr) of None \<Rightarrow> Some now | Some e \<Rightarrow> e)"

subsection \<open>Properties\<close>

definition kind_group_ok :: "(InstanceKind \<Rightarrow> 'r list) \<Rightarrow> (InstanceKind \<Rightarrow> string) \<Rightarrow> 'r list \<Rightarrow> InstanceKind \<Rightarrow> kind_group \<Rightarrow> bool" where
  "kind_group_ok rows kindName table k g \<longleftrightarrow>
     kg_name g = kindName k \<and> 0 < kg_count g \<and> kg_startIndex g + kg_count g \<le> length table \<and>
     take (kg_count g) (drop (kg_startIndex g) table) = rows k"

lemma kind_group_ok_append: "kind_group_ok rows kindName td k g \<Longrightarrow> kind_group_ok rows kindName (td @ xs) k g"
  by (auto simp: kind_group_ok_def)

lemma kind_loop_groups:
  "list_all2 (kind_group_ok rows kindName td) ks0 gd \<Longrightarrow>
     fst (kind_loop kindName rows ks td gd (length td)) = td @ concat (map rows ks) \<and>
     list_all2 (kind_group_ok rows kindName (td @ concat (map rows ks))) (ks0 @ filter (\<lambda>k. rows k \<noteq> []) ks)
       (snd (kind_loop kindName rows ks td gd (length td)))"
proof (induction ks arbitrary: td gd ks0)
  case Nil
  then show ?case by simp
next
  case (Cons k ks)
  show ?case
  proof (cases "rows k = []")
    case True
    then show ?thesis using Cons by (simp add: Let_def)
  next
    case False
    let ?td = "td @ rows k"
    let ?g = "\<lparr>kg_key = kindName k, kg_name = kindName k, kg_startIndex = length td, kg_count = length ?td - length td\<rparr>"
    have "list_all2 (kind_group_ok rows kindName ?td) (ks0 @ [k]) (gd @ [?g])"
      using Cons.prems False
      by (auto simp: list_all2_append list_all2_lengthD kind_group_ok_def [of _ _ _ k] elim!: list_all2_mono intro: kind_group_ok_append)
    from Cons.IH [OF this] False show ?thesis
      by (simp add: Let_def del: length_append) simp
  qed
qed

lemma mset_by_component:
  assumes "distinct iks"
  shows "mset (concat (map (\<lambda>ik. filter (\<lambda>x. f x = kind_str ik) xs) iks)) =
    filter_mset (\<lambda>x. f x \<in> kind_str ` set iks) (mset xs)"
  using assms
proof (induction iks)
  case (Cons ik iks)
  have "\<not> (f x = kind_str ik \<and> f x \<in> kind_str ` set iks)" for x
    using Cons.prems by (auto simp: kind_str_inj)
  then have "filter_mset (\<lambda>x. f x = kind_str ik) M + filter_mset (\<lambda>x. f x \<in> kind_str ` set iks) M =
      filter_mset (\<lambda>x. f x = kind_str ik \<or> f x \<in> kind_str ` set iks) M" for M
    by (induction M) auto
  then show ?case
    using Cons by simp
qed simp

text \<open>
  The tables of the two detail pages. Their rows are all tasks, or all profiles, of a known kind, each once, kind
  after kind; there is one group for each kind that has rows, in the order of the kinds, with the name of the kind and the
  slice of exactly its rows.
\<close>

theorem profiling_tables_grouped:
  fixes tasks :: "mapped_task list" and profiles :: "conprof_profile list" and kindName :: "InstanceKind \<Rightarrow> string"
  defines "trows \<equiv> \<lambda>k. map (\<lambda>t. (t, kindName k)) (filter (\<lambda>t. pt_kind t = kind_str k) tasks)"
  defines "prows \<equiv> \<lambda>k. filter (\<lambda>p. pf_component p = kind_str k) (js_sort profile_cmp profiles)"
  shows "list_all2 (kind_group_ok trows kindName (fst (profiling_table kindName tasks)))
      (filter (\<lambda>k. trows k \<noteq> []) InstanceKinds) (snd (profiling_table kindName tasks)) \<and>
    mset (map fst (fst (profiling_table kindName tasks))) =
      filter_mset (\<lambda>t. pt_kind t \<in> kind_str ` set InstanceKinds) (mset tasks) \<and>
    list_all2 (kind_group_ok prows kindName (fst (conprof_table kindName profiles)))
      (filter (\<lambda>k. prows k \<noteq> []) InstanceKinds) (snd (conprof_table kindName profiles)) \<and>
    mset (fst (conprof_table kindName profiles)) =
      filter_mset (\<lambda>p. pf_component p \<in> kind_str ` set InstanceKinds) (mset profiles)"
proof -
  have t: "profiling_table kindName tasks = kind_loop kindName trows InstanceKinds [] [] 0"
    by (simp add: profiling_table_def trows_def)
  have p: "conprof_table kindName profiles = kind_loop kindName prows InstanceKinds [] [] 0"
    by (simp add: conprof_table_def prows_def)
  note loop = kind_loop_groups [where td = "[]" and gd = "[]" and ?ks0.0 = "[]" and kindName = kindName and ks = InstanceKinds,
      simplified]
  have "map fst (concat (map trows InstanceKinds)) = concat (map (\<lambda>k. filter (\<lambda>t. pt_kind t = kind_str k) tasks) InstanceKinds)"
    by (simp add: map_concat trows_def comp_def)
  moreover have "mset (concat (map prows InstanceKinds)) =
      filter_mset (\<lambda>p. pf_component p \<in> kind_str ` set InstanceKinds) (mset profiles)"
    using mset_by_component [OF distinct_kinds, of pf_component "js_sort profile_cmp profiles"] by (simp add: prows_def)
  ultimately show ?thesis
    unfolding t p using loop [of trows] loop [of prows] mset_by_component [OF distinct_kinds, of pt_kind tasks] by simp
qed

text \<open>
  The progress of a running task is a number between 0 and 0.99, whatever the clocks of the servers say, unless
  neither time has passed nor is there a duration.
\<close>

theorem profiling_progress_bounds:
  assumes "duration \<noteq> 0 \<or> server_time \<noteq> started_at"
  shows "\<exists>q. task_progress server_time started_at duration = Fin q \<and> 0 \<le> q \<and> q \<le> 99 / 100"
proof (cases "duration = 0")
  case True
  then have "task_progress server_time started_at duration =
      (if 0 < server_time - started_at then Fin (99 / 100) else 0)"
    using assms by (auto simp: task_progress_def Let_def zero_jsnum_def sign_inf_def)
  then show ?thesis
    by (intro exI [of _ "if 0 < server_time - started_at then 99 / 100 else 0"]) (simp add: zero_jsnum_def)
next
  case False
  let ?q = "(server_time - started_at) / duration"
  let ?r = "if 99 / 100 < ?q then 99 / 100 else if ?q < 0 then 0 else ?q"
  have "task_progress server_time started_at duration = Fin ?r"
    using False by (simp add: task_progress_def Let_def zero_jsnum_def)
  moreover have "0 \<le> ?r" and "?r \<le> 99 / 100"
    by auto
  ultimately show ?thesis
    by blast
qed

theorem profiling_progress_bounds_witness:
  "\<exists>q. task_progress 10 20 30 = Fin q \<and> 0 \<le> q \<and> q \<le> 99 / 100"
  by (rule profiling_progress_bounds) simp

lemma progress_undefined: "task_progress s s 0 = NaN"
  by (simp add: task_progress_def zero_jsnum_def sign_inf_def)

text \<open>
  The address of a flame graph carries the address of the profile: between the two fixed texts stands a part without
  \<open>&\<close> that decodes to the address with its output type, for both kinds of profiling and any token.
\<close>

theorem flamegraph_link_roundtrip:
  assumes "token \<noteq> []"
  shows "(\<exists>enc title. openResult api pub VFlameGraph rec token = Some (pub @ ''/speedscope/#profileURL='' @ enc @ ''&title='' @ title) \<and>
      CHR ''&'' \<notin> set enc \<and>
      decodeURIComponent enc = Some (view_url api token @ ''&output_type='' @
        (if pt_raw_data_type rec = Some Protobuf then ''protobuf'' else ''text''))) \<and>
    (\<exists>enc title. conprof_open api pub VIEW_FLAMEGRAPH p token = Some (pub @ ''/speedscope/#profileURL='' @ enc @ ''&title='' @ title) \<and>
      CHR ''&'' \<notin> set enc \<and>
      decodeURIComponent enc = Some (conprof_view api token @ ''&output_type='' @ dataFormat VIEW_FLAMEGRAPH p))"
proof -
  have amp: "CHR ''&'' \<notin> set (encodeURIComponent s)" for s
    using encodeURIComponent_chars [of "CHR ''&''" s] by (auto simp: uri_unreserved_def is_alnum_def is_digit_def code_def)
  show ?thesis
    using assms amp by (fastforce simp: openResult_def conprof_open_def speedscope_url_def)
qed

theorem flamegraph_link_roundtrip_witness:
  "\<exists>enc title. conprof_open ''/api'' ''/pub'' VIEW_FLAMEGRAPH
      \<lparr>pf_component = ''tikv'', pf_address = ''a:1'', pf_profile_type = ''heap'', pf_state = ''finished''\<rparr> ''a/b'' =
    Some (''/pub'' @ ''/speedscope/#profileURL='' @ enc @ ''&title='' @ title) \<and>
    decodeURIComponent enc = Some ''/api/continuous_profiling/single_profile/view?token=a/b&output_type=text''"
  using flamegraph_link_roundtrip [of "''a/b''" "''/api''" "''/pub''" undefined
      "\<lparr>pf_component = ''tikv'', pf_address = ''a:1'', pf_profile_type = ''heap'', pf_state = ''finished''\<rparr>"]
  by (auto simp: conprof_view_def dataFormat_def)

text \<open>Every action that is offered has a format of its data.\<close>

lemma actions_have_format: "a \<in> set (actionsKey g d rec) \<Longrightarrow> dataFormat a rec \<noteq> []"
  by (auto simp: actionsKey_def dataFormat_def split: if_splits)

text \<open>The window set with the form is the one that is asked for.\<close>

lemma conprof_window_set:
  "conprof_window now d (setEndTime d (Some e)) = Some (e - d * 3600, e)"
  "conprof_window now d (setEndTime d None) = Some (now - d * 3600, now)"
  by (simp_all add: conprof_window_def rangeEndTime_def conprof_endTime_def setEndTime_def)

text \<open>The comparator of the profiles puts each of two profiles after the other.\<close>

lemma profile_cmp_inconsistent:
  fixes a b :: conprof_profile
  defines "a \<equiv> \<lparr>pf_component = ''tidb'', pf_address = [], pf_profile_type = ''profile'', pf_state = []\<rparr>"
    and "b \<equiv> \<lparr>pf_component = ''pd'', pf_address = [], pf_profile_type = ''mutex'', pf_state = []\<rparr>"
  shows "0 < profile_cmp a b" and "0 < profile_cmp b a"
  unfolding assms by code_simp+

end
