(* ===== verification/KeyVizPage.thy ===== *)
theory KeyVizPage
  imports HeatmapChart
begin

text \<open>
  The page of the key visualizer around the chart: \<open>apps/KeyViz/components/KeyViz.tsx\<close> with the guards of
  \<open>KeyVizToolbar.tsx\<close>, \<open>utils/api.ts\<close>, the mounting of the chart (\<open>heatmap/index.tsx\<close>) and the form of the settings
  (\<open>KeyVizSettingForm.tsx\<close>). The chart is the one of \<open>HeatmapChart\<close>. Requests are numbered in the order they are sent
  and answered in any order; objects that effects compare by identity carry a number.
\<close>

subsection \<open>Fetching\<close>

record heatmap_answer = heatmap_data +
  hm_values :: "(DataTag \<times> rat list list) list"

definition reverse_heatmap :: "heatmap_answer \<Rightarrow> heatmap_answer" where
  "reverse_heatmap a =
     a\<lparr>keyAxis := rev (keyAxis a), hm_values := map (\<lambda>(tag, d). (tag, map rev d)) (hm_values a)\<rparr>"

record heatmap_query =
  q_startkey :: "string option"
  q_endkey :: "string option"
  q_starttime :: "int option"
  q_endtime :: "int option"

text \<open>\<open>now\<close> is the clock in milliseconds.\<close>

definition fetch_query :: "rat \<Rightarrow> HeatmapRange option \<Rightarrow> int \<Rightarrow> heatmap_query" where
  "fetch_query now selection dateRange =
     (case selection of
        None \<Rightarrow>
          (let endTime = \<lceil>now / 1000\<rceil>
           in \<lparr>q_startkey = None, q_endkey = None, q_starttime = Some (endTime - dateRange), q_endtime = Some endTime\<rparr>)
      | Some r \<Rightarrow>
          \<lparr>q_startkey = Some (startkey r), q_endkey = Some (endkey r), q_starttime = starttime r, q_endtime = endtime r\<rparr>)"

subsection \<open>The state of the page\<close>

record keyviz_config =
  auto_collection_disabled :: "bool option"
  policy :: "string option"
  policy_kv_separator :: "string option"

record 'tr kv_page =
  kv_chartState :: "(nat \<times> heatmap_answer \<times> DataTag) option"
  kv_selection :: "(nat \<times> HeatmapRange) option"
  kv_isLoading :: bool
  kv_autoRefresh :: int
  kv_onBrush :: bool
  kv_dateRange :: int
  kv_brightLevel :: rat
  kv_metricType :: DataTag
  kv_config :: "(nat \<times> keyviz_config) option"
  kv_showSettings :: bool
  kv_chart :: "(heatmap_answer \<times> 'tr chart) option"
  kv_mounted :: "nat option"
  kv_box :: "rat \<times> rat"
  kv_fresh :: nat
  sent :: "(heatmap_query \<times> DataTag) list"
  waiting :: "nat list"
  config_waiting :: nat

definition kv_enabled :: "'tr kv_page \<Rightarrow> bool" where
  "kv_enabled s \<longleftrightarrow> (case kv_config s of None \<Rightarrow> True | Some (_, c) \<Rightarrow> auto_collection_disabled c \<noteq> Some True)"

definition init_page :: "rat \<times> rat \<Rightarrow> 'tr kv_page" where
  "init_page box =
     \<lparr>kv_chartState = None, kv_selection = None, kv_isLoading = True, kv_autoRefresh = 0, kv_onBrush = False,
      kv_dateRange = 3600 * 6, kv_brightLevel = 1, kv_metricType = WrittenBytes, kv_config = None, kv_showSettings = False,
      kv_chart = None, kv_mounted = None, kv_box = box, kv_fresh = 0, sent = [], waiting = [], config_waiting = 0\<rparr>"

definition updateServiceStatus :: "bool option \<Rightarrow> 'tr kv_page \<Rightarrow> 'tr kv_page" where
  "updateServiceStatus showSetting s =
     (if showSetting = Some False then s else s\<lparr>kv_isLoading := True, config_waiting := Suc (config_waiting s)\<rparr>)"

definition config_answered :: "keyviz_config option \<Rightarrow> 'tr kv_page \<Rightarrow> 'tr kv_page" where
  "config_answered res s =
     (if config_waiting s = 0 then s
      else (let s = s\<lparr>config_waiting := config_waiting s - 1\<rparr>;
                s = (case res of None \<Rightarrow> s
                     | Some c \<Rightarrow> s\<lparr>kv_config := Some (kv_fresh s, c), kv_fresh := Suc (kv_fresh s)\<rparr>)
            in s\<lparr>kv_isLoading := False\<rparr>))"

definition updateHeatmap :: "rat \<Rightarrow> 'tr kv_page \<Rightarrow> 'tr kv_page" where
  "updateHeatmap now s =
     s\<lparr>kv_isLoading := True, kv_onBrush := False, waiting := waiting s @ [length (sent s)],
       sent := sent s @ [(fetch_query now (map_option snd (kv_selection s)) (kv_dateRange s), kv_metricType s)]\<rparr>"

definition heatmap_answered :: "nat \<Rightarrow> heatmap_answer option \<Rightarrow> 'tr kv_page \<Rightarrow> 'tr kv_page" where
  "heatmap_answered n res s =
     (if n \<notin> set (waiting s) then s
      else (let s = s\<lparr>waiting := remove1 n (waiting s)\<rparr>;
                s = (case res of None \<Rightarrow> s
                     | Some a \<Rightarrow> s\<lparr>kv_chartState := Some (n, reverse_heatmap a, snd (sent s ! n))\<rparr>)
            in s\<lparr>kv_isLoading := False\<rparr>))"

subsection \<open>Handlers\<close>

abbreviation chart_of :: "'tr d3 \<Rightarrow> 'tr chart_event \<Rightarrow> heatmap_answer \<times> 'tr chart \<Rightarrow> heatmap_answer \<times> 'tr chart" where
  "chart_of D e \<equiv> \<lambda>(a, c). (a, chart_step D (heatmap_data.truncate a) e c)"

definition onChangeBrightLevel :: "'tr d3 \<Rightarrow> rat \<Rightarrow> 'tr kv_page \<Rightarrow> 'tr kv_page" where
  "onChangeBrightLevel D val s =
     (case kv_chart s of None \<Rightarrow> s
      | Some ac \<Rightarrow> s\<lparr>kv_brightLevel := val, kv_chart := Some (chart_of D (SetBrightness val) ac)\<rparr>)"

definition onChangeDateRange :: "int \<Rightarrow> 'tr kv_page \<Rightarrow> 'tr kv_page" where
  "onChangeDateRange v s = s\<lparr>kv_dateRange := v, kv_selection := None\<rparr>"

definition onResetZoom :: "'tr kv_page \<Rightarrow> 'tr kv_page" where
  "onResetZoom s = s\<lparr>kv_selection := None\<rparr>"

text \<open>Without a chart the call of its method throws, after the cells are set.\<close>

definition onToggleBrush :: "'tr d3 \<Rightarrow> 'tr kv_page \<Rightarrow> 'tr kv_page" where
  "onToggleBrush D s =
     (let newOnBrush = (\<not> kv_onBrush s)
      in s\<lparr>kv_autoRefresh := 0, kv_onBrush := newOnBrush,
           kv_chart := map_option (chart_of D (SetBrush newOnBrush)) (kv_chart s)\<rparr>)"

definition onBrush :: "HeatmapRange \<Rightarrow> 'tr kv_page \<Rightarrow> 'tr kv_page" where
  "onBrush selection s =
     s\<lparr>kv_onBrush := False, kv_autoRefresh := 0, kv_selection := Some (kv_fresh s, selection),
       kv_fresh := Suc (kv_fresh s)\<rparr>"

definition onZoom :: "'tr kv_page \<Rightarrow> 'tr kv_page" where
  "onZoom s = s\<lparr>kv_autoRefresh := 0\<rparr>"

definition onChartInit :: "'tr d3 \<Rightarrow> heatmap_answer \<Rightarrow> 'tr chart \<Rightarrow> 'tr kv_page \<Rightarrow> 'tr kv_page" where
  "onChartInit D a c s =
     s\<lparr>kv_chart := Some (chart_of D (SetBrightness (kv_brightLevel s)) (a, c)), kv_isLoading := False\<rparr>"

definition updateChartSize :: "'tr d3 \<Rightarrow> 'tr kv_page \<Rightarrow> 'tr kv_page" where
  "updateChartSize D s =
     (if kv_mounted s = None then s
      else s\<lparr>kv_chart := map_option (chart_of D (Size (fst (kv_box s)) (snd (kv_box s)))) (kv_chart s)\<rparr>)"

subsection \<open>Effects\<close>

definition auto_effect :: "'tr kv_page \<Rightarrow> 'tr kv_page \<Rightarrow> 'tr kv_page" where
  "auto_effect old s =
     (if kv_autoRefresh s \<noteq> kv_autoRefresh old \<and> 0 < kv_autoRefresh s
      then (onResetZoom s)\<lparr>kv_onBrush := False\<rparr> else s)"

definition data_deps :: "'tr kv_page \<Rightarrow> nat option \<times> nat option \<times> int \<times> DataTag" where
  "data_deps s = (map_option fst (kv_config s), map_option fst (kv_selection s), kv_dateRange s, kv_metricType s)"

definition data_effect :: "rat \<Rightarrow> 'tr kv_page \<Rightarrow> 'tr kv_page \<Rightarrow> 'tr kv_page" where
  "data_effect now old s =
     (if data_deps s \<noteq> data_deps old \<and> kv_enabled s then updateHeatmap now s else s)"

text \<open>
  The heatmap is mounted when collection is enabled and there is data, and makes a new chart for new data; making it
  throws when the data has no values for the metric.
\<close>

definition heatmap_effect :: "'tr d3 \<Rightarrow> 'tr kv_page \<Rightarrow> 'tr kv_page" where
  "heatmap_effect D s =
     (case kv_chartState s of
        None \<Rightarrow> s\<lparr>kv_mounted := None\<rparr>
      | Some (n, a, m) \<Rightarrow>
          if \<not> kv_enabled s then s\<lparr>kv_mounted := None\<rparr>
          else if kv_mounted s = Some n then s
          else if map_of (hm_values a) m = None then s\<lparr>kv_mounted := Some n\<rparr>
          else updateChartSize D (onChartInit D a (init_chart D) (s\<lparr>kv_mounted := Some n\<rparr>)))"

definition settle_page :: "'tr d3 \<Rightarrow> rat \<Rightarrow> 'tr kv_page \<Rightarrow> 'tr kv_page \<Rightarrow> 'tr kv_page" where
  "settle_page D now old s = heatmap_effect D (data_effect now old (auto_effect old s))"

subsection \<open>Events\<close>

text \<open>What the user can do on the chart: brushing needs the brush, and the methods of the chart are for the page.\<close>

fun user_event :: "'tr chart \<Rightarrow> 'tr chart_event \<Rightarrow> bool" where
  "user_event c (SetBrightness b) = False"
| "user_event c (SetBrush b) = False"
| "user_event c ResetZoom = False"
| "user_event c (Size w h) = False"
| "user_event c BrushStart = isBrushing c"
| "user_event c (Brushing sel) = isBrushing c"
| "user_event c (BrushEnd sel m) = isBrushing c"
| "user_event c e = True"

definition on_chart_event :: "'tr d3 \<Rightarrow> 'tr chart_event \<Rightarrow> 'tr kv_page \<Rightarrow> 'tr kv_page" where
  "on_chart_event D e s =
     (case kv_chart s of
        None \<Rightarrow> s
      | Some (a, c) \<Rightarrow>
          if kv_mounted s = None \<or> \<not> user_event c e then s
          else (let s' = s\<lparr>kv_chart := Some (chart_of D e (a, c))\<rparr>
                in case e of
                     ZoomBy _ _ _ \<Rightarrow> onZoom s'
                   | BrushEnd sel m \<Rightarrow>
                       (case fst (brushEnd D (heatmap_data.truncate a) sel m c) of
                          Brushed r \<Rightarrow> onBrush r s' | _ \<Rightarrow> s')
                   | _ \<Rightarrow> s'))"

datatype 'tr page_event =
    ToggleBrush
  | ResetZoomClick
  | SelectDateRange int
  | SelectMetric DataTag
  | Bright rat
  | AutoRefresh int
  | Refresh
  | ShowSettings
  | CloseSettings
  | ConfigUpdated
  | ConfigAnswer "keyviz_config option"
  | HeatmapAnswer nat "heatmap_answer option"
  | ChartEvent "'tr chart_event"
  | Resize rat rat

fun handle_page :: "'tr d3 \<Rightarrow> bool option \<Rightarrow> rat \<Rightarrow> 'tr page_event \<Rightarrow> 'tr kv_page \<Rightarrow> 'tr kv_page" where
  "handle_page D sh now ToggleBrush s = (if kv_enabled s then onToggleBrush D s else s)"
| "handle_page D sh now ResetZoomClick s = (if kv_enabled s then onResetZoom s else s)"
| "handle_page D sh now (SelectDateRange v) s = (if kv_enabled s then onChangeDateRange v s else s)"
| "handle_page D sh now (SelectMetric m) s = (if kv_enabled s then s\<lparr>kv_metricType := m\<rparr> else s)"
| "handle_page D sh now (Bright val) s = (if kv_enabled s then onChangeBrightLevel D val s else s)"
| "handle_page D sh now (AutoRefresh v) s = (if kv_enabled s \<and> \<not> kv_isLoading s then s\<lparr>kv_autoRefresh := v\<rparr> else s)"
| "handle_page D sh now Refresh s = (if kv_enabled s \<and> \<not> kv_isLoading s then updateHeatmap now s else s)"
| "handle_page D sh now ShowSettings s = s\<lparr>kv_showSettings := True\<rparr>"
| "handle_page D sh now CloseSettings s = s\<lparr>kv_showSettings := False\<rparr>"
| "handle_page D sh now ConfigUpdated s = updateServiceStatus sh s"
| "handle_page D sh now (ConfigAnswer res) s = config_answered res s"
| "handle_page D sh now (HeatmapAnswer n res) s = heatmap_answered n res s"
| "handle_page D sh now (ChartEvent e) s = on_chart_event D e s"
| "handle_page D sh now (Resize w h) s = updateChartSize D (s\<lparr>kv_box := (w, h)\<rparr>)"

definition page_step :: "'tr d3 \<Rightarrow> bool option \<Rightarrow> rat \<times> 'tr page_event \<Rightarrow> 'tr kv_page \<Rightarrow> 'tr kv_page" where
  "page_step D showSetting ev s = settle_page D (fst ev) s (handle_page D showSetting (fst ev) (snd ev) s)"

definition mount_page :: "bool option \<Rightarrow> rat \<Rightarrow> rat \<times> rat \<Rightarrow> 'tr kv_page" where
  "mount_page showSetting now box = updateHeatmap now (updateServiceStatus showSetting (init_page box))"

subsection \<open>The form of the settings\<close>

record keyviz_form =
  fm_auto_collection_disabled :: "bool option"
  fm_policy :: "string option"
  fm_separator :: "string option"

datatype separator_status = Sep_warning | Sep_success

definition separatorValidator :: "string option \<Rightarrow> separator_status" where
  "separatorValidator value = (if value = None \<or> value = Some [] then Sep_warning else Sep_success)"

text \<open>One field is changed at a time: \<open>changed\<close> holds only that field.\<close>

definition form_change :: "keyviz_form \<Rightarrow> keyviz_form \<Rightarrow> keyviz_form" where
  "form_change changed f =
     \<lparr>fm_auto_collection_disabled = (case fm_auto_collection_disabled changed of None \<Rightarrow> fm_auto_collection_disabled f | v \<Rightarrow> v),
      fm_policy = (case fm_policy changed of None \<Rightarrow> fm_policy f | v \<Rightarrow> v),
      fm_separator = (case fm_separator changed of None \<Rightarrow> fm_separator f | v \<Rightarrow> v)\<rparr>"

definition onValuesChange :: "keyviz_config \<Rightarrow> keyviz_form \<Rightarrow> keyviz_form \<Rightarrow> keyviz_form" where
  "onValuesChange config changed values =
     (let f = values;
          f = (if fm_auto_collection_disabled changed \<noteq> Some True \<and> fm_policy values \<in> {None, Some []}
               then f\<lparr>fm_policy := Some ''db''\<rparr> else f)
      in if policy config \<noteq> Some ''kv'' \<and> fm_policy changed = Some ''kv'' \<and> fm_separator values \<in> {None, Some []}
         then f\<lparr>fm_separator := Some ''/''\<rparr> else f)"

datatype settings_submit = AskConfirm keyviz_form | PutConfig keyviz_form

definition keyviz_onSubmit :: "keyviz_config \<Rightarrow> keyviz_form \<Rightarrow> settings_submit" where
  "keyviz_onSubmit config values =
     (if auto_collection_disabled config \<noteq> Some True \<and> fm_auto_collection_disabled values = Some True
      then AskConfirm values else PutConfig values)"

subsection \<open>The invariant\<close>

text \<open>\<open>latest_for_controls\<close>: the last request sent is one for the selection, range and metric of the page.\<close>

definition latest_for_controls :: "'tr kv_page \<Rightarrow> bool" where
  "latest_for_controls s \<longleftrightarrow>
     sent s \<noteq> [] \<and>
     (\<exists>now. last (sent s) = (fetch_query now (map_option snd (kv_selection s)) (kv_dateRange s), kv_metricType s))"

definition page_inv :: "'tr kv_page \<Rightarrow> bool" where
  "page_inv s \<longleftrightarrow>
     (0 < kv_autoRefresh s \<longrightarrow> kv_selection s = None \<and> \<not> kv_onBrush s) \<and>
     (\<forall>a c. kv_chart s = Some (a, c) \<longrightarrow> brightness c = kv_brightLevel s) \<and>
     (kv_enabled s \<longrightarrow> latest_for_controls s) \<and>
     (\<forall>n a m. kv_chartState s = Some (n, a, m) \<longrightarrow> n < length (sent s) \<and> snd (sent s ! n) = m) \<and>
     set (waiting s) \<subseteq> {..<length (sent s)} \<and>
     (kv_isLoading s \<longrightarrow> waiting s \<noteq> [] \<or> config_waiting s \<noteq> 0) \<and>
     (\<forall>n c. kv_config s = Some (n, c) \<longrightarrow> n < kv_fresh s) \<and>
     (\<forall>n r. kv_selection s = Some (n, r) \<longrightarrow> n < kv_fresh s)"

lemmas page_handlers = updateServiceStatus_def config_answered_def heatmap_answered_def onChangeBrightLevel_def
  onChangeDateRange_def onResetZoom_def onToggleBrush_def onBrush_def onZoom_def updateChartSize_def on_chart_event_def

lemma brightness_user_event: "user_event c e \<Longrightarrow> brightness (chart_step D d e c) = brightness c"
  by (cases e) (auto simp: zooming_def zoomEnd_def showTooltips_def hideTooltips_def mouseout_def clicked_def brushing_def
      brushEnd_def focusPoint_def Let_def split: option.split prod.split if_splits)

lemma brightness_size: "brightness (chart_step D d (Size w h) c) = brightness c"
  by (simp add: chart_size_def Let_def)

text \<open>
  What a handler keeps before the effects have run: everything but the two clauses that the effects restore after a change
  of the auto refresh or of the inputs of the request.
\<close>

definition mid_inv :: "'tr kv_page \<Rightarrow> 'tr kv_page \<Rightarrow> bool" where
  "mid_inv old s \<longleftrightarrow>
     (\<forall>a c. kv_chart s = Some (a, c) \<longrightarrow> brightness c = kv_brightLevel s) \<and>
     (kv_enabled s \<longrightarrow> data_deps s = data_deps old \<longrightarrow> latest_for_controls s) \<and>
     (\<forall>n a m. kv_chartState s = Some (n, a, m) \<longrightarrow> n < length (sent s) \<and> snd (sent s ! n) = m) \<and>
     set (waiting s) \<subseteq> {..<length (sent s)} \<and>
     (kv_isLoading s \<longrightarrow> waiting s \<noteq> [] \<or> config_waiting s \<noteq> 0) \<and>
     (\<forall>n c. kv_config s = Some (n, c) \<longrightarrow> n < kv_fresh s) \<and>
     (\<forall>n r. kv_selection s = Some (n, r) \<longrightarrow> n < kv_fresh s)"

definition handler_inv :: "'tr kv_page \<Rightarrow> 'tr kv_page \<Rightarrow> bool" where
  "handler_inv old s \<longleftrightarrow> mid_inv old s \<and>
     (0 < kv_autoRefresh s \<longrightarrow> kv_autoRefresh s \<noteq> kv_autoRefresh old \<longrightarrow> data_deps s = data_deps old) \<and>
     (0 < kv_autoRefresh s \<longrightarrow> kv_autoRefresh s = kv_autoRefresh old \<longrightarrow> kv_selection s = None \<and> \<not> kv_onBrush s)"

lemma latest_updateHeatmap: "latest_for_controls (updateHeatmap now s)"
  by (auto simp: latest_for_controls_def updateHeatmap_def)

lemma chart_event_cases:
  "on_chart_event D e s = s \<or>
   (\<exists>a c c' f. kv_chart s = Some (a, c) \<and> brightness c' = brightness c \<and>
      on_chart_event D e s = f (s\<lparr>kv_chart := Some (a, c')\<rparr>) \<and> (f = id \<or> f = onZoom \<or> (\<exists>r. f = onBrush r)))"
proof (cases "\<exists>a c. kv_chart s = Some (a, c) \<and> kv_mounted s \<noteq> None \<and> user_event c e")
  case True
  then obtain a c k where ac: "kv_chart s = Some (a, c)" "kv_mounted s = Some k" "user_event c e" by blast
  let ?c = "chart_step D (heatmap_data.truncate a) e c"
  let ?f = "case e of ZoomBy _ _ _ \<Rightarrow> onZoom
    | BrushEnd sel m \<Rightarrow> (case fst (brushEnd D (heatmap_data.truncate a) sel m c) of Brushed r \<Rightarrow> onBrush r | _ \<Rightarrow> id)
    | _ \<Rightarrow> id"
  have "on_chart_event D e s = ?f (s\<lparr>kv_chart := Some (a, ?c)\<rparr>)"
    using ac by (simp add: on_chart_event_def split: chart_event.split brush_result.split del: chart_step.simps)
  moreover have "?f = id \<or> ?f = onZoom \<or> (\<exists>r. ?f = onBrush r)"
    by (simp split: chart_event.split brush_result.split) blast
  moreover have "brightness ?c = brightness c"
    by (rule brightness_user_event) (rule ac)
  ultimately show ?thesis
    using ac(1) by blast
next
  case False
  then show ?thesis by (auto simp: on_chart_event_def split: option.split)
qed

lemma handle_page_inv:
  assumes "page_inv s"
  shows "handler_inv s (handle_page D sh now e s)"
proof (cases e)
  case Refresh
  then show ?thesis
    using assms latest_updateHeatmap [of now s]
    by (auto simp: page_inv_def handler_inv_def mid_inv_def updateHeatmap_def nth_append kv_enabled_def data_deps_def less_Suc_eq)
next
  case (ConfigAnswer res)
  then show ?thesis
    using assms by (auto simp: page_inv_def handler_inv_def mid_inv_def page_handlers data_deps_def kv_enabled_def latest_for_controls_def Let_def
        less_Suc_eq split: option.splits prod.splits)
next
  case (HeatmapAnswer n res)
  then show ?thesis
    using assms by (auto simp: page_inv_def handler_inv_def mid_inv_def page_handlers data_deps_def kv_enabled_def latest_for_controls_def Let_def
        dest: notin_set_remove1 set_remove1_subset [THEN subsetD] split: option.splits)
next
  case (ChartEvent ce)
  note keep = page_inv_def handler_inv_def mid_inv_def onZoom_def onBrush_def data_deps_def kv_enabled_def latest_for_controls_def
  from assms have fresh: "map_option fst (kv_selection s) \<noteq> Some (kv_fresh s)"
    by (auto simp: page_inv_def)
  from chart_event_cases [of D ce s] show ?thesis
  proof (elim disjE exE conjE)
    assume "on_chart_event D ce s = s"
    then show ?thesis using assms ChartEvent by (simp add: keep)
  next
    fix a c c' f
    assume "kv_chart s = Some (a, c)" "brightness c' = brightness c" "f = id"
      "on_chart_event D ce s = f (s\<lparr>kv_chart := Some (a, c')\<rparr>)"
    then show ?thesis using assms ChartEvent by (simp add: keep)
  next
    fix a c c' f
    assume "kv_chart s = Some (a, c)" "brightness c' = brightness c" "f = onZoom"
      "on_chart_event D ce s = f (s\<lparr>kv_chart := Some (a, c')\<rparr>)"
    then show ?thesis using assms ChartEvent by (simp add: keep)
  next
    fix a c c' f r
    assume "kv_chart s = Some (a, c)" "brightness c' = brightness c" "f = onBrush r"
      "on_chart_event D ce s = f (s\<lparr>kv_chart := Some (a, c')\<rparr>)"
    then show ?thesis using assms ChartEvent fresh fresh [symmetric] by (auto simp: keep less_Suc_eq)
  qed
next
  case (Resize w h)
  then show ?thesis
    using assms
    by (auto simp: page_inv_def handler_inv_def mid_inv_def page_handlers data_deps_def kv_enabled_def latest_for_controls_def
        brightness_size simp del: chart_step.simps)
qed (use assms in \<open>auto simp: page_inv_def handler_inv_def mid_inv_def page_handlers data_deps_def kv_enabled_def latest_for_controls_def
      Let_def split: option.splits\<close>)

lemma auto_effect_inv:
  assumes "handler_inv old s"
  shows "mid_inv old (auto_effect old s)"
    and "0 < kv_autoRefresh (auto_effect old s) \<Longrightarrow>
      kv_selection (auto_effect old s) = None \<and> \<not> kv_onBrush (auto_effect old s)"
proof -
  show "kv_selection (auto_effect old s) = None \<and> \<not> kv_onBrush (auto_effect old s)"
    if "0 < kv_autoRefresh (auto_effect old s)"
    using that assms by (cases "kv_autoRefresh s = kv_autoRefresh old") (simp_all add: auto_effect_def handler_inv_def onResetZoom_def split: if_splits)
  show "mid_inv old (auto_effect old s)"
  proof (cases "kv_autoRefresh s \<noteq> kv_autoRefresh old \<and> 0 < kv_autoRefresh s")
    case True
    then have deps: "data_deps s = data_deps old" and "kv_enabled s \<Longrightarrow> latest_for_controls s"
      using assms by (simp_all add: handler_inv_def mid_inv_def)
    moreover have "kv_selection s = None" if "data_deps (s\<lparr>kv_selection := None, kv_onBrush := False\<rparr>) = data_deps s"
      using that by (simp add: data_deps_def)
    ultimately show ?thesis
      using True assms unfolding auto_effect_def handler_inv_def mid_inv_def onResetZoom_def
      by (auto simp: kv_enabled_def latest_for_controls_def)
  next
    case False
    then show ?thesis using assms by (simp only: auto_effect_def if_False handler_inv_def)
  qed
qed

lemma data_effect_inv:
  assumes "mid_inv old s" and "0 < kv_autoRefresh s \<Longrightarrow> kv_selection s = None \<and> \<not> kv_onBrush s"
  shows "page_inv (data_effect now old s)"
  using assms latest_updateHeatmap [of now s]
  by (auto simp: data_effect_def mid_inv_def page_inv_def updateHeatmap_def kv_enabled_def nth_append less_Suc_eq)

lemma heatmap_effect_inv:
  assumes "page_inv s"
  shows "page_inv (heatmap_effect D s)"
  using assms
  by (auto simp: heatmap_effect_def page_inv_def onChartInit_def updateChartSize_def kv_enabled_def latest_for_controls_def
      brightness_size chart_step.simps(9) simp del: chart_step.simps(12) split: option.splits)

lemma page_step_inv: "page_inv s \<Longrightarrow> page_inv (page_step D sh ev s)"
  unfolding page_step_def settle_page_def
  by (intro heatmap_effect_inv data_effect_inv auto_effect_inv handle_page_inv)

lemma mount_page_inv: "page_inv (mount_page sh now box)"
  by (auto simp: mount_page_def page_inv_def updateServiceStatus_def init_page_def updateHeatmap_def latest_for_controls_def)

lemma page_reachable_inv: "page_inv (fold (page_step D sh) evs (mount_page sh now box))"
  by (rule fold_invariant [where Q = "\<lambda>_. True"]) (simp_all add: mount_page_inv page_step_inv)

subsection \<open>Answers in order\<close>

text \<open>
  A run in which the requests for heatmaps are answered in the order they are sent, and with success. The number of
  answers is the number of the next request to be answered.
\<close>

fun ordered_run :: "'tr d3 \<Rightarrow> bool option \<Rightarrow> (rat \<times> 'tr page_event) list \<Rightarrow> 'tr kv_page \<Rightarrow> bool" where
  "ordered_run D sh [] s = True"
| "ordered_run D sh (ev # evs) s =
     ((case snd ev of HeatmapAnswer n res \<Rightarrow> waiting s \<noteq> [] \<and> n = hd (waiting s) \<and> res \<noteq> None | _ \<Rightarrow> True) \<and>
      ordered_run D sh evs (page_step D sh ev s))"

definition answered_in_order :: "'tr kv_page \<Rightarrow> bool" where
  "answered_in_order s \<longleftrightarrow>
     (\<exists>k \<le> length (sent s). waiting s = [k..<length (sent s)] \<and>
        (k = 0 \<or> (\<exists>a m. kv_chartState s = Some (k - 1, a, m))))"

lemma answered_in_order_updateHeatmap [intro]: "answered_in_order s \<Longrightarrow> answered_in_order (updateHeatmap now s)"
  by (force simp: answered_in_order_def updateHeatmap_def)

lemma answered_in_order_cong:
  "sent t = sent s \<Longrightarrow> waiting t = waiting s \<Longrightarrow> kv_chartState t = kv_chartState s \<Longrightarrow>
   answered_in_order t = answered_in_order s"
  by (simp add: answered_in_order_def)

lemma heatmap_effect_keeps:
  "sent (heatmap_effect D s) = sent s" "waiting (heatmap_effect D s) = waiting s"
  "kv_chartState (heatmap_effect D s) = kv_chartState s"
  by (simp_all add: heatmap_effect_def onChartInit_def updateChartSize_def split: option.split)

lemma answered_in_order_settle: "answered_in_order s \<Longrightarrow> answered_in_order (settle_page D now old s)"
proof -
  assume "answered_in_order s"
  then have "answered_in_order (auto_effect old s)"
    by (simp add: auto_effect_def onResetZoom_def answered_in_order_def)
  then have "answered_in_order (data_effect now old (auto_effect old s))"
    by (simp add: data_effect_def answered_in_order_updateHeatmap)
  then show ?thesis
    unfolding settle_page_def using answered_in_order_cong [OF heatmap_effect_keeps] by blast
qed

lemma answered_in_order_answer:
  assumes "answered_in_order s" and "waiting s \<noteq> []"
  shows "answered_in_order (heatmap_answered (hd (waiting s)) (Some a) s)"
proof -
  from assms obtain k where k: "waiting s = [k..<length (sent s)]" "k < length (sent s)"
    by (auto simp: answered_in_order_def)
  then have "remove1 k (waiting s) = [Suc k..<length (sent s)]" and "hd (waiting s) = k"
    by (simp_all add: upt_conv_Cons)
  then show ?thesis
    using k by (auto simp: answered_in_order_def heatmap_answered_def intro!: exI [of _ "Suc k"])
qed

lemma answered_in_order_step:
  assumes "answered_in_order s" and "ordered_run D sh [ev] s"
  shows "answered_in_order (page_step D sh ev s)"
  unfolding page_step_def
proof (rule answered_in_order_settle, cases "snd ev")
  case (HeatmapAnswer n res)
  then show "answered_in_order (handle_page D sh (fst ev) (snd ev) s)"
    using assms answered_in_order_answer [OF assms(1)] by auto
next
  case (ChartEvent ce)
  then show "answered_in_order (handle_page D sh (fst ev) (snd ev) s)"
    using assms(1) chart_event_cases [of D ce s] by (auto simp: onZoom_def onBrush_def answered_in_order_def)
qed (use assms(1) in \<open>auto simp: page_handlers answered_in_order_def Let_def updateHeatmap_def split: option.split\<close>)

lemma ordered_run_in_order:
  "answered_in_order s \<Longrightarrow> ordered_run D sh evs s \<Longrightarrow> answered_in_order (fold (page_step D sh) evs s)"
  by (induction evs arbitrary: s) (simp_all add: answered_in_order_step)

subsection \<open>Properties\<close>





text \<open>
  C7: if the answers for heatmaps come in the order of their requests and with success, then once all are in the page shows
  the heatmap that was asked for with the selection, range and metric it has.
\<close>

theorem keyviz_shows_latest:
  fixes D :: "'tr d3" and showSetting :: "bool option" and evs :: "(rat \<times> 'tr page_event) list" and box :: "rat \<times> rat" and now :: rat
  defines "s \<equiv> fold (page_step D showSetting) evs (mount_page showSetting now box)"
  assumes "ordered_run D showSetting evs (mount_page showSetting now box)"
    and "waiting s = []" and "kv_enabled s"
  shows "\<exists>n a t. kv_chartState s = Some (n, a, kv_metricType s) \<and>
    sent s ! n = (fetch_query t (map_option snd (kv_selection s)) (kv_dateRange s), kv_metricType s)"
proof -
  have inv: "page_inv s"
    unfolding s_def by (rule page_reachable_inv)
  have "answered_in_order (mount_page showSetting now box :: 'tr kv_page)"
    by (simp add: mount_page_def updateHeatmap_def updateServiceStatus_def init_page_def answered_in_order_def)
  then have "answered_in_order s"
    unfolding s_def using assms(2) by (rule ordered_run_in_order)
  moreover have "latest_for_controls s"
    using inv assms(4) by (simp add: page_inv_def)
  moreover from calculation obtain k where "k \<le> length (sent s)" "[] = [k..<length (sent s)]" "sent s \<noteq> []"
      "k = 0 \<or> (\<exists>a m. kv_chartState s = Some (k - 1, a, m))"
    using assms(3) by (auto simp: answered_in_order_def latest_for_controls_def)
  moreover from calculation have "k = length (sent s)"
    using upt_eq_Nil_conv [of k "length (sent s)"] by auto
  ultimately obtain a m where cs: "kv_chartState s = Some (length (sent s) - 1, a, m)"
    by auto
  moreover have "m = snd (last (sent s))"
    using inv cs \<open>latest_for_controls s\<close> by (auto simp: page_inv_def latest_for_controls_def last_conv_nth)
  ultimately show ?thesis
    using \<open>latest_for_controls s\<close> by (auto simp: latest_for_controls_def last_conv_nth)
qed

lemmas run_page = page_step_def settle_page_def heatmap_effect_def data_effect_def auto_effect_def mount_page_def
  updateHeatmap_def updateServiceStatus_def init_page_def kv_enabled_def data_deps_def heatmap_answered_def onToggleBrush_def
  onChartInit_def updateChartSize_def

definition sample_answer :: heatmap_answer where
  "sample_answer =
     \<lparr>timeAxis = [0, 60], keyAxis = [(''a'', None), (''b'', None)], hm_values = [(WrittenBytes, [[7]]), (ReadKeys, [[5]])]\<rparr>"

theorem keyviz_shows_latest_witness:
  "\<exists>n a t. kv_chartState (fold (page_step d3_ref (Some False)) [(1000, HeatmapAnswer 0 (Some sample_answer))]
      (mount_page (Some False) 0 (340, 295))) = Some (n, a, WrittenBytes)"
proof -
  let ?s = "fold (page_step d3_ref (Some False)) [(1000, HeatmapAnswer 0 (Some sample_answer))]
    (mount_page (Some False) 0 (340, 295))"
  have run: "ordered_run d3_ref (Some False) [(1000, HeatmapAnswer 0 (Some sample_answer))] (mount_page (Some False) 0 (340, 295))"
    by (simp add: mount_page_def updateHeatmap_def updateServiceStatus_def init_page_def)
  have s: "waiting ?s = []" "kv_enabled ?s" "kv_metricType ?s = WrittenBytes"
    by (simp_all add: run_page split: option.split)
  from keyviz_shows_latest [OF run s(1,2)] show ?thesis
    unfolding s(3) by blast
qed

text \<open>An answer that comes late replaces the newer heatmap: the metric shown is not the one selected.\<close>

lemma keyviz_late_answer:
  fixes s :: "transform kv_page"
  defines "s \<equiv> fold (page_step d3_ref (Some False))
    [(0, SelectMetric ReadKeys), (0, HeatmapAnswer 1 (Some sample_answer)), (0, HeatmapAnswer 0 (Some sample_answer))]
    (mount_page (Some False) 0 (340, 295))"
  shows "waiting s = []" and "kv_metricType s = ReadKeys"
    and "kv_chartState s = Some (0, reverse_heatmap sample_answer, WrittenBytes)"
  unfolding s_def by (simp_all add: run_page sample_answer_def reverse_heatmap_def)

text \<open>
  The button of the brush and the chart can disagree. A failed refresh switches the button off and leaves the brush of the
  chart on; a toggle during a refresh switches the button on, and the new chart has its brush off.
\<close>

lemma brush_button_diverges:
  fixes s t :: "transform kv_page" and up :: "transform kv_page"
  defines "up \<equiv> fold (page_step d3_ref (Some False)) [(0, HeatmapAnswer 0 (Some sample_answer))] (mount_page (Some False) 0 (340, 295))"
    and "s \<equiv> fold (page_step d3_ref (Some False)) [(0, ToggleBrush), (0, Refresh), (0, HeatmapAnswer 1 None)] up"
    and "t \<equiv> fold (page_step d3_ref (Some False)) [(0, Refresh), (0, ToggleBrush), (0, HeatmapAnswer 1 (Some sample_answer))] up"
  shows "\<not> kv_onBrush s" and "map_option (isBrushing \<circ> snd) (kv_chart s) = Some True"
    and "kv_onBrush t" and "map_option (isBrushing \<circ> snd) (kv_chart t) = Some False"
  unfolding s_def t_def up_def
  by (simp_all add: run_page sample_answer_def reverse_heatmap_def init_chart_def chart_size_def Let_def)

text \<open>The columns and the key axis are turned together, and turning them twice gives the data back.\<close>

lemma reverse_heatmap_involution: "reverse_heatmap (reverse_heatmap a) = a"
  by (simp add: reverse_heatmap_def case_prod_beta comp_def)

text \<open>After a change that does not switch collection off, the form has a policy, and a separator once the policy needs one.\<close>

lemma form_has_policy:
  assumes "fm_auto_collection_disabled changed \<noteq> Some True"
  shows "fm_policy (onValuesChange config changed (form_change changed f)) \<notin> {None, Some []}"
    and "policy config \<noteq> Some ''kv'' \<Longrightarrow> fm_policy changed = Some ''kv'' \<Longrightarrow>
      separatorValidator (fm_separator (onValuesChange config changed (form_change changed f))) = Sep_success"
  using assms by (auto simp: onValuesChange_def separatorValidator_def Let_def)

text \<open>Collection that is on is never switched off without a confirmation.\<close>

lemma keyviz_disable_confirmed:
  "keyviz_onSubmit config f = PutConfig g \<Longrightarrow> auto_collection_disabled config \<noteq> Some True \<Longrightarrow>
   g = f \<and> fm_auto_collection_disabled g \<noteq> Some True"
  by (simp add: keyviz_onSubmit_def split: if_splits)

end
