(* ===== verification/QueryPagesV2.thy ===== *)
theory QueryPagesV2
  imports ListUrlState
begin

text \<open>
  The list pages of the second generation over their URL state: the drop-downs of \<open>3-biz-ui\<close> (\<open>filter-multi-select\<close>,
  \<open>cols-multi-select\<close>), the choice and visibility of columns and the requests of \<open>4-apps/src/slow-query\<close> and
  \<open>4-apps/src/statement\<close>, the dialog of the advanced filters (\<open>advanced-filters\<close>) and the custom time range
  (\<open>time-range-picker/custom.tsx\<close>). What is chosen is written to and read from the search string, through the contract
  \<open>url_store\<close>.
\<close>

subsection \<open>Drop-downs\<close>

definition includes_str :: "string \<Rightarrow> string \<Rightarrow> bool" where
  "includes_str s t \<longleftrightarrow> indexOf s t 0 \<noteq> None"

definition filter_options :: "string list \<Rightarrow> string \<Rightarrow> string list" where
  "filter_options data search = filter (\<lambda>item. includes_str (toLowerCase item) (trim (toLowerCase search))) data"

definition toggle_value :: "string list \<Rightarrow> string \<Rightarrow> string list" where
  "toggle_value value v = (if v \<in> set value then filter (\<lambda>w. w \<noteq> v) value else value @ [v])"

datatype select_text = SelectKind | SelectedValues string | SelectedCount nat

definition selectResult :: "nat \<Rightarrow> string list \<Rightarrow> select_text" where
  "selectResult fullResultCount value =
     (if value = [] then SelectKind
      else if length value < fullResultCount then SelectedValues (join '', '' value)
      else SelectedCount (length value))"

text \<open>Columns are pairs of label and value; \<open>all\<close> stands for every column.\<close>

type_synonym col_item = "string \<times> string"

definition col_selected :: "string list \<Rightarrow> string \<Rightarrow> bool" where
  "col_selected value v \<longleftrightarrow> v \<in> set value \<or> ''all'' \<in> set value"

definition selectedData :: "col_item list \<Rightarrow> string list \<Rightarrow> col_item list" where
  "selectedData data value = filter (\<lambda>item. col_selected value (snd item)) data"

definition col_filteredData :: "bool \<Rightarrow> string \<Rightarrow> string list \<Rightarrow> col_item list \<Rightarrow> col_item list" where
  "col_filteredData showSelected search value data =
     (let d = filter (\<lambda>item. \<not> showSelected \<or> col_selected value (snd item)) data;
          t = trim (toLowerCase search)
      in if t \<noteq> [] then filter (\<lambda>item. includes_str (toLowerCase (snd item)) t \<or> includes_str (toLowerCase (fst item)) t) d else d)"

definition handleOptionSelect :: "col_item list \<Rightarrow> string list \<Rightarrow> string \<Rightarrow> string list" where
  "handleOptionSelect data value v =
     (let selected = map snd (selectedData data value)
      in if v \<in> set selected then filter (\<lambda>w. w \<noteq> v) selected else selected @ [v])"

definition select_all_cols :: "string list" where
  "select_all_cols = [''all'']"

subsection \<open>Columns of a list\<close>

text \<open>A column of the table has its header and perhaps an identifier.\<close>

definition colsData :: "(string \<times> string option) list \<Rightarrow> string list option \<Rightarrow> col_item list" where
  "colsData tableColumns availableFields =
     List.map_filter (\<lambda>(header, i). case i of
        None \<Rightarrow> None
      | Some v \<Rightarrow> (case availableFields of
                    None \<Rightarrow> None | Some fs \<Rightarrow> if v \<in> set fs then Some (header, v) else None)) tableColumns"

definition handleColsChange :: "string list \<Rightarrow> patch" where
  "handleColsChange newCols = (if newCols = [] then v2_setCols [''empty''] else v2_setCols newCols)"

definition cols_reset :: patch where
  "cols_reset = v2_setCols []"

definition columnVisibility :: "(string \<times> string option) list \<Rightarrow> string list \<Rightarrow> (string \<times> bool) list" where
  "columnVisibility tableColumns visibleCols =
     List.map_filter (\<lambda>(header, i). map_option (\<lambda>v. (v, col_selected visibleCols v)) i) tableColumns"

subsection \<open>Requests of the lists\<close>

definition MAX_TIME_RANGE_DURATION_SECONDS :: jsnum where
  "MAX_TIME_RANGE_DURATION_SECONDS = js_int (24 * 60 * 60)"

record trv_state =
  trv :: TimeRangeValue
  beyondMax :: bool

record list_request =
  lr_beginTime :: jsnum
  lr_endTime :: jsnum
  lr_dbs :: "string list"
  lr_ruGroups :: "string list"
  lr_sqlDigest :: string
  lr_limit :: int
  lr_term :: "string option"
  lr_advancedFilters :: "AdvancedFilterItem list"
  lr_cols :: "string list"
  lr_sortRule :: SortRule
  lr_pagination :: Pagination

text \<open>The query of the slow query list: its request and the window it stores for the alert.\<close>

definition slow_query_listData :: "jsnum \<Rightarrow> params \<Rightarrow> AdvancedFilterItem list \<Rightarrow> list_request \<times> trv_state" where
  "slow_query_listData now P filters =
     (let tr = toTimeRangeValue_v2 now (timeRange_v2 None P) 0;
          beginTime = fst tr; endTime = snd tr;
          beyond = MAX_TIME_RANGE_DURATION_SECONDS < endTime - beginTime;
          endTime = (if beyond then beginTime + MAX_TIME_RANGE_DURATION_SECONDS else endTime)
      in (\<lparr>lr_beginTime = beginTime, lr_endTime = endTime, lr_dbs = v2_sq_dbs P, lr_ruGroups = v2_sq_ruGroups P,
           lr_sqlDigest = v2_sq_sqlDigest P, lr_limit = v2_sq_limit P, lr_term = search_term P,
           lr_advancedFilters = filters, lr_cols = filter (\<lambda>c. c \<noteq> ''empty'') (v2_sq_cols P),
           lr_sortRule = sortRule ''query_time'' P, lr_pagination = pagination (js_int 15) P\<rparr>,
          \<lparr>trv = (beginTime, endTime), beyondMax = beyond\<rparr>))"

definition TimeRangeClipAlert :: "trv_state \<Rightarrow> TimeRangeValue option" where
  "TimeRangeClipAlert s = (if \<not> beyondMax s then None else Some (fst (trv s), snd (trv s)))"

text \<open>The times of the items of the statement list, in seconds.\<close>

definition fix_maxTime :: "(int \<times> int) list \<Rightarrow> int" where
  "fix_maxTime items = foldl (\<lambda>m d. if m < snd d then snd d else m) 0 items"

definition fix_minTime :: "(int \<times> int) list \<Rightarrow> int" where
  "fix_minTime items = foldl (\<lambda>m d. if fst d < m then fst d else m) (fix_maxTime items) items"

definition TimeRangeFixAlert :: "(int \<times> int) list \<Rightarrow> (int \<times> int) option" where
  "TimeRangeFixAlert items =
     (if fix_minTime items \<noteq> fix_maxTime items then Some (fix_minTime items, fix_maxTime items) else None)"

subsection \<open>The dialog of the advanced filters\<close>

record filter_info =
  fi_name :: string
  fi_type :: string
  fi_unit :: string
  fi_values :: "string list"

record filter_setting = AdvancedFilterItem +
  createdAt :: int
  deleted :: bool

definition newFilterSettingItem :: "int \<Rightarrow> filter_setting" where
  "newFilterSettingItem now = \<lparr>filter_name = [], operator = [], filter_values = [], createdAt = now, deleted = False\<rparr>"

definition handleOpen :: "int \<Rightarrow> AdvancedFilterItem list \<Rightarrow> filter_setting list" where
  "handleOpen now filters =
     (if filters = [] then [newFilterSettingItem now]
      else map2 (\<lambda>i f. AdvancedFilterItem.extend f \<lparr>createdAt = now - int i * 100, deleted = False\<rparr>) [0..<length filters] filters)"

definition handleSubmit :: "filter_setting list \<Rightarrow> AdvancedFilterItem list" where
  "handleSubmit items =
     map AdvancedFilterItem.truncate (filter (\<lambda>i. \<not> deleted i \<and> filter_name i \<noteq> [] \<and> operator i \<noteq> [] \<and>
        (filter_values i \<noteq> [] \<and> hd (filter_values i) \<noteq> [])) items)"

definition activeItems :: "filter_setting list \<Rightarrow> filter_setting list" where
  "activeItems filters = filter (\<lambda>i. \<not> deleted i) filters"

definition handleAddItem :: "int \<Rightarrow> filter_setting list \<Rightarrow> filter_setting list" where
  "handleAddItem now filters = filters @ [newFilterSettingItem now]"

definition handleUpdateItem :: "filter_setting \<Rightarrow> filter_setting list \<Rightarrow> filter_setting list" where
  "handleUpdateItem item filters = map (\<lambda>i. if createdAt i = createdAt item then item else i) filters"

text \<open>
  The controls of one filter. Which of them there are depends on the info of the filter; \<open>v || "in"\<close> and its like
  replace an empty operator.
\<close>

datatype filter_edit = EditName "string option" | EditOperator "string option" | EditValues "string list"
  | EditText string | EditNumber string | EditDelete

definition or_str :: "string \<Rightarrow> string \<Rightarrow> string" where
  "or_str s d = (if s = [] then d else s)"

definition find_info :: "filter_info list \<Rightarrow> string \<Rightarrow> filter_info option" where
  "find_info infos n = find (\<lambda>f. fi_name f = n) infos"

definition apply_edit :: "filter_info list \<Rightarrow> filter_edit \<Rightarrow> filter_setting \<Rightarrow> filter_setting" where
  "apply_edit infos e f =
     (case e of
        EditName v \<Rightarrow> f\<lparr>filter_name := (case v of None \<Rightarrow> [] | Some n \<Rightarrow> n), filter_values := []\<rparr>
      | EditDelete \<Rightarrow> f\<lparr>deleted := True\<rparr>
      | _ \<Rightarrow>
          (case find_info infos (filter_name f) of
             None \<Rightarrow> f
           | Some info \<Rightarrow>
               (case e of
                  EditOperator v \<Rightarrow>
                    f\<lparr>operator := or_str (case v of None \<Rightarrow> [] | Some x \<Rightarrow> x) (if fi_values info \<noteq> [] then ''in'' else ''='')\<rparr>
                | EditValues vs \<Rightarrow>
                    if fi_values info \<noteq> [] then f\<lparr>filter_values := vs, operator := or_str (operator f) ''in''\<rparr> else f
                | EditText t \<Rightarrow>
                    if fi_values info = [] \<and> fi_type info = ''string''
                    then f\<lparr>filter_values := [t], operator := or_str (operator f) ''=''\<rparr> else f
                | EditNumber t \<Rightarrow>
                    if fi_values info = [] \<and> fi_type info \<noteq> ''string''
                    then f\<lparr>filter_values := [t], operator := or_str (operator f) ''=''\<rparr> else f
                | _ \<Rightarrow> f)))"

definition edit_item :: "filter_info list \<Rightarrow> int \<Rightarrow> filter_edit \<Rightarrow> filter_setting list \<Rightarrow> filter_setting list" where
  "edit_item infos key e items =
     (case find (\<lambda>i. createdAt i = key) (activeItems items) of
        None \<Rightarrow> items | Some f \<Rightarrow> handleUpdateItem (apply_edit infos e f) items)"

datatype filters_event = OpenFilters "AdvancedFilterItem list" | AddFilter | EditFilter int filter_edit | FilterInfo filter_info

record filters_modal =
  settingItems :: "filter_setting list"
  filtersInfo :: "filter_info list"

fun modal_step :: "int \<times> filters_event \<Rightarrow> filters_modal \<Rightarrow> filters_modal" where
  "modal_step (now, OpenFilters fs) m = m\<lparr>settingItems := handleOpen now fs\<rparr>"
| "modal_step (now, AddFilter) m = m\<lparr>settingItems := handleAddItem now (settingItems m)\<rparr>"
| "modal_step (now, EditFilter key e) m = m\<lparr>settingItems := edit_item (filtersInfo m) key e (settingItems m)\<rparr>"
| "modal_step (now, FilterInfo i) m = m\<lparr>filtersInfo := filtersInfo m @ [i]\<rparr>"

subsection \<open>The custom time range\<close>

text \<open>\<open>start\<close> and \<open>end\<close> in milliseconds; the bounds are optional.\<close>

record custom_range =
  cr_start :: int
  cr_end :: int
  minDateTime :: "int option"
  maxDateTime :: "int option"
  maxDuration :: "int option"

definition startAfterEnd :: "custom_range \<Rightarrow> bool" where
  "startAfterEnd r \<longleftrightarrow> cr_end r < cr_start r"

definition beyondMin :: "custom_range \<Rightarrow> bool" where
  "beyondMin r \<longleftrightarrow> (case minDateTime r of None \<Rightarrow> False | Some m \<Rightarrow> cr_start r < m)"

definition cr_beyondMax :: "custom_range \<Rightarrow> bool" where
  "cr_beyondMax r \<longleftrightarrow> (case maxDateTime r of None \<Rightarrow> False | Some m \<Rightarrow> m < cr_end r)"

definition beyondDuration :: "custom_range \<Rightarrow> bool" where
  "beyondDuration r \<longleftrightarrow> (case maxDuration r of None \<Rightarrow> False | Some d \<Rightarrow> d * 1000 < cr_end r - cr_start r)"

definition apply_custom :: "custom_range \<Rightarrow> (int \<times> int) option" where
  "apply_custom r =
     (if startAfterEnd r \<or> beyondMin r \<or> cr_beyondMax r \<or> beyondDuration r then None
      else Some (cr_start r div 1000, cr_end r div 1000))"

subsection \<open>Properties\<close>

lemma cols_of_setCols:
  assumes "url_store get put" and "csv_safe v" and "v \<noteq> []"
  shows "cols_of dflt (get (put s (v2_setCols v))) = v"
proof -
  have "val (get (put s (v2_setCols v))) ''cols'' = join '','' v"
    using assms(1) by (simp add: v2_setCols_def setCsv_def url_store.val_put)
  then show ?thesis
    using assms(2,3) split_join_csv [OF assms(2,3)]
    by (simp add: cols_of_def val_or_def csv_safe_def join_eq_Nil Let_def)
qed

lemma map_of_columnVisibility:
  "map_of (columnVisibility tc vis) w = (if Some w \<in> snd ` set tc then Some (col_selected vis w) else None)"
  by (induction tc) (auto simp: columnVisibility_def List.map_filter_simps split: option.split)

lemma colsData_ids:
  "w \<in> snd ` set (colsData tc (Some fs)) \<longleftrightarrow> Some w \<in> snd ` set tc \<and> w \<in> set fs"
  by (induction tc) (auto simp: colsData_def List.map_filter_simps split: option.splits if_splits)

lemma set_handleOptionSelect:
  assumes "v \<in> snd ` set data"
  shows "set (handleOptionSelect data value v) =
    {w \<in> snd ` set data. if w = v then \<not> col_selected value v else col_selected value w}"
  using assms by (force simp: handleOptionSelect_def selectedData_def Let_def)

definition plain_column :: "string \<Rightarrow> bool" where
  "plain_column c \<longleftrightarrow> c \<noteq> [] \<and> CHR '','' \<notin> set c \<and> c \<notin> {''all'', ''empty''}"

lemma csv_safe_plain: "\<forall>c \<in> set v. plain_column c \<Longrightarrow> csv_safe v"
  unfolding csv_safe_def by (metis list.set_intros(1) plain_column_def)

text \<open>The columns read back after a change are the ones chosen, for columns of the drop-down.\<close>

lemma cols_after_change:
  assumes "url_store get put" and "\<forall>c \<in> set v. plain_column c" and "plain_column w"
  shows "col_selected (cols_of dflt (get (put s (handleColsChange v)))) w \<longleftrightarrow> w \<in> set v"
proof (cases "v = []")
  case True
  have "cols_of dflt (get (put s (v2_setCols [''empty'']))) = [''empty'']"
    by (rule cols_of_setCols [OF assms(1)]) (simp_all add: csv_safe_def)
  with True assms(3) show ?thesis
    by (simp add: handleColsChange_def col_selected_def plain_column_def)
next
  case False
  have "cols_of dflt (get (put s (v2_setCols v))) = v"
    by (rule cols_of_setCols [OF assms(1) csv_safe_plain [OF assms(2)] False])
  with False assms(2) show ?thesis
    by (auto simp: handleColsChange_def col_selected_def plain_column_def)
qed

text \<open>
  Choosing a column toggles it and nothing else. With columns whose names are plain words, clicking the entry of a
  column in the drop-down, writing the new choice to the search string and reading it back changes the visibility of that
  column in the table and keeps that of every other available column, also when the choice was \<open>all\<close>, the default of an
  address without columns, or becomes empty.
\<close>

theorem column_toggle_roundtrip:
  fixes get :: "'s \<Rightarrow> params" and put :: "'s \<Rightarrow> patch \<Rightarrow> 's" and s :: 's and dflt v w :: string
    and tableColumns :: "(string \<times> string option) list" and fields :: "string list"
  defines "data \<equiv> colsData tableColumns (Some fields)"
    and "vis \<equiv> \<lambda>st. map_of (columnVisibility tableColumns (cols_of dflt (get st)))"
  assumes "url_store get put" and "list_all (plain_column \<circ> snd) data"
    and "v \<in> snd ` set data" and "w \<in> snd ` set data"
  shows "vis (put s (handleColsChange (handleOptionSelect data (cols_of dflt (get s)) v))) w =
    map_option (\<lambda>b. if w = v then \<not> b else b) (vis s w)"
proof -
  let ?new = "handleOptionSelect data (cols_of dflt (get s)) v"
  have plain: "plain_column c" if "c \<in> snd ` set data" for c
    using assms(4) that by (auto simp: list_all_iff)
  then have "\<forall>c \<in> set ?new. plain_column c"
    by (simp add: set_handleOptionSelect [OF assms(5)])
  from cols_after_change [OF assms(3) this plain [OF assms(6)]] have
    "col_selected (cols_of dflt (get (put s (handleColsChange ?new)))) w \<longleftrightarrow> w \<in> set ?new" .
  moreover have "Some w \<in> snd ` set tableColumns"
    using assms(6) by (simp add: data_def colsData_ids)
  ultimately show ?thesis
    using assms(6) by (simp add: vis_def map_of_columnVisibility set_handleOptionSelect [OF assms(5)])
qed

theorem column_toggle_roundtrip_witness:
  "map_of (columnVisibility [(''Query'', Some ''query''), (''Time'', Some ''timestamp'')]
     (v2_sq_cols (queryParams (setQueryParams ''?cols=all''
       (handleColsChange (handleOptionSelect (colsData [(''Query'', Some ''query''), (''Time'', Some ''timestamp'')]
         (Some [''query'', ''timestamp''])) (v2_sq_cols (queryParams ''?cols=all'')) ''query''))))))
    ''query'' =
   map_option Not (map_of (columnVisibility [(''Query'', Some ''query''), (''Time'', Some ''timestamp'')]
     (v2_sq_cols (queryParams ''?cols=all''))) ''query'')"
  using column_toggle_roundtrip [OF url.url_store_axioms, of "[(''Query'', Some ''query''), (''Time'', Some ''timestamp'')]"
      "[''query'', ''timestamp'']" "''query''" "''query''" "''query,timestamp,query_time,memory_max''" "''?cols=all''"]
  by (simp add: v2_sq_cols_def [abs_def] colsData_def List.map_filter_simps plain_column_def)

text \<open>Every column is visible after all are chosen, and the reset returns to the default.\<close>

lemma cols_all_visible:
  assumes "url_store get put"
  shows "col_selected (cols_of dflt (get (put s (handleColsChange select_all_cols)))) w"
proof -
  have "cols_of dflt (get (put s (v2_setCols [''all'']))) = [''all'']"
    by (rule cols_of_setCols [OF assms]) (simp_all add: csv_safe_def)
  then show ?thesis by (simp add: handleColsChange_def select_all_cols_def col_selected_def)
qed

subsection \<open>Properties of the dialog\<close>

definition complete_filter :: "AdvancedFilterItem \<Rightarrow> bool" where
  "complete_filter f \<longleftrightarrow> filter_name f \<noteq> [] \<and> operator f \<noteq> [] \<and> filter_values f \<noteq> [] \<and> hd (filter_values f) \<noteq> []"

lemma handleSubmit_complete: "f \<in> set (handleSubmit items) \<Longrightarrow> complete_filter f"
  by (auto simp: handleSubmit_def complete_filter_def AdvancedFilterItem.truncate_def)

lemma complete_norm: "complete_filter f \<Longrightarrow> named_filter f \<and> norm_filter f = f"
  by (simp add: complete_filter_def named_filter_def norm_filter_def)

lemma truncate_extend: "AdvancedFilterItem.truncate (AdvancedFilterItem.extend f r) = f"
  by (simp add: AdvancedFilterItem.truncate_def AdvancedFilterItem.extend_def)

lemma handleSubmit_opened:
  assumes "list_all complete_filter fs"
  shows "handleSubmit (map2 (\<lambda>i f. AdvancedFilterItem.extend f \<lparr>createdAt = now - int i * 100, deleted = False\<rparr>) is fs) =
    take (length is) fs"
  using assms
proof (induction "is" fs rule: list_induct2')
  case (4 i "is" f fs)
  then show ?case
    by (simp add: handleSubmit_def complete_filter_def AdvancedFilterItem.extend_def AdvancedFilterItem.truncate_def)
qed (simp_all add: handleSubmit_def)

lemma handleSubmit_handleOpen:
  assumes "list_all complete_filter fs"
  shows "handleSubmit (handleOpen now fs) = fs"
  using handleSubmit_opened [OF assms, of now "[0..<length fs]"]
  by (simp add: handleOpen_def newFilterSettingItem_def) (simp add: handleSubmit_def)

text \<open>
  C22: what the dialog of the advanced filters saves is what it shows the next time. After any edits of its items, the
  filters that are saved are complete, read back from the search string exactly as they are, and opening and saving the
  dialog again gives the same filters.
\<close>

theorem filters_dialog_roundtrip:
  assumes "url_store get put"
  shows "list_all complete_filter (handleSubmit (settingItems m)) \<and>
    advancedFilters (get (put s (setAdvancedFilters (handleSubmit (settingItems m))))) = Some (handleSubmit (settingItems m)) \<and>
    handleSubmit (handleOpen now (handleSubmit (settingItems m))) = handleSubmit (settingItems m)"
proof -
  let ?fs = "handleSubmit (settingItems m)"
  have c: "\<forall>f \<in> set ?fs. complete_filter f"
    using handleSubmit_complete by blast
  then have "map norm_filter ?fs = ?fs"
    by (intro map_idI) (simp add: complete_norm)
  moreover have "\<forall>f \<in> set ?fs. named_filter f"
    using c complete_norm by blast
  ultimately show ?thesis
    using url_store.advancedFilters_set [OF assms, of ?fs s] handleSubmit_handleOpen [of ?fs now] c by (simp add: list_all_iff)
qed

theorem filters_dialog_roundtrip_witness:
  "advancedFilters (queryParams (setQueryParams '''' (setAdvancedFilters (handleSubmit
     [\<lparr>filter_name = ''db'', operator = ''in'', filter_values = [''a,b''], createdAt = 5, deleted = False\<rparr>,
      \<lparr>filter_name = ''txn'', operator = [], filter_values = [], createdAt = 6, deleted = False\<rparr>])))) =
   Some [\<lparr>filter_name = ''db'', operator = ''in'', filter_values = [''a,b'']\<rparr>]"
  using filters_dialog_roundtrip [OF url.url_store_axioms, of
      "\<lparr>settingItems = [\<lparr>filter_name = ''db'', operator = ''in'', filter_values = [''a,b''], createdAt = 5, deleted = False\<rparr>,
        \<lparr>filter_name = ''txn'', operator = [], filter_values = [], createdAt = 6, deleted = False\<rparr>], filtersInfo = []\<rparr>" "[]"]
  by (simp add: handleSubmit_def AdvancedFilterItem.truncate_def)

text \<open>
  Items are told apart by the time they were made. A run of the dialog in which the clock advances between any two events
  keeps the times distinct.
\<close>

definition keys_before :: "int \<Rightarrow> filter_setting list \<Rightarrow> bool" where
  "keys_before now items \<longleftrightarrow> distinct (map createdAt items) \<and> (\<forall>i \<in> set items. createdAt i \<le> now)"

lemma createdAt_apply_edit [simp]: "createdAt (apply_edit infos e f) = createdAt f"
  by (simp add: apply_edit_def split: filter_edit.split option.split)

lemma createdAt_handleUpdateItem [simp]: "map createdAt (handleUpdateItem x items) = map createdAt items"
  by (induction items) (simp_all add: handleUpdateItem_def)

lemma createdAt_edit_item [simp]: "map createdAt (edit_item infos key e items) = map createdAt items"
  by (simp add: edit_item_def split: option.split)

lemma createdAt_handleOpen:
  "map createdAt (handleOpen now fs) = (if fs = [] then [now] else map (\<lambda>i. now - int i * 100) [0..<length fs])"
proof -
  have "map createdAt (map2 (\<lambda>i f. AdvancedFilterItem.extend f \<lparr>createdAt = now - int i * 100, deleted = False\<rparr>) is fs) =
      take (length fs) (map (\<lambda>i. now - int i * 100) is)" for "is"
    by (induction "is" fs rule: list_induct2') (simp_all add: AdvancedFilterItem.extend_def)
  from this [of "[0..<length fs]"] show ?thesis
    by (simp add: handleOpen_def newFilterSettingItem_def)
qed

lemma keys_before_step:
  assumes "keys_before t (settingItems m)" and "t < now"
  shows "keys_before now (settingItems (modal_step (now, e) m))"
proof (cases e)
  case (OpenFilters fs)
  have "distinct (map (\<lambda>i. now - int i * 100) [0..<length fs])"
    by (auto simp: distinct_map inj_on_def)
  moreover have "createdAt i \<le> now" if "i \<in> set (handleOpen now fs)" for i
  proof -
    have "createdAt i \<in> set (map createdAt (handleOpen now fs))" using that by simp
    then show ?thesis unfolding createdAt_handleOpen by (auto split: if_splits)
  qed
  ultimately show ?thesis
    using OpenFilters by (simp add: keys_before_def createdAt_handleOpen)
next
  case AddFilter
  then show ?thesis
    using assms by (auto simp: keys_before_def handleAddItem_def newFilterSettingItem_def)
next
  case (EditFilter key ed)
  have "createdAt i \<in> createdAt ` set (settingItems m)" if "i \<in> set (edit_item (filtersInfo m) key ed (settingItems m))" for i
    using that createdAt_edit_item [of "filtersInfo m" key ed "settingItems m"] by (metis image_eqI set_map)
  then show ?thesis
    using EditFilter assms by (fastforce simp: keys_before_def)
next
  case (FilterInfo i)
  then show ?thesis using assms by (auto simp: keys_before_def)
qed

lemma keys_before_run:
  "keys_before t (settingItems m) \<Longrightarrow> sorted_wrt (<) (t # map fst evs) \<Longrightarrow>
   distinct (map createdAt (settingItems (fold modal_step evs m)))"
proof (induction evs arbitrary: t m)
  case Nil
  then show ?case by (simp add: keys_before_def)
next
  case (Cons ev evs)
  obtain now e where ev: "ev = (now, e)" by (cases ev)
  have "keys_before now (settingItems (modal_step (now, e) m))"
    using Cons.prems ev by (intro keys_before_step) auto
  from Cons.IH [OF this] Cons.prems ev show ?case by simp
qed

lemma handleUpdateItem_nth:
  assumes "distinct (map createdAt items)" and "k < length items" and "createdAt x = createdAt (items ! k)"
  shows "handleUpdateItem x items = items[k := x]"
proof (rule nth_equalityI)
  fix j assume "j < length (handleUpdateItem x items)"
  then have j: "j < length items" by (simp add: handleUpdateItem_def)
  then have "createdAt (items ! j) = createdAt x \<longleftrightarrow> j = k"
    using assms nth_eq_iff_index_eq [OF assms(1), of j k] by simp
  then show "handleUpdateItem x items ! j = items[k := x] ! j"
    using j assms(2) by (simp add: handleUpdateItem_def nth_list_update)
qed (simp add: handleUpdateItem_def)

lemma find_active:
  assumes "distinct (map createdAt items)" and "f \<in> set items" and "\<not> deleted f"
  shows "find (\<lambda>i. createdAt i = createdAt f) (activeItems items) = Some f"
  using assms by (induction items) (auto simp: activeItems_def)

text \<open>
  An edit in the dialog changes the edited item and no other. If the clock advances between the events of the dialog,
  then after any of them, editing an item that is not deleted replaces exactly that item by its edited version.
\<close>

theorem filters_edit_one:
  fixes evs :: "(int \<times> filters_event) list" and m :: filters_modal
  defines "m \<equiv> fold modal_step evs \<lparr>settingItems = [], filtersInfo = []\<rparr>"
  assumes "sorted_wrt (<) (map fst evs)" and "k < length (settingItems m)" and "\<not> deleted (settingItems m ! k)"
  shows "settingItems (modal_step (now, EditFilter (createdAt (settingItems m ! k)) e) m) =
    (settingItems m)[k := apply_edit (filtersInfo m) e (settingItems m ! k)]"
proof -
  define t where "t = (case evs of [] \<Rightarrow> 0 | ev # _ \<Rightarrow> fst ev - 1)"
  have "sorted_wrt (<) (t # map fst evs)"
    using assms(2) by (fastforce simp: t_def split: list.splits)
  moreover have "keys_before t (settingItems \<lparr>settingItems = [], filtersInfo = []\<rparr>)"
    by (simp add: keys_before_def)
  ultimately have d: "distinct (map createdAt (settingItems m))"
    unfolding m_def by (rule keys_before_run [rotated])
  with assms(3,4) show ?thesis
    using find_active [OF d nth_mem [OF assms(3)] assms(4)] by (simp add: edit_item_def handleUpdateItem_nth)
qed

theorem filters_edit_one_witness:
  "settingItems (modal_step (9, EditFilter 2 EditDelete) (fold modal_step [(1, OpenFilters []), (2, AddFilter)]
     \<lparr>settingItems = [], filtersInfo = []\<rparr>)) = [newFilterSettingItem 1, (newFilterSettingItem 2)\<lparr>deleted := True\<rparr>]"
  using filters_edit_one [of "[(1, OpenFilters []), (2, AddFilter)]" 1 9 EditDelete]
  by (simp add: handleOpen_def handleAddItem_def newFilterSettingItem_def apply_edit_def)

text \<open>Two items made in the same millisecond are edited together.\<close>

lemma filters_same_time_edited_together:
  "map deleted (settingItems (fold modal_step [(1, OpenFilters []), (1, AddFilter), (2, EditFilter 1 EditDelete)]
     \<lparr>settingItems = [], filtersInfo = []\<rparr>)) = [True, True]"
  by code_simp

text \<open>A filter that is changed to another name keeps its operator, also one that the other filter does not offer.\<close>

lemma renamed_filter_keeps_operator:
  "operator (apply_edit infos (EditNumber ''7'') (apply_edit infos (EditName (Some ''exec_count''))
     \<lparr>filter_name = ''db'', operator = ''in'', filter_values = [''x''], createdAt = 0, deleted = False\<rparr>)) = ''in''"
  if "find_info infos ''exec_count'' = Some \<lparr>fi_name = ''exec_count'', fi_type = ''int'', fi_unit = [], fi_values = []\<rparr>"
  using that by (simp add: apply_edit_def or_str_def)

subsection \<open>Properties of the windows\<close>

text \<open>
  The slow query list never asks for more than 24 hours. For a time range with finite ends the window that is asked for
  starts where the range starts, is the range if that is at most 24 hours long and 24 hours otherwise, and the alert is
  shown exactly when the window was clipped, with the window that was asked for.
\<close>

theorem slow_query_window_clipped:
  assumes "toTimeRangeValue_v2 now (timeRange_v2 None P) 0 = (Fin a, Fin b)"
  shows "lr_beginTime (fst (slow_query_listData now P fs)) = Fin a \<and>
    lr_endTime (fst (slow_query_listData now P fs)) = Fin (min b (a + 86400)) \<and>
    TimeRangeClipAlert (snd (slow_query_listData now P fs)) = (if a + 86400 < b then Some (Fin a, Fin (a + 86400)) else None)"
  using assms by (auto simp: slow_query_listData_def TimeRangeClipAlert_def MAX_TIME_RANGE_DURATION_SECONDS_def Let_def)

theorem slow_query_window_clipped_witness:
  "lr_endTime (fst (slow_query_listData 0 (queryParams (setQueryParams [] (setTimeRange_v2 (Absolute_v2 (Fin 100) (Fin 900000))))) [])) =
     Fin 86500"
proof -
  have "wf_range_v2 (Absolute_v2 (Fin 100) (Fin 900000))"
    using whole_js_int [of 100] whole_js_int [of 900000] by (simp add: wf_range_v2_def)
  from url.timeRange_setTimeRange_v2 [OF this, of 0 None "[]"]
  have "toTimeRangeValue_v2 0 (timeRange_v2 None (queryParams (setQueryParams []
      (setTimeRange_v2 (Absolute_v2 (Fin 100) (Fin 900000)))))) 0 = (Fin 100, Fin 900000)"
    by (simp add: toTimeRangeValue_v2_def zero_jsnum_def)
  from slow_query_window_clipped [OF this] show ?thesis by simp
qed

lemma foldl_max_seconds:
  "m \<le> foldl (\<lambda>m d. if m < snd d then snd d else m) m xs \<and>
   (\<forall>d \<in> set xs. snd d \<le> foldl (\<lambda>m d. if m < snd d then snd d else m) m (xs :: (int \<times> int) list))"
proof (induction xs arbitrary: m)
  case (Cons d xs)
  show ?case using Cons [of m] Cons [of "snd d"] by (cases "m < snd d") auto
qed simp

lemma foldl_min_firsts:
  "foldl (\<lambda>m d. if fst d < m then fst d else m) m xs \<le> m \<and>
   (\<forall>d \<in> set xs. foldl (\<lambda>m d. if fst d < m then fst d else m) m (xs :: (int \<times> int) list) \<le> fst d)"
proof (induction xs arbitrary: m)
  case (Cons d xs)
  show ?case using Cons [of m] Cons [of "fst d"] by (cases "fst d < m") auto
qed simp

text \<open>The alert of the statement list covers the window of every statement.\<close>

lemma fix_alert_covers:
  assumes "TimeRangeFixAlert items = Some (a, b)" and "d \<in> set items"
  shows "a \<le> fst d" and "snd d \<le> b"
  using assms foldl_max_seconds [of 0 items] foldl_min_firsts [of "fix_maxTime items" items]
  by (auto simp: TimeRangeFixAlert_def fix_minTime_def fix_maxTime_def split: if_splits)

text \<open>A custom range that can be applied respects its limits, also after both ends are cut to seconds.\<close>

lemma custom_range_within:
  assumes "apply_custom r = Some (a, b)"
  shows "a \<le> b" and "maxDuration r = Some d \<Longrightarrow> b - a \<le> d"
    and "minDateTime r = Some (m * 1000) \<Longrightarrow> m \<le> a" and "maxDateTime r = Some (m * 1000) \<Longrightarrow> b \<le> m"
  using assms
  by (auto simp: apply_custom_def startAfterEnd_def beyondMin_def cr_beyondMax_def beyondDuration_def zdiv_mono1 split: if_splits option.splits)

end
