(* ===== verification/MetricChartsV2.thy ===== *)
theory MetricChartsV2
  imports Prometheus ListUrlState
begin

text \<open>
  The metric pages of the second generation, \<open>4-apps/src/metric\<close>: a chart that asks for its data only while it is on the
  screen (\<open>components/chart-body.tsx\<close>), the window and the step it asks for (\<open>utils\<close>), brushing (\<open>1-charts/src/series-chart.tsx\<close>,
  \<open>pages/azores-cluster/panel.tsx\<close>), and the choice of the charts (\<open>components/charts-select.tsx\<close>,
  \<open>shared-state/memory-state.ts\<close>, \<open>3-biz-ui/src/charts-multi-select.tsx\<close>). The cache of React Query is not modelled: a
  refetch is an entry in a list.
\<close>

subsection \<open>The request of a chart\<close>

text \<open>\<open>a % b\<close>: the sign is that of the dividend.\<close>

fun js_mod :: "jsnum \<Rightarrow> jsnum \<Rightarrow> jsnum" where
  "js_mod (Fin a) (Fin b) =
     (if b = 0 then NaN
      else (let q = a / b; t = (if 0 \<le> q then of_int \<lfloor>q\<rfloor> else of_int \<lceil>q\<rceil>) in Fin (a - b * t)))"
| "js_mod (Fin a) PosInf = Fin a"
| "js_mod (Fin a) NegInf = Fin a"
| "js_mod _ _ = NaN"

definition fixTimeRange :: "jsnum \<Rightarrow> TimeRange_v2 \<Rightarrow> jsnum \<Rightarrow> jsnum \<times> jsnum" where
  "fixTimeRange now timeRange stp =
     (let tr = toTimeRangeValue_v2 now timeRange 0
      in (fst tr - js_mod (fst tr) stp, snd tr - js_mod (snd tr) stp))"

text \<open>\<open>offsetWidth\<close> is \<^term>\<open>None\<close> before the chart is mounted.\<close>

definition getStep :: "jsnum \<Rightarrow> jsnum option \<Rightarrow> jsnum \<Rightarrow> TimeRange_v2 \<Rightarrow> jsnum" where
  "getStep now offsetWidth scrapeInterval timeRange =
     (case offsetWidth of
        None \<Rightarrow> 0
      | Some w \<Rightarrow> calcPromQueryStep (toTimeRangeValue_v2 now timeRange 0) (w - Fin 200) scrapeInterval (Fin 4))"

record metric_request =
  mr_metricName :: string
  mr_beginTime :: jsnum
  mr_endTime :: jsnum
  mr_step :: jsnum
  mr_label :: "string option"

definition metric_request_of ::
    "jsnum \<Rightarrow> jsnum \<Rightarrow> jsnum option \<Rightarrow> jsnum \<Rightarrow> string \<Rightarrow> TimeRange_v2 \<Rightarrow> string option \<Rightarrow> metric_request" where
  "metric_request_of now now' offsetWidth scrapeInterval metricName timeRange labelValue =
     (let stp = getStep now offsetWidth scrapeInterval timeRange; tr = fixTimeRange now' timeRange stp
      in \<lparr>mr_metricName = metricName, mr_beginTime = fst tr, mr_endTime = snd tr, mr_step = stp, mr_label = labelValue\<rparr>)"

subsection \<open>A chart on the screen\<close>

text \<open>
  \<open>refreshes\<close> counts the refreshes of the whole page; each fetch is recorded with the inputs and the count it was made
  with. Both are for the statements only.
\<close>

record metric_chart =
  mc_name :: string
  mc_timeRange :: TimeRange_v2
  mc_label :: "string option"
  mc_refresh :: string
  isVisible :: bool
  isFetched :: bool
  refreshes :: nat
  fetches :: "(TimeRange_v2 \<times> string option \<times> nat) list"

definition refetch :: "metric_chart \<Rightarrow> metric_chart" where
  "refetch s = s\<lparr>fetches := fetches s @ [(mc_timeRange s, mc_label s, refreshes s)]\<rparr>"

definition on_intersect :: "bool \<Rightarrow> metric_chart \<Rightarrow> metric_chart" where
  "on_intersect isIntersecting s =
     (let s = s\<lparr>isVisible := isIntersecting\<rparr>
      in if isIntersecting \<and> \<not> isFetched s then (refetch s)\<lparr>isFetched := True\<rparr> else s)"

definition inputs_effect :: "metric_chart \<Rightarrow> metric_chart" where
  "inputs_effect s = (if isVisible s then (refetch s)\<lparr>isFetched := True\<rparr> else s\<lparr>isFetched := False\<rparr>)"

definition refresh_effect :: "metric_chart \<Rightarrow> metric_chart" where
  "refresh_effect s =
     (if prefix ''_'' (mc_refresh s) then
        (if \<not> prefix (''_'' @ mc_name s) (mc_refresh s) then s
         else if isVisible s then refetch s else s)
      else if isVisible s then (refetch s)\<lparr>isFetched := True\<rparr> else s\<lparr>isFetched := False\<rparr>)"

definition mount_chart :: "string \<Rightarrow> TimeRange_v2 \<Rightarrow> string option \<Rightarrow> string \<Rightarrow> metric_chart" where
  "mount_chart name timeRange labelValue refresh =
     refresh_effect (inputs_effect
       \<lparr>mc_name = name, mc_timeRange = timeRange, mc_label = labelValue, mc_refresh = refresh,
        isVisible = False, isFetched = False, refreshes = 0, fetches = []\<rparr>)"

datatype metric_event = Intersect bool | SetInputs TimeRange_v2 "string option" | SetRefresh string

fun metric_step :: "metric_event \<Rightarrow> metric_chart \<Rightarrow> metric_chart" where
  "metric_step (Intersect b) s = on_intersect b s"
| "metric_step (SetInputs tr l) s =
     (if tr = mc_timeRange s \<and> l = mc_label s then s else inputs_effect (s\<lparr>mc_timeRange := tr, mc_label := l\<rparr>))"
| "metric_step (SetRefresh r) s =
     (if r = mc_refresh s then s
      else refresh_effect (s\<lparr>mc_refresh := r, refreshes := (if prefix ''_'' r then refreshes s else Suc (refreshes s))\<rparr>))"

text \<open>The series of a chart: \<open>legend\<close> and result of each query.\<close>

definition chart_series_ids :: "('item list) list \<Rightarrow> string list" where
  "chart_series_ids metrics =
     concat (map2 (\<lambda>qIdx items. map (\<lambda>dIdx. show_nat qIdx @ ''-'' @ show_nat dIdx) [0..<length items]) [0..<length metrics] metrics)"

subsection \<open>Brushing\<close>

definition niceTimeFormat :: "jsnum \<Rightarrow> string" where
  "niceTimeFormat seconds =
     (if Fin (5 * 24 * 60 * 60) < seconds then ''MM-DD''
      else if Fin (1 * 24 * 60 * 60) < seconds then ''MM-DD HH:mm''
      else if Fin (5 * 60) < seconds then ''HH:mm''
      else ''HH:mm:ss'')"

definition alignRange_v2 :: "TimeRangeValue \<Rightarrow> jsnum \<Rightarrow> jsnum \<Rightarrow> TimeRangeValue" where
  "alignRange_v2 tr minIntervalSec minRangeSec =
     (let mn = fst tr; mx = snd tr;
          mn = (if mx - mn < minRangeSec then mx - minRangeSec else mn)
      in (js_floor (js_div mn minIntervalSec) * minIntervalSec, js_ceil (js_div mx minIntervalSec) * minIntervalSec))"

definition series_handleBrushEnd :: "(jsnum \<times> jsnum) option \<Rightarrow> TimeRangeValue option" where
  "series_handleBrushEnd x =
     map_option (\<lambda>(a, b). alignRange_v2 (js_floor (js_div a (Fin 1000)), js_floor (js_div b (Fin 1000))) (Fin 30) (Fin 60)) x"

definition handleTimeRangeChange :: "TimeRangeValue \<Rightarrow> patch" where
  "handleTimeRangeChange v = setTimeRange_v2 (Absolute_v2 (fst v) (snd v))"

subsection \<open>The choice of charts\<close>

record chart_item =
  ci_category :: string
  ci_label :: string
  ci_val :: string

record panel_config =
  pc_group :: string
  pc_category :: string
  pc_charts :: "(string \<times> string) list"

definition curPanelConfigs :: "string \<Rightarrow> panel_config list \<Rightarrow> panel_config list" where
  "curPanelConfigs panel ps = filter (\<lambda>p. pc_group p = (if panel = [] then ''basic'' else panel)) ps"

text \<open>A chart of a panel has its title and the name of its metric; \<open>tk\<close> translates.\<close>

definition chartsSelectData :: "(string \<Rightarrow> string) \<Rightarrow> panel_config list \<Rightarrow> chart_item list" where
  "chartsSelectData tk ps =
     concat (map (\<lambda>p. map (\<lambda>(title, name). \<lparr>ci_category = tk (pc_category p), ci_label = title, ci_val = name\<rparr>) (pc_charts p)) ps)"

definition chartsSelectValue :: "chart_item list \<Rightarrow> string list \<Rightarrow> string list" where
  "chartsSelectValue d hiddenCharts = filter (\<lambda>v. v \<notin> set hiddenCharts) (map ci_val d)"

definition charts_onReset :: "chart_item list \<Rightarrow> string list \<Rightarrow> string list" where
  "charts_onReset d hiddenCharts = filter (\<lambda>v. v \<notin> set (map ci_val d)) hiddenCharts"

definition charts_onSelect :: "string \<Rightarrow> string list \<Rightarrow> string list" where
  "charts_onSelect v hiddenCharts = filter (\<lambda>w. w \<noteq> v) hiddenCharts"

definition charts_onUnSelect :: "string \<Rightarrow> string list \<Rightarrow> string list" where
  "charts_onUnSelect v hiddenCharts = hiddenCharts @ [v]"

definition charts_handleCheckChange :: "bool \<Rightarrow> string \<Rightarrow> string list \<Rightarrow> string list" where
  "charts_handleCheckChange checked v hiddenCharts =
     (if checked then charts_onSelect v hiddenCharts else charts_onUnSelect v hiddenCharts)"

definition charts_filteredData :: "bool \<Rightarrow> string \<Rightarrow> string list \<Rightarrow> chart_item list \<Rightarrow> chart_item list" where
  "charts_filteredData showHidden search value d =
     (let d = filter (\<lambda>item. \<not> showHidden \<or> (ci_val item \<notin> set value \<and> ''all'' \<notin> set value)) d;
          t = trim (toLowerCase search)
      in if t \<noteq> [] then filter (\<lambda>item. indexOf (toLowerCase (ci_val item)) t 0 \<noteq> None \<or>
                                     indexOf (toLowerCase (ci_label item)) t 0 \<noteq> None) d
         else d)"

definition visibleCharts :: "string list \<Rightarrow> panel_config \<Rightarrow> (string \<times> string) list" where
  "visibleCharts hiddenCharts p = filter (\<lambda>c. snd c \<notin> set hiddenCharts) (pc_charts p)"

text \<open>The hidden charts in the local storage, and what is read from it when the page is loaded.\<close>

definition store_hidden :: "string list \<Rightarrow> string option" where
  "store_hidden hiddenCharts = Some (join '','' hiddenCharts)"

definition load_hidden :: "string option \<Rightarrow> string list" where
  "load_hidden item = (case item of None \<Rightarrow> [] | Some s \<Rightarrow> split_on (CHR '','') s)"

subsection \<open>Properties\<close>

text \<open>A chart that counts as fetched has asked for its present inputs since the last refresh of the page.\<close>

definition chart_fresh :: "metric_chart \<Rightarrow> bool" where
  "chart_fresh s \<longleftrightarrow> fetches s \<noteq> [] \<and> last (fetches s) = (mc_timeRange s, mc_label s, refreshes s)"

definition chart_ok :: "metric_chart \<Rightarrow> bool" where
  "chart_ok s \<longleftrightarrow> (isVisible s \<longrightarrow> isFetched s) \<and> (isFetched s \<longrightarrow> chart_fresh s)"

lemmas metric_defs = refetch_def on_intersect_def inputs_effect_def refresh_effect_def chart_fresh_def chart_ok_def

lemma metric_step_ok: "chart_ok s \<Longrightarrow> chart_ok (metric_step e s)"
  by (cases e) (auto simp: metric_defs Let_def)

lemma mount_chart_ok: "chart_ok (mount_chart name tr l r)"
  by (simp add: mount_chart_def metric_defs)

lemma metric_run_ok: "chart_ok (fold metric_step es (mount_chart name tr l r))"
  by (rule fold_invariant [where Q = "\<lambda>_. True"]) (simp_all add: mount_chart_ok metric_step_ok)

lemma metric_step_fetches: "fetches (metric_step e s) \<noteq> fetches s \<Longrightarrow> isVisible (metric_step e s)"
  by (cases e) (auto simp: metric_defs Let_def split: if_splits)

text \<open>
  C24: a chart on the screen is up to date, and one off the screen is quiet. After any changes of the time range, the label
  and the refresh token and any scrolling, the last request of a visible chart was made for its present inputs and after
  the last refresh of the page; and a step makes a request only if the chart is visible after it.
\<close>

theorem metric_chart_fresh:
  "(isVisible (fold metric_step es (mount_chart name tr l r)) \<longrightarrow>
      chart_fresh (fold metric_step es (mount_chart name tr l r))) \<and>
   (fetches (metric_step e (fold metric_step es (mount_chart name tr l r))) \<noteq> fetches (fold metric_step es (mount_chart name tr l r)) \<longrightarrow>
      isVisible (metric_step e (fold metric_step es (mount_chart name tr l r))))"
  using metric_run_ok [of es name tr l r] metric_step_fetches by (auto simp: chart_ok_def)

theorem metric_chart_fresh_witness:
  "chart_fresh (fold metric_step [SetInputs (Relative (Fin 60)) None, SetRefresh ''17'', Intersect True]
     (mount_chart ''cpu'' (Relative (Fin 30)) None []))"
  using metric_chart_fresh [of "[SetInputs (Relative (Fin 60)) None, SetRefresh ''17'', Intersect True]" "''cpu''"
      "Relative (Fin 30)" None "[]"]
  by (simp add: mount_chart_def metric_defs)

text \<open>The refresh of one chart is also taken by every visible chart whose name is a prefix of its name.\<close>

lemma own_refresh_reaches_prefix:
  assumes "isVisible s" and "mc_refresh s \<noteq> ''_'' @ mc_name s @ x"
  shows "length (fetches (metric_step (SetRefresh (''_'' @ mc_name s @ x)) s)) = Suc (length (fetches s))"
  using assms by (simp add: metric_defs)

lemma js_mod_pos:
  assumes "0 < b" and "0 \<le> a"
  shows "js_mod (Fin a) (Fin b) = Fin (a - b * of_int \<lfloor>a / b\<rfloor>)"
  using assms by simp

lemma floor_step:
  fixes a b :: rat
  assumes "0 < b"
  shows "of_int \<lfloor>a / b\<rfloor> * b \<le> a" and "a < (of_int \<lfloor>a / b\<rfloor> + 1) * b"
proof -
  have "of_int \<lfloor>a / b\<rfloor> \<le> a / b" by (rule of_int_floor_le)
  then show "of_int \<lfloor>a / b\<rfloor> * b \<le> a" using assms by (simp only: pos_le_divide_eq)
  have "a / b < of_int \<lfloor>a / b\<rfloor> + 1" by linarith
  then show "a < (of_int \<lfloor>a / b\<rfloor> + 1) * b" using assms by (simp only: pos_divide_less_eq)
qed

text \<open>
  The request of a chart is aligned to its step. For a time range \<open>a < b\<close> after 1970, a chart wider than its legend
  and a positive scrape interval, the step is a positive multiple of the interval that gives at most one point for four
  pixels, and both ends of the window are the multiples of the step at or just before the ends of the range.
\<close>

theorem metric_request_aligned:
  assumes "toTimeRangeValue_v2 now timeRange 0 = (Fin a, Fin b)" and "0 \<le> a" and "a < b"
    and "0 < scrape" and "200 < w"
  shows "\<exists>k i j :: int. 0 < k \<and>
    metric_request_of now now (Some (Fin w)) (Fin scrape) name timeRange lab =
      \<lparr>mr_metricName = name, mr_beginTime = Fin (of_int i * (of_int k * scrape)),
       mr_endTime = Fin (of_int j * (of_int k * scrape)), mr_step = Fin (of_int k * scrape), mr_label = lab\<rparr> \<and>
    (b - a) / (of_int k * scrape) \<le> (w - 200) / 4 \<and>
    of_int i * (of_int k * scrape) \<le> a \<and> a < (of_int i + 1) * (of_int k * scrape) \<and>
    of_int j * (of_int k * scrape) \<le> b \<and> b < (of_int j + 1) * (of_int k * scrape)"
proof -
  obtain k :: int where k: "0 < k"
      "calcPromQueryStep (Fin a, Fin b) (Fin (w - 200)) (Fin scrape) (Fin 4) = Fin (of_int k * scrape)"
      "(b - a) / (of_int k * scrape) \<le> (w - 200) / 4"
    using calcPromQueryStep_smallest [of scrape 4 "w - 200" a b] assms(3-5) by auto
  define s where "s = of_int k * scrape"
  have s: "0 < s"
    using k(1) assms(4) by (simp add: s_def)
  have req: "metric_request_of now now (Some (Fin w)) (Fin scrape) name timeRange lab =
      \<lparr>mr_metricName = name, mr_beginTime = Fin (of_int \<lfloor>a / s\<rfloor> * s), mr_endTime = Fin (of_int \<lfloor>b / s\<rfloor> * s), mr_step = Fin s,
       mr_label = lab\<rparr>"
    using assms(1-3) k(2) [folded s_def] s
    by (simp add: metric_request_of_def getStep_def fixTimeRange_def Let_def js_mod_pos mult.commute del: js_mod.simps)
  show ?thesis
    using k(1,3) req floor_step [OF s, of a] floor_step [OF s, of b] unfolding s_def by blast
qed

theorem metric_request_aligned_witness:
  "\<exists>k i j :: int. 0 < k \<and>
    metric_request_of 0 0 (Some (Fin 600)) (Fin 30) ''cpu'' (Absolute_v2 (Fin 1000) (Fin 4600)) None =
      \<lparr>mr_metricName = ''cpu'', mr_beginTime = Fin (of_int i * (of_int k * 30)),
       mr_endTime = Fin (of_int j * (of_int k * 30)), mr_step = Fin (of_int k * 30), mr_label = None\<rparr>"
  using metric_request_aligned [of 0 "Absolute_v2 (Fin 1000) (Fin 4600)" 1000 4600 30 600 "''cpu''" None]
  by (auto simp: toTimeRangeValue_v2_def zero_jsnum_def)

lemma series_handleBrushEnd_value:
  assumes "a \<le> b"
  shows "\<exists>i j :: int. series_handleBrushEnd (Some (Fin a, Fin b)) = Some (js_int (30 * i), js_int (30 * j)) \<and>
    30 * of_int i \<le> a / 1000 \<and> b / 1000 < 30 * of_int j + 1 \<and> 60 \<le> 30 * j - 30 * i"
proof -
  define x y where "x = \<lfloor>a / 1000\<rfloor>" and "y = \<lfloor>b / 1000\<rfloor>"
  define m where "m = (if y - x < 60 then y - 60 else x)"
  have xy: "of_int x \<le> a / 1000" "b / 1000 < of_int y + 1" "x \<le> y"
    using assms by (simp_all only: x_def y_def of_int_floor_le floor_mono divide_right_mono zero_le_numeral) linarith
  have m: "m \<le> x" "m \<le> y - 60"
    by (simp_all add: m_def)
  have f: "\<lfloor>of_int m / 30 :: rat\<rfloor> = m div 30"
    using floor_divide_of_int_eq [of m 30, where 'a = rat] by simp
  have c: "\<lceil>of_int y / 30 :: rat\<rceil> = - (- y div 30)"
    using ceiling_divide_eq_div [of y 30, where 'a = rat] by simp
  have "(Fin (of_int y) - Fin (of_int x) < Fin 60) = (y - x < 60)"
    by (simp flip: of_int_diff)
  then have "alignRange_v2 (Fin (of_int x), Fin (of_int y)) (Fin 30) (Fin 60) =
      (js_floor (js_div (Fin (of_int m)) (Fin 30)) * Fin 30, js_ceil (js_div (Fin (of_int y)) (Fin 30)) * Fin 30)"
    by (simp add: alignRange_v2_def Let_def m_def del: js_div.simps times_jsnum.simps)
  then have "series_handleBrushEnd (Some (Fin a, Fin b)) = Some (js_int (30 * (m div 30)), js_int (30 * - (- y div 30)))"
    by (simp add: series_handleBrushEnd_def f c flip: x_def y_def)
  moreover have "30 * of_int (m div 30) \<le> a / 1000"
  proof -
    have "30 * (m div 30) \<le> x" using m(1) by (simp add: dual_order.trans [of x m])
    then have "(of_int (30 * (m div 30)) :: rat) \<le> of_int x" by (simp only: of_int_le_iff)
    with xy(1) show ?thesis by simp
  qed
  moreover have "b / 1000 < 30 * of_int (- (- y div 30)) + 1"
  proof -
    have "y \<le> 30 * - (- y div 30)" by presburger
    then have "(of_int y :: rat) \<le> of_int (30 * - (- y div 30))" by (simp only: of_int_le_iff)
    with xy(2) show ?thesis by simp
  qed
  moreover have "60 \<le> 30 * - (- y div 30) - 30 * (m div 30)"
  proof -
    have "y \<le> 30 * - (- y div 30)" by presburger
    moreover have "30 * (m div 30) \<le> m" by simp
    ultimately show ?thesis using m(2) by linarith
  qed
  ultimately show ?thesis by blast
qed

text \<open>
  Brushing a chart zooms the page. For a brush from \<open>a\<close> to \<open>b\<close> milliseconds, the range that is written to the search
  string reads back unchanged, is a multiple of 30 seconds at both ends, at least a minute long, and contains the brushed
  range up to the last second.
\<close>

theorem chart_brush_zooms:
  assumes "url_store get put" and "a \<le> b"
  shows "\<exists>i j :: int. series_handleBrushEnd (Some (Fin a, Fin b)) = Some (js_int (30 * i), js_int (30 * j)) \<and>
    toTimeRangeValue_v2 now (timeRange_v2 dflt (get (put s (handleTimeRangeChange (js_int (30 * i), js_int (30 * j)))))) 0 =
      (js_int (30 * i), js_int (30 * j)) \<and>
    30 * of_int i \<le> a / 1000 \<and> b / 1000 < 30 * of_int j + 1 \<and> 60 \<le> 30 * j - 30 * i"
proof -
  have "wf_range_v2 (Absolute_v2 (js_int i) (js_int j))" for i j
    using whole_js_int [of i] whole_js_int [of j] by (simp add: wf_range_v2_def)
  from url_store.timeRange_setTimeRange_v2 [OF assms(1) this] have
    "toTimeRangeValue_v2 now (timeRange_v2 dflt (get (put s (handleTimeRangeChange (js_int i, js_int j))))) 0 = (js_int i, js_int j)" for i j
    by (simp add: handleTimeRangeChange_def toTimeRangeValue_v2_def zero_jsnum_def)
  then show ?thesis
    using series_handleBrushEnd_value [OF assms(2)] by blast
qed

theorem chart_brush_zooms_witness:
  "\<exists>i j :: int. series_handleBrushEnd (Some (Fin 100500, Fin 103000)) = Some (js_int (30 * i), js_int (30 * j)) \<and>
    toTimeRangeValue_v2 0 (timeRange_v2 None (queryParams (setQueryParams []
      (handleTimeRangeChange (js_int (30 * i), js_int (30 * j)))))) 0 = (js_int (30 * i), js_int (30 * j))"
proof -
  have "(100500 :: rat) \<le> 103000" by simp
  from chart_brush_zooms [OF url.url_store_axioms this] show ?thesis by blast
qed

subsection \<open>Hidden charts\<close>

definition plain_names :: "string list \<Rightarrow> bool" where
  "plain_names ns \<longleftrightarrow> (\<forall>n \<in> set ns. n \<noteq> [] \<and> CHR '','' \<notin> set n)"

lemma set_load_store:
  assumes "\<forall>n \<in> set h. CHR '','' \<notin> set n"
  shows "set (load_hidden (store_hidden h)) = (if h = [] then {[]} else set h)"
  using assms split_join [of h "CHR '',''"] by (simp add: load_hidden_def store_hidden_def)

lemma visibleCharts_chosen:
  "snd ` set (visibleCharts h p) = set (chartsSelectValue (chartsSelectData tk [p]) h)"
  by (force simp: visibleCharts_def chartsSelectValue_def chartsSelectData_def)

text \<open>
  Hiding and showing charts. The check box of a chart hides or shows exactly that chart; the reset shows every chart of
  the present panels and leaves the others as they are; and what is hidden stays hidden when the page is loaded again.
\<close>

theorem hidden_charts_choice:
  "(\<forall>n. n \<in> set (charts_handleCheckChange checked v h) \<longleftrightarrow> (if n = v then \<not> checked else n \<in> set h)) \<and>
   chartsSelectValue d (charts_onReset d h) = map ci_val d \<and>
   (\<forall>n. n \<notin> set (map ci_val d) \<longrightarrow> (n \<in> set (charts_onReset d h) \<longleftrightarrow> n \<in> set h)) \<and>
   (plain_names (h @ map snd (pc_charts p)) \<longrightarrow> visibleCharts (load_hidden (store_hidden h)) p = visibleCharts h p)"
proof (intro conjI impI)
  show "chartsSelectValue d (charts_onReset d h) = map ci_val d"
    by (auto simp: chartsSelectValue_def charts_onReset_def filter_id_conv)
  assume plain: "plain_names (h @ map snd (pc_charts p))"
  then have "set (load_hidden (store_hidden h)) = (if h = [] then {[]} else set h)"
    by (intro set_load_store) (simp add: plain_names_def)
  then have "snd c \<in> set (load_hidden (store_hidden h)) \<longleftrightarrow> snd c \<in> set h" if "c \<in> set (pc_charts p)" for c
    using plain that by (auto simp: plain_names_def)
  then show "visibleCharts (load_hidden (store_hidden h)) p = visibleCharts h p"
    by (simp add: visibleCharts_def cong: filter_cong)
qed (auto simp: charts_handleCheckChange_def charts_onSelect_def charts_onUnSelect_def charts_onReset_def)

theorem hidden_charts_choice_witness:
  "visibleCharts (load_hidden (store_hidden [])) \<lparr>pc_group = ''basic'', pc_category = ''c'', pc_charts = [(''T'', ''cpu'')]\<rparr> = [(''T'', ''cpu'')]"
  using hidden_charts_choice [where h = "[]" and p = "\<lparr>pc_group = ''basic'', pc_category = ''c'', pc_charts = [(''T'', ''cpu'')]\<rparr>"]
  by (simp add: plain_names_def visibleCharts_def)

lemma chart_series_ids_sample: "chart_series_ids [[()], [(), ()]] = [''0-0'', ''1-0'', ''1-1'']"
  by code_simp

end
