(* ===== verification/SignIn.thy ===== *)
theory SignIn
  imports Session
begin

text \<open>
  The sign in page of the operator distribution, \<open>dashboardApp/layout/signin/index.tsx\<close>: the choice of the form, the forms
  for TiDB users, sharing codes and single sign-on, and their submission with answers in any order. The browser, the token
  and the address of single sign-on are those of \<open>Session\<close>. A form that is replaced while its request is under way is
  gone, its request is not. The encryption of the password (the package \<open>jsencrypt\<close>) is a parameter.
\<close>

datatype DisplayFormType = Uninitialized | TidbCredential | ShareCode | Sso

definition AuthTypes_SQLUser :: int where "AuthTypes_SQLUser = 0"
definition AuthTypes_SharingCode :: int where "AuthTypes_SharingCode = 1"
definition AuthTypes_SSO :: int where "AuthTypes_SSO = 2"

record signin_form =
  sf_username :: string
  sf_password :: "string option"
  sf_code :: "string option"

text \<open>The password of a request: the text itself, or what the encryption returns (\<^term>\<open>None\<close> is \<open>false\<close>).\<close>

datatype login_password = Plain "string option" | Encrypted "string option"

record UserAuthenticateForm =
  af_username :: "string option"
  af_password :: login_password
  af_type :: int

definition pem_header :: string where "pem_header = ''-----BEGIN PUBLIC KEY-----''"
definition pem_footer :: string where "pem_footer = ''-----END PUBLIC KEY-----''"

definition pem_key :: "string \<Rightarrow> string" where
  "pem_key publicKey = (if prefix pem_header publicKey then publicKey else pem_header @ publicKey @ pem_footer)"

definition tidb_login_form :: "(string \<Rightarrow> string \<Rightarrow> string option) \<Rightarrow> string \<Rightarrow> signin_form \<Rightarrow> UserAuthenticateForm" where
  "tidb_login_form encrypt publicKey f =
     (let password = (case sf_password f of None \<Rightarrow> [] | Some p \<Rightarrow> p)
      in \<lparr>af_username = Some (sf_username f),
          af_password = (if publicKey \<noteq> [] then Encrypted (encrypt (pem_key publicKey) password) else Plain (Some password)),
          af_type = AuthTypes_SQLUser\<rparr>)"

definition code_login_form :: "signin_form \<Rightarrow> UserAuthenticateForm" where
  "code_login_form f = \<lparr>af_username = None, af_password = Plain (sf_code f), af_type = AuthTypes_SharingCode\<rparr>"

subsection \<open>State\<close>

record login_error =
  le_handled :: bool
  le_message :: string
  le_errCode :: "string option"

datatype signin_error = ErrorText string | ErrorWithDoc string

record inflight =
  if_mount :: nat
  if_kind :: DisplayFormType
  if_form :: signin_form
  if_request :: UserAuthenticateForm

record signin_page =
  formType :: DisplayFormType
  alternativeVisible :: bool
  supportedAuthTypes :: "int list"
  publicKey :: string
  form_mount :: nat
  form_loading :: bool
  form_error :: "signin_error option"
  form_fields :: signin_form
  logins :: "inflight list"

definition LAST_LOGIN_USERNAME_KEY :: string where
  "LAST_LOGIN_USERNAME_KEY = ''dashboard_last_login_username''"

definition lastLoginUsername :: "'w browser \<Rightarrow> string" where
  "lastLoginUsername b = (case localStorage b LAST_LOGIN_USERNAME_KEY of None \<Rightarrow> [] | Some u \<Rightarrow> u)"

definition init_signin :: signin_page where
  "init_signin =
     \<lparr>formType = Uninitialized, alternativeVisible = False, supportedAuthTypes = [0], publicKey = [], form_mount = 0,
      form_loading = False, form_error = None,
      form_fields = \<lparr>sf_username = [], sf_password = None, sf_code = None\<rparr>, logins = []\<rparr>"

text \<open>Showing another form mounts it afresh.\<close>

definition setFormType :: "'w browser \<Rightarrow> DisplayFormType \<Rightarrow> signin_page \<Rightarrow> signin_page" where
  "setFormType b k p =
     (if k = formType p then p
      else p\<lparr>formType := k, form_mount := Suc (form_mount p), form_loading := False, form_error := None,
             form_fields := \<lparr>sf_username = lastLoginUsername b, sf_password = None, sf_code = None\<rparr>\<rparr>)"

definition handleSwitchForm :: "'w browser \<Rightarrow> DisplayFormType \<Rightarrow> signin_page \<Rightarrow> signin_page" where
  "handleSwitchForm b k p = (setFormType b k p)\<lparr>alternativeVisible := False\<rparr>"

text \<open>The forms offered by the dialog of alternatives.\<close>

definition offered_forms :: "signin_page \<Rightarrow> DisplayFormType list" where
  "offered_forms p = [TidbCredential, ShareCode] @ (if AuthTypes_SSO \<in> set (supportedAuthTypes p) then [Sso] else [])"

record login_info =
  supported_auth_types :: "int list option"
  sql_auth_public_key :: "string option"

datatype info_answer = Info login_info | InfoFailed "int option"

text \<open>A failure other than 404 shows a dialog whose only way on is to load the page again.\<close>

definition login_info_answered :: "'w browser \<Rightarrow> info_answer \<Rightarrow> signin_page \<Rightarrow> signin_page" where
  "login_info_answered b res p =
     (case res of
        Info i \<Rightarrow>
          (let types = (case supported_auth_types i of None \<Rightarrow> [] | Some ts \<Rightarrow> ts);
               p = setFormType b (if AuthTypes_SSO \<in> set types then Sso else TidbCredential) p;
               p = p\<lparr>supportedAuthTypes := types\<rparr>
           in case sql_auth_public_key i of
                None \<Rightarrow> p | Some k \<Rightarrow> if k \<noteq> [] then p\<lparr>publicKey := k\<rparr> else p)
      | InfoFailed st \<Rightarrow> if st = Some 404 then setFormType b TidbCredential p else p)"

subsection \<open>Submission\<close>

text \<open>
  The request of a submitted form. The user name is required; the button of a form that is loading does nothing. The form
  for single sign-on asks \<open>getAuthURL\<close> instead.
\<close>

definition login_request :: "(string \<Rightarrow> string \<Rightarrow> string option) \<Rightarrow> signin_page \<Rightarrow> UserAuthenticateForm option" where
  "login_request encrypt p =
     (case formType p of
        TidbCredential \<Rightarrow>
          if sf_username (form_fields p) = [] then None else Some (tidb_login_form encrypt (publicKey p) (form_fields p))
      | ShareCode \<Rightarrow> Some (code_login_form (form_fields p))
      | _ \<Rightarrow> None)"

definition signin_submit :: "(string \<Rightarrow> string \<Rightarrow> string option) \<Rightarrow> signin_page \<Rightarrow> signin_page" where
  "signin_submit encrypt p =
     (if form_loading p then p
      else case login_request encrypt p of
             None \<Rightarrow> p
           | Some r \<Rightarrow>
               p\<lparr>form_error := None, form_loading := True,
                 logins := logins p @ [\<lparr>if_mount = form_mount p, if_kind = formType p, if_form = form_fields p, if_request = r\<rparr>]\<rparr>)"

definition insufficient_priv :: string where
  "insufficient_priv = ''api.user.signin.insufficient_priv''"

definition signin_error_of :: "(string \<Rightarrow> string) \<Rightarrow> bool \<Rightarrow> login_error \<Rightarrow> signin_error" where
  "signin_error_of t isDistro e =
     (if le_errCode e \<noteq> Some insufficient_priv then ErrorText (t (le_message e))
      else if isDistro then ErrorText (t (le_message e)) else ErrorWithDoc (t (le_message e)))"

definition clear_secret :: "DisplayFormType \<Rightarrow> signin_form \<Rightarrow> signin_form" where
  "clear_secret k f = (if k = TidbCredential then f\<lparr>sf_password := Some []\<rparr> else f\<lparr>sf_code := Some []\<rparr>)"

definition login_answered ::
    "(string \<Rightarrow> string) \<Rightarrow> bool \<Rightarrow> string \<Rightarrow> nat \<Rightarrow> login_error + string \<Rightarrow> signin_page \<times> 'w browser \<Rightarrow> signin_page \<times> 'w browser" where
  "login_answered t isDistro successRoute n res = (\<lambda>(p, b).
     if length (logins p) \<le> n then (p, b)
     else (let l = logins p ! n; mine = (if_mount l = form_mount p);
               p = p\<lparr>logins := take n (logins p) @ drop (Suc n) (logins p)\<rparr>;
               pb = (case res of
                  Inr token \<Rightarrow>
                    (let b = (setAuthToken token b)\<lparr>hash := successRoute\<rparr>
                     in (p, if if_kind l = TidbCredential
                            then b\<lparr>localStorage := (localStorage b)(LAST_LOGIN_USERNAME_KEY \<mapsto> sf_username (if_form l))\<rparr> else b))
                | Inl e \<Rightarrow>
                    (if le_handled e \<or> \<not> mine then p
                     else p\<lparr>form_error := Some (signin_error_of t isDistro e), form_fields := clear_secret (if_kind l) (form_fields p)\<rparr>, b))
           in (if mine then (fst pb)\<lparr>form_loading := False\<rparr> else fst pb, snd pb)))"

datatype signin_event =
    SwitchForm DisplayFormType
  | ShowAlternative bool
  | LoginInfo info_answer
  | TypeUsername string
  | TypePassword string
  | TypeCode string
  | Submit
  | LoginAnswer nat "login_error + string"

text \<open>\<open>cfg\<close>: encryption, translation of errors, distribution, route after success, and whether user names can be chosen.\<close>

record signin_cfg =
  encrypt :: "string \<Rightarrow> string \<Rightarrow> string option"
  error_text :: "string \<Rightarrow> string"
  isDistro :: bool
  successRoute :: string
  supportNonRootLogin :: bool

fun signin_step :: "signin_cfg \<Rightarrow> signin_event \<Rightarrow> signin_page \<times> 'w browser \<Rightarrow> signin_page \<times> 'w browser" where
  "signin_step C (SwitchForm k) (p, b) =
     (if alternativeVisible p \<and> k \<in> set (offered_forms p) then handleSwitchForm b k p else p, b)"
| "signin_step C (ShowAlternative v) (p, b) = (if formType p = Uninitialized then p else p\<lparr>alternativeVisible := v\<rparr>, b)"
| "signin_step C (LoginInfo res) (p, b) = (if formType p = Uninitialized then login_info_answered b res p else p, b)"
| "signin_step C (TypeUsername u) (p, b) =
     (if formType p = TidbCredential \<and> supportNonRootLogin C
      then p\<lparr>form_error := None, form_fields := (form_fields p)\<lparr>sf_username := u\<rparr>\<rparr> else p, b)"
| "signin_step C (TypePassword w) (p, b) =
     (if formType p = TidbCredential \<and> \<not> form_loading p
      then p\<lparr>form_error := None, form_fields := (form_fields p)\<lparr>sf_password := Some w\<rparr>\<rparr> else p, b)"
| "signin_step C (TypeCode w) (p, b) =
     (if formType p = ShareCode \<and> \<not> form_loading p
      then p\<lparr>form_error := None, form_fields := (form_fields p)\<lparr>sf_code := Some w\<rparr>\<rparr> else p, b)"
| "signin_step C Submit (p, b) = (signin_submit (encrypt C) p, b)"
| "signin_step C (LoginAnswer n res) pb = login_answered (error_text C) (isDistro C) (successRoute C) n res pb"

subsection \<open>The invariant\<close>

text \<open>\<open>sealed_login\<close>: the password of a TiDB user is encrypted with the key of the server when there is one.\<close>

definition sealed_login :: "signin_cfg \<Rightarrow> string \<Rightarrow> inflight \<Rightarrow> bool" where
  "sealed_login C key l \<longleftrightarrow>
     (if_kind l = TidbCredential \<longrightarrow> key \<noteq> [] \<longrightarrow>
        (\<exists>w. af_password (if_request l) = Encrypted (encrypt C (pem_key key) w)))"

definition signin_inv :: "signin_cfg \<Rightarrow> signin_page \<Rightarrow> bool" where
  "signin_inv C p \<longleftrightarrow>
     (form_loading p \<longleftrightarrow> (\<exists>l \<in> set (logins p). if_mount l = form_mount p)) \<and>
     distinct (map if_mount (logins p)) \<and>
     (\<forall>l \<in> set (logins p). if_mount l \<le> form_mount p \<and> sealed_login C (publicKey p) l) \<and>
     (form_error p \<noteq> None \<longrightarrow> \<not> form_loading p) \<and>
     (formType p = Sso \<longrightarrow> AuthTypes_SSO \<in> set (supportedAuthTypes p)) \<and>
     (formType p = Uninitialized \<longrightarrow> logins p = [] \<and> form_error p = None \<and> \<not> alternativeVisible p)"

lemma signin_inv_init: "signin_inv C init_signin"
  by (simp add: signin_inv_def init_signin_def)

lemma signin_inv_switch:
  assumes "signin_inv C p" and "k \<noteq> Uninitialized" and "k = Sso \<Longrightarrow> AuthTypes_SSO \<in> set (supportedAuthTypes p)"
  shows "signin_inv C (handleSwitchForm b k p)"
  using assms by (fastforce simp: signin_inv_def handleSwitchForm_def setFormType_def)

lemma signin_inv_info:
  assumes "signin_inv C p" and "formType p = Uninitialized"
  shows "signin_inv C (login_info_answered b res p)"
  using assms
  by (auto simp: signin_inv_def login_info_answered_def setFormType_def Let_def split: info_answer.split option.split)

lemma signin_inv_submit:
  assumes "signin_inv C p"
  shows "signin_inv C (signin_submit (encrypt C) p)"
proof (cases "form_loading p \<or> login_request (encrypt C) p = None")
  case True
  then show ?thesis using assms by (auto simp: signin_submit_def)
next
  case False
  then obtain r where r: "login_request (encrypt C) p = Some r" and l: "\<not> form_loading p" by auto
  then have "sealed_login C (publicKey p) \<lparr>if_mount = form_mount p, if_kind = formType p, if_form = form_fields p, if_request = r\<rparr>"
    by (fastforce simp: sealed_login_def login_request_def tidb_login_form_def Let_def split: if_splits)
  moreover have "formType p \<noteq> Uninitialized"
    using r by (auto simp: login_request_def)
  ultimately show ?thesis
    using assms r l by (auto simp: signin_inv_def signin_submit_def)
qed

lemma drop_login:
  assumes "n < length xs" and "distinct (map f xs)"
  shows "distinct (map f (take n xs @ drop (Suc n) xs))"
    and "l \<in> set (take n xs @ drop (Suc n) xs) \<longleftrightarrow> l \<in> set xs \<and> f l \<noteq> f (xs ! n)"
proof -
  obtain ys x zs where xs: "xs = ys @ x # zs" and n: "length ys = n"
    using id_take_nth_drop [OF assms(1)] assms(1) by (metis length_take min.absorb4)
  show "distinct (map f (take n xs @ drop (Suc n) xs))"
    using assms(2) by (simp add: xs flip: n)
  show "l \<in> set (take n xs @ drop (Suc n) xs) \<longleftrightarrow> l \<in> set xs \<and> f l \<noteq> f (xs ! n)"
    using assms(2) by (auto simp: xs image_iff simp flip: n)
qed

lemma signin_inv_answer:
  assumes "signin_inv C p"
  shows "signin_inv C (fst (login_answered t d r n res (p, b)))"
proof (cases "length (logins p) \<le> n")
  case True
  then show ?thesis using assms by (simp add: login_answered_def)
next
  case False
  then have n: "n < length (logins p)" by simp
  from assms have d: "distinct (map if_mount (logins p))" by (simp add: signin_inv_def)
  note drop = drop_login [OF n d]
  let ?p = "p\<lparr>logins := take n (logins p) @ drop (Suc n) (logins p)\<rparr>"
  have mounted: "formType p \<noteq> Uninitialized"
    using assms n by (auto simp: signin_inv_def)
  show ?thesis
  proof (cases "if_mount (logins p ! n) = form_mount p")
    case True
    have "signin_inv C (?p\<lparr>form_error := e, form_fields := f, form_loading := False\<rparr>)" for e f
      using assms True mounted unfolding signin_inv_def by (auto simp: drop simp del: set_append map_append)
    moreover have "signin_inv C (?p\<lparr>form_loading := False\<rparr>)"
      using assms True mounted unfolding signin_inv_def by (auto simp: drop simp del: set_append map_append)
    ultimately show ?thesis
      using False True by (auto simp: login_answered_def Let_def split: sum.split)
  next
    case other: False
    have "form_loading p \<longleftrightarrow> (\<exists>l \<in> set (take n (logins p) @ drop (Suc n) (logins p)). if_mount l = form_mount p)"
      using assms other by (auto simp: signin_inv_def drop simp del: set_append)
    then have "signin_inv C ?p"
      using assms mounted unfolding signin_inv_def by (auto simp: drop simp del: set_append map_append)
    then show ?thesis
      using False other by (auto simp: login_answered_def Let_def split: sum.split)
  qed
qed

lemma signin_inv_typing:
  "signin_inv C p \<Longrightarrow> signin_inv C (p\<lparr>form_error := None, form_fields := f\<rparr>)"
  "signin_inv C p \<Longrightarrow> formType p \<noteq> Uninitialized \<Longrightarrow> signin_inv C (p\<lparr>alternativeVisible := v\<rparr>)"
  by (auto simp: signin_inv_def)

lemma signin_step_inv: "signin_inv C (fst pb) \<Longrightarrow> signin_inv C (fst (signin_step C e pb))"
  by (cases e; cases pb) (auto simp: signin_inv_submit signin_inv_info signin_inv_answer signin_inv_typing offered_forms_def
      intro!: signin_inv_switch split: if_splits)

lemma signin_run_inv: "signin_inv C (fst (fold (signin_step C) es (init_signin, b)))"
  by (rule fold_invariant [where Q = "\<lambda>_. True" and P = "\<lambda>pb. signin_inv C (fst pb)"])
    (simp_all add: signin_inv_init signin_step_inv)

subsection \<open>Properties\<close>


definition sample_cfg :: signin_cfg where
  "sample_cfg =
     \<lparr>encrypt = (\<lambda>k w. Some (k @ w)), error_text = id, isDistro = False, successRoute = ''#/overview'', supportNonRootLogin = True\<rparr>"


lemma localStorage_setAuthToken: "localStorage (setAuthToken t b) = (localStorage b)(tokenKey \<mapsto> t)"
  by (auto simp: setAuthToken_def emit_def reloadWhoAmI_def getAuthToken_def fun_upd_idem split: option.split)

lemma getAuthToken_setAuthToken: "getAuthToken (setAuthToken t b) = Some t"
  by (simp add: getAuthToken_def localStorage_setAuthToken)

lemma getAuthToken_other: "k \<noteq> tokenKey \<Longrightarrow> getAuthToken (b\<lparr>localStorage := (localStorage b)(k \<mapsto> v)\<rparr>) = getAuthToken b"
  by (simp add: getAuthToken_def)

lemma getAuthToken_hash [simp]: "getAuthToken (b\<lparr>hash := h\<rparr>) = getAuthToken b"
  by (simp add: getAuthToken_def)



text \<open>
  When user names cannot be chosen and none is remembered, the name is empty and cannot be typed: a TiDB user cannot sign
  in, whatever is done on the page.
\<close>

definition locked_out :: "signin_page \<times> 'w browser \<Rightarrow> bool" where
  "locked_out pb \<longleftrightarrow> lastLoginUsername (snd pb) = [] \<and> sf_username (form_fields (fst pb)) = [] \<and>
     (\<forall>l \<in> set (logins (fst pb)). if_kind l \<noteq> TidbCredential)"

lemma locked_out_step:
  assumes "\<not> supportNonRootLogin C" and "locked_out pb"
  shows "locked_out (signin_step C e pb)"
proof -
  obtain p b where pb: "pb = (p, b)" by (cases pb)
  have tok: "lastLoginUsername (setAuthToken t b) = lastLoginUsername b" for t
    by (simp add: lastLoginUsername_def localStorage_setAuthToken LAST_LOGIN_USERNAME_KEY_def tokenKey_def)
  show ?thesis
  proof (cases e)
    case (LoginAnswer n res)
    then show ?thesis
      using assms tok unfolding pb
      by (auto simp: locked_out_def login_answered_def Let_def clear_secret_def lastLoginUsername_def
          dest: in_set_takeD in_set_dropD split: sum.split)
  next
    case Submit
    then show ?thesis
      using assms unfolding pb by (auto simp: locked_out_def signin_submit_def login_request_def split: option.split DisplayFormType.split)
  qed (use assms in \<open>auto simp: locked_out_def pb handleSwitchForm_def setFormType_def login_info_answered_def Let_def
        split: info_answer.split option.split\<close>)
qed

lemma old_version_locked_out:
  assumes "\<not> supportNonRootLogin C" and "lastLoginUsername b = []"
  shows "\<forall>l \<in> set (logins (fst (fold (signin_step C) es (init_signin, b)))). if_kind l \<noteq> TidbCredential"
proof -
  have "locked_out (fold (signin_step C) es (init_signin, b))"
    by (rule fold_invariant [where Q = "\<lambda>_. True"])
      (simp_all add: assms locked_out_step, simp add: assms locked_out_def init_signin_def)
  then show ?thesis by (simp add: locked_out_def)
qed

end
