(* ===== verification/TableColumns.thy ===== *)
theory TableColumns
  imports SlowQueryController StatementController
begin

text \<open>
  The columns of the statement and slow query tables, \<open>apps/Statement/utils/tableColumns.tsx\<close> and
  \<open>apps/SlowQuery/utils/tableColumns.tsx\<close>, with the factory that makes them (\<open>utils/tableColumnFactory.tsx\<close>) and the bars
  in their cells (\<open>components/Bar\<close>). A cell is data that says which fields of a record it shows; the widths of the columns
  and the markup of the cells are left out, and the format of values is a parameter. \<open>getSelectedFields\<close> and the derived
  fields are those of the controllers.
\<close>

subsection \<open>Bars\<close>

definition clamp :: "rat \<Rightarrow> rat \<Rightarrow> rat \<Rightarrow> rat" where
  "clamp v lower upper = (let v = (if v \<le> upper then v else upper) in if lower \<le> v then v else lower)"

fun clamp_values :: "rat \<Rightarrow> rat \<Rightarrow> rat list \<Rightarrow> (rat \<times> rat) list" where
  "clamp_values cap sm [] = []"
| "clamp_values cap sm (value # values) =
     (let v = (if sm + value \<le> cap then value else if sm < cap then cap - sm else 0)
      in (sm, v) # clamp_values cap (sm + v) values)"

datatype bar_value = OneValue rat | ManyValues "rat list"

definition clampedValues :: "bar_value \<Rightarrow> rat \<Rightarrow> (rat \<times> rat) list" where
  "clampedValues value cap =
     (case value of OneValue v \<Rightarrow> [(0, clamp v 0 cap)] | ManyValues vs \<Rightarrow> clamp_values cap 0 vs)"

record bar =
  bar_segments :: "(jsnum \<times> jsnum) list"
  bar_min :: "(jsnum \<times> jsnum) option"
  bar_max :: "(jsnum \<times> jsnum) option"

text \<open>Offsets and widths as shares of the capacity.\<close>

definition bar_share :: "rat \<Rightarrow> rat \<Rightarrow> jsnum" where
  "bar_share cap v = js_div (Fin v) (Fin cap)"

definition Bar :: "bar_value \<Rightarrow> rat \<Rightarrow> rat option \<Rightarrow> rat option \<Rightarrow> bar" where
  "Bar value cap mn mx =
     (let cs = clampedValues value cap; s = sum_list (map snd cs);
          mn = (case mn of None \<Rightarrow> None
                | Some m \<Rightarrow> (let m = clamp m 0 s in if bar_share cap (s - m) < Fin (1 / 100) then None else Some m));
          mx = (case mx of None \<Rightarrow> None
                | Some m \<Rightarrow> (let m = clamp m s cap in if bar_share cap (m - s) < Fin (1 / 100) then None else Some m))
      in \<lparr>bar_segments = map (\<lambda>(off, v). (bar_share cap off, bar_share cap v)) cs,
          bar_min = map_option (\<lambda>m. (bar_share cap m, bar_share cap (s - m))) mn,
          bar_max = map_option (\<lambda>m. (bar_share cap s, bar_share cap (m - s))) mx\<rparr>)"

subsection \<open>Columns\<close>

datatype col_name = Raw string | TransKey string

text \<open>
  The cells: SQL text, text, one bar, a bar with its sources, a time, errors and warnings, the two cells of the slow query
  table, and a cell that shows \<open>Others\<close> for the evicted record, whose digest is empty.
\<close>

datatype table_cell =
    SqlText string
  | TextCell string
  | BarCell string string
  | BarsCell "(string \<times> string) list" string
  | TimeCell string
  | ErrorsWarnings
  | SuccessBadge
  | YesNo string
  | EvictedCell table_cell

record icolumn =
  c_name :: col_name
  c_key :: string
  c_fieldName :: string
  c_cell :: table_cell

record table_column =
  col_config :: icolumn
  transPrefix :: "string option"

definition TranslatedColumnName :: "string \<Rightarrow> string \<Rightarrow> col_name" where
  "TranslatedColumnName prefx fieldName = TransKey (prefx @ ''.'' @ fieldName)"

definition getConfig :: "table_column \<Rightarrow> icolumn" where
  "getConfig c =
     (case (transPrefix c, c_name (col_config c)) of
        (Some p, Raw n) \<Rightarrow> if p \<noteq> [] then (col_config c)\<lparr>c_name := TranslatedColumnName p n\<rparr> else col_config c
      | _ \<Rightarrow> col_config c)"

definition control :: "string \<Rightarrow> icolumn \<Rightarrow> table_column" where
  "control tp c = \<lparr>col_config = c, transPrefix = Some tp\<rparr>"

definition getDefaultColumnConfig :: "string \<Rightarrow> table_cell \<Rightarrow> icolumn" where
  "getDefaultColumnConfig fieldName cl = \<lparr>c_name = Raw fieldName, c_key = fieldName, c_fieldName = fieldName, c_cell = cl\<rparr>"

definition textWithTooltip :: "string \<Rightarrow> string \<Rightarrow> table_column" where
  "textWithTooltip tp fieldName = control tp (getDefaultColumnConfig fieldName (TextCell fieldName))"

definition singleBar :: "string \<Rightarrow> string \<Rightarrow> string \<Rightarrow> table_column" where
  "singleBar tp fieldName unit = control tp (getDefaultColumnConfig fieldName (BarCell fieldName unit))"

text \<open>Without two sources the destructuring throws.\<close>

definition multipleBar :: "string \<Rightarrow> string option \<Rightarrow> (string \<times> string) list \<Rightarrow> string \<Rightarrow> table_column option" where
  "multipleBar tp displayTransKey sources unit =
     (case sources of
        avg # mx # _ \<Rightarrow>
          Some (control tp ((getDefaultColumnConfig (snd avg) (BarsCell (take 3 sources) unit))
            \<lparr>c_name := Raw (case displayTransKey of Some k \<Rightarrow> if k \<noteq> [] then k else snd avg | None \<Rightarrow> snd avg)\<rparr>))
      | _ \<Rightarrow> None)"

definition timestamp_col :: "string \<Rightarrow> string \<Rightarrow> table_column" where
  "timestamp_col tp fieldName = control tp (getDefaultColumnConfig fieldName (TimeCell fieldName))"

definition sqlText :: "string \<Rightarrow> string \<Rightarrow> table_column" where
  "sqlText tp fieldName = control tp (getDefaultColumnConfig fieldName (SqlText fieldName))"

definition patch_cell :: "string option \<Rightarrow> table_cell \<Rightarrow> table_column \<Rightarrow> table_column" where
  "patch_cell n cl c =
     c\<lparr>col_config := (col_config c)\<lparr>c_name := (case n of Some x \<Rightarrow> Raw x | None \<Rightarrow> c_name (col_config c)), c_cell := cl\<rparr>\<rparr>"

datatype column_item = Col table_column | EvictedCol table_column

definition evictedRenderColumn :: "icolumn \<Rightarrow> icolumn" where
  "evictedRenderColumn c = c\<lparr>c_cell := EvictedCell (c_cell c)\<rparr>"

text \<open>The elements of the array are made to columns; one that is no \<open>Column\<close> yet has no prefix.\<close>

fun item_config :: "column_item \<Rightarrow> icolumn" where
  "item_config (Col c) = getConfig c"
| "item_config (EvictedCol c) = getConfig \<lparr>col_config = evictedRenderColumn (getConfig c), transPrefix = None\<rparr>"

definition table_columns :: "string list \<Rightarrow> column_item list \<Rightarrow> icolumn list" where
  "table_columns allowColumns items =
     (let columns = map item_config items
      in if allowColumns = [] then columns else filter (\<lambda>c. c_fieldName c \<in> set allowColumns) columns)"

text \<open>The whole array is made before it is used, so one column that throws leaves no table.\<close>

definition all_items :: "column_item option list \<Rightarrow> column_item list option" where
  "all_items xs = (if None \<in> set xs then None else Some (map the xs))"

subsection \<open>The tables\<close>

definition bar_sources :: "DerivedFields \<Rightarrow> string \<Rightarrow> (string \<times> string) list" where
  "bar_sources derived k = (case map_of derived k of Some (BarSources bs) \<Rightarrow> bs | _ \<Rightarrow> [])"

definition st_prefix :: string where "st_prefix = ''statement.fields''"
definition sq_prefix :: string where "sq_prefix = ''slow_query.fields''"

definition avgMinMaxLatencyColumn :: "string \<Rightarrow> table_column option" where
  "avgMinMaxLatencyColumn tp = multipleBar tp None (bar_sources st_derivedFields ''avg_latency'') ''ns''"

definition avgMaxColumn :: "string \<Rightarrow> string \<Rightarrow> string \<Rightarrow> table_column option" where
  "avgMaxColumn tp displayTransKey unit =
     multipleBar tp (Some displayTransKey) (bar_sources st_derivedFields displayTransKey) unit"

definition errorsWarningsColumn :: "string \<Rightarrow> table_column" where
  "errorsWarningsColumn tp =
     control tp \<lparr>c_name = Raw ''errors_warnings'', c_key = ''sum_errors'', c_fieldName = ''sum_errors'', c_cell = ErrorsWarnings\<rparr>"

definition statement_items :: "column_item option list" where
  "statement_items =
     [Some (EvictedCol (sqlText st_prefix ''digest_text'')),
      Some (EvictedCol (textWithTooltip st_prefix ''digest'')),
      Some (Col (singleBar st_prefix ''sum_latency'' ''ns'')),
      map_option Col (avgMinMaxLatencyColumn st_prefix),
      Some (Col (singleBar st_prefix ''exec_count'' ''short'')),
      Some (Col (textWithTooltip st_prefix ''plan_count'')),
      Some (Col (singleBar st_prefix ''plan_cache_hits'' ''short'')),
      map_option Col (avgMaxColumn st_prefix ''avg_mem'' ''bytes''),
      map_option Col (avgMaxColumn st_prefix ''avg_disk'' ''bytes''),
      Some (Col (errorsWarningsColumn st_prefix)),
      map_option Col (avgMaxColumn st_prefix ''parse_latency'' ''ns''),
      map_option Col (avgMaxColumn st_prefix ''compile_latency'' ''ns''),
      Some (Col (singleBar st_prefix ''sum_cop_task_num'' ''short'')),
      map_option Col (avgMaxColumn st_prefix ''process_time'' ''ns''),
      map_option Col (avgMaxColumn st_prefix ''wait_time'' ''ns''),
      map_option Col (avgMaxColumn st_prefix ''total_process_time'' ''ns''),
      map_option Col (avgMaxColumn st_prefix ''total_wait_time'' ''ns''),
      map_option Col (avgMaxColumn st_prefix ''backoff_time'' ''ns''),
      map_option Col (avgMaxColumn st_prefix ''avg_write_keys'' ''short''),
      map_option Col (avgMaxColumn st_prefix ''avg_processed_keys'' ''short''),
      map_option Col (avgMaxColumn st_prefix ''avg_total_keys'' ''short''),
      map_option Col (avgMaxColumn st_prefix ''prewrite_time'' ''ns''),
      map_option Col (avgMaxColumn st_prefix ''commit_time'' ''ns''),
      map_option Col (avgMaxColumn st_prefix ''get_commit_ts_time'' ''ns''),
      map_option Col (avgMaxColumn st_prefix ''commit_backoff_time'' ''ns''),
      map_option Col (avgMaxColumn st_prefix ''resolve_lock_time'' ''ns''),
      map_option Col (avgMaxColumn st_prefix ''local_latch_wait_time'' ''ns''),
      map_option Col (avgMaxColumn st_prefix ''avg_write_size'' ''bytes''),
      map_option Col (avgMaxColumn st_prefix ''avg_prewrite_regions'' ''short''),
      map_option Col (avgMaxColumn st_prefix ''avg_txn_retry'' ''short''),
      Some (Col (singleBar st_prefix ''sum_backoff_times'' ''short'')),
      Some (Col (singleBar st_prefix ''avg_affected_rows'' ''short'')),
      Some (Col (timestamp_col st_prefix ''first_seen'')),
      Some (Col (timestamp_col st_prefix ''last_seen'')),
      Some (Col (textWithTooltip st_prefix ''sample_user'')),
      Some (Col (sqlText st_prefix ''query_sample_text'')),
      Some (Col (sqlText st_prefix ''prev_sample_text'')),
      Some (Col (textWithTooltip st_prefix ''schema_name'')),
      Some (Col (textWithTooltip st_prefix ''table_names'')),
      Some (Col (textWithTooltip st_prefix ''index_names'')),
      Some (Col (textWithTooltip st_prefix ''plan_digest'')),
      Some (Col (textWithTooltip st_prefix ''related_schemas'')),
      map_option Col (avgMaxColumn st_prefix ''avg_rocksdb_delete_skipped_count'' ''short''),
      map_option Col (avgMaxColumn st_prefix ''avg_rocksdb_key_skipped_count'' ''short''),
      map_option Col (avgMaxColumn st_prefix ''avg_rocksdb_block_cache_hit_count'' ''short''),
      map_option Col (avgMaxColumn st_prefix ''avg_rocksdb_block_read_count'' ''short''),
      map_option Col (avgMaxColumn st_prefix ''avg_rocksdb_block_read_byte'' ''bytes''),
      Some (Col (textWithTooltip st_prefix ''resource_group'')),
      map_option Col (avgMaxColumn st_prefix ''avg_ru'' ''none''),
      Some (Col (textWithTooltip st_prefix ''sum_ru'')),
      map_option Col (avgMaxColumn st_prefix ''avg_time_queued_by_rc'' ''ns''),
      Some (Col (singleBar st_prefix ''sum_unpacked_bytes_sent_tikv_total'' ''bytes'')),
      Some (Col (singleBar st_prefix ''sum_unpacked_bytes_received_tikv_total'' ''bytes'')),
      Some (Col (singleBar st_prefix ''sum_unpacked_bytes_sent_tikv_cross_zone'' ''bytes'')),
      Some (Col (singleBar st_prefix ''sum_unpacked_bytes_received_tikv_cross_zone'' ''bytes'')),
      Some (Col (singleBar st_prefix ''sum_unpacked_bytes_sent_tiflash_total'' ''bytes'')),
      Some (Col (singleBar st_prefix ''sum_unpacked_bytes_received_tiflash_total'' ''bytes'')),
      Some (Col (singleBar st_prefix ''sum_unpacked_bytes_sent_tiflash_cross_zone'' ''bytes'')),
      Some (Col (singleBar st_prefix ''sum_unpacked_bytes_received_tiflash_cross_zone'' ''bytes''))]"

definition statementColumns :: "string list \<Rightarrow> icolumn list option" where
  "statementColumns tableSchemaColumns = map_option (table_columns tableSchemaColumns) (all_items statement_items)"

definition planColumns :: "icolumn list option" where
  "planColumns =
     map_option (table_columns [])
       (all_items
         [Some (Col (textWithTooltip st_prefix ''plan_digest'')),
          Some (Col (singleBar st_prefix ''sum_latency'' ''ns'')),
          map_option Col (avgMinMaxLatencyColumn st_prefix),
          Some (Col (singleBar st_prefix ''exec_count'' ''short'')),
          map_option Col (avgMaxColumn st_prefix ''avg_mem'' ''bytes'')])"

definition slow_query_items :: "column_item option list" where
  "slow_query_items =
     [Some (Col (sqlText sq_prefix ''query'')),
      Some (Col (textWithTooltip sq_prefix ''digest'')),
      Some (Col (textWithTooltip sq_prefix ''instance'')),
      Some (Col (textWithTooltip sq_prefix ''db'')),
      Some (Col (textWithTooltip sq_prefix ''connection_id'')),
      Some (Col (timestamp_col sq_prefix ''timestamp'')),
      Some (Col (singleBar sq_prefix ''query_time'' ''s'')),
      Some (Col (singleBar sq_prefix ''parse_time'' ''s'')),
      Some (Col (singleBar sq_prefix ''compile_time'' ''s'')),
      Some (Col (singleBar sq_prefix ''process_time'' ''s'')),
      Some (Col (singleBar sq_prefix ''memory_max'' ''bytes'')),
      Some (Col (singleBar sq_prefix ''disk_max'' ''bytes'')),
      Some (Col (textWithTooltip sq_prefix ''txn_start_ts'')),
      Some (Col (patch_cell (Some ''result'') SuccessBadge (textWithTooltip sq_prefix ''success''))),
      Some (Col (patch_cell None (YesNo ''is_internal'') (textWithTooltip sq_prefix ''is_internal''))),
      Some (Col (textWithTooltip sq_prefix ''index_names'')),
      Some (Col (textWithTooltip sq_prefix ''stats'')),
      Some (Col (textWithTooltip sq_prefix ''backoff_types'')),
      Some (Col (textWithTooltip sq_prefix ''user'')),
      Some (Col (textWithTooltip sq_prefix ''host'')),
      Some (Col (singleBar sq_prefix ''wait_time'' ''s'')),
      Some (Col (singleBar sq_prefix ''backoff_time'' ''s'')),
      Some (Col (singleBar sq_prefix ''get_commit_ts_time'' ''s'')),
      Some (Col (singleBar sq_prefix ''local_latch_wait_time'' ''s'')),
      Some (Col (singleBar sq_prefix ''prewrite_time'' ''s'')),
      Some (Col (singleBar sq_prefix ''commit_time'' ''s'')),
      Some (Col (singleBar sq_prefix ''commit_backoff_time'' ''s'')),
      Some (Col (singleBar sq_prefix ''resolve_lock_time'' ''s'')),
      map_option Col (multipleBar sq_prefix None (bar_sources sq_derivedFields ''cop_proc_avg'') ''s''),
      map_option Col (multipleBar sq_prefix None (bar_sources sq_derivedFields ''cop_wait_avg'') ''s''),
      Some (Col (singleBar sq_prefix ''request_count'' ''short'')),
      Some (Col (singleBar sq_prefix ''process_keys'' ''short'')),
      Some (Col (singleBar sq_prefix ''total_keys'' ''short'')),
      Some (Col (textWithTooltip sq_prefix ''cop_proc_addr'')),
      Some (Col (textWithTooltip sq_prefix ''cop_wait_addr'')),
      Some (Col (singleBar sq_prefix ''write_keys'' ''short'')),
      Some (Col (singleBar sq_prefix ''write_size'' ''bytes'')),
      Some (Col (singleBar sq_prefix ''prewrite_region'' ''short'')),
      Some (Col (singleBar sq_prefix ''txn_retry'' ''short'')),
      Some (Col (singleBar sq_prefix ''rocksdb_delete_skipped_count'' ''short'')),
      Some (Col (singleBar sq_prefix ''rocksdb_key_skipped_count'' ''short'')),
      Some (Col (singleBar sq_prefix ''rocksdb_block_cache_hit_count'' ''short'')),
      Some (Col (singleBar sq_prefix ''rocksdb_block_read_count'' ''short'')),
      Some (Col (singleBar sq_prefix ''rocksdb_block_read_byte'' ''bytes'')),
      Some (Col (singleBar sq_prefix ''ru'' ''none'')),
      Some (Col (textWithTooltip sq_prefix ''resource_group'')),
      Some (Col (singleBar sq_prefix ''time_queued_by_rc'' ''s'')),
      Some (Col (singleBar sq_prefix ''unpacked_bytes_sent_tikv_total'' ''bytes'')),
      Some (Col (singleBar sq_prefix ''unpacked_bytes_received_tikv_total'' ''bytes'')),
      Some (Col (singleBar sq_prefix ''unpacked_bytes_sent_tikv_cross_zone'' ''bytes'')),
      Some (Col (singleBar sq_prefix ''unpacked_bytes_received_tikv_cross_zone'' ''bytes'')),
      Some (Col (singleBar sq_prefix ''unpacked_bytes_sent_tiflash_total'' ''bytes'')),
      Some (Col (singleBar sq_prefix ''unpacked_bytes_received_tiflash_total'' ''bytes'')),
      Some (Col (singleBar sq_prefix ''unpacked_bytes_sent_tiflash_cross_zone'' ''bytes'')),
      Some (Col (singleBar sq_prefix ''unpacked_bytes_received_tiflash_cross_zone'' ''bytes''))]"

definition slowQueryColumns :: "string list \<Rightarrow> icolumn list option" where
  "slowQueryColumns tableSchemaColumns = map_option (table_columns tableSchemaColumns) (all_items slow_query_items)"

subsection \<open>Bars of a table\<close>

text \<open>
  A row by its numbers. \<open>field_max\<close> is lodash \<open>max\<close> over the rows that have the value, 0 when none has. A bar whose value
  is missing in the record has no width.
\<close>

type_synonym table_row = "string \<Rightarrow> rat option"

definition max_or_zero :: "rat list \<Rightarrow> rat" where
  "max_or_zero vs = (case vs of [] \<Rightarrow> 0 | v # vs \<Rightarrow> foldl max v vs)"

definition field_max :: "table_row list \<Rightarrow> string \<Rightarrow> rat" where
  "field_max rows f = max_or_zero (List.map_filter (\<lambda>r. r f) rows)"

definition row_troubles :: "table_row \<Rightarrow> rat option" where
  "row_troubles r =
     (case (r ''sum_errors'', r ''sum_warnings'') of (Some e, Some w) \<Rightarrow> Some (e + w) | _ \<Rightarrow> None)"

fun cell_bar :: "table_row list \<Rightarrow> table_cell \<Rightarrow> table_row \<Rightarrow> bar option" where
  "cell_bar rows (BarCell f u) r = map_option (\<lambda>v. Bar (OneValue v) (field_max rows f) None None) (r f)"
| "cell_bar rows (BarsCell (avg # mx # rest) u) r =
     map_option (\<lambda>v. Bar (OneValue v) (field_max rows (snd mx))
         (case rest of [] \<Rightarrow> None | mn # _ \<Rightarrow> r (snd mn)) (r (snd mx)))
       (r (snd avg))"
| "cell_bar rows ErrorsWarnings r =
     (case (r ''sum_errors'', r ''sum_warnings'') of
        (Some e, Some w) \<Rightarrow>
          Some (Bar (ManyValues [e, w]) (max_or_zero (List.map_filter row_troubles rows)) None None)
      | _ \<Rightarrow> None)"
| "cell_bar rows _ r = None"

text \<open>The lines of the tooltip of a cell with more bars: mean, min and max, the values in one column.\<close>

definition upper_char :: "char \<Rightarrow> char" where
  "upper_char c = (let n = of_char c :: nat in if 97 \<le> n \<and> n \<le> 122 then char_of (n - 32) else c)"

definition capitalize :: "string \<Rightarrow> string" where
  "capitalize s = (case s of [] \<Rightarrow> [] | c # cs \<Rightarrow> upper_char c # map lower_char cs)"

definition padEnd :: "nat \<Rightarrow> string \<Rightarrow> string" where
  "padEnd n s = s @ replicate (n - length s) CHR '' ''"

definition tooltip_line :: "nat \<Rightarrow> string \<Rightarrow> string \<Rightarrow> string" where
  "tooltip_line n prefx val = padEnd (n + 2) (capitalize (prefx @ '':'')) @ val"

definition tooltips :: "(string \<Rightarrow> string) \<Rightarrow> (string \<times> string) list \<Rightarrow> string list" where
  "tooltips fmt sources =
     (case sources of
        avg # mx # rest \<Rightarrow>
          (let shown = [avg] @ take 1 rest @ [mx];
               n = foldl max 0 (map (length \<circ> fst) shown)
           in map (\<lambda>(p, f). tooltip_line n p (fmt f)) shown)
      | _ \<Rightarrow> [])"

subsection \<open>Fields a cell shows\<close>

fun cell_reads :: "table_cell \<Rightarrow> string list" where
  "cell_reads (SqlText f) = [f]"
| "cell_reads (TextCell f) = [f]"
| "cell_reads (BarCell f u) = [f]"
| "cell_reads (BarsCell sources u) = map snd sources"
| "cell_reads (TimeCell f) = [f]"
| "cell_reads ErrorsWarnings = [''sum_errors'', ''sum_warnings'']"
| "cell_reads SuccessBadge = [''success'']"
| "cell_reads (YesNo f) = [f]"
| "cell_reads (EvictedCell c) = ''digest'' # cell_reads c"

text \<open>
  The fields a column shows that its own key does not make the page request. \<open>sent\<close> are the fields the server adds to
  every answer; it computes \<open>related_schemas\<close> from the table names.
\<close>

definition unrequested :: "string list \<Rightarrow> DerivedFields \<Rightarrow> icolumn \<Rightarrow> string list" where
  "unrequested sent derived c =
     filter (\<lambda>f. f \<notin> set (sent @ getSelectedFields [(c_key c, True)] derived)) (cell_reads (c_cell c))"

definition incomplete_columns :: "string list \<Rightarrow> DerivedFields \<Rightarrow> icolumn list \<Rightarrow> (string \<times> string list) list" where
  "incomplete_columns sent derived cs =
     filter (\<lambda>(k, fs). fs \<noteq> []) (map (\<lambda>c. (c_key c, unrequested sent derived c)) cs)"

subsection \<open>What the tables show\<close>

definition statement_always_sent :: "string list" where
  "statement_always_sent =
     [''schema_name'', ''digest'', ''sum_latency'', ''summary_begin_time'', ''summary_end_time'', ''related_schemas'']"

lemmas column_defs = all_items_def table_columns_def control_def getDefaultColumnConfig_def textWithTooltip_def singleBar_def
  multipleBar_def timestamp_col_def sqlText_def patch_cell_def evictedRenderColumn_def avgMinMaxLatencyColumn_def
  avgMaxColumn_def errorsWarningsColumn_def getConfig_def TranslatedColumnName_def bar_sources_def

lemma table_columns_requested_facts:
  "map_option (incomplete_columns [] sq_derivedFields) (slowQueryColumns []) = Some []"
  "map_option (incomplete_columns statement_always_sent st_derivedFields) (statementColumns []) =
     Some [(''avg_parse_latency'', [''max_parse_latency'']), (''avg_compile_latency'', [''max_compile_latency'']),
       (''avg_cop_process_time'', [''max_cop_process_time'']), (''avg_cop_wait_time'', [''max_cop_wait_time'']),
       (''avg_process_time'', [''max_process_time'']), (''avg_wait_time'', [''max_wait_time'']),
       (''avg_backoff_time'', [''max_backoff_time'']), (''avg_prewrite_time'', [''max_prewrite_time'']),
       (''avg_commit_time'', [''max_commit_time'']), (''avg_get_commit_ts_time'', [''max_get_commit_ts_time'']),
       (''avg_commit_backoff_time'', [''max_commit_backoff_time'']),
       (''avg_resolve_lock_time'', [''max_resolve_lock_time'']),
       (''avg_local_latch_wait_time'', [''max_local_latch_wait_time''])]"
  subgoal by code_simp
  subgoal by code_simp
  done


text \<open>The columns of a table are told apart by their key, which is the field they sort by.\<close>

lemma statement_column_keys:
  "map_option (\<lambda>cs. distinct (map c_key cs) \<and> list_all (\<lambda>c. c_key c = c_fieldName c) cs) (statementColumns []) = Some True"
  by code_simp

lemma slow_query_column_keys:
  "map_option (\<lambda>cs. distinct (map c_key cs) \<and> list_all (\<lambda>c. c_key c = c_fieldName c) cs) (slowQueryColumns []) = Some True"
  by code_simp

lemma table_columns_allowed:
  "allow \<noteq> [] \<Longrightarrow> table_columns allow items = filter (\<lambda>c. c_fieldName c \<in> set allow) (table_columns [] items)"
  by (simp add: table_columns_def Let_def)

lemma foldl_max_ge: "x \<le> v \<or> x \<in> set vs \<Longrightarrow> x \<le> foldl max v vs" for x v :: "'a :: linorder"
  by (induction vs arbitrary: v) (simp, force simp: le_max_iff_disj)

lemma max_or_zero_ge: "v \<in> set vs \<Longrightarrow> v \<le> max_or_zero vs"
  by (cases vs) (auto simp: max_or_zero_def intro: foldl_max_ge)

lemma field_max_ge: "r \<in> set rows \<Longrightarrow> r f = Some v \<Longrightarrow> v \<le> field_max rows f"
  unfolding field_max_def by (rule max_or_zero_ge) (force simp: List.map_filter_def)

lemma clamp_id: "lower \<le> v \<Longrightarrow> v \<le> upper \<Longrightarrow> clamp v lower upper = v"
  by (simp add: clamp_def)

lemma bar_share_pos: "0 < cap \<Longrightarrow> bar_share cap v = Fin (v / cap)"
  by (simp add: bar_share_def)

text \<open>Bars of an array of values: adjacent, and as long together as the values, up to the capacity.\<close>

lemma clamp_values_total:
  "list_all (\<lambda>v. 0 \<le> v) vs \<Longrightarrow> sm \<le> cap \<Longrightarrow> sum_list (map snd (clamp_values cap sm vs)) = min (sum_list vs) (cap - sm)"
proof (induction vs arbitrary: sm)
  case (Cons v vs)
  have nn: "0 \<le> sum_list vs" using Cons.prems(1) by (intro sum_list_nonneg) (simp add: list_all_iff)
  show ?case
  proof (cases "sm + v \<le> cap")
    case True
    then show ?thesis using Cons by (simp add: min_def)
  next
    case False
    then show ?thesis using Cons.IH [of cap] Cons.prems nn by (auto simp: min_def)
  qed
qed simp

lemma clamp_values_adjacent:
  "clamp_values cap sm vs = pre @ (off, v) # post \<Longrightarrow> off = sm + sum_list (map snd pre)"
proof (induction vs arbitrary: sm pre)
  case (Cons w vs)
  then show ?case by (cases pre) (fastforce simp: Let_def add.assoc)+
qed simp

lemma clamp_values_nonneg:
  "list_all (\<lambda>v. 0 \<le> v) vs \<Longrightarrow> list_all (\<lambda>(off, v). 0 \<le> v) (clamp_values cap sm vs)"
  by (induction vs arbitrary: sm) (auto simp: Let_def)

lemma table_bars_facts:
  assumes r: "r \<in> set rows" and pos: "0 < cap" "0 < tcap"
    and vals: "r avg = Some a" "r mx = Some m" "r mn = Some n" "0 \<le> n" "n \<le> a" "a \<le> m"
    and troubles: "r ''sum_errors'' = Some e" "r ''sum_warnings'' = Some w" "0 \<le> e" "0 \<le> w"
    and cap_def: "cap = field_max rows mx" and tcap_def: "tcap = max_or_zero (List.map_filter row_troubles rows)"
  shows
    "cell_bar rows (BarsCell [(pa, avg), (px, mx), (pn, mn)] u) r =
       Some \<lparr>bar_segments = [(Fin 0, Fin (a / cap))],
             bar_min = (if (a - n) / cap < 1 / 100 then None else Some (Fin (n / cap), Fin ((a - n) / cap))),
             bar_max = (if (m - a) / cap < 1 / 100 then None else Some (Fin (a / cap), Fin ((m - a) / cap)))\<rparr>"
    "0 \<le> n / cap" "n / cap \<le> a / cap" "a / cap \<le> m / cap" "m / cap \<le> 1"
    "cell_bar rows (BarCell mx u) r = Some \<lparr>bar_segments = [(Fin 0, Fin (m / cap))], bar_min = None, bar_max = None\<rparr>"
    "cell_bar rows ErrorsWarnings r =
       Some \<lparr>bar_segments = [(Fin 0, Fin (e / tcap)), (Fin (e / tcap), Fin (w / tcap))],
             bar_min = None, bar_max = None\<rparr>"
    "(e + w) / tcap \<le> 1"
proof -
  have cap: "0 < cap" "m \<le> cap" using pos(1) field_max_ge [OF r vals(2)] by (simp_all add: cap_def)
  have "row_troubles r = Some (e + w)" by (simp add: row_troubles_def troubles)
  then have tcap: "0 < tcap" "e + w \<le> tcap"
    using pos(2) r by (auto simp: tcap_def List.map_filter_def intro!: max_or_zero_ge) force
  show "0 \<le> n / cap" "n / cap \<le> a / cap" "a / cap \<le> m / cap" "m / cap \<le> 1" "(e + w) / tcap \<le> 1"
    using cap tcap vals by (simp_all add: divide_right_mono)
  show "cell_bar rows (BarsCell [(pa, avg), (px, mx), (pn, mn)] u) r =
       Some \<lparr>bar_segments = [(Fin 0, Fin (a / cap))],
             bar_min = (if (a - n) / cap < 1 / 100 then None else Some (Fin (n / cap), Fin ((a - n) / cap))),
             bar_max = (if (m - a) / cap < 1 / 100 then None else Some (Fin (a / cap), Fin ((m - a) / cap)))\<rparr>"
    using cap vals by (simp add: cap_def [symmetric] Bar_def clampedValues_def clamp_id bar_share_pos Let_def)
  show "cell_bar rows (BarCell mx u) r = Some \<lparr>bar_segments = [(Fin 0, Fin (m / cap))], bar_min = None, bar_max = None\<rparr>"
    using cap vals by (simp add: cap_def [symmetric] Bar_def clampedValues_def clamp_id bar_share_pos Let_def)
  show "cell_bar rows ErrorsWarnings r =
       Some \<lparr>bar_segments = [(Fin 0, Fin (e / tcap)), (Fin (e / tcap), Fin (w / tcap))],
             bar_min = None, bar_max = None\<rparr>"
    using tcap troubles by (simp add: tcap_def [symmetric] Bar_def clampedValues_def bar_share_pos Let_def)
qed


definition sample_rows :: "table_row list" where
  "sample_rows =
     [map_of [(''avg_latency'', 30), (''max_latency'', 80), (''min_latency'', 10), (''sum_errors'', 1), (''sum_warnings'', 3)],
      map_of [(''avg_latency'', 40), (''max_latency'', 100), (''min_latency'', 20), (''sum_errors'', 2), (''sum_warnings'', 6)]]"


text \<open>The values in the tooltip of a cell start in one column: every label takes the same room.\<close>

lemma tooltips_aligned:
  assumes "tooltips fmt sources = ls" "line \<in> set ls"
  shows "\<exists>n label f. length label = n + 2 \<and> line = label @ fmt f \<and>
    (\<forall>l\<in>set ls. \<exists>label' f'. length label' = n + 2 \<and> l = label' @ fmt f')"
proof -
  obtain avg mx rest where src: "sources = avg # mx # rest"
    using assms by (auto simp: tooltips_def split: list.splits)
  define shown where "shown = [avg] @ take 1 rest @ [mx]"
  define n where "n = foldl max 0 (map (length \<circ> fst) shown)"
  have ls: "ls = map (\<lambda>(p, f). tooltip_line n p (fmt f)) shown"
    using assms(1) unfolding src tooltips_def shown_def n_def Let_def by simp
  have label: "\<exists>label f. length label = n + 2 \<and> l = label @ fmt f" if l: "l \<in> set ls" for l
  proof -
    obtain p f where pf: "(p, f) \<in> set shown" "l = tooltip_line n p (fmt f)"
      using l ls by auto
    have "length p \<le> n" using pf(1) foldl_max_ge [of "length p" 0 "map (length \<circ> fst) shown"] by (force simp: n_def)
    then have "length (padEnd (n + 2) (capitalize (p @ '':''))) = n + 2"
      by (cases p) (simp_all add: padEnd_def capitalize_def)
    then show ?thesis using pf(2) by (auto simp: tooltip_line_def)
  qed
  then show ?thesis using assms(2) by blast
qed

end
