(* ===== verification/QueryKeys.thy ===== *)
theory QueryKeys
  imports QueryPagesV2 MetricChartsV2 "HOL-Library.Sublist"
begin

text \<open>
  The queries of the second generation: every \<open>useQuery\<close> and \<open>useMutation\<close> of \<open>statement/utils/use-data.ts\<close>,
  \<open>slow-query/utils/use-data.ts\<close>, \<open>metric/utils/use-data.ts\<close>, \<open>sql-history/utils/use-data.ts\<close> and
  \<open>sql-limit/utils/use-data.ts\<close> of \<open>4-apps\<close>, and the cards of SQL history and SQL limit that use them. All of them share one
  query client, which keeps an answer per key: a page shows the right data only when the key says everything the request
  depends on.

  The query client (\<open>@tanstack/react-query\<close>) is not part of the repository. The locale \<open>keyed_query\<close> states what the pages
  rely on, that an answer is stored under the key its request was made with, and shows for every order of answers that the
  data on the screen answers the request of the state on the screen.
\<close>

subsection \<open>Pages over a query client\<close>

text \<open>
  A page with a state, the store of answers and the requests under way. \<open>Show\<close> is a new state of the page, \<open>Fetch\<close> a
  request at a time, and an answer may come in any order or never.
\<close>

datatype ('s, 'a) query_event = Show 's | Fetch jsnum | Answer nat 'a | Lost nat

record ('s, 'c, 'k, 'r) query_page =
  shown_state :: 's
  query_store :: 'c
  under_way :: "('k \<times> 'r) list"

definition remove_at :: "nat \<Rightarrow> 'a list \<Rightarrow> 'a list" where
  "remove_at i xs = take i xs @ drop (Suc i) xs"

fun query_step :: "('s \<Rightarrow> 'k) \<Rightarrow> (jsnum \<Rightarrow> 's \<Rightarrow> 'r) \<Rightarrow> ('c \<Rightarrow> 'k \<Rightarrow> 'r \<times> 'a \<Rightarrow> 'c) \<Rightarrow>
    ('s, 'c, 'k, 'r) query_page \<Rightarrow> ('s, 'a) query_event \<Rightarrow> ('s, 'c, 'k, 'r) query_page" where
  "query_step key req store p (Show s) = p\<lparr>shown_state := s\<rparr>"
| "query_step key req store p (Fetch now) =
     p\<lparr>under_way := under_way p @ [(key (shown_state p), req now (shown_state p))]\<rparr>"
| "query_step key req store p (Answer i a) =
     (if i < length (under_way p)
      then p\<lparr>query_store := store (query_store p) (fst (under_way p ! i)) (snd (under_way p ! i), a),
             under_way := remove_at i (under_way p)\<rparr>
      else p)"
| "query_step key req store p (Lost i) = p\<lparr>under_way := remove_at i (under_way p)\<rparr>"

definition open_page :: "'c \<Rightarrow> 's \<Rightarrow> ('s, 'c, 'k, 'r) query_page" where
  "open_page c s = \<lparr>shown_state = s, query_store = c, under_way = []\<rparr>"

lemma set_remove_at: "set (remove_at i xs) \<subseteq> set xs"
  by (auto simp: remove_at_def dest: in_set_takeD in_set_dropD)

locale keyed_query =
  fixes key :: "'s \<Rightarrow> 'k" and req :: "jsnum \<Rightarrow> 's \<Rightarrow> 'r" and covered :: "'s \<Rightarrow> bool"
    and lookup :: "'c \<Rightarrow> 'k \<Rightarrow> ('r \<times> 'a) option" and store :: "'c \<Rightarrow> 'k \<Rightarrow> 'r \<times> 'a \<Rightarrow> 'c" and empty :: 'c
  assumes lookup_empty: "lookup empty k = None"
    and lookup_store: "lookup (store c k v) k' = (if k = k' then Some v else lookup c k')"
    and key_covers: "covered s \<Longrightarrow> covered s' \<Longrightarrow> key s = key s' \<Longrightarrow> req now s = req now s'"
begin

definition made :: "'k \<times> 'r \<Rightarrow> bool" where
  "made x \<longleftrightarrow> (\<exists>s now. covered s \<and> x = (key s, req now s))"

definition page_inv :: "('s, 'c, 'k, 'r) query_page \<Rightarrow> bool" where
  "page_inv p \<longleftrightarrow> covered (shown_state p) \<and> (\<forall>x\<in>set (under_way p). made x) \<and>
     (\<forall>k r a. lookup (query_store p) k = Some (r, a) \<longrightarrow> made (k, r))"

lemma page_inv_open: "covered s \<Longrightarrow> page_inv (open_page empty s)"
  by (simp add: page_inv_def open_page_def lookup_empty)

lemma page_inv_step:
  assumes "page_inv p" and "\<forall>s. e = Show s \<longrightarrow> covered s"
  shows "page_inv (query_step key req store p e)"
proof (cases e)
  case (Answer i a)
  have sub: "x \<in> set (remove_at i (under_way p)) \<Longrightarrow> made x" for x
    using assms(1) set_remove_at by (force simp: page_inv_def)
  have "made (under_way p ! i)" if "i < length (under_way p)"
    using assms(1) nth_mem [OF that] by (simp add: page_inv_def)
  then show ?thesis using assms(1) sub by (auto simp: Answer page_inv_def lookup_store split: if_splits)
next
  case (Lost i)
  then show ?thesis using assms(1) set_remove_at [of i "under_way p"] by (auto simp: page_inv_def)
qed (use assms in \<open>auto simp: page_inv_def made_def\<close>)

lemma page_inv_run:
  "page_inv p \<Longrightarrow> \<forall>s. Show s \<in> set es \<longrightarrow> covered s \<Longrightarrow> page_inv (foldl (query_step key req store) p es)"
proof (induction es arbitrary: p)
  case (Cons e es)
  have "page_inv (query_step key req store p e)" using Cons.prems by (intro page_inv_step) auto
  then show ?case using Cons by simp
qed simp

lemma shows_own_answer:
  assumes "covered s" "\<forall>s'. Show s' \<in> set es \<longrightarrow> covered s'"
    and "p = foldl (query_step key req store) (open_page empty s) es"
    and "lookup (query_store p) (key (shown_state p)) = Some (r, a)"
  shows "\<exists>now. r = req now (shown_state p)"
proof -
  have "page_inv p" unfolding assms(3) by (intro page_inv_run page_inv_open assms(1,2))
  then have "covered (shown_state p)" and "made (key (shown_state p), r)"
    using assms(4) by (auto simp: page_inv_def)
  then obtain s' now where "covered s'" "key (shown_state p) = key s'" "r = req now s'" by (auto simp: made_def)
  then show ?thesis using key_covers [of "shown_state p" s' now] \<open>covered (shown_state p)\<close> by metis
qed

text \<open>An answer of the request last made for the state on the screen is shown as soon as it is there.\<close>

lemma answer_shown:
  assumes "under_way p ! i = (key (shown_state p), r)" "i < length (under_way p)"
  shows "lookup (query_store (query_step key req store p (Answer i a))) (key (shown_state p)) = Some (r, a)"
  using assms by (simp add: lookup_store)

end

subsection \<open>The queries\<close>

text \<open>The states of the two lists, from the URL.\<close>

record v2_list =
  vl_timeRange :: TimeRange_v2
  vl_dbs :: "string list"
  vl_ruGroups :: "string list"
  vl_term :: string
  vl_filters :: "AdvancedFilterItem list"
  vl_cols :: "string list"
  vl_sort :: SortRule
  vl_page :: Pagination

text \<open>\<open>useListUrlState\<close> of the two applications, with the filters and the search term already decoded.\<close>

definition stmt_list_of :: "params \<Rightarrow> AdvancedFilterItem list \<Rightarrow> string \<Rightarrow> v2_list" where
  "stmt_list_of P filters t =
     \<lparr>vl_timeRange = timeRange_v2 None P, vl_dbs = v2_st_dbs P, vl_ruGroups = v2_st_ruGroups P, vl_term = t,
      vl_filters = filters, vl_cols = v2_st_cols P, vl_sort = sortRule ''sum_latency'' P,
      vl_page = pagination (js_int 15) P\<rparr>"

definition sq_list_of :: "params \<Rightarrow> AdvancedFilterItem list \<Rightarrow> string \<Rightarrow> v2_list" where
  "sq_list_of P filters t =
     \<lparr>vl_timeRange = timeRange_v2 None P, vl_dbs = v2_sq_dbs P, vl_ruGroups = v2_sq_ruGroups P, vl_term = t,
      vl_filters = filters, vl_cols = v2_sq_cols P, vl_sort = sortRule ''query_time'' P,
      vl_page = pagination (js_int 15) P\<rparr>"

record history_metric =
  hm_name :: string
  hm_unit :: string

datatype v2_query =
    StmtConfig | StmtDbs | StmtRuGroups | StmtKinds
  | StmtList v2_list "string list"
  | PlansList string | PlanDetail string string
  | PlanBindSupport | PlanBindStatus string jsnum jsnum
  | StmtFilterNames | StmtFilterInfo string | StmtFields
  | SqDbs | SqRuGroups
  | SqList v2_list string int
  | SqDetail string
  | SqFilterNames | SqFilterInfo string | SqFields
  | MetricQueries string | MetricConfig
  | LabelValues string string TimeRange_v2
  | MetricByName string TimeRange_v2 "string option"
  | MetricByPromQLs "string list" TimeRange_v2
  | HistoryNames
  | HistoryData string "history_metric option" "TimeRange_v2 option"
  | LimitRuGroups | LimitSupport | LimitStatus string

text \<open>
  The client compares keys by their JSON text: a missing value, and a number that is not finite, are both \<open>null\<close>. A
  number is the option of its value.
\<close>

datatype key_part =
    KStr string
  | KNum "rat option"
  | KNull
  | KStrs "string list"
  | KRange string "rat option list"
  | KFilters "AdvancedFilterItem list"
  | KSort string bool
  | KPage "rat option" "rat option"
  | KMetric string string

fun json_num :: "jsnum \<Rightarrow> rat option" where
  "json_num (Fin x) = Some x"
| "json_num _ = None"

fun key_range :: "TimeRange_v2 \<Rightarrow> key_part" where
  "key_range (Relative v) = KRange ''relative'' [json_num v]"
| "key_range (BeforeToNow v) = KRange ''before-to-now'' [json_num v]"
| "key_range (NowToFuture v) = KRange ''now-to-future'' [json_num v]"
| "key_range (Absolute_v2 a b) = KRange ''absolute'' [json_num a, json_num b]"

definition key_sort :: "SortRule \<Rightarrow> key_part" where
  "key_sort r = KSort (orderBy r) (desc r)"

definition key_page :: "Pagination \<Rightarrow> key_part" where
  "key_page p = KPage (json_num (pageIndex p)) (json_num (pageSize p))"

definition key_metric :: "history_metric option \<Rightarrow> key_part" where
  "key_metric m = (case m of None \<Rightarrow> KNull | Some m \<Rightarrow> KMetric (hm_name m) (hm_unit m))"

fun queryKey :: "string \<Rightarrow> v2_query \<Rightarrow> key_part list" where
  "queryKey ctxId StmtConfig = [KStr ctxId, KStr ''statement'', KStr ''config'']"
| "queryKey ctxId StmtDbs = [KStr ctxId, KStr ''statement'', KStr ''dbs'']"
| "queryKey ctxId StmtRuGroups = [KStr ctxId, KStr ''statement'', KStr ''ru-groups'']"
| "queryKey ctxId StmtKinds = [KStr ctxId, KStr ''statement'', KStr ''stmt-kinds'']"
| "queryKey ctxId (StmtList l kinds) =
     [KStr ctxId, KStr ''statement'', KStr ''list'', key_range (vl_timeRange l), KStrs (vl_dbs l), KStrs (vl_ruGroups l),
      KStrs kinds, KStr (vl_term l), KFilters (vl_filters l), KStrs (vl_cols l), key_sort (vl_sort l), key_page (vl_page l)]"
| "queryKey ctxId (PlansList i) = [KStr ctxId, KStr ''statement'', KStr ''plans-list'', KStr i]"
| "queryKey ctxId (PlanDetail i plan) = [KStr ctxId, KStr ''statement'', KStr ''plan-detail'', KStr i, KStr plan]"
| "queryKey ctxId PlanBindSupport = [KStr ctxId, KStr ''statement'', KStr ''plan-bind-support'']"
| "queryKey ctxId (PlanBindStatus digest beginTime endTime) =
     [KStr ctxId, KStr ''statement'', KStr ''plan-bind-status'', KStr digest, KNum (json_num beginTime), KNum (json_num endTime)]"
| "queryKey ctxId StmtFilterNames = [KStr ctxId, KStr ''statement'', KStr ''advanced-filter-names'']"
| "queryKey ctxId (StmtFilterInfo name) = [KStr ctxId, KStr ''statement'', KStr ''advanced-filter-info'', KStr name]"
| "queryKey ctxId StmtFields = [KStr ctxId, KStr ''statement'', KStr ''available-fields'']"
| "queryKey ctxId SqDbs = [KStr ctxId, KStr ''slow-query'', KStr ''dbs'']"
| "queryKey ctxId SqRuGroups = [KStr ctxId, KStr ''slow-query'', KStr ''ru-groups'']"
| "queryKey ctxId (SqList l digest lmt) =
     [KStr ctxId, KStr ''slow-query'', KStr ''list'', key_range (vl_timeRange l), KStrs (vl_dbs l), KStrs (vl_ruGroups l),
      KStr digest, KStr (vl_term l), KFilters (vl_filters l), KStrs (vl_cols l), KNum (Some (of_int lmt)),
      key_sort (vl_sort l), key_page (vl_page l)]"
| "queryKey ctxId (SqDetail i) = [KStr ctxId, KStr ''slow-query'', KStr ''detail'', KStr i]"
| "queryKey ctxId SqFilterNames = [KStr ctxId, KStr ''slow-query'', KStr ''advanced-filter-names'']"
| "queryKey ctxId (SqFilterInfo name) = [KStr ctxId, KStr ''slow-query'', KStr ''advanced-filter-info'', KStr name]"
| "queryKey ctxId SqFields = [KStr ctxId, KStr ''slow-query'', KStr ''available-fields'']"
| "queryKey ctxId (MetricQueries kind) = [KStr ctxId, KStr ''metric-queries-config'', KStr kind]"
| "queryKey ctxId MetricConfig = [KStr ctxId, KStr ''metric-config'']"
| "queryKey ctxId (LabelValues metricName labelName r) =
     [KStr ctxId, KStr ''metric-label-values'', KStr metricName, KStr labelName, key_range r]"
| "queryKey ctxId (MetricByName metricName r labelValue) =
     [KStr ctxId, KStr ''metric-data-by-metric-name'', KStr metricName, key_range r,
      case labelValue of None \<Rightarrow> KNull | Some v \<Rightarrow> KStr v]"
| "queryKey ctxId (MetricByPromQLs promQLs r) = [KStr ctxId, KStr ''metric-data-by-promqls'', KStrs promQLs, key_range r]"
| "queryKey ctxId HistoryNames = [KStr ctxId, KStr ''sql-history'', KStr ''metric-names'']"
| "queryKey ctxId (HistoryData digest m r) =
     [KStr ctxId, KStr ''sql-history'', KStr ''metric-data'', KStr digest, key_metric m,
      case r of None \<Rightarrow> KNull | Some r \<Rightarrow> key_range r]"
| "queryKey ctxId LimitRuGroups = [KStr ctxId, KStr ''sql-limit'', KStr ''ru-groups'']"
| "queryKey ctxId LimitSupport = [KStr ctxId, KStr ''sql-limit-support'']"
| "queryKey ctxId (LimitStatus digest) = [KStr ctxId, KStr ''sql-limit-status'', KStr digest]"

text \<open>The calls of the API. The enabled queries are the ones the client makes on its own.\<close>

record stmt_request =
  sr_beginTime :: jsnum
  sr_endTime :: jsnum
  sr_dbs :: "string list"
  sr_ruGroups :: "string list"
  sr_stmtKinds :: "string list"
  sr_term :: string
  sr_advancedFilters :: "AdvancedFilterItem list"
  sr_fields :: "string list"
  sr_orderBy :: string
  sr_desc :: bool
  sr_pageIndex :: jsnum
  sr_pageSize :: jsnum

record sq_v2_request =
  vr_beginTime :: jsnum
  vr_endTime :: jsnum
  vr_dbs :: "string list"
  vr_ruGroups :: "string list"
  vr_sqlDigest :: string
  vr_limit :: int
  vr_term :: string
  vr_advancedFilters :: "AdvancedFilterItem list"
  vr_fields :: "string list"
  vr_orderBy :: string
  vr_desc :: bool
  vr_pageIndex :: jsnum
  vr_pageSize :: jsnum

datatype api_call =
    Api string "string list"
  | GetStmtList stmt_request
  | GetSlowQueries sq_v2_request
  | GetPlanBindStatus string jsnum jsnum
  | GetLabelValues string string jsnum jsnum
  | GetMetricByName metric_request
  | GetMetricByPromQLs "string list" jsnum jsnum jsnum
  | GetHistoryData string string jsnum jsnum
  | NotAsked

text \<open>
  The parts of the context and of the screen a request depends on: the step of a chart, the longest history and the
  scrape interval.
\<close>

record query_env =
  env_step :: jsnum
  env_maxDuration :: "jsnum option"
  env_scrape :: "jsnum option"

definition no_empty :: "string list \<Rightarrow> string list" where
  "no_empty cols = filter (\<lambda>c. c \<noteq> ''empty'') cols"

text \<open>The end of a window that is longer than the longest allowed moves, with the mark for the alert.\<close>

definition clip_range :: "jsnum \<Rightarrow> TimeRangeValue \<Rightarrow> TimeRangeValue \<times> bool" where
  "clip_range mx tr =
     (if mx < snd tr - fst tr then ((fst tr, fst tr + mx), True) else (tr, False))"

definition stmt_list_request :: "jsnum \<Rightarrow> v2_list \<Rightarrow> string list \<Rightarrow> stmt_request" where
  "stmt_list_request now l kinds =
     (let tr = toTimeRangeValue_v2 now (vl_timeRange l) 0
      in \<lparr>sr_beginTime = fst tr, sr_endTime = snd tr, sr_dbs = vl_dbs l, sr_ruGroups = vl_ruGroups l, sr_stmtKinds = kinds,
          sr_term = vl_term l, sr_advancedFilters = vl_filters l, sr_fields = no_empty (vl_cols l),
          sr_orderBy = orderBy (vl_sort l), sr_desc = desc (vl_sort l),
          sr_pageIndex = pageIndex (vl_page l), sr_pageSize = pageSize (vl_page l)\<rparr>)"

definition sq_list_request :: "jsnum \<Rightarrow> v2_list \<Rightarrow> string \<Rightarrow> int \<Rightarrow> sq_v2_request" where
  "sq_list_request now l digest lmt =
     (let tr = fst (clip_range MAX_TIME_RANGE_DURATION_SECONDS (toTimeRangeValue_v2 now (vl_timeRange l) 0))
      in \<lparr>vr_beginTime = fst tr, vr_endTime = snd tr, vr_dbs = vl_dbs l, vr_ruGroups = vl_ruGroups l, vr_sqlDigest = digest,
          vr_limit = lmt, vr_term = vl_term l, vr_advancedFilters = vl_filters l, vr_fields = no_empty (vl_cols l),
          vr_orderBy = orderBy (vl_sort l), vr_desc = desc (vl_sort l),
          vr_pageIndex = pageIndex (vl_page l), vr_pageSize = pageSize (vl_page l)\<rparr>)"

definition history_range :: "jsnum \<Rightarrow> query_env \<Rightarrow> TimeRange_v2 \<Rightarrow> TimeRangeValue \<times> bool option" where
  "history_range now env r =
     (let tr = toTimeRangeValue_v2 now r 0
      in case env_maxDuration env of
           None \<Rightarrow> (tr, None)
         | Some mx \<Rightarrow> if truthy mx then (fst (clip_range mx tr), Some (snd (clip_range mx tr))) else (tr, None))"

definition history_request :: "jsnum \<Rightarrow> query_env \<Rightarrow> string \<Rightarrow> history_metric option \<Rightarrow> TimeRange_v2 option \<Rightarrow> api_call" where
  "history_request now env digest m r =
     (case (m, r) of
        (Some m, Some r) \<Rightarrow>
          (let tr = fst (history_range now env r) in GetHistoryData digest (hm_name m) (fst tr) (snd tr))
      | _ \<Rightarrow> NotAsked)"

fun queryFn :: "query_env \<Rightarrow> jsnum \<Rightarrow> v2_query \<Rightarrow> api_call" where
  "queryFn env now StmtConfig = Api ''getStmtConfig'' []"
| "queryFn env now StmtDbs = Api ''statement.getDbs'' []"
| "queryFn env now StmtRuGroups = Api ''statement.getRuGroups'' []"
| "queryFn env now StmtKinds = Api ''getStmtKinds'' []"
| "queryFn env now (StmtList l kinds) = GetStmtList (stmt_list_request now l kinds)"
| "queryFn env now (PlansList i) = Api ''getStmtPlans'' [i]"
| "queryFn env now (PlanDetail i plan) = Api ''getStmtPlansDetail'' [i, plan]"
| "queryFn env now PlanBindSupport = Api ''checkPlanBindSupport'' []"
| "queryFn env now (PlanBindStatus digest b e) = GetPlanBindStatus digest b e"
| "queryFn env now StmtFilterNames = Api ''statement.getAdvancedFilterNames'' []"
| "queryFn env now (StmtFilterInfo name) = (if name = [] then NotAsked else Api ''statement.getAdvancedFilterInfo'' [name])"
| "queryFn env now StmtFields = Api ''statement.getAvailableFields'' []"
| "queryFn env now SqDbs = Api ''slow-query.getDbs'' []"
| "queryFn env now SqRuGroups = Api ''slow-query.getRuGroups'' []"
| "queryFn env now (SqList l digest lmt) = GetSlowQueries (sq_list_request now l digest lmt)"
| "queryFn env now (SqDetail i) = Api ''getSlowQuery'' [i]"
| "queryFn env now SqFilterNames = Api ''slow-query.getAdvancedFilterNames'' []"
| "queryFn env now (SqFilterInfo name) = (if name = [] then NotAsked else Api ''slow-query.getAdvancedFilterInfo'' [name])"
| "queryFn env now SqFields = Api ''slow-query.getAvailableFields'' []"
| "queryFn env now (MetricQueries kind) = Api ''getMetricQueriesConfig'' [kind]"
| "queryFn env now MetricConfig = Api ''getMetricConfig'' []"
| "queryFn env now (LabelValues metricName labelName r) =
     (if metricName = [] then NotAsked
      else (let tr = fixTimeRange now r (Fin 30) in GetLabelValues metricName labelName (fst tr) (snd tr)))"
| "queryFn env now (MetricByName metricName r labelValue) =
     (let tr = fixTimeRange now r (env_step env)
      in GetMetricByName \<lparr>mr_metricName = metricName, mr_beginTime = fst tr, mr_endTime = snd tr, mr_step = env_step env,
           mr_label = labelValue\<rparr>)"
| "queryFn env now (MetricByPromQLs promQLs r) =
     (let tr = fixTimeRange now r (env_step env)
      in GetMetricByPromQLs (map (\<lambda>pq. resolvePromQLTemplate pq (env_step env)
             (case env_scrape env of Some i \<Rightarrow> i | None \<Rightarrow> DEF_SCRAPE_INTERVAL)) promQLs)
           (fst tr) (snd tr) (env_step env))"
| "queryFn env now HistoryNames = Api ''getHistoryMetricNames'' []"
| "queryFn env now (HistoryData digest m r) = history_request now env digest m r"
| "queryFn env now LimitRuGroups = Api ''sql-limit.getRuGroups'' []"
| "queryFn env now LimitSupport = Api ''checkSqlLimitSupport'' []"
| "queryFn env now (LimitStatus digest) = Api ''getSqlLimitStatus'' [digest]"

subsection \<open>Mutations\<close>

text \<open>A mutation that succeeds invalidates the queries whose key starts with its key.\<close>

datatype v2_mutation =
    UpdateStmtConfig
  | CreatePlanBind string string
  | DeletePlanBind string
  | CreateSqlLimit string string string
  | DeleteSqlLimit string string

fun mutationFn :: "v2_mutation \<Rightarrow> string \<times> string list" where
  "mutationFn UpdateStmtConfig = (''updateStmtConfig'', [])"
| "mutationFn (CreatePlanBind sqlDigest planDigest) = (''createPlanBind'', [planDigest])"
| "mutationFn (DeletePlanBind sqlDigest) = (''deletePlanBind'', [sqlDigest])"
| "mutationFn (CreateSqlLimit sqlDigest ruGroup action) = (''createSqlLimit'', [sqlDigest, ruGroup, action])"
| "mutationFn (DeleteSqlLimit sqlDigest i) = (''deleteSqlLimit'', [sqlDigest, i])"

fun invalidated_key :: "string \<Rightarrow> v2_mutation \<Rightarrow> key_part list" where
  "invalidated_key ctxId UpdateStmtConfig = [KStr ctxId, KStr ''statement'', KStr ''config'']"
| "invalidated_key ctxId (CreatePlanBind sqlDigest planDigest) =
     [KStr ctxId, KStr ''statement'', KStr ''plan-bind-status'', KStr sqlDigest]"
| "invalidated_key ctxId (DeletePlanBind sqlDigest) =
     [KStr ctxId, KStr ''statement'', KStr ''plan-bind-status'', KStr sqlDigest]"
| "invalidated_key ctxId (CreateSqlLimit sqlDigest ruGroup action) =
     [KStr ctxId, KStr ''sql-limit-status'', KStr sqlDigest]"
| "invalidated_key ctxId (DeleteSqlLimit sqlDigest i) = [KStr ctxId, KStr ''sql-limit-status'', KStr sqlDigest]"

subsection \<open>The cards of SQL history and SQL limit\<close>

text \<open>
  The memory state of the history card. Effects: the first metric when the names arrive and none is chosen, the range of
  the configuration when there is none. The states are those after the effects.
\<close>

record history_state =
  hs_range :: "TimeRange_v2 option"
  hs_metric :: "history_metric option"

datatype history_event =
    MetricNames "history_metric list"
  | PickMetric "string option"
  | PickRange "TimeRange_v2 option"
  | BrushRange TimeRangeValue
  | LeaveHistory

definition range_effect :: "TimeRange_v2 \<Rightarrow> history_state \<Rightarrow> history_state" where
  "range_effect initial s = (case hs_range s of None \<Rightarrow> s\<lparr>hs_range := Some initial\<rparr> | Some _ \<Rightarrow> s)"

definition metrics_effect :: "history_metric list \<Rightarrow> history_state \<Rightarrow> history_state" where
  "metrics_effect ms s =
     (case hs_metric s of
        None \<Rightarrow> s\<lparr>hs_metric := (case ms of [] \<Rightarrow> None | m # _ \<Rightarrow> Some m)\<rparr>
      | Some _ \<Rightarrow> s)"

definition handleMetricChange :: "history_metric list option \<Rightarrow> string option \<Rightarrow> history_state \<Rightarrow> history_state" where
  "handleMetricChange ms v s =
     s\<lparr>hs_metric := (case ms of None \<Rightarrow> None | Some ms \<Rightarrow> List.find (\<lambda>m. Some (hm_name m) = v) ms)\<rparr>"

definition history_reset :: "history_state" where
  "history_reset = \<lparr>hs_range = None, hs_metric = None\<rparr>"

fun history_step :: "TimeRange_v2 \<Rightarrow> history_metric list option \<times> history_state \<Rightarrow> history_event \<Rightarrow>
    history_metric list option \<times> history_state" where
  "history_step initial (ms, s) (MetricNames xs) = (Some xs, metrics_effect xs s)"
| "history_step initial (ms, s) (PickMetric v) = (ms, handleMetricChange ms v s)"
| "history_step initial (ms, s) (PickRange r) = (ms, range_effect initial (s\<lparr>hs_range := r\<rparr>))"
| "history_step initial (ms, s) (BrushRange v) = (ms, s\<lparr>hs_range := Some (Absolute_v2 (fst v) (snd v))\<rparr>)"
| "history_step initial (ms, s) LeaveHistory = (None, history_reset)"

definition history_series :: "history_metric option \<Rightarrow> 'd list option \<Rightarrow> (string \<times> 'd list) list" where
  "history_series m metricData =
     (case metricData of None \<Rightarrow> [] | Some d \<Rightarrow> [(case m of Some m \<Rightarrow> hm_name m | None \<Rightarrow> [], d)])"

text \<open>The dialog of a limit: a submission without a group or an action is ignored, a failed one leaves the dialog open.\<close>

record limit_dialog =
  ld_visible :: bool
  ld_group :: string
  ld_action :: string

definition limit_submit :: "string \<Rightarrow> limit_dialog \<Rightarrow> v2_mutation option" where
  "limit_submit sqlDigest d =
     (if ld_group d = [] \<or> ld_action d = [] then None else Some (CreateSqlLimit sqlDigest (ld_group d) (ld_action d)))"

definition limit_answered :: "bool \<Rightarrow> limit_dialog \<Rightarrow> limit_dialog" where
  "limit_answered ok d = (if ok then d\<lparr>ld_visible := False\<rparr> else d)"

datatype limit_card = LimitPending | LimitUnsupported | LimitTable

definition SqlLimitCard :: "bool option \<Rightarrow> limit_card" where
  "SqlLimitCard support = (case support of None \<Rightarrow> LimitPending | Some ok \<Rightarrow> if ok then LimitTable else LimitUnsupported)"

datatype limit_body = BodyLoading | BodyNothing | NoGroups | LimitForm "string list"

definition SqlLimitSettingBody :: "bool \<Rightarrow> string list option \<Rightarrow> limit_body" where
  "SqlLimitSettingBody isLoading ruGroups =
     (if isLoading then BodyLoading
      else (case ruGroups of None \<Rightarrow> BodyNothing | Some gs \<Rightarrow> if gs = [] then NoGroups else LimitForm gs))"

subsection \<open>Keys and requests\<close>

fun finite_num :: "jsnum \<Rightarrow> bool" where
  "finite_num (Fin x) = True"
| "finite_num _ = False"

fun finite_range :: "TimeRange_v2 \<Rightarrow> bool" where
  "finite_range (Relative v) = finite_num v"
| "finite_range (BeforeToNow v) = finite_num v"
| "finite_range (NowToFuture v) = finite_num v"
| "finite_range (Absolute_v2 a b) = (finite_num a \<and> finite_num b)"

definition finite_list :: "v2_list \<Rightarrow> bool" where
  "finite_list l = (finite_range (vl_timeRange l) \<and> finite_num (pageIndex (vl_page l)) \<and> finite_num (pageSize (vl_page l)))"

text \<open>The numbers of a query that is made are finite.\<close>

fun finite_query :: "v2_query \<Rightarrow> bool" where
  "finite_query (StmtList l kinds) = finite_list l"
| "finite_query (SqList l digest lmt) = finite_list l"
| "finite_query (PlanBindStatus d b e) = (finite_num b \<and> finite_num e)"
| "finite_query (LabelValues m l r) = finite_range r"
| "finite_query (MetricByName m r l) = finite_range r"
| "finite_query (MetricByPromQLs qs r) = finite_range r"
| "finite_query (HistoryData d m r) = (case r of None \<Rightarrow> True | Some r \<Rightarrow> finite_range r)"
| "finite_query _ = True"

lemma json_num_inj: "finite_num x \<Longrightarrow> finite_num y \<Longrightarrow> json_num x = json_num y \<longleftrightarrow> x = y"
  by (cases x; cases y) simp_all

lemma key_range_inj: "finite_range r \<Longrightarrow> finite_range r' \<Longrightarrow> key_range r = key_range r' \<longleftrightarrow> r = r'"
  by (cases r; cases r') (auto simp: json_num_inj)

lemma key_metric_inj: "key_metric m = key_metric m' \<longleftrightarrow> m = m'"
  by (cases m; cases m') (auto simp: key_metric_def)

lemma key_null: "key_range r \<noteq> KNull" "KNull \<noteq> key_range r"
  by (cases r; simp)+

lemma v2_list_key_inj:
  assumes "finite_list l" "finite_list l'" "key_range (vl_timeRange l) = key_range (vl_timeRange l')"
    "vl_dbs l = vl_dbs l'" "vl_ruGroups l = vl_ruGroups l'" "vl_term l = vl_term l'" "vl_filters l = vl_filters l'"
    "vl_cols l = vl_cols l'" "key_sort (vl_sort l) = key_sort (vl_sort l')" "key_page (vl_page l) = key_page (vl_page l')"
  shows "l = l'"
  using assms by (simp add: finite_list_def key_range_inj key_sort_def key_page_def json_num_inj)

lemma queryKey_inj:
  assumes "finite_query q" "finite_query q'" "queryKey c q = queryKey c' q'"
  shows "c = c' \<and> q = q'"
  using assms
  by (cases q; cases q'; simp add: json_num_inj key_range_inj key_metric_inj key_null split: option.splits)
    (auto intro: v2_list_key_inj)

text \<open>A state of a page: the context it is in and the query it makes there.\<close>

type_synonym v2_state = "string \<times> v2_query"

definition state_key :: "v2_state \<Rightarrow> key_part list" where
  "state_key s = queryKey (fst s) (snd s)"

definition state_request :: "(string \<Rightarrow> query_env) \<Rightarrow> jsnum \<Rightarrow> v2_state \<Rightarrow> string \<times> api_call" where
  "state_request env now s = (fst s, queryFn (env (fst s)) now (snd s))"

abbreviation query_map :: "('k \<Rightarrow> 'v option) \<Rightarrow> 'k \<Rightarrow> 'v \<Rightarrow> 'k \<Rightarrow> 'v option" where
  "query_map c k v \<equiv> c(k \<mapsto> v)"

interpretation vq: keyed_query state_key "state_request env" "\<lambda>s. finite_query (snd s)" "\<lambda>c k. c k" query_map Map.empty
  for env
  by unfold_locales (auto simp: state_key_def state_request_def dest: queryKey_inj)


definition sample_env :: query_env where
  "sample_env = \<lparr>env_step = Fin 30, env_maxDuration = None, env_scrape = None\<rparr>"


text \<open>What a mutation changes on the server.\<close>

fun affected :: "v2_mutation \<Rightarrow> v2_query \<Rightarrow> bool" where
  "affected UpdateStmtConfig q = (q = StmtConfig)"
| "affected (CreatePlanBind d p) q = (case q of PlanBindStatus d' b e \<Rightarrow> d' = d | _ \<Rightarrow> False)"
| "affected (DeletePlanBind d) q = (case q of PlanBindStatus d' b e \<Rightarrow> d' = d | _ \<Rightarrow> False)"
| "affected (CreateSqlLimit d g a) q = (q = LimitStatus d)"
| "affected (DeleteSqlLimit d i) q = (q = LimitStatus d)"

text \<open>
  A mutation invalidates exactly the queries whose answer it changes, in its own context: the configuration, the
  bindings of this statement for every time window, or the limits of this statement, and nothing else of the shared store.
\<close>

theorem mutations_invalidate:
  assumes "\<And>p k. matches p k \<longleftrightarrow> prefix p k"
  shows "matches (invalidated_key c m) (queryKey c' q) \<longleftrightarrow> c = c' \<and> affected m q"
  unfolding assms by (cases m; cases q; auto)

theorem mutations_invalidate_witness:
  "prefix (invalidated_key ''c1'' (DeletePlanBind ''d'')) (queryKey ''c1'' (PlanBindStatus ''d'' (Fin 1) (Fin 2))) \<and>
   \<not> prefix (invalidated_key ''c1'' (DeletePlanBind ''d'')) (queryKey ''c1'' (PlanBindStatus ''e'' (Fin 1) (Fin 2)))"
  using mutations_invalidate [of prefix "''c1''" "DeletePlanBind ''d''" "''c1''" "PlanBindStatus ''d'' (Fin 1) (Fin 2)"]
    mutations_invalidate [of prefix "''c1''" "DeletePlanBind ''d''" "''c1''" "PlanBindStatus ''e'' (Fin 1) (Fin 2)"]
  by simp

text \<open>The window of a request is never longer than allowed, and starts where it was asked for.\<close>

lemma clip_range_bounds:
  assumes "tr = (Fin a, Fin b)" "mx = Fin m" "0 \<le> m"
  shows "fst (fst (clip_range mx tr)) = Fin a"
    "\<exists>e. snd (fst (clip_range mx tr)) = Fin e \<and> e - a \<le> m \<and> e \<le> b \<and> (snd (clip_range mx tr) \<longleftrightarrow> e \<noteq> b)"
  using assms by (auto simp: clip_range_def minus_jsnum_def)

text \<open>
  The history card always asks for a metric the server has named: the one that is chosen is one of the last names, as
  long as the names do not change.
\<close>

lemma history_metric_known:
  assumes "\<forall>xs. MetricNames xs \<in> set es \<longrightarrow> xs = names"
    and "(ms, s) = foldl (history_step initial) (None, history_reset) es"
  shows "(ms = None \<or> ms = Some names) \<and> (\<forall>m. hs_metric s = Some m \<longrightarrow> m \<in> set names)"
  using assms
proof (induction es arbitrary: ms s rule: rev_induct)
  case Nil
  then show ?case by (simp add: history_reset_def)
next
  case (snoc e es)
  obtain ms' s' where prev: "(ms', s') = foldl (history_step initial) (None, history_reset) es"
    by (metis surj_pair)
  have ih: "(ms' = None \<or> ms' = Some names) \<and> (\<forall>m. hs_metric s' = Some m \<longrightarrow> m \<in> set names)"
    using snoc.IH [OF _ prev] snoc.prems(1) by simp
  have now: "(ms, s) = history_step initial (ms', s') e" using snoc.prems(2) unfolding foldl_append prev [symmetric] by simp
  show ?case
  proof (cases e)
    case (PickMetric v)
    then show ?thesis using now ih by (auto simp: handleMetricChange_def find_Some_iff split: option.splits)
  qed (use now ih snoc.prems(1) in
      \<open>auto simp: metrics_effect_def range_effect_def history_reset_def split: option.splits list.splits\<close>)
qed

end
