(* ===== verification/ListPages.thy ===== *)
theory ListPages
  imports QueryKeys TableColumns
begin

text \<open>
  The list pages of the first generation: the slow query list (\<open>apps/SlowQuery/pages/List/index.tsx\<close>), the top slow
  queries (\<open>apps/TopSlowQuery/pages\<close>) and the statement list (\<open>apps/Statement/pages/List/index.tsx\<close>), with the hook
  \<open>useURLTimeRange\<close> the statement list keeps its range in. The first two keep their filters in the URL and ask the query
  client of the theory \<open>QueryKeys\<close>; the statement list sits on the controller of the theory \<open>StatementController\<close>. The
  store of the URL is a pair \<open>get\<close> and \<open>put\<close> with the contract \<open>url_store\<close>.
\<close>

subsection \<open>useQueryParams and useURLTimeRange\<close>

datatype qp_value = QNum jsnum | QStr string | QArr "string list"

type_synonym qp_params = "(string \<times> qp_value) list"

fun qp_put :: "string \<Rightarrow> qp_value \<Rightarrow> qp_params \<Rightarrow> qp_params" where
  "qp_put k v [] = [(k, v)]"
| "qp_put k v ((k', v') # ps) = (if k = k' then (k, v) # ps else (k', v') # qp_put k v ps)"

definition qp_spread :: "qp_params \<Rightarrow> qp_params \<Rightarrow> qp_params" where
  "qp_spread base extra = foldl (\<lambda>ps (k, v). qp_put k v ps) base extra"

definition qp_typed :: "qp_params \<Rightarrow> string \<Rightarrow> string \<Rightarrow> qp_value" where
  "qp_typed defParams k v =
     (case map_of defParams k of
        Some (QNum _) \<Rightarrow> QNum (js_Number v)
      | Some (QArr _) \<Rightarrow> QArr (if v = [] then [] else split_on (CHR '','') v)
      | _ \<Rightarrow> QStr v)"

definition qp_init :: "qp_params \<Rightarrow> qp_params option \<Rightarrow> string \<Rightarrow> qp_params" where
  "qp_init defParams override srch =
     foldl (\<lambda>ps (k, v). qp_put k (qp_typed defParams k v) ps)
       (qp_spread (qp_spread [] defParams) (case override of Some o' \<Rightarrow> o' | None \<Rightarrow> [])) (parse_search srch)"

fun qp_text :: "qp_value \<Rightarrow> string" where
  "qp_text (QNum n) = show_num n"
| "qp_text (QStr s) = s"
| "qp_text (QArr xs) = join '','' xs"

text \<open>
  The state and the search text after a change; the navigation is left out when the text stays the same. The text of a
  location starts with a question mark.
\<close>

definition qp_search :: "qp_params \<Rightarrow> string" where
  "qp_search ps = CHR ''?'' # show_search (foldl (\<lambda>sp (k, v). search_set k (qp_text v) sp) [] ps)"

definition qp_set :: "qp_params \<Rightarrow> qp_params \<times> string \<Rightarrow> (qp_params \<times> string) \<times> bool" where
  "qp_set p st =
     (let params = qp_spread (fst st) p; cur = qp_search params
      in if snd st = cur then ((params, snd st), False) else ((params, cur), True))"

definition url_range_defaults :: qp_params where
  "url_range_defaults = [(''from'', QNum (Fin (30 * 60))), (''to'', QStr ''now'')]"

definition parseInt_text :: "qp_params \<Rightarrow> string \<Rightarrow> jsnum" where
  "parseInt_text ps k =
     (case map_of ps k of
        Some v \<Rightarrow> (case parseInt (qp_text v) of Some i \<Rightarrow> js_int i | None \<Rightarrow> NaN)
      | None \<Rightarrow> NaN)"

definition useURLTimeRange :: "qp_params \<Rightarrow> TimeRange" where
  "useURLTimeRange ps =
     (if map_of ps ''to'' = Some (QStr ''now'') then Recent (parseInt_text ps ''from'')
      else Absolute (parseInt_text ps ''from'') (parseInt_text ps ''to''))"

fun url_range_patch :: "TimeRange \<Rightarrow> qp_params" where
  "url_range_patch (Recent v) = [(''from'', QNum v), (''to'', QStr ''now'')]"
| "url_range_patch (Absolute a b) = [(''from'', QNum a), (''to'', QNum b)]"

text \<open>
  The range of the statement list survives the URL: after it was set, the hook reads it, and so does a page opened from
  the new address.
\<close>

fun whole_range :: "TimeRange \<Rightarrow> bool" where
  "whole_range (Recent v) = (\<exists>n. v = js_int n)"
| "whole_range (Absolute a b) = (\<exists>m n. a = js_int m \<and> b = js_int n)"

lemma map_of_qp_put: "map_of (qp_put k v ps) = (map_of ps)(k \<mapsto> v)"
  by (induction ps) auto

lemma keys_qp_put: "fst ` set (qp_put k v ps) = insert k (fst ` set ps)"
  by (induction k v ps rule: qp_put.induct) (auto simp: insert_commute)

lemma distinct_qp_put: "distinct (map fst ps) \<Longrightarrow> distinct (map fst (qp_put k v ps))"
  by (induction k v ps rule: qp_put.induct) (simp_all add: keys_qp_put)

lemma map_of_qp_fold:
  "distinct (map fst kvs) \<Longrightarrow> map_of (foldl (\<lambda>ps (k, v). qp_put k (f k v) ps) b kvs) k =
     (case map_of kvs k of Some v \<Rightarrow> Some (f k v) | None \<Rightarrow> map_of b k)"
proof (induction kvs arbitrary: b)
  case (Cons kv kvs)
  have "map_of kvs (fst kv) = None" using Cons.prems by (simp add: map_of_eq_None_iff)
  then show ?case using Cons by (cases kv) (auto simp: map_of_qp_put split: option.splits)
qed simp

lemma distinct_qp_spread: "distinct (map fst b) \<Longrightarrow> distinct (map fst (qp_spread b e))"
  unfolding qp_spread_def by (induction e arbitrary: b) (auto simp: distinct_qp_put)

lemma map_of_qp_spread:
  "distinct (map fst e) \<Longrightarrow> map_of (qp_spread b e) k = (case map_of e k of Some v \<Rightarrow> Some v | None \<Rightarrow> map_of b k)"
  using map_of_qp_fold [of e "\<lambda>k v. v"] by (simp add: qp_spread_def)

lemma search_set_fresh: "k \<notin> fst ` set sp \<Longrightarrow> search_set k v sp = sp @ [(k, v)]"
  by (induction sp rule: search_set.induct) auto

lemma search_sets:
  "distinct (map fst sp @ map fst ps) \<Longrightarrow>
     foldl (\<lambda>sp (k, v). search_set k (f v) sp) sp ps = sp @ map (\<lambda>(k, v). (k, f v)) ps"
proof (induction ps arbitrary: sp)
  case (Cons p ps)
  then show ?case using Cons.IH [of "sp @ [(fst p, f (snd p))]"]
    by (cases p) (force simp: search_set_fresh simp flip: set_map)
qed simp

lemma parse_qp_search: "distinct (map fst ps) \<Longrightarrow> parse_search (qp_search ps) = map (\<lambda>(k, v). (k, qp_text v)) ps"
proof -
  assume d: "distinct (map fst ps)"
  have "parse_search (CHR ''?'' # show_search sp) = parse_search (show_search sp)" for sp
    using show_search_no_question [of sp] by (auto simp: parse_search_def Let_def split: list.splits)
  then show ?thesis using search_sets [of "[]" ps qp_text] d by (simp add: qp_search_def)
qed

lemma map_of_map_snd: "map_of (map (\<lambda>(k, v). (k, f v)) ps) k = map_option f (map_of ps k)"
  by (induction ps) auto

lemma qp_reopened:
  assumes "distinct (map fst ps)"
  shows "map_of (qp_init D None (qp_search ps)) k =
    (case map_of ps k of Some v \<Rightarrow> Some (qp_typed D k (qp_text v)) | None \<Rightarrow> map_of (qp_spread [] D) k)"
proof -
  have "distinct (map fst (map (\<lambda>(k, v). (k, qp_text v)) ps))"
    using assms by (simp add: comp_def case_prod_unfold)
  from map_of_qp_fold [OF this] show ?thesis
    by (simp add: qp_init_def parse_qp_search [OF assms] map_of_map_snd qp_spread_def split: option.splits)
qed

lemma url_range_roundtrip:
  assumes "whole_range r" "distinct (map fst ps)"
  shows "useURLTimeRange (fst (fst (qp_set (url_range_patch r) (ps, srch)))) = r"
    "useURLTimeRange (qp_init url_range_defaults None (qp_search (fst (fst (qp_set (url_range_patch r) (ps, srch)))))) = r"
proof -
  have st: "fst (fst (qp_set (url_range_patch r) (ps, srch))) = qp_spread ps (url_range_patch r)"
    by (simp add: qp_set_def Let_def)
  have d: "distinct (map fst (qp_spread ps (url_range_patch r)))" by (rule distinct_qp_spread [OF assms(2)])
  define ps' where "ps' = qp_spread ps (url_range_patch r)"
  have m: "map_of ps' k = (case map_of (url_range_patch r) k of Some v \<Rightarrow> Some v | None \<Rightarrow> map_of ps k)" for k
    unfolding ps'_def by (rule map_of_qp_spread) (cases r; simp)
  show "useURLTimeRange (fst (fst (qp_set (url_range_patch r) (ps, srch)))) = r"
    unfolding st ps'_def [symmetric] using assms(1)
    by (cases r) (auto simp: useURLTimeRange_def m parseInt_text_def simp del: show_num.simps)
  show "useURLTimeRange (qp_init url_range_defaults None (qp_search (fst (fst (qp_set (url_range_patch r) (ps, srch)))))) = r"
    unfolding st ps'_def [symmetric] using assms(1)
    by (cases r) (auto simp: useURLTimeRange_def qp_reopened [OF d [folded ps'_def]] m parseInt_text_def qp_typed_def
        url_range_defaults_def show_int_neq_now simp del: show_num.simps)
qed

subsection \<open>The slow query list\<close>

text \<open>
  The page: the URL, the databases the URL had when the page was opened, the columns and switches kept in the local
  storage, the download, and what the four queries have answered. \<open>'s\<close> is the store of the URL.
\<close>

record sq_page_cfg =
  showTopSlowQueryLink :: bool
  sqc_showDBFilter :: bool
  sqc_showResourceGroupFilter :: bool
  sqc_orgName :: string
  sqc_clusterName :: string
  sqc_apiPathBase :: string

record 's sq_list_page =
  lp_url :: 's
  lp_defDbs :: "string list"
  lp_cols :: IColumnKeys
  lp_showFullSQL :: bool
  lp_modal :: bool
  lp_downloading :: bool

definition open_sq_page :: "('s \<Rightarrow> params) \<Rightarrow> IColumnKeys \<Rightarrow> bool \<Rightarrow> 's \<Rightarrow> 's sq_list_page" where
  "open_sq_page get cols full s =
     \<lparr>lp_url = s, lp_defDbs = sq_dbs (get s), lp_cols = cols, lp_showFullSQL = full, lp_modal = False, lp_downloading = False\<rparr>"

definition col_visible :: "IColumnKeys \<Rightarrow> string \<Rightarrow> bool" where
  "col_visible cols k = (map_of cols k = Some True)"

definition updateVisibleColumnKeys :: "('s \<Rightarrow> params) \<Rightarrow> ('s \<Rightarrow> patch \<Rightarrow> 's) \<Rightarrow> IColumnKeys \<Rightarrow> 's sq_list_page \<Rightarrow> 's sq_list_page"
  where
  "updateVisibleColumnKeys get put v p =
     (let p = p\<lparr>lp_cols := v\<rparr>
      in if col_visible v (col (sq_order (get (lp_url p)))) then p else p\<lparr>lp_url := put (lp_url p) sq_resetOrder\<rparr>)"

definition handleFormSubmit :: "('s \<Rightarrow> patch \<Rightarrow> 's) \<Rightarrow> string \<Rightarrow> string \<Rightarrow> 's sq_list_page \<Rightarrow> 's sq_list_page" where
  "handleFormSubmit put tm dg p = p\<lparr>lp_url := put (lp_url p) [(''term'', Some tm), (''digest'', Some dg)]\<rparr>"

datatype sq_page_event =
    ChangeRange TimeRange | ChangeDbs "string list" | ChangeGroups "string list" | ChangeLimit int | ChangeInternal bool
  | ChangeOrder string bool | ChangeColumns IColumnKeys | ChangeFullSQL bool | SubmitForm string string | ClickRow int
  | ToggleModal | StartDownload | EndDownload

fun sq_page_step :: "('s \<Rightarrow> params) \<Rightarrow> ('s \<Rightarrow> patch \<Rightarrow> 's) \<Rightarrow> 's sq_list_page \<Rightarrow> sq_page_event \<Rightarrow> 's sq_list_page" where
  "sq_page_step get put p (ChangeRange r) = p\<lparr>lp_url := put (lp_url p) (sq_setTimeRange r)\<rparr>"
| "sq_page_step get put p (ChangeDbs v) = p\<lparr>lp_url := put (lp_url p) (sq_setDbs v)\<rparr>"
| "sq_page_step get put p (ChangeGroups v) = p\<lparr>lp_url := put (lp_url p) (sq_setRuGroups v)\<rparr>"
| "sq_page_step get put p (ChangeLimit n) = p\<lparr>lp_url := put (lp_url p) (sq_setLimit n)\<rparr>"
| "sq_page_step get put p (ChangeInternal b) = p\<lparr>lp_url := put (lp_url p) (sq_setShowInternal b)\<rparr>"
| "sq_page_step get put p (ChangeOrder c dsc) =
     p\<lparr>lp_url := put (lp_url p) (sq_setOrder \<lparr>col = c, type_of = (if dsc then Desc else Asc)\<rparr>)\<rparr>"
| "sq_page_step get put p (ChangeColumns v) = updateVisibleColumnKeys get put v p"
| "sq_page_step get put p (ChangeFullSQL b) = p\<lparr>lp_showFullSQL := b\<rparr>"
| "sq_page_step get put p (SubmitForm tm dg) = handleFormSubmit put tm dg p"
| "sq_page_step get put p (ClickRow i) = p\<lparr>lp_url := put (lp_url p) (sq_setRowIdx i)\<rparr>"
| "sq_page_step get put p ToggleModal = p\<lparr>lp_modal := \<not> lp_modal p\<rparr>"
| "sq_page_step get put p StartDownload = p\<lparr>lp_downloading := True\<rparr>"
| "sq_page_step get put p EndDownload = p\<lparr>lp_downloading := False\<rparr>"

text \<open>
  The request of the list, of the type of its fields: the text of the names as it is sent, or the set of names it means.
\<close>

record 'f lq_request =
  lq_begin :: jsnum
  lq_end :: jsnum
  lq_dbs :: "string list"
  lq_desc :: bool
  lq_digest :: string
  lq_fields :: 'f
  lq_limit :: "int option"
  lq_orderBy :: string
  lq_groups :: "string list"
  lq_text :: string
  lq_internal :: bool

definition sq_page_request :: "(string list \<Rightarrow> 'f) \<Rightarrow> jsnum \<Rightarrow> params \<Rightarrow> IColumnKeys \<Rightarrow> 'f lq_request" where
  "sq_page_request mk now P cols =
     (let tr = toTimeRangeValue now (Some (sq_timeRange P)) 0
      in \<lparr>lq_begin = fst tr, lq_end = snd tr, lq_dbs = sq_dbs P, lq_desc = (type_of (sq_order P) = Desc),
          lq_digest = sq_digest P, lq_fields = mk (getSelectedFields cols sq_derivedFields), lq_limit = sq_limit P,
          lq_orderBy = col (sq_order P), lq_groups = sq_ruGroups P, lq_text = sq_term P, lq_internal = sq_showInternal P\<rparr>)"

text \<open>The request of the export: all fields, at most 10000 rows.\<close>

record export_request =
  xr_fields :: string
  xr_begin :: jsnum
  xr_end :: jsnum
  xr_db :: "string list"
  xr_groups :: "string list"
  xr_text :: string
  xr_orderBy :: string
  xr_desc :: bool
  xr_limit :: int
  xr_digest :: string

definition sq_downloadCSV :: "jsnum \<Rightarrow> params \<Rightarrow> export_request" where
  "sq_downloadCSV now P =
     (let tr = toTimeRangeValue now (Some (sq_timeRange P)) 0
      in \<lparr>xr_fields = ''*'', xr_begin = fst tr, xr_end = snd tr, xr_db = sq_dbs P, xr_groups = sq_ruGroups P,
          xr_text = sq_term P, xr_orderBy = col (sq_order P), xr_desc = (type_of (sq_order P) = Desc), xr_limit = 10000,
          xr_digest = sq_digest P\<rparr>)"

definition download_link :: "string \<Rightarrow> string \<Rightarrow> string option" where
  "download_link apiPathBase token =
     (if token = [] then None else Some (apiPathBase @ ''/slow_query/download?token='' @ token))"

definition finalDbs :: "string list option \<Rightarrow> 's sq_list_page \<Rightarrow> string list" where
  "finalDbs dbsData p = (case dbsData of Some ds \<Rightarrow> if ds \<noteq> [] then ds else lp_defDbs p | None \<Rightarrow> lp_defDbs p)"

definition csvHeaders :: "icolumn list \<Rightarrow> IColumnKeys \<Rightarrow> string list" where
  "csvHeaders columns cols = map c_key (filter (\<lambda>c. col_visible cols (c_key c)) columns)"

definition clusterInfo :: "string \<Rightarrow> string \<Rightarrow> string" where
  "clusterInfo orgName clusterName =
     join '' | '' ((if orgName \<noteq> [] then [''Org: '' @ orgName] else []) @
       (if clusterName \<noteq> [] then [''Cluster: '' @ clusterName] else []))"

definition sq_rowLink :: "string \<Rightarrow> string \<Rightarrow> string \<Rightarrow> string" where
  "sq_rowLink dg connection_id ts =
     ''/slow_query/detail?digest='' @ dg @ ''&connection_id='' @ connection_id @ ''&timestamp='' @ ts"

text \<open>The four queries of the page, with the keys of the store.\<close>

datatype sq_page_query = PageDbs | PageGroups | PageColumns | PageList

datatype sq_store_key =
    KeyDbs "string \<times> rat option list"
  | KeyGroups
  | KeyColumns
  | KeyList "string \<times> rat option list" "string list" OrderOpt string "string \<Rightarrow> bool option" "int option" "string list" string bool

fun range_key :: "TimeRange \<Rightarrow> string \<times> rat option list" where
  "range_key (Recent v) = (''recent'', [QueryKeys.json_num v])"
| "range_key (Absolute a b) = (''absolute'', [QueryKeys.json_num a, QueryKeys.json_num b])"

type_synonym sq_query_state = "sq_page_cfg \<times> params \<times> IColumnKeys \<times> sq_page_query"

fun sq_page_key :: "sq_query_state \<Rightarrow> sq_store_key" where
  "sq_page_key (cfg, P, cols, PageDbs) = KeyDbs (range_key (sq_timeRange P))"
| "sq_page_key (cfg, P, cols, PageGroups) = KeyGroups"
| "sq_page_key (cfg, P, cols, PageColumns) = KeyColumns"
| "sq_page_key (cfg, P, cols, PageList) =
     KeyList (range_key (sq_timeRange P)) (sq_dbs P) (sq_order P) (sq_digest P) (map_of cols) (sq_limit P) (sq_ruGroups P)
       (sq_term P) (sq_showInternal P)"

datatype sq_call =
    GetDatabaseList jsnum jsnum
  | ListResourceGroupNames
  | AvailableFields
  | SlowQueryList "string set lq_request"
  | NoCall

fun sq_page_call :: "jsnum \<Rightarrow> sq_query_state \<Rightarrow> sq_call" where
  "sq_page_call now (cfg, P, cols, PageDbs) =
     (let tr = toTimeRangeValue now (Some (sq_timeRange P)) 0
      in if \<not> (sqc_showDBFilter cfg \<and> truthy (fst tr)) then NoCall
         else if showTopSlowQueryLink cfg then GetDatabaseList (fst tr) (snd tr)
         else GetDatabaseList 0 0)"
| "sq_page_call now (cfg, P, cols, PageGroups) = (if sqc_showResourceGroupFilter cfg then ListResourceGroupNames else NoCall)"
| "sq_page_call now (cfg, P, cols, PageColumns) = AvailableFields"
| "sq_page_call now (cfg, P, cols, PageList) = SlowQueryList (sq_page_request set now P cols)"

fun finite_trange :: "TimeRange \<Rightarrow> bool" where
  "finite_trange (Recent v) = finite_num v"
| "finite_trange (Absolute a b) = (finite_num a \<and> finite_num b)"

definition sq_covered :: "sq_page_cfg \<Rightarrow> sq_query_state \<Rightarrow> bool" where
  "sq_covered cfg s =
     (fst s = cfg \<and> finite_trange (sq_timeRange (fst (snd s))) \<and> distinct (map fst (fst (snd (snd s)))))"

lemma range_key_inj: "finite_trange r \<Longrightarrow> finite_trange r' \<Longrightarrow> range_key r = range_key r' \<longleftrightarrow> r = r'"
  by (cases r; cases r') (auto simp: json_num_inj)

lemma selected_fields_by_map:
  assumes "distinct (map fst cols)" "distinct (map fst cols')" "map_of cols = map_of cols'"
  shows "set (getSelectedFields cols d) = set (getSelectedFields cols' d)"
proof -
  have "set cols = set cols'" using assms by (metis map_of_eqI map_of_is_SomeI map_of_SomeD subsetI subset_antisym surj_pair)
  then show ?thesis by (simp add: getSelectedFields_def)
qed

lemma sq_key_covers:
  assumes "sq_covered cfg s" "sq_covered cfg s'" "sq_page_key s = sq_page_key s'"
  shows "sq_page_call now s = sq_page_call now s'"
proof -
  obtain P cols q where s: "s = (cfg, P, cols, q)" using assms(1) by (cases s) (auto simp: sq_covered_def)
  obtain P' cols' q' where s': "s' = (cfg, P', cols', q')" using assms(2) by (cases s') (auto simp: sq_covered_def)
  show ?thesis
  proof (cases q)
    case PageList
    then have q': "q' = PageList" using assms(3) by (cases q') (auto simp: s s')
    have "set (getSelectedFields cols sq_derivedFields) = set (getSelectedFields cols' sq_derivedFields)"
      using assms by (intro selected_fields_by_map) (auto simp: s s' sq_covered_def PageList q')
    then show ?thesis using assms
      by (simp add: s s' PageList q' sq_covered_def sq_page_request_def range_key_inj)
  qed (use assms in \<open>cases q'; auto simp: s s' sq_covered_def range_key_inj\<close>)+
qed

interpretation sqp: keyed_query sq_page_key sq_page_call "sq_covered cfg" "\<lambda>c k. c k" query_map Map.empty
  for cfg
  by unfold_locales (auto intro: sq_key_covers)

text \<open>
  The slow query list shows what it says: whatever filters, columns and ranges follow each other and in whatever order
  the answers come, the rows on the screen answer a request with the filters, the order, the limit and the fields on
  the screen, at some moment for a range that ends now.
\<close>

theorem slow_query_page_shows:
  assumes "sq_covered cfg s" "list_all (\<lambda>e. case e of Show s' \<Rightarrow> sq_covered cfg s' | _ \<Rightarrow> True) es"
    and "p = foldl (query_step sq_page_key sq_page_call query_map) (open_page Map.empty s) es"
    and "shown_state p = (cfg, P, cols, PageList)"
    and "query_store p (sq_page_key (shown_state p)) = Some (r, a)"
  shows "\<exists>now. r = SlowQueryList (sq_page_request set now P cols)"
proof -
  have "\<forall>s'. Show s' \<in> set es \<longrightarrow> sq_covered cfg s'" using assms(2) by (force simp: list_all_iff)
  from sqp.shows_own_answer [OF assms(1) this assms(3,5)] show ?thesis by (simp add: assms(4))
qed

definition sample_sq_cfg :: sq_page_cfg where
  "sample_sq_cfg = \<lparr>showTopSlowQueryLink = False, sqc_showDBFilter = True, sqc_showResourceGroupFilter = True,
     sqc_orgName = [], sqc_clusterName = [], sqc_apiPathBase = ''/api''\<rparr>"

definition sample_sq_state :: "string \<Rightarrow> sq_query_state" where
  "sample_sq_state q = (sample_sq_cfg, queryParams q, [(''query'', True)], PageList)"

lemma sample_sq_covered: "sq_covered sample_sq_cfg (sample_sq_state ''?term=a'')" "sq_covered sample_sq_cfg (sample_sq_state ''?term=b'')"
  by (simp_all add: sq_covered_def sample_sq_state_def) code_simp+

theorem slow_query_page_shows_witness:
  "\<exists>now. sq_page_call (Fin 2) (sample_sq_state ''?term=b'') =
     SlowQueryList (sq_page_request set now (queryParams ''?term=b'') [(''query'', True)])"
proof -
  let ?es = "[Fetch (Fin 1), Show (sample_sq_state ''?term=b''), Fetch (Fin 2), Answer 1 (), Answer 0 ()]"
  let ?p = "foldl (query_step sq_page_key sq_page_call query_map) (open_page Map.empty (sample_sq_state ''?term=a'')) ?es"
  have "sq_page_key (sample_sq_state ''?term=a'') \<noteq> sq_page_key (sample_sq_state ''?term=b'')"
    by (simp add: sample_sq_state_def) code_simp
  then have q: "query_store ?p (sq_page_key (shown_state ?p)) = Some (sq_page_call (Fin 2) (sample_sq_state ''?term=b''), ())"
    by (simp add: open_page_def remove_at_def)
  show ?thesis
    by (rule slow_query_page_shows [OF sample_sq_covered(1) _ refl _ q])
      (simp_all add: sample_sq_covered sample_sq_covered [unfolded sample_sq_state_def] open_page_def
        sample_sq_state_def [of "''?term=b''"] remove_at_def)
qed

text \<open>
  The order of the list is by a column that is shown, or the default one, whenever columns are chosen; the filters stay
  as they are.
\<close>

lemma columns_keep_order:
  assumes "url_store get put" "p' = updateVisibleColumnKeys get put v p"
  shows "col_visible v (col (sq_order (get (lp_url p')))) \<or> sq_order (get (lp_url p')) = \<lparr>col = ''timestamp'', type_of = Desc\<rparr>"
    "lp_cols p' = v" "k \<notin> {''order''} \<Longrightarrow> get (lp_url p') k = get (lp_url p) k"
  using assms(2) url_store.order_reset [OF assms(1)] url_store.get_put_other [OF assms(1), of k sq_resetOrder]
  by (auto simp: updateVisibleColumnKeys_def Let_def sq_resetOrder_def)

text \<open>The export has the filters of the list at the same moment, but not the switch for internal queries.\<close>

lemma export_filters:
  assumes "r = sq_page_request mk now P cols" "x = sq_downloadCSV now P"
  shows "xr_begin x = lq_begin r" "xr_end x = lq_end r" "xr_db x = lq_dbs r" "xr_groups x = lq_groups r"
    "xr_text x = lq_text r" "xr_orderBy x = lq_orderBy r" "xr_desc x = lq_desc r" "xr_digest x = lq_digest r"
  using assms by (simp_all add: sq_page_request_def sq_downloadCSV_def Let_def)

lemma export_ignores_internal:
  assumes "url_store get put" "P = get (put s (sq_setShowInternal True))" "P' = get (put s (sq_setShowInternal False))"
  shows "sq_downloadCSV now P = sq_downloadCSV now P'"
    "lq_internal (sq_page_request mk now P cols) \<noteq> lq_internal (sq_page_request mk now P' cols)"
proof -
  have "k \<noteq> ''show_internal'' \<Longrightarrow> P k = P' k" for k
    using url_store.get_put_other [OF assms(1), of k] unfolding assms(2,3) by (simp add: sq_setShowInternal_def)
  then show "sq_downloadCSV now P = sq_downloadCSV now P'"
    by (simp add: sq_downloadCSV_def sq_timeRange_def sq_dbs_def sq_ruGroups_def sq_term_def sq_order_def sq_digest_def
        csv_def val_def)
  show "lq_internal (sq_page_request mk now P cols) \<noteq> lq_internal (sq_page_request mk now P' cols)"
    using url_store.showInternal_set [OF assms(1)] by (simp add: assms(2,3) sq_page_request_def Let_def)
qed

subsection \<open>Top slow queries\<close>

record time_window =
  tw_begin :: nat
  tw_end :: nat

definition tw_text :: "time_window \<Rightarrow> string" where
  "tw_text w = show_nat (tw_begin w) @ ''-'' @ show_nat (tw_end w)"

definition tw_is :: "params \<Rightarrow> time_window \<Rightarrow> bool" where
  "tw_is P w = (int (tw_begin w) = fst (tsq_tw P) \<and> int (tw_end w) = snd (tsq_tw P))"

text \<open>The windows have arrived: the first, when the one of the URL is not among them.\<close>

definition windows_arrived :: "params \<Rightarrow> time_window list \<Rightarrow> patch option" where
  "windows_arrived P ws =
     (case ws of
        [] \<Rightarrow> None
      | w # _ \<Rightarrow> if list_ex (tw_is P) ws then None else Some (tsq_setTw (tw_text w)))"

fun find_index :: "('a \<Rightarrow> bool) \<Rightarrow> 'a list \<Rightarrow> nat option" where
  "find_index f [] = None"
| "find_index f (x # xs) = (if f x then Some 0 else map_option Suc (find_index f xs))"

definition newerTw :: "params \<Rightarrow> time_window list option \<Rightarrow> patch option" where
  "newerTw P ws =
     (case ws of
        None \<Rightarrow> None
      | Some ws \<Rightarrow>
          (case find_index (tw_is P) ws of
             None \<Rightarrow> None
           | Some i \<Rightarrow> if i = 0 then None else Some (tsq_setTw (tw_text (ws ! (i - 1))))))"

definition olderTw :: "params \<Rightarrow> time_window list option \<Rightarrow> patch option" where
  "olderTw P ws =
     (case ws of
        None \<Rightarrow> None
      | Some ws \<Rightarrow>
          (case find_index (tw_is P) ws of
             None \<Rightarrow> None
           | Some i \<Rightarrow> if i = length ws - 1 then None else Some (tsq_setTw (tw_text (ws ! (i + 1))))))"

definition tsq_changeDuration :: "int \<Rightarrow> patch" where
  "tsq_changeDuration v =
     [(''duration'', Some (show_int v)),
      (''from'', Some (show_num (case tsq_DEFAULT_TIME_RANGE of Recent n \<Rightarrow> n | Absolute a b \<Rightarrow> a))), (''to'', Some ''now'')]"

definition brush_duration :: "rat \<Rightarrow> int" where
  "brush_duration delta =
     (if delta < 60 * 60 then 60 * 60
      else if delta < 3 * 60 * 60 then 3 * 60 * 60
      else if delta < 6 * 60 * 60 then 6 * 60 * 60
      else if delta < 12 * 60 * 60 then 12 * 60 * 60
      else if delta < 24 * 60 * 60 then 24 * 60 * 60
      else if delta < 7 * 24 * 60 * 60 then 7 * 24 * 60 * 60
      else 60 * 60)"

definition onSelectTimeRange :: "rat \<Rightarrow> rat \<Rightarrow> patch" where
  "onSelectTimeRange a b =
     [(''duration'', Some (show_int (brush_duration (b - a)))), (''from'', Some (show_num (Fin a))),
      (''to'', Some (show_num (Fin a)))]"

text \<open>The page: the URL, the windows of the query on the screen and whether its rows load slowly.\<close>

record 's tsq_page =
  tp_url :: 's
  tp_windows :: "time_window list option"
  tp_fetching :: bool
  tp_timer :: bool
  tp_loadSlow :: bool

datatype tsq_event =
    WindowsArrived "time_window list" | NewerTw | OlderTw | PickTw time_window | PickDuration int | BrushChart rat rat
  | PickDbs "string list" | PickKinds "string list" | PickOrder string | Fetching bool | SlowTimer

definition apply_patch :: "('s \<Rightarrow> patch \<Rightarrow> 's) \<Rightarrow> patch option \<Rightarrow> 's tsq_page \<Rightarrow> 's tsq_page" where
  "apply_patch put o' p = (case o' of None \<Rightarrow> p | Some ps \<Rightarrow> p\<lparr>tp_url := put (tp_url p) ps\<rparr>)"

text \<open>The effect of \<open>isFetching\<close> clears the timer of the last round and starts one of ten seconds.\<close>

fun tsq_step :: "('s \<Rightarrow> params) \<Rightarrow> ('s \<Rightarrow> patch \<Rightarrow> 's) \<Rightarrow> 's tsq_page \<Rightarrow> tsq_event \<Rightarrow> 's tsq_page" where
  "tsq_step get put p (WindowsArrived ws) = apply_patch put (windows_arrived (get (tp_url p)) ws) (p\<lparr>tp_windows := Some ws\<rparr>)"
| "tsq_step get put p NewerTw = apply_patch put (newerTw (get (tp_url p)) (tp_windows p)) p"
| "tsq_step get put p OlderTw = apply_patch put (olderTw (get (tp_url p)) (tp_windows p)) p"
| "tsq_step get put p (PickTw w) = apply_patch put (Some (tsq_setTw (tw_text w))) p"
| "tsq_step get put p (PickDuration v) = (apply_patch put (Some (tsq_changeDuration v)) p)\<lparr>tp_windows := None\<rparr>"
| "tsq_step get put p (BrushChart a b) = (apply_patch put (Some (onSelectTimeRange a b)) p)\<lparr>tp_windows := None\<rparr>"
| "tsq_step get put p (PickDbs v) = apply_patch put (Some (tsq_setDbs v)) p"
| "tsq_step get put p (PickKinds v) = apply_patch put (Some (tsq_setStmtKinds v)) p"
| "tsq_step get put p (PickOrder v) = apply_patch put (Some (tsq_setOrder v)) p"
| "tsq_step get put p (Fetching b) =
     (if b = tp_fetching p then p
      else if b then p\<lparr>tp_fetching := True, tp_timer := True\<rparr>
      else p\<lparr>tp_fetching := False, tp_timer := False, tp_loadSlow := False\<rparr>)"
| "tsq_step get put p SlowTimer = (if tp_timer p then p\<lparr>tp_timer := False, tp_loadSlow := True\<rparr> else p)"

definition tsq_rowLink :: "params \<Rightarrow> string \<Rightarrow> string" where
  "tsq_rowLink P sql_digest =
     ''/slow_query?from='' @ show_int (fst (tsq_tw P)) @ ''&to='' @ show_int (snd (tsq_tw P)) @ ''&digest='' @ sql_digest @
     ''&dbs='' @ join '','' (tsq_dbs P)"

lemma find_index_Some: "find_index f xs = Some i \<Longrightarrow> i < length xs \<and> f (xs ! i)"
  by (induction xs arbitrary: i) (auto split: if_splits)

lemma find_index_None: "find_index f xs = None \<longleftrightarrow> \<not> list_ex f xs"
  by (induction xs) auto

lemma find_index_first: "i < length xs \<Longrightarrow> f (xs ! i) \<Longrightarrow> \<forall>j < i. \<not> f (xs ! j) \<Longrightarrow> find_index f xs = Some i"
proof (induction xs arbitrary: i)
  case (Cons x xs)
  show ?case
  proof (cases i)
    case (Suc j)
    have "\<not> f x" using Cons.prems(3) Suc by (metis nth_Cons_0 zero_less_Suc)
    moreover have "find_index f xs = Some j" using Cons.prems Suc by (intro Cons.IH) (auto dest: spec [of _ "Suc _"])
    ultimately show ?thesis using Suc by simp
  qed (use Cons.prems in simp)
qed simp

lemma tw_is_eq: "tw_is P w \<Longrightarrow> tw_is P w' \<longleftrightarrow> w = w'"
  by (auto simp: tw_is_def)

lemma tw_is_set:
  assumes "url_store get put"
  shows "tw_is (get (put s (tsq_setTw (tw_text w)))) w"
proof -
  have "get (put s (tsq_setTw (tw_text w))) ''tw'' = Some (show_nat (tw_begin w) @ ''-'' @ show_nat (tw_end w))"
    using url_store.get_put_some [OF assms, of "tsq_setTw (tw_text w)" "''tw''" "tw_text w"]
    by (simp add: tsq_setTw_def tw_text_def)
  then have "tsq_tw (get (put s (tsq_setTw (tw_text w)))) = (int (tw_begin w), int (tw_end w))" by (rule tw_show)
  then show ?thesis by (simp add: tw_is_def)
qed

lemma tw_is_other:
  assumes "url_store get put" "''tw'' \<notin> fst ` set ps"
  shows "tw_is (get (put s ps)) = tw_is (get s)"
  using url_store.get_put_other [OF assms] by (simp add: tw_is_def tsq_tw_def fun_eq_iff)

definition window_known :: "('s \<Rightarrow> params) \<Rightarrow> 's tsq_page \<Rightarrow> bool" where
  "window_known get p =
     (case tp_windows p of None \<Rightarrow> True | Some ws \<Rightarrow> ws = [] \<or> list_ex (tw_is (get (tp_url p))) ws)"

definition tsq_offered :: "'s tsq_page \<Rightarrow> tsq_event \<Rightarrow> bool" where
  "tsq_offered p e =
     (case e of PickTw w \<Rightarrow> (case tp_windows p of None \<Rightarrow> False | Some ws \<Rightarrow> w \<in> set ws) | _ \<Rightarrow> True)"

lemma window_known_step:
  assumes u: "url_store get put" and k: "window_known get p" and ok: "tsq_offered p e"
  shows "window_known get (tsq_step get put p e)"
proof -
  have move: "window_known get (p\<lparr>tp_url := put (tp_url p) (tsq_setTw (tw_text w))\<rparr>)"
    if "tp_windows p = Some ws" "w \<in> set ws" for w ws
    using that tw_is_set [OF u, of "tp_url p" w] by (auto simp: window_known_def list_ex_iff)
  have keep: "window_known get (p\<lparr>tp_url := put (tp_url p) ps\<rparr>)" if "''tw'' \<notin> fst ` set ps" for ps
    using k by (simp add: window_known_def tw_is_other [OF u that] split: option.splits)
  note defs = apply_patch_def newerTw_def olderTw_def tsq_setDbs_def tsq_setStmtKinds_def tsq_setOrder_def setCsv_def
  show ?thesis
  proof (cases e)
    case (WindowsArrived ws)
    then show ?thesis using tw_is_set [OF u, of "tp_url p"]
      by (auto simp: windows_arrived_def apply_patch_def window_known_def list_ex_iff split: list.splits)
  next
    case NewerTw
    then show ?thesis using k
      by (auto simp: defs intro!: move nth_mem split: option.splits dest!: find_index_Some)
  next
    case OlderTw
    then show ?thesis using k
      by (auto simp: defs intro!: move nth_mem split: option.splits dest!: find_index_Some)
  next
    case (PickTw w)
    then show ?thesis using ok by (auto simp: tsq_offered_def apply_patch_def intro: move split: option.splits)
  qed (use k keep in \<open>auto simp: defs window_known_def [of _ "_\<lparr>tp_windows := None\<rparr>"] window_known_def
        split: option.splits\<close>)
qed

lemma top_slow_query_window_facts:
  assumes "url_store get put" "window_known get p" "tsq_offered p e"
  shows "window_known get (tsq_step get put p e)"
    "tp_windows p = Some ws \<Longrightarrow> distinct ws \<Longrightarrow> i < length ws \<Longrightarrow> tw_is (get (tp_url p)) (ws ! i) \<Longrightarrow>
      (if Suc i < length ws
       then tw_is (get (tp_url (tsq_step get put p OlderTw))) (ws ! Suc i) \<and>
            tw_is (get (tp_url (tsq_step get put (tsq_step get put p OlderTw) NewerTw))) (ws ! i)
       else tsq_step get put p OlderTw = p) \<and>
      (if 0 < i then tw_is (get (tp_url (tsq_step get put p NewerTw))) (ws ! (i - 1)) else tsq_step get put p NewerTw = p)"
proof -
  show "window_known get (tsq_step get put p e)" by (rule window_known_step [OF assms])
  assume ws: "tp_windows p = Some ws" "distinct ws" "i < length ws" "tw_is (get (tp_url p)) (ws ! i)"
  have idx: "find_index (tw_is P) ws = Some j" if "tw_is P (ws ! j)" "j < length ws" for P j
    using that ws(2) by (intro find_index_first) (auto simp: tw_is_eq [OF that(1)] nth_eq_iff_index_eq)
  have older: "tw_is (get (tp_url (tsq_step get put p OlderTw))) (ws ! Suc i)" if "Suc i < length ws"
    using idx [OF ws(4,3)] that by (auto simp: olderTw_def ws(1) apply_patch_def tw_is_set [OF assms(1)])
  moreover have "tw_is (get (tp_url (tsq_step get put (tsq_step get put p OlderTw) NewerTw))) (ws ! i)" if "Suc i < length ws"
  proof -
    let ?q = "tsq_step get put p OlderTw"
    have "tp_windows ?q = Some ws" by (simp add: apply_patch_def ws(1) split: option.splits)
    then show ?thesis using idx [OF older [OF that] that]
      by (simp add: newerTw_def apply_patch_def tw_is_set [OF assms(1)] del: tsq_step.simps(3))
  qed
  moreover have "tsq_step get put p OlderTw = p" if "\<not> Suc i < length ws"
    using idx [OF ws(4,3)] that ws(3) by (auto simp: olderTw_def ws(1) apply_patch_def)
  moreover have "if 0 < i then tw_is (get (tp_url (tsq_step get put p NewerTw))) (ws ! (i - 1)) else tsq_step get put p NewerTw = p"
    using idx [OF ws(4,3)] by (simp add: newerTw_def ws(1) apply_patch_def tw_is_set [OF assms(1)])
  ultimately show "(if Suc i < length ws
       then tw_is (get (tp_url (tsq_step get put p OlderTw))) (ws ! Suc i) \<and>
            tw_is (get (tp_url (tsq_step get put (tsq_step get put p OlderTw) NewerTw))) (ws ! i)
       else tsq_step get put p OlderTw = p) \<and>
      (if 0 < i then tw_is (get (tp_url (tsq_step get put p NewerTw))) (ws ! (i - 1)) else tsq_step get put p NewerTw = p)"
    by presburger
qed


definition sample_tsq :: "string tsq_page" where
  "sample_tsq = \<lparr>tp_url = ''tw=1-2'',
     tp_windows = Some [\<lparr>tw_begin = 2, tw_end = 3\<rparr>, \<lparr>tw_begin = 1, tw_end = 2\<rparr>, \<lparr>tw_begin = 0, tw_end = 1\<rparr>],
     tp_fetching = False, tp_timer = False, tp_loadSlow = False\<rparr>"


text \<open>
  A range brushed on the chart: the page asks for the windows of an empty range, from the start of the brushed range to
  the start of the brushed range, and for a range of a day or more it falls back to windows of one hour.
\<close>

lemma brush_empty_range:
  assumes "url_store get put"
  shows "tsq_timeRange (get (put s (onSelectTimeRange (of_int i) b))) = Absolute (js_int i) (js_int i)"
    "24 * 60 * 60 \<le> b - a \<Longrightarrow> tsq_duration (get (put s (onSelectTimeRange a b))) = 60 * 60"
proof -
  have d: "distinct (map fst (onSelectTimeRange a b))" for a b by (simp add: onSelectTimeRange_def)
  note g = url_store.get_put_some [OF assms d]
  have "get (put s (onSelectTimeRange (of_int i) b)) ''from'' = Some (show_int i)"
    "get (put s (onSelectTimeRange (of_int i) b)) ''to'' = Some (show_int i)"
    by (rule g; simp add: onSelectTimeRange_def del: show_num.simps)+
  then show "tsq_timeRange (get (put s (onSelectTimeRange (of_int i) b))) = Absolute (js_int i) (js_int i)"
    by (simp add: tsq_timeRange_def page_range_def urlToTimeRange_def show_int_neq_now)
  assume "24 * 60 * 60 \<le> b - a"
  then have "brush_duration (b - a) = 7 * 24 * 60 * 60 \<or> brush_duration (b - a) = 60 * 60"
    by (auto simp: brush_duration_def)
  moreover have "get (put s (onSelectTimeRange a b)) ''duration'' = Some (show_int (brush_duration (b - a)))"
    by (rule g) (simp_all add: onSelectTimeRange_def)
  ultimately show "tsq_duration (get (put s (onSelectTimeRange a b))) = 60 * 60"
    by (auto simp: tsq_duration_def DURATIONS_def)
qed

subsection \<open>The queries of the top slow query page\<close>

datatype tsq_query = TsqWindows | TsqChart | TsqDatabases | TsqList

text \<open>A state: organisation and cluster of the context, the URL and the query.\<close>

type_synonym tsq_state = "string \<times> string \<times> params \<times> tsq_query"

datatype tsq_store_key =
    KeyWindows int "string \<times> rat option list" string string
  | KeyChart string string "int \<times> int"
  | KeyDatabases string string "int \<times> int"
  | KeyTop string string "int \<times> int" string "string list" string "string list"

datatype tsq_api_call =
    GetAvailableTimeWindows jsnum jsnum int
  | GetMetrics int int
  | GetDatabases int int
  | GetTopSlowQueries "int \<times> int" string "string list" string "string list"
  | TsqNoCall

fun tsq_key :: "tsq_state \<Rightarrow> tsq_store_key" where
  "tsq_key (org, cluster, P, TsqWindows) = KeyWindows (tsq_duration P) (range_key (tsq_timeRange P)) org cluster"
| "tsq_key (org, cluster, P, TsqChart) = KeyChart org cluster (tsq_tw P)"
| "tsq_key (org, cluster, P, TsqDatabases) = KeyDatabases org cluster (tsq_tw P)"
| "tsq_key (org, cluster, P, TsqList) =
     KeyTop org cluster (tsq_tw P) (tsq_order P) (tsq_dbs P) (tsq_internal P) (tsq_stmtKinds P)"

text \<open>The call with the cluster the API of the context belongs to.\<close>

fun tsq_call :: "jsnum \<Rightarrow> tsq_state \<Rightarrow> string \<times> string \<times> tsq_api_call" where
  "tsq_call now (org, cluster, P, TsqWindows) =
     (let tr = toTimeRangeValue now (Some (tsq_timeRange P)) 0
      in (org, cluster, GetAvailableTimeWindows (fst tr) (snd tr) (tsq_duration P)))"
| "tsq_call now (org, cluster, P, TsqChart) =
     (org, cluster, if fst (tsq_tw P) = 0 then TsqNoCall else GetMetrics (fst (tsq_tw P)) (snd (tsq_tw P)))"
| "tsq_call now (org, cluster, P, TsqDatabases) =
     (org, cluster, if fst (tsq_tw P) = 0 then TsqNoCall else GetDatabases (fst (tsq_tw P)) (snd (tsq_tw P)))"
| "tsq_call now (org, cluster, P, TsqList) =
     (org, cluster, if fst (tsq_tw P) = 0 then TsqNoCall
        else GetTopSlowQueries (tsq_tw P) (tsq_order P) (tsq_dbs P) (tsq_internal P) (tsq_stmtKinds P))"

definition tsq_covered :: "tsq_state \<Rightarrow> bool" where
  "tsq_covered s = finite_trange (tsq_timeRange (fst (snd (snd s))))"

interpretation tsq: keyed_query tsq_key tsq_call tsq_covered "\<lambda>c k. c k" query_map Map.empty
proof unfold_locales
  fix s s' :: tsq_state and now
  assume c: "tsq_covered s" "tsq_covered s'" "tsq_key s = tsq_key s'"
  obtain og cl P q where s: "s = (og, cl, P, q)" by (cases s)
  obtain og' cl' P' q' where s': "s' = (og', cl', P', q')" by (cases s')
  show "tsq_call now s = tsq_call now s'"
    using c by (cases q; cases q') (auto simp: s s' tsq_covered_def range_key_inj)
qed auto

text \<open>The rows of the page answer its own request for the cluster, the window and the filters on the screen.\<close>

lemma top_slow_query_page_shows:
  assumes "tsq_covered s" "\<forall>s'. Show s' \<in> set es \<longrightarrow> tsq_covered s'"
    and "p = foldl (query_step tsq_key tsq_call query_map) (open_page Map.empty s) es"
    and "query_store p (tsq_key (shown_state p)) = Some (r, a)"
  shows "\<exists>now. r = tsq_call now (shown_state p)"
  by (rule tsq.shows_own_answer [OF assms])

subsection \<open>Links between the pages\<close>

text \<open>Texts a link carries as they are.\<close>

definition link_plain :: "string \<Rightarrow> bool" where
  "link_plain s = list_all (\<lambda>c. c \<notin> {CHR ''%'', CHR ''+'', CHR ''&'', CHR ''='', CHR ''#''}) s"

lemma link_plain_iff:
  "link_plain s \<longleftrightarrow> CHR ''%'' \<notin> set s \<and> CHR ''+'' \<notin> set s \<and> CHR ''&'' \<notin> set s \<and> CHR ''='' \<notin> set s \<and> CHR ''#'' \<notin> set s"
  by (induction s) (auto simp: link_plain_def)

lemma form_decode_plain: "CHR ''%'' \<notin> set s \<Longrightarrow> CHR ''+'' \<notin> set s \<Longrightarrow> form_decode s = s"
  by (induction s) auto

definition raw_pair :: "string \<times> string \<Rightarrow> string" where
  "raw_pair kv = fst kv @ ''='' @ snd kv"

lemma while_separator:
  "c \<notin> set xs \<Longrightarrow> takeWhile (\<lambda>x. x \<noteq> c) (xs @ c # ys) = xs"
  "c \<notin> set xs \<Longrightarrow> dropWhile (\<lambda>x. x \<noteq> c) (xs @ c # ys) = c # ys"
  by (induction xs) auto

lemma parse_raw_pair: "link_plain (fst kv) \<Longrightarrow> link_plain (snd kv) \<Longrightarrow> parse_pair (raw_pair kv) = kv"
proof -
  assume p: "link_plain (fst kv)" "link_plain (snd kv)"
  have eq: "CHR ''='' \<notin> set (fst kv)" using p(1) by (simp add: link_plain_iff)
  have "takeWhile (\<lambda>c. c \<noteq> CHR ''='') (raw_pair kv) = fst kv" "dropWhile (\<lambda>c. c \<noteq> CHR ''='') (raw_pair kv) = CHR ''='' # snd kv"
    using eq by (simp_all add: raw_pair_def while_separator)
  then show ?thesis using p by (simp add: parse_pair_def link_plain_iff form_decode_plain)
qed

lemma parse_raw_search:
  assumes "ps \<noteq> []" "\<forall>kv\<in>set ps. link_plain (fst kv) \<and> link_plain (snd kv)"
  shows "parse_search (CHR ''?'' # join ''&'' (map raw_pair ps)) = ps"
proof -
  have "CHR ''&'' \<notin> set (raw_pair kv)" if "kv \<in> set ps" for kv
    using assms(2) that by (simp add: raw_pair_def link_plain_iff)
  then have "split_on (CHR ''&'') (join ''&'' (map raw_pair ps)) = map raw_pair ps"
    using assms(1) by (intro split_join) auto
  moreover have "filter (\<lambda>s. s \<noteq> []) (map raw_pair ps) = map raw_pair ps"
    by (intro filter_True) (auto simp: raw_pair_def)
  moreover have "map (parse_pair \<circ> raw_pair) ps = ps"
    using assms(2) by (intro map_idI) (auto simp: parse_raw_pair)
  ultimately show ?thesis by (simp add: parse_search_def)
qed

lemma top_row_opens_list_facts:
  assumes "link_plain sql_digest" "list_all link_plain (tsq_dbs P)" "list_all (\<lambda>d. CHR '','' \<notin> set d) (tsq_dbs P)"
    and "tsq_dbs P \<noteq> [[]]" and "tsq_rowLink P sql_digest = ''/slow_query'' @ srch"
  shows "sq_timeRange (queryParams srch) = Absolute (js_int (fst (tsq_tw P))) (js_int (snd (tsq_tw P)))"
    "sq_digest (queryParams srch) = sql_digest" "sq_dbs (queryParams srch) = tsq_dbs P"
proof -
  let ?a = "show_int (fst (tsq_tw P))" and ?b = "show_int (snd (tsq_tw P))" and ?d = "join '','' (tsq_dbs P)"
  let ?ps = "[(''from'', ?a), (''to'', ?b), (''digest'', sql_digest), (''dbs'', ?d)]"
  have srch: "srch = CHR ''?'' # join ''&'' (map raw_pair ?ps)"
    using assms(5) by (simp add: tsq_rowLink_def raw_pair_def)
  have int_plain: "link_plain (show_int i)" for i
    using show_int_chars [of _ i] by (fastforce simp: link_plain_iff is_digit_def code_def)
  have "link_plain (join '','' ds)" if "list_all link_plain ds" for ds
    using that by (induction "'',''" ds rule: join.induct) (auto simp: link_plain_iff)
  then have "link_plain ?d" using assms(2) .
  then have "parse_search srch = ?ps"
    unfolding srch using assms(1) int_plain by (intro parse_raw_search) (auto simp: link_plain_iff)
  then have get: "queryParams srch = map_of (rev ?ps)" by (simp add: queryParams_def fun_eq_iff)
  show "sq_digest (queryParams srch) = sql_digest" by (simp add: get sq_digest_def val_def)
  show "sq_timeRange (queryParams srch) = Absolute (js_int (fst (tsq_tw P))) (js_int (snd (tsq_tw P)))"
    by (simp add: get sq_timeRange_def page_range_def urlToTimeRange_def show_int_neq_now)
  show "sq_dbs (queryParams srch) = tsq_dbs P"
  proof (cases "tsq_dbs P = []")
    case False
    then obtain x xs where "tsq_dbs P = x # xs" by (cases "tsq_dbs P") auto
    then have "?d \<noteq> []" using assms(4) by (cases xs) auto
    moreover have "split_on (CHR '','') ?d = tsq_dbs P"
      using False assms(3) by (intro split_join) (auto simp: list_all_iff)
    ultimately show ?thesis by (simp add: get sq_dbs_def csv_def val_def)
  qed (simp add: get sq_dbs_def csv_def val_def)
qed

text \<open>
  C34: a row of the top slow queries opens the slow query list on the same window, digest and databases, when the texts
  need no encoding.
\<close>

theorem top_row_opens_list:
  assumes "link_plain sql_digest" "list_all link_plain (tsq_dbs P)" "list_all (\<lambda>d. CHR '','' \<notin> set d) (tsq_dbs P)"
    and "tsq_dbs P \<noteq> [[]]" and "tsq_rowLink P sql_digest = ''/slow_query'' @ srch"
  shows "sq_timeRange (queryParams srch) = Absolute (js_int (fst (tsq_tw P))) (js_int (snd (tsq_tw P))) \<and>
    sq_digest (queryParams srch) = sql_digest \<and> sq_dbs (queryParams srch) = tsq_dbs P"
  using top_row_opens_list_facts [OF assms] by blast

theorem top_row_opens_list_witness:
  "sq_dbs (queryParams ''?from=10&to=20&digest=ab12&dbs=test,mysql'') = [''test'', ''mysql''] \<and>
   sq_digest (queryParams ''?from=10&to=20&digest=ab12&dbs=test,mysql'') = ''ab12''"
proof -
  let ?P = "queryParams ''tw=10-20&dbs=test%2Cmysql''"
  have tw: "tsq_tw ?P = (10, 20)" and dbs: "tsq_dbs ?P = [''test'', ''mysql'']" by code_simp+
  have link: "tsq_rowLink ?P ''ab12'' = ''/slow_query'' @ ''?from=10&to=20&digest=ab12&dbs=test,mysql''"
    unfolding tsq_rowLink_def tw dbs by code_simp
  show ?thesis
    using top_row_opens_list [of "''ab12''" ?P, OF _ _ _ _ link] by (simp add: dbs link_plain_iff)
qed

text \<open>A database whose name needs encoding is lost on the way: the link carries it as it is.\<close>

lemma top_row_name_cut:
  "tsq_dbs (queryParams ''tw=10-20&dbs=a%26b'') = [''a&b'']"
  "tsq_rowLink (queryParams ''tw=10-20&dbs=a%26b'') ''ab12'' = ''/slow_query?from=10&to=20&digest=ab12&dbs=a&b''"
  "sq_dbs (queryParams ''?from=10&to=20&digest=ab12&dbs=a&b'') = [''a'']"
  by code_simp+

subsection \<open>The statement list\<close>

text \<open>
  The filters on the screen and the options last given to the controller, whether the last data came slowly
  (\<^term>\<open>None\<close> while a request is under way) and the debounce timer of the instant query.
\<close>

record st_filters =
  sf_range :: TimeRange
  sf_schemas :: "string list"
  sf_groups :: "string list"
  sf_types :: "string list"
  sf_text :: string
  sf_cols :: IColumnKeys

record st_list_page =
  sp_filters :: st_filters
  sp_options :: st_filters
  sp_slow :: "bool option"
  sp_timer :: bool
  sp_sends :: nat
  sp_settings :: bool

definition sendQueryNow :: "st_list_page \<Rightarrow> st_list_page" where
  "sendQueryNow p = p\<lparr>sp_options := sp_filters p, sp_sends := sp_sends p + 1\<rparr>"

definition instant_effect :: "bool option \<Rightarrow> st_list_page \<Rightarrow> st_list_page" where
  "instant_effect instantQuery p =
     (if instantQuery = Some False \<or> sp_slow p \<noteq> Some False then p else p\<lparr>sp_timer := True\<rparr>)"

datatype st_page_event =
    EditFilters st_filters | DebounceFires | ClickQuery | DataLoaded "bool option" | OpenSettings | CloseSettings
  | ConfigUpdated

fun st_page_step :: "bool option \<Rightarrow> st_list_page \<Rightarrow> st_page_event \<Rightarrow> st_list_page" where
  "st_page_step iq p (EditFilters f) =
     (if f = sp_filters p then p else instant_effect iq (p\<lparr>sp_filters := f\<rparr>))"
| "st_page_step iq p DebounceFires = (if sp_timer p then (sendQueryNow p)\<lparr>sp_timer := False\<rparr> else p)"
| "st_page_step iq p ClickQuery = sendQueryNow p"
| "st_page_step iq p (DataLoaded b) = p\<lparr>sp_slow := b\<rparr>"
| "st_page_step iq p OpenSettings = p\<lparr>sp_settings := True\<rparr>"
| "st_page_step iq p CloseSettings = p\<lparr>sp_settings := False\<rparr>"
| "st_page_step iq p ConfigUpdated = sendQueryNow p"

definition open_st_page :: "st_filters \<Rightarrow> st_list_page" where
  "open_st_page f =
     \<lparr>sp_filters = f, sp_options = f, sp_slow = None, sp_timer = False, sp_sends = 0, sp_settings = False\<rparr>"

definition getDataTimeRange :: "(int \<times> int) list option \<Rightarrow> (int \<times> int) option" where
  "getDataTimeRange rows =
     (case rows of
        None \<Rightarrow> None
      | Some [] \<Rightarrow> None
      | Some (r # rs) \<Rightarrow>
          (let mn = foldl (\<lambda>m x. if fst x < m then fst x else m) (fst r) (r # rs);
               mx = foldl (\<lambda>m x. if m < snd x then snd x else m) (snd r) (r # rs)
           in if mn = 0 \<or> mx = 0 then None else Some (mn, mx)))"

text \<open>The export of the statements uses the options of the controller, not the filters on the screen.\<close>

record st_export =
  sx_begin :: jsnum
  sx_end :: jsnum
  sx_fields :: string
  sx_schemas :: "string list"
  sx_groups :: "string list"
  sx_types :: "string list"
  sx_text :: string

definition st_downloadCSV :: "jsnum \<Rightarrow> st_list_page \<Rightarrow> st_export" where
  "st_downloadCSV now p =
     (let o' = sp_options p; tr = toTimeRangeValue now (Some (sf_range o')) 0
      in \<lparr>sx_begin = fst tr, sx_end = snd tr, sx_fields = ''*'', sx_schemas = sf_schemas o', sx_groups = sf_groups o',
          sx_types = sf_types o', sx_text = sf_text o'\<rparr>)"

lemma foldl_least_le:
  "m \<le> y \<or> (\<exists>x\<in>set xs. f x \<le> y) \<Longrightarrow> foldl (\<lambda>m x. if f x < m then f x else m) m xs \<le> y" for f :: "'a \<Rightarrow> int"
  by (induction xs arbitrary: m) auto

lemma foldl_greatest_ge:
  "y \<le> m \<or> (\<exists>x\<in>set xs. y \<le> f x) \<Longrightarrow> y \<le> foldl (\<lambda>m x. if m < f x then f x else m) m xs" for f :: "'a \<Rightarrow> int"
  by (induction xs arbitrary: m) auto

text \<open>
  The time range under the table: the first begin and the last end of the rows, none when there is no row or one of the
  times is unknown.
\<close>

lemma data_range_covers:
  assumes "getDataTimeRange (Some rows) = Some (a, b)" "r \<in> set rows"
  shows "a \<le> fst r" "snd r \<le> b" "a \<noteq> 0" "b \<noteq> 0"
proof -
  obtain r0 rs where rows: "rows = r0 # rs" using assms(2) by (cases rows) auto
  from assms(1) have ab: "a = foldl (\<lambda>m x. if fst x < m then fst x else m) (fst r0) rows"
    "b = foldl (\<lambda>m x. if m < snd x then snd x else m) (snd r0) rows" "a \<noteq> 0" "b \<noteq> 0"
    by (auto simp: getDataTimeRange_def rows Let_def split: if_splits)
  show "a \<le> fst r" using assms(2) unfolding ab(1) by (intro foldl_least_le) auto
  show "snd r \<le> b" using assms(2) unfolding ab(2) by (intro foldl_greatest_ge) auto
  show "a \<noteq> 0" "b \<noteq> 0" using ab(3,4) .
qed

text \<open>Filters that are edited while the last data came fast.\<close>

fun edits_fast :: "bool option \<Rightarrow> st_list_page \<Rightarrow> st_page_event list \<Rightarrow> bool" where
  "edits_fast iq p [] = True"
| "edits_fast iq p (e # es) =
     ((case e of EditFilters f \<Rightarrow> iq \<noteq> Some False \<and> sp_slow p = Some False | _ \<Rightarrow> True) \<and> edits_fast iq (st_page_step iq p e) es)"

lemma statement_filters_applied_facts:
  assumes "edits_fast iq p es" "sp_timer p \<or> sp_options p = sp_filters p" "p' = foldl (st_page_step iq) p es"
  shows "sp_timer p' \<or> sp_options p' = sp_filters p'"
    "sp_options (st_page_step iq p' ClickQuery) = sp_filters p'"
    "sp_options (st_page_step iq p' DebounceFires) = sp_filters (st_page_step iq p' DebounceFires)"
proof -
  have inv: "sp_timer p' \<or> sp_options p' = sp_filters p'"
    using assms
  proof (induction es arbitrary: p)
    case (Cons e es)
    show ?case
    proof (rule Cons.IH)
      show "edits_fast iq (st_page_step iq p e) es" using Cons.prems(1) by simp
      show "sp_timer (st_page_step iq p e) \<or> sp_options (st_page_step iq p e) = sp_filters (st_page_step iq p e)"
        using Cons.prems(1,2) by (cases e) (auto simp: sendQueryNow_def instant_effect_def)
      show "p' = foldl (st_page_step iq) (st_page_step iq p e) es" using Cons.prems(3) by simp
    qed
  qed simp
  show "sp_timer p' \<or> sp_options p' = sp_filters p'" by (rule inv)
  show "sp_options (st_page_step iq p' ClickQuery) = sp_filters p'" by (simp add: sendQueryNow_def)
  show "sp_options (st_page_step iq p' DebounceFires) = sp_filters (st_page_step iq p' DebounceFires)"
    using inv by (auto simp: sendQueryNow_def)
qed


definition sample_filters :: "string \<Rightarrow> st_filters" where
  "sample_filters t = \<lparr>sf_range = Recent (Fin 1800), sf_schemas = [], sf_groups = [], sf_types = [], sf_text = t, sf_cols = []\<rparr>"


end
