(* ===== verification/Deadlock.thy ===== *)
theory Deadlock
  imports Complex_Main Cache JsString
begin

text \<open>
  The deadlock pages, \<open>apps/Deadlock\<close>: the list, which keeps every chain of the answer in the cache of \<open>utils/useCache.ts\<close>,
  the detail page, which reads a chain from the cache or asks the server again, the summary of the list, and the graph of
  a chain with its circular layout. An exception of a request that nobody catches is an event of its own.
\<close>

record DeadlockModel =
  dl_id :: nat
  dl_instance :: string
  dl_try :: string
  dl_holding :: string
  dl_key :: string
  dl_sql :: string
  dl_time :: int

subsection \<open>The chains in the cache\<close>

definition chain_key :: "string \<Rightarrow> nat \<Rightarrow> string" where
  "chain_key inst i = ''deadlock-'' @ inst @ ''-'' @ show_nat i"

abbreviation item_key :: "DeadlockModel \<Rightarrow> string" where
  "item_key it \<equiv> chain_key (dl_instance it) (dl_id it)"

definition store_item :: "int \<Rightarrow> DeadlockModel list CacheMgr \<Rightarrow> DeadlockModel \<Rightarrow> DeadlockModel list CacheMgr" where
  "store_item now c it =
     (let (found, c) = cache_get now (item_key it) c;
          items = (case found of Some xs \<Rightarrow> xs | None \<Rightarrow> []) @ [it]
      in cache_set now (item_key it) items None c)"

definition store_items :: "int \<Rightarrow> DeadlockModel list \<Rightarrow> DeadlockModel list CacheMgr \<Rightarrow> DeadlockModel list CacheMgr" where
  "store_items now xs c = foldl (store_item now) c xs"

subsection \<open>The list\<close>

record deadlock_list =
  dll_isLoading :: bool
  dll_items :: "DeadlockModel list"
  dll_cache :: "DeadlockModel list CacheMgr"

definition open_list :: "DeadlockModel list CacheMgr \<Rightarrow> deadlock_list" where
  "open_list c = \<lparr>dll_isLoading = True, dll_items = [], dll_cache = cache_clear c\<rparr>"

definition pull_start :: "deadlock_list \<Rightarrow> deadlock_list" where
  "pull_start s = s\<lparr>dll_cache := cache_clear (dll_cache s), dll_isLoading := True\<rparr>"

definition pull_answered :: "int \<Rightarrow> DeadlockModel list \<Rightarrow> deadlock_list \<Rightarrow> deadlock_list" where
  "pull_answered now xs s =
     s\<lparr>dll_cache := store_items now xs (dll_cache s), dll_items := xs, dll_isLoading := False\<rparr>"

text \<open>The first load catches a failure, a refresh does not: nothing after the \<open>await\<close> is done.\<close>

datatype deadlock_event = FirstAnswer int "DeadlockModel list" | FirstFails | Refresh | PullAnswer int "DeadlockModel list" | PullFails

fun deadlock_step :: "deadlock_list \<Rightarrow> deadlock_event \<Rightarrow> deadlock_list" where
  "deadlock_step s (FirstAnswer now xs) = pull_answered now xs s"
| "deadlock_step s FirstFails = s\<lparr>dll_isLoading := False\<rparr>"
| "deadlock_step s Refresh = (if dll_isLoading s then s else pull_start s)"
| "deadlock_step s (PullAnswer now xs) = pull_answered now xs s"
| "deadlock_step s PullFails = s"

record deadlock_summary =
  ds_id :: nat
  ds_instance :: string
  ds_time :: int
  ds_items :: "DeadlockModel list"

definition summary_key :: "string \<Rightarrow> nat \<Rightarrow> string" where
  "summary_key inst i = inst @ ''-'' @ show_nat i"

fun summary_put :: "DeadlockModel \<Rightarrow> (string \<times> deadlock_summary) list \<Rightarrow> (string \<times> deadlock_summary) list" where
  "summary_put it [] =
     [(summary_key (dl_instance it) (dl_id it),
       \<lparr>ds_id = dl_id it, ds_instance = dl_instance it, ds_time = dl_time it, ds_items = [it]\<rparr>)]"
| "summary_put it ((k, e) # es) =
     (if k = summary_key (dl_instance it) (dl_id it) then (k, e\<lparr>ds_items := ds_items e @ [it]\<rparr>) # es
      else (k, e) # summary_put it es)"

definition summary :: "DeadlockModel list \<Rightarrow> deadlock_summary list" where
  "summary xs = map snd (foldl (\<lambda>es it. summary_put it es) [] xs)"

definition deadlock_link :: "deadlock_summary \<Rightarrow> string" where
  "deadlock_link e = ''/deadlock/detail?id='' @ show_nat (ds_id e) @ ''&instance='' @ ds_instance e"

subsection \<open>The detail page\<close>

text \<open>With the chain in the cache no request is made; otherwise the answer is stored and filtered.\<close>

definition detail_cached :: "int \<Rightarrow> string \<Rightarrow> string \<Rightarrow> DeadlockModel list CacheMgr \<Rightarrow> DeadlockModel list option" where
  "detail_cached now inst i c = fst (cache_get now (''deadlock-'' @ inst @ ''-'' @ i) c)"

definition detail_answered :: "int \<Rightarrow> string \<Rightarrow> string \<Rightarrow> DeadlockModel list \<Rightarrow> DeadlockModel list CacheMgr \<Rightarrow>
    DeadlockModel list \<times> DeadlockModel list CacheMgr" where
  "detail_answered now inst i xs c =
     (filter (\<lambda>it. show_nat (dl_id it) = i \<and> dl_instance it = inst) xs, store_items now xs c)"

subsection \<open>Chains are kept whole\<close>

lemma separator_eq:
  assumes "xs @ c # ys = xs' @ c # ys'" "c \<notin> set xs" "c \<notin> set xs'"
  shows "xs = xs' \<and> ys = ys'"
proof -
  have take: "takeWhile (\<lambda>x. x \<noteq> c) (zs @ c # ws) = zs" if "c \<notin> set zs" for zs ws
    using that by (induction zs) auto
  show ?thesis using take [OF assms(2), of ys] take [OF assms(3), of ys'] assms(1) by simp
qed

lemma show_nat_inject: "show_nat i = show_nat j \<longleftrightarrow> i = j"
proof
  assume "show_nat i = show_nat j"
  then have "show_int (int i) = show_int (int j)" by (simp add: show_int_def)
  then have "Some (int i) = Some (int j)" using parseInt_show_int by metis
  then show "i = j" by simp
qed simp

lemma chain_key_inj: "chain_key a i = chain_key b j \<longleftrightarrow> a = b \<and> i = j"
proof
  assume "chain_key a i = chain_key b j"
  then have eq: "a @ ''-'' @ show_nat i = b @ ''-'' @ show_nat j" by (simp add: chain_key_def)
  have no: "CHR ''-'' \<notin> set (rev (show_nat n))" for n by (metis set_rev show_nat_digits is_digit_neq(1))
  have "rev (show_nat i) @ CHR ''-'' # rev a = rev (show_nat j) @ CHR ''-'' # rev b"
    using arg_cong [OF eq, of rev] by simp
  from separator_eq [OF this no no] show "a = b \<and> i = j" by (simp add: show_nat_inject)
qed simp

text \<open>The items of a chain follow each other in the answer; \<open>seen\<close> are the chains before, the last first.\<close>

fun grouped :: "string list \<Rightarrow> DeadlockModel list \<Rightarrow> bool" where
  "grouped seen [] = True"
| "grouped seen (x # xs) = ((item_key x \<in> set seen \<longrightarrow> hd seen = item_key x) \<and> grouped (item_key x # seen) xs)"

definition chain_of :: "string \<Rightarrow> DeadlockModel list \<Rightarrow> DeadlockModel list" where
  "chain_of k xs = filter (\<lambda>it. item_key it = k) xs"

text \<open>While an answer is stored: what the cache holds are the chains so far, and the last one is there.\<close>

definition storing :: "int \<Rightarrow> DeadlockModel list CacheMgr \<Rightarrow> DeadlockModel list \<Rightarrow> bool" where
  "storing now c pre \<longleftrightarrow> cache_inv c \<and> 0 < capacity c \<and> 0 \<le> globalExpire c \<and>
     (\<forall>k v. cache_content c k = Some v \<longrightarrow> v = chain_of k pre \<and> v \<noteq> []) \<and>
     (pre \<noteq> [] \<longrightarrow> fst (cache_get now (item_key (last pre)) c) = Some (chain_of (item_key (last pre)) pre))"

lemma chain_of_empty: "chain_of k xs = [] \<longleftrightarrow> k \<notin> item_key ` set xs"
  by (auto simp: chain_of_def filter_empty_conv)

lemma storing_step:
  assumes st: "storing now c pre" and new: "item_key it \<in> item_key ` set pre \<Longrightarrow> item_key (last pre) = item_key it"
  shows "storing now (store_item now c it) (pre @ [it])"
proof -
  let ?k = "item_key it"
  obtain found c1 where get: "cache_get now ?k c = (found, c1)" by (cases "cache_get now ?k c")
  have inv: "cache_inv c" "0 < capacity c" "0 \<le> globalExpire c"
    and cont: "\<And>k v. cache_content c k = Some v \<Longrightarrow> v = chain_of k pre \<and> v \<noteq> []"
    using st by (auto simp: storing_def)
  have c1: "cache_inv c1" "capacity c1 = capacity c" "globalExpire c1 = globalExpire c"
    using cache_inv_get [OF inv(1), of now ?k] cache_get_remaining [of now ?k c] by (simp_all add: get)
  have cont1: "v = chain_of k pre \<and> v \<noteq> []" if "cache_content c1 k = Some v" for k v
    using cs.fetch_content [of now ?k c k v] that cont by (simp add: get)
  have found: "(case found of Some xs \<Rightarrow> xs | None \<Rightarrow> []) = chain_of ?k pre"
  proof (cases "?k \<in> item_key ` set pre")
    case True
    then have "found = Some (chain_of ?k pre)"
      using st new [OF True] get by (cases "pre = []") (auto simp: storing_def)
    then show ?thesis by simp
  next
    case False
    have "found = None"
    proof (cases found)
      case (Some v)
      then have "cache_content c ?k = Some v" using cs.fetch_val [of now ?k c v] by (simp add: get)
      then show ?thesis using cont [of ?k v] False chain_of_empty [of ?k pre] by metis
    qed simp
    then show ?thesis using False chain_of_empty [of ?k pre] by simp
  qed
  have eq: "store_item now c it = cache_set now ?k (chain_of ?k (pre @ [it])) None c1"
    by (simp add: store_item_def get found) (simp add: chain_of_def)
  have last: "fst (cache_get now ?k (store_item now c it)) = Some (chain_of ?k (pre @ [it]))"
    unfolding eq using inv(3) by (simp add: cache_get_set_same [OF c1(1)] expiry_def c1)
  moreover have "v = chain_of k (pre @ [it]) \<and> v \<noteq> []" if "cache_content (store_item now c it) k = Some v" for k v
  proof (cases "k = ?k")
    case True
    then show ?thesis using cs.fetch_val [OF last] that by (auto simp: chain_of_def)
  next
    case False
    then have "cache_content c1 k = Some v"
      using cs.store_content [OF c1(1), of now ?k _ None k v] that unfolding eq by blast
    then show ?thesis using cont1 False by (simp add: chain_of_def)
  qed
  ultimately show ?thesis
    using inv c1 cache_inv_set [OF c1(1)] cache_set_closed_form(3,4) [OF c1(1)] by (simp add: storing_def eq)
qed

lemma storing_all:
  "storing now c pre \<Longrightarrow> grouped (rev (map item_key pre)) xs \<Longrightarrow> storing now (store_items now xs c) (pre @ xs)"
proof (induction xs arbitrary: c pre)
  case Nil
  then show ?case by (simp add: store_items_def)
next
  case (Cons x xs)
  have "storing now (store_item now c x) (pre @ [x])"
  proof (rule storing_step [OF Cons.prems(1)])
    assume k: "item_key x \<in> item_key ` set pre"
    then have "hd (rev (map item_key pre)) = item_key x" using Cons.prems(2) by simp
    moreover have "pre \<noteq> []" using k by auto
    ultimately show "item_key (last pre) = item_key x" by (simp add: hd_rev last_map)
  qed
  from Cons.IH [OF this] Cons.prems(2) show ?case by (simp add: store_items_def)
qed

lemma storing_clear: "cache_inv c \<Longrightarrow> 0 < capacity c \<Longrightarrow> 0 \<le> globalExpire c \<Longrightarrow> storing now (cache_clear c) []"
  using cs.ok_wipe cs.wipe_content [of c] by (simp add: storing_def) (simp add: cache_clear_def)

lemma deadlock_detail_agrees_facts:
  assumes "cache_inv c" "0 < capacity c" "0 \<le> globalExpire c" "grouped [] xs"
    and "s = pull_answered now xs (pull_start (open_list c))"
    and "detail_cached later inst (show_nat i) (dll_cache s) = Some ys"
  shows "ys = fst (detail_answered later' inst (show_nat i) xs c')" "ys \<noteq> []"
proof -
  have "storing now (store_items now xs (cache_clear c)) ([] @ xs)"
    by (rule storing_all [OF storing_clear]) (use assms(1-4) in simp_all)
  moreover have "dll_cache s = store_items now xs (cache_clear c)"
    by (simp add: assms(5) pull_answered_def pull_start_def open_list_def cache_clear_def)
  ultimately have st: "storing now (dll_cache s) xs" by simp
  have "cache_content (dll_cache s) (chain_key inst i) = Some ys"
    using assms(6) by (intro cs.fetch_val) (simp add: detail_cached_def chain_key_def)
  then have "ys = chain_of (chain_key inst i) xs \<and> ys \<noteq> []" using st by (simp add: storing_def)
  then show "ys = fst (detail_answered later' inst (show_nat i) xs c')" "ys \<noteq> []"
    by (auto simp: chain_of_def detail_answered_def chain_key_inj show_nat_inject intro: filter_cong)
qed

text \<open>
  C35: the detail page shows the same chain from the cache as from the server. After the list has loaded an answer in
  which the items of a chain follow each other, what the cache holds for a chain, at any later time and however many chains
  the cache has dropped, is the whole chain in its order, and so is what the detail page filters from that answer.
\<close>

theorem deadlock_detail_agrees:
  assumes "cache_inv c" "0 < capacity c" "0 \<le> globalExpire c" "grouped [] xs"
    and "s = pull_answered now xs (pull_start (open_list c))"
    and "detail_cached later inst (show_nat i) (dll_cache s) = Some ys"
  shows "ys = fst (detail_answered later' inst (show_nat i) xs c') \<and> ys \<noteq> []"
  using deadlock_detail_agrees_facts [OF assms] by blast

definition sample_item :: "nat \<Rightarrow> string \<Rightarrow> string \<Rightarrow> DeadlockModel" where
  "sample_item i t h =
     \<lparr>dl_id = i, dl_instance = ''tidb:10080'', dl_try = t, dl_holding = h, dl_key = ''k'', dl_sql = [], dl_time = 0\<rparr>"

theorem deadlock_detail_agrees_witness:
  "fst (detail_answered 5 ''tidb:10080'' (show_nat 7) [sample_item 7 ''a'' ''b'', sample_item 7 ''b'' ''a''] (newCacheMgr 32 0)) =
     [sample_item 7 ''a'' ''b'', sample_item 7 ''b'' ''a'']"
proof -
  let ?xs = "[sample_item 7 ''a'' ''b'', sample_item 7 ''b'' ''a'']"
  let ?c = "newCacheMgr 32 3600000 :: DeadlockModel list CacheMgr"
  have g: "grouped [] ?xs" by (simp add: sample_item_def)
  have inv: "cache_inv ?c" by (rule cache_inv_new)
  have cap: "0 < capacity ?c" "0 \<le> globalExpire ?c" by (simp_all add: newCacheMgr_def)
  have st: "storing 0 (store_items 0 ?xs (cache_clear ?c)) ([] @ ?xs)"
    by (rule storing_all [OF storing_clear]) (use inv cap g in simp_all)
  have cached: "detail_cached 0 ''tidb:10080'' (show_nat 7) (dll_cache (pull_answered 0 ?xs (pull_start (open_list ?c)))) = Some ?xs"
    using st by (simp add: detail_cached_def storing_def chain_of_def sample_item_def chain_key_def pull_answered_def
        pull_start_def open_list_def cache_clear_def)
  show ?thesis using deadlock_detail_agrees [OF inv cap g refl cached] by simp
qed

text \<open>
  The detail page stores an answer on top of what is in the cache: a chain that is still there is doubled. A refresh that
  fails leaves the list loading, and its button is disabled while it loads.
\<close>

lemma detail_doubles_chains:
  assumes "storing now c [a]"
  shows "fst (cache_get now (item_key a) (snd (detail_answered now inst i [a] c))) = Some [a, a]"
proof -
  obtain c1 where get: "cache_get now (item_key a) c = (Some [a], c1)"
    using assms by (cases "cache_get now (item_key a) c") (simp add: storing_def chain_of_def)
  have "cache_inv c1" "globalExpire c1 = globalExpire c"
    using assms cache_inv_get [of c now "item_key a"] cache_get_remaining [of now "item_key a" c]
    by (simp_all add: get storing_def)
  then show ?thesis using assms
    by (simp add: detail_answered_def store_items_def store_item_def get cache_get_set_same expiry_def storing_def)
qed

lemma failed_refresh_stuck:
  assumes "\<not> dll_isLoading s" "list_all (\<lambda>e. e = Refresh) es"
  shows "dll_isLoading (foldl deadlock_step s (Refresh # PullFails # es))"
proof -
  have "dll_isLoading t \<Longrightarrow> dll_isLoading (foldl deadlock_step t es)" for t
    using assms(2) by (induction es arbitrary: t) auto
  then show ?thesis using assms(1) by (simp add: pull_start_def)
qed

subsection \<open>The summary of the list\<close>

definition same_chain :: "DeadlockModel \<Rightarrow> deadlock_summary \<Rightarrow> bool" where
  "same_chain it e = (dl_instance it = ds_instance e \<and> dl_id it = ds_id e)"

text \<open>The table so far: one entry for each chain, under its key, with all its items.\<close>

definition summarised :: "DeadlockModel list \<Rightarrow> (string \<times> deadlock_summary) list \<Rightarrow> bool" where
  "summarised xs es \<longleftrightarrow> distinct (map fst es) \<and>
     (\<forall>(k, e)\<in>set es. k = summary_key (ds_instance e) (ds_id e) \<and> ds_items e = filter (\<lambda>it. same_chain it e) xs \<and> ds_items e \<noteq> []) \<and>
     (\<forall>it\<in>set xs. summary_key (dl_instance it) (dl_id it) \<in> fst ` set es)"

lemma summary_key_inj:
  "summary_key a i = summary_key b j \<longleftrightarrow> a = b \<and> i = j"
  using chain_key_inj [of a i b j] by (simp add: chain_key_def summary_key_def)

lemma summary_put_keys:
  "fst ` set (summary_put it es) = insert (summary_key (dl_instance it) (dl_id it)) (fst ` set es)"
  by (induction it es rule: summary_put.induct) auto

lemma summary_put_distinct: "distinct (map fst es) \<Longrightarrow> distinct (map fst (summary_put it es))"
proof (induction it es rule: summary_put.induct)
  case (2 it k e es)
  then show ?case using summary_put_keys [of it es] by (cases "k = summary_key (dl_instance it) (dl_id it)") simp_all
qed simp

lemma summary_put_entry:
  assumes "(k, e) \<in> set (summary_put it es)" "distinct (map fst es)"
  shows "(k, e) \<in> set es \<and> k \<noteq> summary_key (dl_instance it) (dl_id it) \<or>
    k = summary_key (dl_instance it) (dl_id it) \<and>
      ((\<exists>e'. (k, e') \<in> set es \<and> e = e'\<lparr>ds_items := ds_items e' @ [it]\<rparr>) \<or>
       k \<notin> fst ` set es \<and> e = \<lparr>ds_id = dl_id it, ds_instance = dl_instance it, ds_time = dl_time it, ds_items = [it]\<rparr>)"
  using assms
proof (induction it es rule: summary_put.induct)
  case (2 it k' e' es)
  show ?case
  proof (cases "k' = summary_key (dl_instance it) (dl_id it)")
    case True
    then show ?thesis using 2(2,3) by force
  next
    case False
    then show ?thesis using 2 by auto
  qed
qed auto

lemma summarised_put:
  assumes "summarised xs es"
  shows "summarised (xs @ [it]) (summary_put it es)"
proof -
  let ?k = "summary_key (dl_instance it) (dl_id it)"
  have d: "distinct (map fst es)" using assms by (simp add: summarised_def)
  have old: "k = summary_key (ds_instance e) (ds_id e)" "ds_items e = filter (\<lambda>it. same_chain it e) xs" "ds_items e \<noteq> []"
    if "(k, e) \<in> set es" for k e
    using assms that by (auto simp: summarised_def)
  have "k = summary_key (ds_instance e) (ds_id e) \<and> ds_items e = filter (\<lambda>it. same_chain it e) (xs @ [it]) \<and> ds_items e \<noteq> []"
    if e: "(k, e) \<in> set (summary_put it es)" for k e
    using summary_put_entry [OF e d]
  proof (elim disjE conjE exE)
    assume "(k, e) \<in> set es" "k \<noteq> ?k"
    then show ?thesis using old [of k e] by (auto simp: same_chain_def)
  next
    fix e' assume "k = ?k" "(k, e') \<in> set es" "e = e'\<lparr>ds_items := ds_items e' @ [it]\<rparr>"
    then show ?thesis using old [of k e'] summary_key_inj by (auto simp: same_chain_def)
  next
    assume k: "k = ?k" "k \<notin> fst ` set es" and
      e: "e = \<lparr>ds_id = dl_id it, ds_instance = dl_instance it, ds_time = dl_time it, ds_items = [it]\<rparr>"
    have "summary_key (dl_instance x) (dl_id x) \<in> fst ` set es" if "x \<in> set xs" for x
      using assms that by (simp add: summarised_def)
    then have "\<not> same_chain x e" if "x \<in> set xs" for x
      using that k by (simp add: e same_chain_def) metis
    then show ?thesis using k e by (auto simp: filter_empty_conv) (simp add: same_chain_def)
  qed
  then show ?thesis
    using assms by (auto simp: summarised_def summary_put_distinct summary_put_keys)
qed

lemma summary_groups:
  "distinct (map (\<lambda>e. (ds_instance e, ds_id e)) (summary xs))"
  "e \<in> set (summary xs) \<Longrightarrow> ds_items e = filter (\<lambda>it. same_chain it e) xs \<and> ds_items e \<noteq> []"
  "it \<in> set xs \<Longrightarrow> \<exists>e\<in>set (summary xs). it \<in> set (ds_items e)"
proof -
  have "summarised (pre @ xs) (foldl (\<lambda>es it. summary_put it es) es xs)" if "summarised pre es" for pre es
    using that
  proof (induction xs arbitrary: pre es)
    case (Cons x xs)
    from Cons.IH [OF summarised_put [OF Cons.prems, of x]] show ?case by simp
  qed simp
  from this [of "[]" "[]"] have s: "summarised xs (foldl (\<lambda>es it. summary_put it es) [] xs)" (is "summarised xs ?es")
    by (simp add: summarised_def)
  have "map (\<lambda>e. summary_key (ds_instance e) (ds_id e)) (map snd ?es) = map fst ?es"
    using s by (auto simp: summarised_def)
  moreover have "distinct (map fst ?es)" using s by (simp add: summarised_def)
  ultimately have "distinct (map (\<lambda>e. summary_key (ds_instance e) (ds_id e)) (summary xs))"
    unfolding summary_def by metis
  then show "distinct (map (\<lambda>e. (ds_instance e, ds_id e)) (summary xs))"
    by (simp add: distinct_map inj_on_def)
  show entry: "ds_items e = filter (\<lambda>it. same_chain it e) xs \<and> ds_items e \<noteq> []" if "e \<in> set (summary xs)" for e
    using s that by (auto simp: summarised_def summary_def)
  show "\<exists>e\<in>set (summary xs). it \<in> set (ds_items e)" if "it \<in> set xs"
  proof -
    obtain k e where e: "(k, e) \<in> set ?es" "k = summary_key (dl_instance it) (dl_id it)"
      using s \<open>it \<in> set xs\<close> by (auto simp: summarised_def)
    then have "same_chain it e" using s summary_key_inj by (force simp: summarised_def same_chain_def)
    moreover have "e \<in> set (summary xs)" using e(1) by (force simp: summary_def)
    ultimately show ?thesis using entry \<open>it \<in> set xs\<close> by force
  qed
qed

subsection \<open>The graph of a chain\<close>

record graph_link =
  gl_source :: nat
  gl_target :: "nat option"
  gl_key :: string

fun find_first :: "('a \<Rightarrow> bool) \<Rightarrow> 'a list \<Rightarrow> nat option" where
  "find_first f [] = None"
| "find_first f (x # xs) = (if f x then Some 0 else map_option Suc (find_first f xs))"

text \<open>A link without a target (\<open>findIndex\<close> is -1) has no layout: the page throws.\<close>

definition graph_links :: "DeadlockModel list \<Rightarrow> graph_link list" where
  "graph_links xs =
     map (\<lambda>(i, d). \<lparr>gl_source = i, gl_target = find_first (\<lambda>it. dl_holding it = dl_try d) xs, gl_key = dl_key d\<rparr>)
       (enumerate 0 xs)"

definition graph_drawn :: "DeadlockModel list \<Rightarrow> bool" where
  "graph_drawn xs = list_all (\<lambda>l. gl_target l \<noteq> None) (graph_links xs)"

record node_meta =
  nm_x :: real
  nm_y :: real
  connectInX :: real
  connectInY :: real
  connectOutX :: real
  connectOutY :: real

definition rotate_about :: "real \<Rightarrow> real \<Rightarrow> real \<Rightarrow> real \<times> real \<Rightarrow> real \<times> real" where
  "rotate_about cx cy a p =
     ((fst p - cx) * cos a - (snd p - cy) * sin a + cx, (fst p - cx) * sin a + (snd p - cy) * cos a + cy)"

fun layout_loop :: "real \<Rightarrow> real \<Rightarrow> real \<Rightarrow> real \<Rightarrow> nat \<Rightarrow> real \<Rightarrow> real \<times> real \<Rightarrow> real \<times> real \<Rightarrow> node_meta list" where
  "layout_loop cx cy R outAngle 0 angle inp outp = []"
| "layout_loop cx cy R outAngle (Suc m) angle inp outp =
     (let angle = angle + outAngle
      in \<lparr>nm_x = cx + R * sin angle, nm_y = cy + R * cos angle, connectInX = fst inp, connectInY = snd inp,
          connectOutX = fst outp, connectOutY = snd outp\<rparr> #
         layout_loop cx cy R outAngle m angle (rotate_about cx cy outAngle inp) (rotate_about cx cy outAngle outp))"

definition calcCircularLayout :: "real \<Rightarrow> real \<Rightarrow> real \<Rightarrow> nat \<Rightarrow> real \<Rightarrow> node_meta list" where
  "calcCircularLayout cx cy R n r =
     (let outAngle = 2 * pi / real n; h = pi * (real n - 2) / real n / 2
      in layout_loop cx cy R outAngle n 0 (cx - sin h * r, cy + R - cos h * r) (cx + sin h * r, cy + R - cos h * r))"

lemma find_first_None: "find_first f xs = None \<longleftrightarrow> (\<forall>x\<in>set xs. \<not> f x)"
  by (induction xs) auto

lemma find_first_Some: "find_first f xs = Some i \<Longrightarrow> i < length xs \<and> f (xs ! i)"
  by (induction xs arbitrary: i) (auto split: if_splits)

text \<open>The graph can be drawn just when every transaction of the chain holds a lock another one waits for.\<close>

lemma graph_drawn_iff: "graph_drawn xs \<longleftrightarrow> (\<forall>d\<in>set xs. \<exists>it\<in>set xs. dl_holding it = dl_try d)"
proof -
  have "snd ` set (enumerate 0 xs) = set xs" by (metis map_snd_enumerate set_map)
  then have "graph_drawn xs \<longleftrightarrow> (\<forall>d\<in>set xs. find_first (\<lambda>it. dl_holding it = dl_try d) xs \<noteq> None)"
    unfolding graph_drawn_def graph_links_def by (force simp: list_all_iff)
  then show ?thesis by (simp add: find_first_None)
qed

definition turn :: "real \<Rightarrow> real \<times> real \<Rightarrow> real \<times> real" where
  "turn a p = (fst p * cos a - snd p * sin a, fst p * sin a + snd p * cos a)"

lemma turn_turn: "turn a (turn b p) = turn (b + a) p"
  by (simp add: turn_def cos_add sin_add algebra_simps)

lemma turn_dist: "(fst (turn a p) - fst (turn a q))\<^sup>2 + (snd (turn a p) - snd (turn a q))\<^sup>2 = (fst p - fst q)\<^sup>2 + (snd p - snd q)\<^sup>2"
proof -
  define u v where "u = fst p - fst q" and "v = snd p - snd q"
  have "(u * c - v * s)\<^sup>2 + (u * s + v * c)\<^sup>2 = (u\<^sup>2 + v\<^sup>2) * (s\<^sup>2 + c\<^sup>2)" for s c
    by (simp add: power2_eq_square algebra_simps)
  from this [of "cos a" "sin a"] have "(u * cos a - v * sin a)\<^sup>2 + (u * sin a + v * cos a)\<^sup>2 = u\<^sup>2 + v\<^sup>2" by simp
  moreover have "fst (turn a p) - fst (turn a q) = u * cos a - v * sin a" "snd (turn a p) - snd (turn a q) = u * sin a + v * cos a"
    by (simp_all add: turn_def u_def v_def algebra_simps)
  ultimately show ?thesis by (simp add: u_def v_def)
qed

lemma rotate_about_turn: "rotate_about cx cy a (cx + fst p, cy + snd p) = (cx + fst (turn a p), cy + snd (turn a p))"
  by (simp add: rotate_about_def turn_def)

lemma layout_loop_nth:
  "i < m \<Longrightarrow> layout_loop cx cy R a m b (cx + fst p, cy + snd p) (cx + fst q, cy + snd q) ! i =
     \<lparr>nm_x = cx + R * sin (b + real (Suc i) * a), nm_y = cy + R * cos (b + real (Suc i) * a),
      connectInX = cx + fst (turn (real i * a) p), connectInY = cy + snd (turn (real i * a) p),
      connectOutX = cx + fst (turn (real i * a) q), connectOutY = cy + snd (turn (real i * a) q)\<rparr>"
proof (induction m arbitrary: i b p q)
  case (Suc m)
  show ?case
  proof (cases i)
    case 0
    then show ?thesis by (simp add: turn_def Let_def)
  next
    case (Suc j)
    have e: "a + real j * a = real (Suc j) * a" by (simp add: algebra_simps)
    show ?thesis using Suc.IH [of j "b + a" "turn a p" "turn a q"] Suc.prems Suc
      by (simp add: Let_def rotate_about_turn turn_turn e [symmetric] algebra_simps)
  qed
qed simp

lemma layout_length: "length (layout_loop cx cy R a m b p q) = m"
  by (induction m arbitrary: b p q) (simp_all add: Let_def)

lemma layout_nth:
  assumes "i < n"
  defines "a \<equiv> 2 * pi / real n" and "h \<equiv> pi * (real n - 2) / real n / 2"
  shows "calcCircularLayout cx cy R n r ! i =
     \<lparr>nm_x = cx + R * sin (real (Suc i) * a), nm_y = cy + R * cos (real (Suc i) * a),
      connectInX = cx + fst (turn (real i * a) (- (sin h * r), R - cos h * r)),
      connectInY = cy + snd (turn (real i * a) (- (sin h * r), R - cos h * r)),
      connectOutX = cx + fst (turn (real i * a) (sin h * r, R - cos h * r)),
      connectOutY = cy + snd (turn (real i * a) (sin h * r, R - cos h * r))\<rparr>"
  using layout_loop_nth [OF assms(1), of cx cy R a 0 "(- (sin h * r), R - cos h * r)" "(sin h * r, R - cos h * r)"]
  by (simp add: calcCircularLayout_def a_def h_def Let_def algebra_simps)

text \<open>
  The nodes of a chain of \<open>n\<close> transactions lie on the circle, and node \<open>n - 1 - i\<close> is where the turning of the connectors
  has brought the bottom of the circle after \<open>i\<close> steps.
\<close>

lemma mirror_node:
  assumes "i < n"
  defines "a \<equiv> 2 * pi / real n"
  shows "(R * sin (real (Suc (n - 1 - i)) * a), R * cos (real (Suc (n - 1 - i)) * a)) = turn (real i * a) (0, R)"
proof -
  have "real (Suc (n - 1 - i)) * a = 2 * pi - real i * a"
    using assms(1) by (simp add: a_def of_nat_diff field_simps)
  then show ?thesis by (simp add: turn_def sin_diff cos_diff)
qed

text \<open>
  The layout of a chain: every node lies on the circle around the centre, inside the picture, and the two points where
  an entry of the layout joins its links lie on the rim of a node. It is the node of the mirrored index, since the nodes
  and the joints turn in opposite directions: a link is drawn between the mirror images of its ends.
\<close>

theorem deadlock_layout:
  assumes "i < n" "l = calcCircularLayout cx cy R n r"
  shows "length l = n" "(nm_x (l ! i) - cx)\<^sup>2 + (nm_y (l ! i) - cy)\<^sup>2 = R\<^sup>2"
    "(connectInX (l ! i) - nm_x (l ! (n - 1 - i)))\<^sup>2 + (connectInY (l ! i) - nm_y (l ! (n - 1 - i)))\<^sup>2 = r\<^sup>2"
    "(connectOutX (l ! i) - nm_x (l ! (n - 1 - i)))\<^sup>2 + (connectOutY (l ! i) - nm_y (l ! (n - 1 - i)))\<^sup>2 = r\<^sup>2"
proof -
  define a where "a = 2 * pi / real n"
  define h where "h = pi * (real n - 2) / real n / 2"
  have j: "n - 1 - i < n" using assms(1) by simp
  note nth = layout_nth [OF assms(1), of cx cy R r, folded a_def h_def assms(2)]
  note nth' = layout_nth [OF j, of cx cy R r, folded a_def h_def assms(2)]
  show "length l = n" by (simp add: assms(2) calcCircularLayout_def Let_def layout_length)
  show "(nm_x (l ! i) - cx)\<^sup>2 + (nm_y (l ! i) - cy)\<^sup>2 = R\<^sup>2"
    by (simp add: nth power_mult_distrib flip: distrib_left)
  have m: "nm_x (l ! (n - 1 - i)) = cx + fst (turn (real i * a) (0, R))" "nm_y (l ! (n - 1 - i)) = cy + snd (turn (real i * a) (0, R))"
    using mirror_node [OF assms(1), of R, folded a_def] unfolding nth' by (auto simp only: prod_eq_iff node_meta.simps fst_conv snd_conv)
  have rim: "(- (sin h * r) - 0)\<^sup>2 + (R - cos h * r - R)\<^sup>2 = r\<^sup>2" "(sin h * r - 0)\<^sup>2 + (R - cos h * r - R)\<^sup>2 = r\<^sup>2"
    by (simp_all add: power_mult_distrib flip: distrib_right)
  show "(connectInX (l ! i) - nm_x (l ! (n - 1 - i)))\<^sup>2 + (connectInY (l ! i) - nm_y (l ! (n - 1 - i)))\<^sup>2 = r\<^sup>2"
    using turn_dist [of "real i * a" "(- (sin h * r), R - cos h * r)" "(0, R)"] rim(1) unfolding m nth by simp
  show "(connectOutX (l ! i) - nm_x (l ! (n - 1 - i)))\<^sup>2 + (connectOutY (l ! i) - nm_y (l ! (n - 1 - i)))\<^sup>2 = r\<^sup>2"
    using turn_dist [of "real i * a" "(sin h * r, R - cos h * r)" "(0, R)"] rim(2) unfolding m nth by simp
qed

theorem deadlock_layout_witness:
  "(nm_x (calcCircularLayout 150 150 100 3 30 ! 0) - 150)\<^sup>2 + (nm_y (calcCircularLayout 150 150 100 3 30 ! 0) - 150)\<^sup>2 = 100\<^sup>2"
  using deadlock_layout(2) [OF _ refl, of 0 3 150 150 100 30] by simp

end
