(* ===== verification/SettingForms.thy ===== *)
theory SettingForms
  imports JsSort Session
begin

text \<open>
  The settings of the features, kept in drawers: \<open>apps/Statement/pages/List/StatementSettingForm.tsx\<close>,
  \<open>apps/ContinuousProfiling/pages/ConProfSettingForm.tsx\<close> and \<open>apps/TopSQL/pages/List/SettingsForm.tsx\<close>; and the session
  part of the user profile, \<open>apps/UserProfile/components/Form.Session.tsx\<close>. The three forms work alike: the locale
  \<open>switch_form\<close> has what each of them does of its own, and the lemmas on their common machine are proved in it.
\<close>

subsection \<open>A form with a switch\<close>

text \<open>
  The form shows the loaded configuration. A submission posts at once, or opens a dialog first; the drawer closes when a
  post succeeds. Each post is recorded with whether the dialog was confirmed for it.
\<close>

record ('c, 'v, 'r) setting_form =
  sf_config :: "'c option"
  sf_loading :: bool
  sf_dialog :: "'v option"
  sf_flights :: nat
  sf_submitting :: bool
  sf_posts :: "('r \<times> bool) list"
  sf_closed :: bool
  sf_updates :: nat

datatype ('c, 'v) setting_event =
    ConfigLoaded 'c | ConfigFailed | SubmitSettings 'v | DialogOk | DialogCancel | PostOk | PostFails | ClickCancel

definition open_form :: "('c, 'v, 'r) setting_form" where
  "open_form = \<lparr>sf_config = None, sf_loading = True, sf_dialog = None, sf_flights = 0, sf_submitting = False, sf_posts = [],
     sf_closed = False, sf_updates = 0\<rparr>"

definition updateConfig :: "('v \<Rightarrow> 'r) \<Rightarrow> bool \<Rightarrow> 'v \<Rightarrow> ('c, 'v, 'r) setting_form \<Rightarrow> ('c, 'v, 'r) setting_form" where
  "updateConfig mk confirmed v s =
     s\<lparr>sf_submitting := True, sf_flights := sf_flights s + 1, sf_posts := sf_posts s @ [(mk v, confirmed)]\<rparr>"

definition form_shown :: "('c, 'v, 'r) setting_form \<Rightarrow> bool" where
  "form_shown s = (\<not> sf_loading s \<and> sf_config s \<noteq> None \<and> \<not> sf_closed s)"

fun setting_step :: "('c option \<Rightarrow> 'v \<Rightarrow> bool) \<Rightarrow> ('v \<Rightarrow> 'r) \<Rightarrow> bool \<Rightarrow> ('c, 'v, 'r) setting_form \<Rightarrow> ('c, 'v) setting_event \<Rightarrow>
    ('c, 'v, 'r) setting_form" where
  "setting_step ask mk wr s (ConfigLoaded c) = (if sf_loading s then s\<lparr>sf_config := Some c, sf_loading := False\<rparr> else s)"
| "setting_step ask mk wr s ConfigFailed = (if sf_loading s then s\<lparr>sf_loading := False\<rparr> else s)"
| "setting_step ask mk wr s (SubmitSettings v) =
     (if \<not> form_shown s \<or> \<not> wr then s
      else if ask (sf_config s) v then s\<lparr>sf_dialog := Some v\<rparr>
      else updateConfig mk False v s)"
| "setting_step ask mk wr s DialogOk =
     (case sf_dialog s of None \<Rightarrow> s | Some v \<Rightarrow> updateConfig mk True v (s\<lparr>sf_dialog := None\<rparr>))"
| "setting_step ask mk wr s DialogCancel = s\<lparr>sf_dialog := None\<rparr>"
| "setting_step ask mk wr s PostOk =
     (if sf_flights s = 0 then s
      else s\<lparr>sf_flights := sf_flights s - 1, sf_closed := True, sf_updates := sf_updates s + 1, sf_submitting := False\<rparr>)"
| "setting_step ask mk wr s PostFails =
     (if sf_flights s = 0 then s else s\<lparr>sf_flights := sf_flights s - 1, sf_submitting := False\<rparr>)"
| "setting_step ask mk wr s ClickCancel = s\<lparr>sf_closed := True\<rparr>"

subsection \<open>The statement settings\<close>

record StatementEditableConfig =
  sc_enable :: bool
  sc_max_size :: "jsnum option"
  sc_refresh_interval :: jsnum
  sc_history_size :: "jsnum option"
  sc_internal_query :: "bool option"

text \<open>The values of the form: the interval in minutes. Fields that are not on the screen have no value.\<close>

record stmt_values =
  sv_enable :: bool
  sv_max_size :: "jsnum option"
  sv_refresh_interval :: "jsnum option"
  sv_history_size :: "jsnum option"
  sv_internal_query :: "bool option"

definition stmt_initialValues :: "StatementEditableConfig \<Rightarrow> stmt_values" where
  "stmt_initialValues c =
     \<lparr>sv_enable = sc_enable c, sv_max_size = sc_max_size c,
      sv_refresh_interval = Some (js_floor (js_div (sc_refresh_interval c) (Fin 60))),
      sv_history_size = sc_history_size c, sv_internal_query = sc_internal_query c\<rparr>"

definition stmt_newConfig :: "stmt_values \<Rightarrow> StatementEditableConfig" where
  "stmt_newConfig v =
     \<lparr>sc_enable = sv_enable v, sc_max_size = sv_max_size v,
      sc_refresh_interval = (case sv_refresh_interval v of Some m \<Rightarrow> m * Fin 60 | None \<Rightarrow> NaN),
      sc_history_size = sv_history_size v, sc_internal_query = sv_internal_query v\<rparr>"

definition stmt_asks :: "StatementEditableConfig option \<Rightarrow> stmt_values \<Rightarrow> bool" where
  "stmt_asks c v = (\<not> sv_enable v \<and> (case c of Some c \<Rightarrow> sc_enable c | None \<Rightarrow> True))"

text \<open>The time the statements are kept, from minutes and a number of windows.\<close>

definition keep_duration :: "int \<Rightarrow> int \<Rightarrow> int \<times> int \<times> int" where
  "keep_duration refreshInterval historySize =
     (let totalMins = refreshInterval * historySize;
          day = totalMins div (24 * 60);
          hour = (totalMins - day * 24 * 60) div 60
      in (day, hour, totalMins - day * 24 * 60 - hour * 60))"

subsection \<open>Continuous profiling and Top SQL\<close>

record ConprofConfig =
  cp_enable :: bool
  cp_retention :: "int option"

definition cp_asks :: "ConprofConfig option \<Rightarrow> ConprofConfig \<Rightarrow> bool" where
  "cp_asks c v = (\<not> cp_enable v)"

definition ONE_DAY_SECONDS :: int where
  "ONE_DAY_SECONDS = 24 * 60 * 60"

definition RETENTION_SECONDS :: "int list" where
  "RETENTION_SECONDS = [3 * ONE_DAY_SECONDS, 5 * ONE_DAY_SECONDS, 10 * ONE_DAY_SECONDS]"

text \<open>\<open>sort\<close> without a comparator compares the texts of the elements, character by character.\<close>

fun text_less :: "string \<Rightarrow> string \<Rightarrow> bool" where
  "text_less _ [] = False"
| "text_less [] (_ # _) = True"
| "text_less (c # cs) (d # ds) = (if c = d then text_less cs ds else (of_char c :: nat) < of_char d)"

definition text_cmp :: "int \<Rightarrow> int \<Rightarrow> jsnum" where
  "text_cmp a b = (if text_less (show_int a) (show_int b) then Fin (- 1) else if a = b then Fin 0 else Fin 1)"

definition dataRetentionSeconds :: "int option \<Rightarrow> int list" where
  "dataRetentionSeconds cur =
     (case cur of
        None \<Rightarrow> RETENTION_SECONDS
      | Some s \<Rightarrow>
          if s \<noteq> 0 \<and> s \<notin> set RETENTION_SECONDS \<and> s mod ONE_DAY_SECONDS = 0
          then js_sort text_cmp (RETENTION_SECONDS @ [s]) else RETENTION_SECONDS)"

definition topsql_asks :: "bool option \<Rightarrow> bool \<Rightarrow> bool" where
  "topsql_asks c v = (\<not> v \<and> (case c of Some e \<Rightarrow> e | None \<Rightarrow> True))"

definition topsql_info :: "bool option \<Rightarrow> bool \<Rightarrow> bool" where
  "topsql_info c v = (v \<and> c \<noteq> Some True)"

subsection \<open>Sharing a session and signing out\<close>

definition SHARE_SESSION_EXPIRY_HOURS :: "rat list" where
  "SHARE_SESSION_EXPIRY_HOURS = [1 / 4, 1 / 2, 1, 2, 3, 6, 12, 24, 24 * 3, 24 * 7, 24 * 30, 24 * 365]"

text \<open>The choice 0 is a date, whose day ends at \<open>customEnd\<close>, and -1 is no end.\<close>

definition expireInSec :: "rat \<Rightarrow> rat \<Rightarrow> rat \<Rightarrow> rat" where
  "expireInSec now customEnd expire =
     (if expire = 0 then customEnd - now
      else if expire = - 1 then 100 * 365 * 24 * 60 * 60
      else expire * 60 * 60)"

record share_request =
  shr_expire :: rat
  shr_revoke_write :: bool

record share_state =
  sh_visible :: bool
  sh_posting :: bool
  sh_code :: "string option"
  sh_copied :: bool
  sh_flights :: "share_request list"

datatype share_event = ShareOpen | ShareClose | ShareSubmit rat rat rat bool | ShareOk nat string | ShareFails nat | ShareCopy

definition share_closed :: "share_state \<Rightarrow> share_state" where
  "share_closed s = s\<lparr>sh_visible := False, sh_code := None, sh_posting := False, sh_copied := False\<rparr>"

definition nth_away :: "nat \<Rightarrow> 'a list \<Rightarrow> 'a list" where
  "nth_away i xs = take i xs @ drop (Suc i) xs"

fun share_step :: "bool \<Rightarrow> share_state \<Rightarrow> share_event \<Rightarrow> share_state" where
  "share_step shareable s ShareOpen = (if shareable then s\<lparr>sh_visible := True\<rparr> else s)"
| "share_step shareable s ShareClose = share_closed s"
| "share_step shareable s (ShareSubmit now customEnd expire read_only) =
     (if sh_visible s
      then s\<lparr>sh_posting := True,
             sh_flights := sh_flights s @ [\<lparr>shr_expire = expireInSec now customEnd expire, shr_revoke_write = read_only\<rparr>]\<rparr>
      else s)"
| "share_step shareable s (ShareOk i code') =
     (if i < length (sh_flights s)
      then s\<lparr>sh_flights := nth_away i (sh_flights s), sh_code := Some code', sh_posting := False\<rparr> else s)"
| "share_step shareable s (ShareFails i) =
     (if i < length (sh_flights s) then s\<lparr>sh_flights := nth_away i (sh_flights s), sh_posting := False\<rparr> else s)"
| "share_step shareable s ShareCopy = s\<lparr>sh_copied := True\<rparr>"

text \<open>The dialog with the code is on the screen for a code that is not empty.\<close>

definition code_shown :: "share_state \<Rightarrow> string option" where
  "code_shown s = (case sh_code s of Some c \<Rightarrow> if c = [] then None else Some c | None \<Rightarrow> None)"

datatype sign_out = Redirect string | Reload

text \<open>The answer with the address to go to, \<^term>\<open>None\<close> when the request failed.\<close>

definition handleLogout :: "string option option \<Rightarrow> 'w browser \<Rightarrow> 'w browser \<times> sign_out" where
  "handleLogout answer b =
     (clearAuthToken b,
      case answer of Some (Some u) \<Rightarrow> if u = [] then Reload else Redirect u | _ \<Rightarrow> Reload)"

definition signOut_origin :: "'w browser \<Rightarrow> string" where
  "signOut_origin b = protocol b @ ''//'' @ host b @ pathname_b b"

subsection \<open>What the forms guarantee\<close>

locale switch_form =
  fixes ask :: "'c option \<Rightarrow> 'v \<Rightarrow> bool" and mk :: "'v \<Rightarrow> 'r"
    and is_on :: "'c \<Rightarrow> bool" and turns_on :: "'r \<Rightarrow> bool"
  assumes asks_to_turn_off: "is_on c \<Longrightarrow> \<not> turns_on (mk v) \<Longrightarrow> ask (Some c) v"
begin

abbreviation run :: "bool \<Rightarrow> ('c, 'v) setting_event list \<Rightarrow> ('c, 'v, 'r) setting_form" where
  "run wr es \<equiv> foldl (setting_step ask mk wr) open_form es"

definition form_inv :: "bool \<Rightarrow> ('c, 'v, 'r) setting_form \<Rightarrow> bool" where
  "form_inv wr s \<longleftrightarrow>
     (\<forall>c r. sf_config s = Some c \<longrightarrow> is_on c \<longrightarrow> (r, False) \<in> set (sf_posts s) \<longrightarrow> turns_on r) \<and>
     (sf_config s = None \<or> sf_loading s \<longrightarrow> sf_posts s = [] \<and> sf_dialog s = None) \<and>
     (sf_loading s \<longrightarrow> sf_config s = None) \<and>
     (\<not> wr \<longrightarrow> sf_posts s = [] \<and> sf_dialog s = None) \<and>
     (sf_submitting s \<longrightarrow> 0 < sf_flights s) \<and> sf_flights s \<le> length (sf_posts s) \<and>
     sf_updates s + sf_flights s \<le> length (sf_posts s) \<and> (0 < sf_updates s \<longrightarrow> sf_closed s)"

lemma no_question_on: "is_on c \<Longrightarrow> \<not> ask (Some c) v \<Longrightarrow> turns_on (mk v)"
  using asks_to_turn_off by blast

lemma form_inv_step: "form_inv wr s \<Longrightarrow> form_inv wr (setting_step ask mk wr s e)"
proof (cases e)
  case (SubmitSettings v)
  assume inv: "form_inv wr s"
  show ?thesis
  proof (cases "form_shown s \<and> wr \<and> \<not> ask (sf_config s) v")
    case True
    then show ?thesis using inv
      by (auto intro: no_question_on simp: SubmitSettings form_inv_def updateConfig_def form_shown_def)
  next
    case False
    then show ?thesis using inv by (auto simp: SubmitSettings form_inv_def form_shown_def)
  qed
qed (auto simp: form_inv_def updateConfig_def open_form_def split: option.splits)

lemma form_inv_run: "form_inv wr (run wr es)"
proof (induction es rule: rev_induct)
  case Nil
  then show ?case by (simp add: form_inv_def open_form_def)
next
  case (snoc e es)
  then show ?case using form_inv_step by simp
qed

lemma off_only_confirmed:
  assumes "s = run wr es" "sf_config s = Some c" "is_on c" "(r, confirmed) \<in> set (sf_posts s)" "\<not> turns_on r"
  shows "confirmed"
  using form_inv_run [of wr es] assms by (cases confirmed) (auto simp: form_inv_def)

lemma read_only_never_posts: "s = run False es \<Longrightarrow> sf_posts s = []"
  using form_inv_run [of False es] by (simp add: form_inv_def)

lemma idle_when_answered: "s = run wr es \<Longrightarrow> sf_flights s = 0 \<Longrightarrow> \<not> sf_submitting s"
  using form_inv_run [of wr es] by (simp add: form_inv_def)

end

interpretation stmt_form: switch_form stmt_asks stmt_newConfig sc_enable sc_enable
  by unfold_locales (simp add: stmt_asks_def stmt_newConfig_def)

interpretation cp_form: switch_form cp_asks "\<lambda>v. v" cp_enable cp_enable
  by unfold_locales (simp add: cp_asks_def)

interpretation topsql_form: switch_form topsql_asks "\<lambda>v. v" "\<lambda>e. e" "\<lambda>e. e"
  by unfold_locales (simp add: topsql_asks_def)

lemma settings_off_confirmed_facts:
  "s = foldl (setting_step stmt_asks stmt_newConfig wr) open_form es \<Longrightarrow> sf_config s = Some c \<Longrightarrow> sc_enable c \<Longrightarrow>
     (r, confirmed) \<in> set (sf_posts s) \<Longrightarrow> \<not> sc_enable r \<Longrightarrow> confirmed"
  "s' = foldl (setting_step cp_asks (\<lambda>v. v) wr) open_form es' \<Longrightarrow> sf_config s' = Some c' \<Longrightarrow> cp_enable c' \<Longrightarrow>
     (r', confirmed) \<in> set (sf_posts s') \<Longrightarrow> \<not> cp_enable r' \<Longrightarrow> confirmed"
  "s'' = foldl (setting_step topsql_asks (\<lambda>v. v) wr) open_form es'' \<Longrightarrow> sf_config s'' = Some True \<Longrightarrow>
     (False, confirmed) \<in> set (sf_posts s'') \<Longrightarrow> confirmed"
  "s = foldl (setting_step stmt_asks stmt_newConfig False) open_form es \<Longrightarrow> sf_posts s = []"
  "s = foldl (setting_step stmt_asks stmt_newConfig wr) open_form es \<Longrightarrow> sf_flights s = 0 \<Longrightarrow> \<not> sf_submitting s"
  by (fact stmt_form.off_only_confirmed, fact cp_form.off_only_confirmed,
      use topsql_form.off_only_confirmed in blast, fact stmt_form.read_only_never_posts, fact stmt_form.idle_when_answered)

text \<open>
  C36: none of the three features is switched off by accident: whatever the user does and whenever the answers come, a post
  that turns a feature off which the loaded configuration has on was confirmed in the dialog. In the form of the statement
  settings nothing is posted without the right to write, and when every post is answered it is not left submitting.
\<close>

theorem settings_off_confirmed:
  "let s = foldl (setting_step stmt_asks stmt_newConfig wr) open_form es;
       s' = foldl (setting_step cp_asks (\<lambda>v. v) wr) open_form es';
       s'' = foldl (setting_step topsql_asks (\<lambda>v. v) wr) open_form es''
   in (\<forall>c r confirmed. sf_config s = Some c \<and> sc_enable c \<and> (r, confirmed) \<in> set (sf_posts s) \<and> \<not> sc_enable r \<longrightarrow> confirmed) \<and>
      (\<forall>c r confirmed. sf_config s' = Some c \<and> cp_enable c \<and> (r, confirmed) \<in> set (sf_posts s') \<and> \<not> cp_enable r \<longrightarrow> confirmed) \<and>
      (\<forall>confirmed. sf_config s'' = Some True \<and> (False, confirmed) \<in> set (sf_posts s'') \<longrightarrow> confirmed) \<and>
      (\<not> wr \<longrightarrow> sf_posts s = []) \<and> (sf_flights s = 0 \<longrightarrow> \<not> sf_submitting s)"
  unfolding Let_def
proof (intro conjI)
  show "\<not> wr \<longrightarrow> sf_posts (stmt_form.run wr es) = []" by (simp add: settings_off_confirmed_facts(4) [OF refl])
qed (use settings_off_confirmed_facts(1-3,5) [OF refl] in blast)+

theorem settings_off_confirmed_witness:
  "let s = foldl (setting_step topsql_asks (\<lambda>v. v) True) open_form [ConfigLoaded True, SubmitSettings False, DialogOk]
   in (False, True) \<in> set (sf_posts s)"
proof -
  let ?s = "foldl (setting_step topsql_asks (\<lambda>v. v) True) open_form [ConfigLoaded True, SubmitSettings False, DialogOk]"
  have "(False, c) \<in> set (sf_posts ?s) \<Longrightarrow> c" for c
    using settings_off_confirmed [where wr = True and es'' = "[ConfigLoaded True, SubmitSettings False, DialogOk]"]
    by (simp add: Let_def open_form_def form_shown_def topsql_asks_def updateConfig_def)
  moreover have "(False, True) \<in> set (sf_posts ?s)"
    by (simp add: open_form_def form_shown_def topsql_asks_def updateConfig_def)
  ultimately show ?thesis unfolding Let_def by blast
qed

text \<open>
  Saving the statement settings without a change keeps an interval of whole minutes, and shortens every other one to the
  minute below.
\<close>

lemma settings_unchanged:
  assumes "sc_refresh_interval c = js_int i" "c' = stmt_newConfig (stmt_initialValues c)"
  shows "sc_refresh_interval c' = js_int (60 * (i div 60))" "c' = c \<longleftrightarrow> 60 dvd i"
proof -
  have fl: "\<lfloor>rat_of_int i / 60\<rfloor> = i div 60" using floor_divide_of_int_eq [where 'a = rat, of i 60] by simp
  show r: "sc_refresh_interval c' = js_int (60 * (i div 60))"
    using assms by (simp add: stmt_newConfig_def stmt_initialValues_def fl)
  have same: "sc_enable c' = sc_enable c" "sc_max_size c' = sc_max_size c" "sc_history_size c' = sc_history_size c"
    "sc_internal_query c' = sc_internal_query c"
    by (simp_all add: assms(2) stmt_newConfig_def stmt_initialValues_def)
  have "c' = c \<longleftrightarrow> sc_refresh_interval c' = sc_refresh_interval c"
    using same StatementEditableConfig.equality [of c' c] by (metis old.unit.exhaust)
  also have "\<dots> \<longleftrightarrow> 60 * (i div 60) = i" by (simp only: r assms(1) jsnum.inject of_int_eq_iff)
  also have "\<dots> \<longleftrightarrow> 60 dvd i" by (metis dvd_triv_left dvd_mult_div_cancel)
  finally show "c' = c \<longleftrightarrow> 60 dvd i" .
qed

text \<open>Without the fields on the screen the interval is not a number.\<close>

lemma settings_hidden_fields: "sv_refresh_interval v = None \<Longrightarrow> sc_refresh_interval (stmt_newConfig v) = NaN"
  by (simp add: stmt_newConfig_def)

lemma keep_duration_exact:
  assumes "keep_duration r h = (day, hour, mn)"
  shows "day * (24 * 60) + hour * 60 + mn = r * h" "0 \<le> hour" "hour < 24" "0 \<le> mn" "mn < 60"
proof -
  let ?t = "r * h"
  have day: "day = ?t div (24 * 60)" and hour: "hour = (?t - day * 24 * 60) div 60" and mn: "mn = ?t - day * 24 * 60 - hour * 60"
    using assms by (auto simp: keep_duration_def Let_def)
  have rest: "?t - day * 24 * 60 = ?t mod (24 * 60)"
    unfolding day using minus_div_mult_eq_mod [of ?t "24 * 60"] by simp
  show "day * (24 * 60) + hour * 60 + mn = r * h" by (simp add: mn)
  show "0 \<le> hour" "hour < 24" unfolding hour rest by simp_all
  have "mn = (?t - day * 24 * 60) mod 60" unfolding mn hour using minus_div_mult_eq_mod [of "?t - day * 24 * 60" 60] by simp
  then show "0 \<le> mn" "mn < 60" by simp_all
qed

text \<open>The retention in force is always offered when it is a number of days.\<close>

lemma retention_offered:
  "s \<noteq> 0 \<Longrightarrow> s mod ONE_DAY_SECONDS = 0 \<Longrightarrow> s \<in> set (dataRetentionSeconds (Some s))"
  by (auto simp: dataRetentionSeconds_def)

text \<open>The choices are sorted by their texts: one day stands between five and ten days.\<close>

lemma retention_order:
  "dataRetentionSeconds (Some ONE_DAY_SECONDS) =
     [3 * ONE_DAY_SECONDS, 5 * ONE_DAY_SECONDS, ONE_DAY_SECONDS, 10 * ONE_DAY_SECONDS]"
proof -
  have "show_int 259200 = ''259200''" "show_int 432000 = ''432000''" "show_int 864000 = ''864000''" "show_int 86400 = ''86400''"
    by (simp_all add: show_int_def show_nat.simps digit_char_def char_of_def bit_iff_odd)
  then show ?thesis
    by (simp add: dataRetentionSeconds_def RETENTION_SECONDS_def ONE_DAY_SECONDS_def js_sort_def text_cmp_def zero_jsnum_def)
qed

text \<open>
  Signing out always ends the session in the browser, also when the server cannot be asked where to go, and the share
  dialog only asks for sessions that end in the future.
\<close>

lemma sign_out_ends: "getAuthTokenAsBearer (fst (handleLogout answer b)) = None" "snd (handleLogout None b) = Reload"
  by (simp_all add: handleLogout_def clear_no_token)

lemma share_in_future:
  assumes "expire \<in> set SHARE_SESSION_EXPIRY_HOURS \<or> expire = - 1 \<or> expire = 0 \<and> now < customEnd"
  shows "0 < expireInSec now customEnd expire"
proof (cases "expire \<in> set SHARE_SESSION_EXPIRY_HOURS")
  case True
  then have "0 < expire" by (auto simp: SHARE_SESSION_EXPIRY_HOURS_def)
  then show ?thesis by (simp add: expireInSec_def)
next
  case False
  then show ?thesis using assms by (auto simp: expireInSec_def)
qed

text \<open>Closing the share dialog does not stop the request: the code still comes up when the answer arrives.\<close>

lemma share_code_after_close:
  assumes "sh_visible s" "sh_flights s = []" "c \<noteq> []"
  shows "code_shown (foldl (share_step sh) s [ShareSubmit now ce ex ro, ShareClose, ShareOk 0 c]) = Some c"
  using assms by (simp add: share_closed_def code_shown_def nth_away_def)

end
