(* ===== verification/SelectInputs.thy ===== *)
theory SelectInputs
  imports InstanceSelect
begin

text \<open>
  The drop-downs of the library: \<open>components/BaseSelect\<close>, the box with its overlay, and \<open>components/MultiSelect\<close>, the
  choice of any number of items over the filtered selection of \<open>Selection\<close>, whose items may change while it is used.
\<close>

subsection \<open>The box and its overlay\<close>

text \<open>
  \<open>BaseSelect\<close>. Focus and blur are debounced: \<open>bs_pending\<close> is the last of them that has not been handled yet, \<^term>\<open>True\<close> for
  focus. \<open>MouseDownInside\<close> is a press on the box outside the selector and on the overlay.
\<close>

record base_select =
  bs_visible :: bool
  bs_focused :: bool
  bs_disabled :: bool
  bs_pending :: "bool option"

datatype base_event =
    MouseDownSelector | MouseDownInside | MouseDownOutside | KeyEnter | KeyEsc | KeyOther
  | FocusBox | BlurBox | DebounceDone | SetDisabled bool

definition new_base :: "bool \<Rightarrow> base_select" where
  "new_base dis = \<lparr>bs_visible = False, bs_focused = False, bs_disabled = dis, bs_pending = None\<rparr>"

definition toggleDropdownVisible :: "base_select \<Rightarrow> base_select" where
  "toggleDropdownVisible s = (if bs_disabled s then s else s\<lparr>bs_visible := \<not> bs_visible s\<rparr>)"

definition debouncedFocusOrBlur :: "bool \<Rightarrow> base_select \<Rightarrow> base_select" where
  "debouncedFocusOrBlur isFocus s =
     (if isFocus then s\<lparr>bs_focused := True\<rparr> else s\<lparr>bs_visible := False, bs_focused := False\<rparr>)"

text \<open>The effect of a change of \<open>disabled\<close>.\<close>

definition disabled_effect :: "base_select \<Rightarrow> base_select" where
  "disabled_effect s = (if bs_visible s \<and> \<not> bs_disabled s then s\<lparr>bs_visible := False\<rparr> else s)"

fun base_step :: "base_select \<Rightarrow> base_event \<Rightarrow> base_select" where
  "base_step s MouseDownSelector = toggleDropdownVisible s"
| "base_step s MouseDownInside = s"
| "base_step s MouseDownOutside = (if \<not> bs_visible s then s else s\<lparr>bs_visible := False\<rparr>)"
| "base_step s KeyEnter = toggleDropdownVisible s"
| "base_step s KeyEsc = s\<lparr>bs_visible := False\<rparr>"
| "base_step s KeyOther = s"
| "base_step s FocusBox = s\<lparr>bs_pending := Some True\<rparr>"
| "base_step s BlurBox = s\<lparr>bs_pending := Some False\<rparr>"
| "base_step s DebounceDone =
     (case bs_pending s of None \<Rightarrow> s | Some f \<Rightarrow> debouncedFocusOrBlur f (s\<lparr>bs_pending := None\<rparr>))"
| "base_step s (SetDisabled b) = (if b = bs_disabled s then s else disabled_effect (s\<lparr>bs_disabled := b\<rparr>))"

text \<open>The text in the box: the placeholder when there is nothing to show for the value.\<close>

definition base_text :: "string option \<Rightarrow> string \<Rightarrow> string" where
  "base_text renderedValue placeholder = (case renderedValue of None \<Rightarrow> placeholder | Some t \<Rightarrow> t)"

text \<open>
  The overlay opens only by a press on the selector or by Enter, while the box is not disabled, and a disabled box that
  is closed stays closed. Leaving the box closes it, unless the focus comes back before the debounce is over.
\<close>

lemma base_opens_enabled:
  "bs_visible (base_step s e) \<Longrightarrow> \<not> bs_visible s \<Longrightarrow> \<not> bs_disabled s \<and> e \<in> {MouseDownSelector, KeyEnter}"
  by (cases e) (auto simp: toggleDropdownVisible_def debouncedFocusOrBlur_def disabled_effect_def split: option.splits if_splits)

lemma base_disabled_closed:
  assumes "bs_disabled s" "\<not> bs_visible s" "list_all (\<lambda>e. \<forall>b. e \<noteq> SetDisabled b) es"
  shows "\<not> bs_visible (foldl base_step s es)"
proof -
  have "bs_disabled (foldl base_step s es) \<and> \<not> bs_visible (foldl base_step s es)"
    using assms
  proof (induction es arbitrary: s)
    case (Cons e es)
    have "bs_disabled (base_step s e) \<and> \<not> bs_visible (base_step s e)"
      using Cons.prems by (cases e) (auto simp: toggleDropdownVisible_def debouncedFocusOrBlur_def split: option.splits)
    then show ?case using Cons.IH Cons.prems(3) by simp
  qed simp
  then show ?thesis by blast
qed

lemma base_left_closes: "\<not> bs_visible (base_step (base_step s BlurBox) DebounceDone)"
  "bs_visible (base_step (base_step (base_step s BlurBox) FocusBox) DebounceDone) = bs_visible s"
  by (simp_all add: debouncedFocusOrBlur_def)

text \<open>
  The effect has its test the wrong way round: an open box that gets disabled stays open, and can be closed only from
  outside; enabling it again closes it.
\<close>

lemma base_disabled_stays_open:
  "bs_visible s \<Longrightarrow> \<not> bs_disabled s \<Longrightarrow>
     bs_visible (base_step s (SetDisabled True)) \<and>
     bs_visible (base_step (base_step s (SetDisabled True)) KeyEnter) \<and>
     \<not> bs_visible (base_step (base_step s (SetDisabled True)) (SetDisabled False))"
  by (simp add: disabled_effect_def toggleDropdownVisible_def)

subsection \<open>Choosing any number of items\<close>

text \<open>
  \<open>MultiSelect\<close>: the value, and the selection behind it. Its owner takes over every value it reports. \<open>DropOverlay\<close> filters
  the rows, and the list component gives the rows it shows to the selection (\<open>MsRows\<close>); the owner sets the value
  (\<open>MsValue\<close>) and the items (\<open>MsItems\<close>).
\<close>

record IItem =
  it_key :: key
  it_label :: "string option"

definition objectItems :: "string list option \<Rightarrow> IItem list" where
  "objectItems items = (case items of None \<Rightarrow> [] | Some vs \<Rightarrow> map (\<lambda>v. \<lparr>it_key = v, it_label = None\<rparr>) vs)"

definition item_text :: "IItem \<Rightarrow> string" where
  "item_text i = (case it_label i of Some l \<Rightarrow> l | None \<Rightarrow> it_key i)"

definition filteredItems :: "(string \<Rightarrow> IItem \<Rightarrow> bool) option \<Rightarrow> string \<Rightarrow> IItem list \<Rightarrow> IItem list" where
  "filteredItems filterFn keyword items =
     (if length keyword = 0 then items
      else (let kw = toLowerCase keyword
            in filter (case filterFn of
                 None \<Rightarrow> (\<lambda>it. contains (toLowerCase (it_key it)) kw \<or>
                           contains (toLowerCase (case it_label it of Some l \<Rightarrow> l | None \<Rightarrow> [])) kw)
               | Some f \<Rightarrow> f keyword) items))"

text \<open>The text of the value: none when there is a placeholder to show for an empty value.\<close>

definition renderValue :: "(nat \<Rightarrow> string) \<Rightarrow> string option \<Rightarrow> key list option \<Rightarrow> string option" where
  "renderValue selectedText placeholder v =
     (if placeholder \<notin> {None, Some []} \<and> or_empty v = [] then None else Some (selectedText (length (or_empty v))))"

record 'i multi_select =
  ms_sel :: "(IItem, 'i) swf"
  ms_val :: "key list option"

text \<open>An operation on the selection, and \<open>onSelectionChanged\<close> when it notifies.\<close>

definition ms_op :: "(IItem, 'i) fabric \<Rightarrow> ((IItem, 'i) swf \<Rightarrow> (IItem, 'i) swf) \<Rightarrow> 'i multi_select \<Rightarrow> 'i multi_select" where
  "ms_op F f st =
     (let s = f (ms_sel st)
      in if notified s = notified (ms_sel st) then st\<lparr>ms_sel := s\<rparr>
         else (let (items, s') = getAllSelection F s in st\<lparr>ms_sel := s', ms_val := Some (map it_key items)\<rparr>))"

definition ms_value_effect :: "(IItem, 'i) fabric \<Rightarrow> 'i multi_select \<Rightarrow> 'i multi_select" where
  "ms_value_effect F st = ms_op F (resetAllSelection F (or_empty (ms_val st))) st"

text \<open>The effect of new items resets to the value of the last rendering, also when the first call has reported another one.\<close>

definition ms_items_effect :: "(IItem, 'i) fabric \<Rightarrow> IItem list \<Rightarrow> 'i multi_select \<Rightarrow> 'i multi_select" where
  "ms_items_effect F items st =
     ms_op F (resetAllSelection F (or_empty (ms_val st))) (ms_op F (setAllItems F items) st)"

datatype 'i ms_event = MsUser "'i upd" | MsAll bool | MsRows "IItem list" | MsValue "key list" | MsItems "IItem list"

fun ms_handle :: "(IItem, 'i) fabric \<Rightarrow> 'i multi_select \<Rightarrow> 'i ms_event \<Rightarrow> 'i multi_select" where
  "ms_handle F st (MsUser f) = (if user_op F f then ms_op F (call f) st else st)"
| "ms_handle F st (MsAll b) = ms_op F (setAllSelected F b) st"
| "ms_handle F st (MsRows rows) = ms_op F (setItems F rows None) st"
| "ms_handle F st (MsValue ks) = st\<lparr>ms_val := Some ks\<rparr>"
| "ms_handle F st (MsItems items) = ms_items_effect F items st"

definition ms_step :: "(IItem, 'i) fabric \<Rightarrow> 'i multi_select \<Rightarrow> 'i ms_event \<Rightarrow> 'i multi_select" where
  "ms_step F st e =
     (let st' = ms_handle F st e in if ms_val st' = ms_val st then st' else ms_value_effect F st')"

text \<open>A new component: both effects run.\<close>

definition ms_open :: "(IItem, 'i) fabric \<Rightarrow> key list option \<Rightarrow> IItem list \<Rightarrow> 'i multi_select" where
  "ms_open F v items = ms_items_effect F items (ms_value_effect F \<lparr>ms_sel = new_swf F, ms_val = v\<rparr>)"

subsection \<open>A value and a selection\<close>

lemma setAllItems_fields:
  "allItemsMap (setAllItems F items s) = item_map F items"
  "allSelectedKeysSet (setAllItems F items s) = allSelectedKeysSet s"
  by (simp_all add: setAllItems_def setItems_def item_map_def Let_def)

context fabric_selection
begin

text \<open>What a client with the value \<open>v\<close> relies on: its known keys are the selected ones.\<close>

definition val_agrees :: "('t, 'i) swf \<Rightarrow> key list \<Rightarrow> bool" where
  "val_agrees s v \<longleftrightarrow>
     swf_inv F suspended s \<and> synced F s \<and> distinct v \<and> set v \<inter> fst ` set (allItemsMap s) = selected_keys F s"

lemma setItems_cache: "suspended (inner s) = 0 \<Longrightarrow> allSelectionCache (setItems F items c s) = None"
  by (rule setItems_parts(6))

lemma setAllItems_cache: "suspended (inner s) = 0 \<Longrightarrow> allSelectionCache (setAllItems F items s) = None"
  by (simp add: setAllItems_def Let_def setItems_cache)

lemma val_agrees_read:
  assumes "swf_inv F suspended s" "allSelectionCache s = None"
  shows "val_agrees (snd (getAllSelection F s)) (map (getKey F) (fst (getAllSelection F s)))"
    "set (map (getKey F) (fst (getAllSelection F s))) = selected_keys F s"
proof -
  note read = getAllSelection_ok [OF assms(1)]
  show keys: "set (map (getKey F) (fst (getAllSelection F s))) = selected_keys F s"
    using selected_keys_selection [of s F] assms(1) by (simp add: swf_inv_def read(1))
  then show "val_agrees (snd (getAllSelection F s)) (map (getKey F) (fst (getAllSelection F s)))"
    using read selection_keys(2) [OF assms(1)] assms(2) by (auto simp: val_agrees_def selected_keys_def [of F s])
qed

lemma val_agrees_quiet:
  assumes "val_agrees s v" "swf_inv F suspended (f s)" "selected_keys F (f s) = selected_keys F s"
    and "allItemsMap (f s) = allItemsMap s" "allSelectedKeysSet (f s) = allSelectedKeysSet s"
  shows "val_agrees (f s) v"
  using assms by (simp add: val_agrees_def synced_def)

lemma val_agrees_user:
  assumes "val_agrees s v" and f: "user_op F f" and quiet: "notified (call f s) = notified s"
  shows "val_agrees (call f s) v"
proof (rule val_agrees_quiet [OF assms(1)])
  have inv: "swf_inv F suspended s" using assms(1) by (simp add: val_agrees_def)
  then show "swf_inv F suspended (call f s)" using f by (rule inv_user_op)
  have "\<not> snd (f (inner s))" using quiet by (simp split: if_splits)
  moreover have m: "mutates F f" using f by (rule mutates.intros)
  moreover have "\<not> pending (fst (f (inner s)))" using inv m by (simp add: swf_inv_def quiescent mutates_suspended)
  ultimately have "i_isKeySelected F (inner (call f s)) = i_isKeySelected F (inner s)"
    using mutates_notes [of f "inner s"] by auto
  then show "selected_keys F (call f s) = selected_keys F s"
    by (simp add: selected_keys_def key_selected_def)
qed simp_all

text \<open>
  A change of the inner selection is announced at the latest when events are resumed, and what is announced empties
  the cache.
\<close>

definition heard :: "('t, 'i) swf \<Rightarrow> ('t, 'i) swf \<Rightarrow> bool" where
  "heard s0 s \<longleftrightarrow>
     (i_isKeySelected F (inner s) = i_isKeySelected F (inner s0) \<or> pending (inner s) \<or> notified s \<noteq> notified s0) \<and>
     notified s0 \<le> notified s \<and> (notified s = notified s0 \<or> allSelectionCache s = None)"

lemma heard_refl: "heard s s"
  by (simp add: heard_def)

lemma heard_call: "heard s0 s \<Longrightarrow> mutates F f \<Longrightarrow> heard s0 (call f s)"
  using mutates_notes [of f "inner s"] by (auto simp: heard_def)

lemma heard_select: "heard s0 s \<Longrightarrow> heard s0 (select_keys F ks s)"
  unfolding select_keys_def by (induction ks arbitrary: s) (simp_all add: heard_call)

lemma heard_events: "heard s0 s \<Longrightarrow> heard s0 (call (i_setChangeEvents F False q) s)"
  using events_off(2) [of "inner s" q] by (auto simp: heard_def events_keep)

lemma heard_end:
  assumes "heard s0 s"
  shows "suspended (inner s) = 1 \<Longrightarrow> notified (call (i_setChangeEvents F True False) s) = notified s0 \<Longrightarrow>
      i_isKeySelected F (inner (call (i_setChangeEvents F True False) s)) = i_isKeySelected F (inner s0)"
    "notified (call (i_setChangeEvents F True False) s) = notified s0 \<or>
      allSelectionCache (call (i_setChangeEvents F True False) s) = None"
  using assms events_on(2) [of "inner s"] by (auto simp: heard_def events_keep split: if_splits)

lemma setAllSelected_heard:
  assumes "suspended (inner s) = 0"
  shows "notified (setAllSelected F b s) = notified s \<Longrightarrow>
      i_isKeySelected F (inner (setAllSelected F b s)) = i_isKeySelected F (inner s)"
    "notified (setAllSelected F b s) = notified s \<or> allSelectionCache (setAllSelected F b s) = None"
proof -
  let ?s1 = "select_keys F (itemKeysSet s) (call (i_setChangeEvents F False False) s)"
  have h: "heard s ?s1" by (intro heard_select heard_events heard_refl)
  have m: "mutates F (i_setAllSelected F b)" by (rule mutates.intros)
  have h': "heard s (call (i_setAllSelected F b) s)" using heard_refl m by (rule heard_call)
  have p: "\<not> pending (inner (call (i_setAllSelected F b) s))" using assms m by (simp add: quiescent mutates_suspended)
  have one: "suspended (inner (select_keys F ks t)) = suspended (inner t)" for ks t
    unfolding select_keys_def by (induction ks arbitrary: t) (simp_all add: mutates_suspended)
  have susp: "suspended (inner ?s1) = 1" by (simp add: one events_off(1) assms)
  show "notified (setAllSelected F b s) = notified s \<Longrightarrow>
      i_isKeySelected F (inner (setAllSelected F b s)) = i_isKeySelected F (inner s)"
    using heard_end(1) [OF h susp] h' p by (auto simp: setAllSelected_def heard_def simp del: call_simps notified_call)
  show "notified (setAllSelected F b s) = notified s \<or> allSelectionCache (setAllSelected F b s) = None"
    using heard_end(2) [OF h] h' by (auto simp: setAllSelected_def heard_def simp del: call_simps notified_call)
qed

end

subsection \<open>The value and the rows agree\<close>

definition ms_agree :: "(IItem, 'i) fabric \<Rightarrow> ('i \<Rightarrow> nat) \<Rightarrow> 'i multi_select \<Rightarrow> bool" where
  "ms_agree F suspended st \<longleftrightarrow> fabric_selection.val_agrees F suspended (ms_sel st) (or_empty (ms_val st))"

text \<open>A value the owner sets has no repetitions.\<close>

definition ms_event_ok :: "'i ms_event \<Rightarrow> bool" where
  "ms_event_ok e \<longleftrightarrow> (case e of MsValue ks \<Rightarrow> distinct ks | _ \<Rightarrow> True)"

text \<open>
  The laws of the wrapped selection for this client: rows are told apart by their \<open>key\<close>.
\<close>

locale item_selection =
  fabric_selection F suspended pending for F :: "(IItem, 'i) fabric" and suspended pending +
  assumes item_key_is: "getKey F = it_key"
begin

lemma ms_agree_def': "ms_agree F suspended st \<longleftrightarrow> val_agrees (ms_sel st) (or_empty (ms_val st))"
  by (simp add: ms_agree_def)

lemma ms_op_cases:
  assumes "swf_inv F suspended (f (ms_sel st))"
    and "notified (f (ms_sel st)) = notified (ms_sel st) \<or> allSelectionCache (f (ms_sel st)) = None"
  obtains (quiet) "notified (f (ms_sel st)) = notified (ms_sel st)" "ms_op F f st = st\<lparr>ms_sel := f (ms_sel st)\<rparr>"
  | (read) "ms_agree F suspended (ms_op F f st)" "set (or_empty (ms_val (ms_op F f st))) = selected_keys F (f (ms_sel st))"
      "selected_keys F (ms_sel (ms_op F f st)) = selected_keys F (f (ms_sel st))"
      "allItemsMap (ms_sel (ms_op F f st)) = allItemsMap (f (ms_sel st))"
proof (cases "notified (f (ms_sel st)) = notified (ms_sel st)")
  case True
  then show ?thesis by (intro quiet) (simp_all add: ms_op_def)
next
  case False
  then have op: "ms_op F f st = st\<lparr>ms_sel := snd (getAllSelection F (f (ms_sel st))),
      ms_val := Some (map it_key (fst (getAllSelection F (f (ms_sel st)))))\<rparr>"
    by (simp add: ms_op_def Let_def case_prod_unfold)
  have cache: "allSelectionCache (f (ms_sel st)) = None" using assms(2) False by simp
  show ?thesis
    by (rule read) (use val_agrees_read [OF assms(1) cache] getAllSelection_ok(3) [OF assms(1)] in
        \<open>simp_all add: op ms_agree_def' flip: item_key_is\<close>)
qed

lemma ms_agree_op:
  assumes "swf_inv F suspended (f (ms_sel st))"
    and "notified (f (ms_sel st)) = notified (ms_sel st) \<or> allSelectionCache (f (ms_sel st)) = None"
    and "notified (f (ms_sel st)) = notified (ms_sel st) \<Longrightarrow> val_agrees (f (ms_sel st)) (or_empty (ms_val st))"
  shows "ms_agree F suspended (ms_op F f st)"
  by (rule ms_op_cases [of f st, OF assms(1,2)]) (use assms(3) in \<open>simp_all add: ms_agree_def'\<close>)

lemma ms_agree_parts:
  assumes "ms_agree F suspended st"
  shows "swf_inv F suspended (ms_sel st)" "synced F (ms_sel st)" "distinct (or_empty (ms_val st))"
    "suspended (inner (ms_sel st)) = 0"
    "set (or_empty (ms_val st)) \<inter> fst ` set (allItemsMap (ms_sel st)) = selected_keys F (ms_sel st)"
  using assms unfolding ms_agree_def' val_agrees_def by (blast, blast, blast, simp add: swf_inv_def, blast)

text \<open>A reset to a value leads to agreement; in a state that agrees already it changes nothing.\<close>

lemma reset_cache: "notified (resetAllSelection F ks s) = notified s \<or> allSelectionCache (resetAllSelection F ks s) = None"
  by (cases "unChanged ks s") (simp add: resetAllSelection_def, simp add: cache_reset)

lemma ms_reset_settled: "ms_agree F suspended st \<Longrightarrow> ms_value_effect F st = st"
  using unChanged_iff [of "or_empty (ms_val st)" "ms_sel st"]
  by (simp add: ms_value_effect_def ms_op_def resetAllSelection_def ms_agree_def' val_agrees_def synced_def swf_inv_def)

lemma ms_agree_value:
  assumes "swf_inv F suspended (ms_sel st)" "synced F (ms_sel st)" "distinct (or_empty (ms_val st))"
  shows "ms_agree F suspended (ms_value_effect F st)"
  unfolding ms_value_effect_def
  by (rule ms_agree_op) (use resetAllSelection_ok [OF assms] reset_cache assms(3) in \<open>simp_all add: val_agrees_def\<close>)

text \<open>New items: the selection is the part of the value that is among them, and the value is that part, or unchanged.\<close>

lemma ms_items_ok:
  fixes items st
  assumes "ms_agree F suspended st"
  defines "st' \<equiv> ms_items_effect F items st" and "known \<equiv> it_key ` set items"
  shows "ms_agree F suspended st'" "allItemsMap (ms_sel st') = item_map F items"
    "ms_val st' = ms_val st \<or> set (or_empty (ms_val st')) = set (or_empty (ms_val st)) \<inter> known"
proof -
  let ?v = "or_empty (ms_val st)" and ?t = "setAllItems F items (ms_sel st)"
  note agree = ms_agree_parts [OF assms(1)]
  note t = setAllItems_ok [OF agree(1,2), of items] setAllItems_fields [of F items "ms_sel st"]
  have known: "fst ` set (allItemsMap ?t) = known" by (simp add: t item_map_ok known_def item_key_is)
  have cache: "notified ?t = notified (ms_sel st) \<or> allSelectionCache ?t = None"
    using setAllItems_cache [OF agree(4)] by simp
  define st1 where "st1 = ms_op F (setAllItems F items) st"
  have "ms_agree F suspended st' \<and> allItemsMap (ms_sel st') = item_map F items \<and>
      (ms_val st' = ms_val st \<or> set (or_empty (ms_val st')) = set ?v \<inter> known)"
  proof (cases "unChanged ?v (ms_sel st1)")
    case True
    then have st': "st' = st1" by (simp add: st'_def ms_items_effect_def st1_def ms_op_def [of F "resetAllSelection F ?v"] resetAllSelection_def)
    show ?thesis
    proof (rule ms_op_cases [of "setAllItems F items" st, OF t(1) cache])
      assume q: "ms_op F (setAllItems F items) st = st\<lparr>ms_sel := ?t\<rparr>"
      have "set ?v \<inter> known = set (allSelectedKeysSet ?t)"
        using True unChanged_iff [OF agree(3), of ?t] t(1) known by (simp add: st1_def q swf_inv_def)
      then have "val_agrees ?t ?v"
        using t agree(2,3) known by (auto simp: val_agrees_def synced_def item_key_is known_def)
      then show ?thesis using st' by (simp add: st1_def q ms_agree_def' t)
    next
      assume r: "ms_agree F suspended (ms_op F (setAllItems F items) st)"
        "set (or_empty (ms_val (ms_op F (setAllItems F items) st))) = selected_keys F ?t"
        "selected_keys F (ms_sel (ms_op F (setAllItems F items) st)) = selected_keys F ?t"
        "allItemsMap (ms_sel (ms_op F (setAllItems F items) st)) = allItemsMap ?t"
      note p = ms_agree_parts [OF r(1)]
      have "set ?v \<inter> known = set (allSelectedKeysSet (ms_sel st1))"
        using True unChanged_iff [OF agree(3), of "ms_sel st1"] p(1) known r(4) by (simp add: st1_def swf_inv_def)
      then show ?thesis using r p(2) st' t by (simp add: st1_def synced_def)
    qed
  next
    case False
    have inv1: "swf_inv F suspended (ms_sel st1)" "allItemsMap (ms_sel st1) = allItemsMap ?t"
      by (rule ms_op_cases [of "setAllItems F items" st, OF t(1) cache];
          use t(1) ms_agree_parts(1) in \<open>simp add: st1_def\<close>)+
    have st': "st' = ms_op F (resetAllSelection F ?v) st1" by (simp add: st'_def ms_items_effect_def st1_def)
    note ch = resetAllSelection_changed [OF inv1(1) False]
    show ?thesis
      by (rule ms_op_cases [of "resetAllSelection F ?v" st1, OF ch(1) reset_cache])
        (use False ch inv1(2) known notified_reset [of F ?v "ms_sel st1"] in \<open>auto simp: st' t\<close>)
  qed
  then show "ms_agree F suspended st'" "allItemsMap (ms_sel st') = item_map F items"
    "ms_val st' = ms_val st \<or> set (or_empty (ms_val st')) = set (or_empty (ms_val st)) \<inter> known" by blast+
qed

text \<open>Every event keeps the agreement.\<close>

lemma ms_agree_handle:
  assumes "ms_agree F suspended st" and "\<And>ks. e \<noteq> MsValue ks"
  shows "ms_agree F suspended (ms_handle F st e)"
proof (cases e)
  case (MsUser f)
  note p = ms_agree_parts [OF assms(1)]
  have "ms_agree F suspended (ms_op F (call f) st)" if f: "user_op F f"
    by (rule ms_agree_op) (use inv_user_op [OF p(1) f] val_agrees_user [OF _ f] assms(1) in \<open>auto simp: ms_agree_def'\<close>)
  then show ?thesis using MsUser assms(1) by simp
next
  case (MsAll b)
  note p = ms_agree_parts [OF assms(1)] and h = setAllSelected_heard [OF ms_agree_parts(4) [OF assms(1)], of b]
  have f: "allItemsMap (setAllSelected F b s) = allItemsMap s" "allSelectedKeysSet (setAllSelected F b s) = allSelectedKeysSet s"
    "itemKeysSet (setAllSelected F b s) = itemKeysSet s" for s
    by (simp_all add: setAllSelected_def)
  have "val_agrees (setAllSelected F b (ms_sel st)) (or_empty (ms_val st))"
    if "notified (setAllSelected F b (ms_sel st)) = notified (ms_sel st)"
    by (rule val_agrees_quiet) (use assms(1) setAllSelected_ok(1) [OF p(1)] h(1) [OF that] f in
        \<open>simp_all add: ms_agree_def' selected_keys_def key_selected_def\<close>)
  then show ?thesis using ms_agree_op [of "setAllSelected F b" st, OF setAllSelected_ok(1) [OF p(1)] h(2)] MsAll by simp
next
  case (MsRows rows)
  note p = ms_agree_parts [OF assms(1)]
  have "val_agrees (setItems F rows None (ms_sel st)) (or_empty (ms_val st))"
    using inv_setItems [OF p(1), of rows None] selected_setItems [OF p(1,2), of rows None]
      setItems_parts(4) [OF p(4), of rows None] assms(1)
    by (simp add: ms_agree_def' val_agrees_def)
  then have "ms_agree F suspended (ms_op F (setItems F rows None) st)"
    by (intro ms_agree_op) (use inv_setItems [OF p(1), of rows None] setItems_cache [OF p(4), of rows None] in simp_all)
  then show ?thesis using MsRows by simp
qed (use assms ms_items_ok(1) in simp_all)

lemma ms_agree_step:
  assumes "ms_agree F suspended st" "ms_event_ok e"
  shows "ms_agree F suspended (ms_step F st e)"
proof (cases "\<exists>ks. e = MsValue ks")
  case True
  then obtain ks where e: "e = MsValue ks" by blast
  then have "ms_agree F suspended (ms_value_effect F (ms_handle F st e))"
    using ms_agree_parts [OF assms(1)] assms(2) by (intro ms_agree_value) (simp_all add: ms_event_ok_def)
  moreover have "ms_handle F st e = st" if "ms_val (ms_handle F st e) = ms_val st" using that e by simp
  ultimately show ?thesis using assms(1) by (auto simp: ms_step_def Let_def)
next
  case False
  then have "ms_agree F suspended (ms_handle F st e)" using ms_agree_handle [OF assms(1)] by blast
  then show ?thesis by (simp add: ms_step_def ms_reset_settled Let_def)
qed

lemma ms_agree_open:
  assumes "distinct (or_empty v)"
  shows "ms_agree F suspended (ms_open F v items)"
  unfolding ms_open_def
  by (rule ms_items_ok, rule ms_agree_value) (use assms inv_new synced_new in simp_all)

lemma ms_agree_run:
  "ms_agree F suspended st \<Longrightarrow> list_all ms_event_ok es \<Longrightarrow> ms_agree F suspended (foldl (ms_step F) st es)"
  by (induction es arbitrary: st) (simp_all add: ms_agree_step)

lemma ms_run_shows:
  assumes "distinct (or_empty v)" "list_all ms_event_ok es" "st = foldl (ms_step F) (ms_open F v items) es"
  shows "(\<forall>k \<in> set (itemKeysSet (ms_sel st)). i_isKeySelected F (inner (ms_sel st)) k \<longleftrightarrow> k \<in> set (or_empty (ms_val st))) \<and>
    set (map it_key (fst (getAllSelection F (ms_sel st)))) =
      set (or_empty (ms_val st)) \<inter> fst ` set (allItemsMap (ms_sel st)) \<and>
    (\<forall>new. ms_val (ms_step F st (MsItems new)) = ms_val st \<or>
      set (or_empty (ms_val (ms_step F st (MsItems new)))) = set (or_empty (ms_val st)) \<inter> it_key ` set new)"
proof (intro conjI ballI allI)
  have agree: "ms_agree F suspended st" using ms_agree_run [OF ms_agree_open [OF assms(1)] assms(2)] by (simp add: assms(3))
  note p = ms_agree_parts [OF agree]
  fix k assume k: "k \<in> set (itemKeysSet (ms_sel st))"
  then have "k \<in> fst ` set (allItemsMap (ms_sel st))" using p(1) by (auto simp: swf_inv_def)
  then have "k \<in> selected_keys F (ms_sel st) \<longleftrightarrow> i_isKeySelected F (inner (ms_sel st)) k"
    using k by (simp add: selected_keys_def key_selected_def)
  then show "i_isKeySelected F (inner (ms_sel st)) k \<longleftrightarrow> k \<in> set (or_empty (ms_val st))"
    using p(5) \<open>k \<in> fst ` set (allItemsMap (ms_sel st))\<close> by blast
next
  have agree: "ms_agree F suspended st" using ms_agree_run [OF ms_agree_open [OF assms(1)] assms(2)] by (simp add: assms(3))
  note p = ms_agree_parts [OF agree]
  show "set (map it_key (fst (getAllSelection F (ms_sel st)))) =
      set (or_empty (ms_val st)) \<inter> fst ` set (allItemsMap (ms_sel st))"
    using selected_keys_selection [of "ms_sel st" F] p(1,5) getAllSelection_ok(1) [OF p(1)]
    by (simp add: swf_inv_def item_key_is)
  fix new
  note i = ms_items_ok [OF agree, of new]
  then have "ms_step F st (MsItems new) = ms_items_effect F new st" by (simp add: ms_step_def ms_reset_settled Let_def)
  then show "ms_val (ms_step F st (MsItems new)) = ms_val st \<or>
      set (or_empty (ms_val (ms_step F st (MsItems new)))) = set (or_empty (ms_val st)) \<inter> it_key ` set new"
    using i(3) by simp
qed

text \<open>
  The list component gives its rows to the selection while it is drawn, the effect gives it the items afterwards. When
  there were no items before, the selection drops the rows and no row can be ticked until the rows change again.
\<close>

lemma ms_rows_before_items:
  assumes "ms_agree F suspended st" "allItemsMap (ms_sel st) = []"
    and "st' = ms_items_effect F items (ms_op F (setItems F items None) st)" "user_op F f"
  shows "\<not> i_isKeySelected F (fst (f (inner (ms_sel st')))) k"
proof -
  note p = ms_agree_parts [OF assms(1)]
  let ?t = "setItems F items None (ms_sel st)"
  have kept: "i_getItems F (inner (ms_sel (ms_op F g u))) = i_getItems F (inner (g (ms_sel u)))" for g u
    by (simp add: ms_op_def Let_def case_prod_unfold)
  have t: "i_getItems F (inner ?t) = []" using setItems_parts(1) [OF p(4), of items None] assms(2) by simp
  have "i_getItems F (inner (resetAllSelection F ks s)) = []" if "i_getItems F (inner s) = []" for ks s
  proof -
    have "i_getItems F (inner (select_keys F qs u)) = i_getItems F (inner u)" for qs u
      unfolding select_keys_def by (induction qs arbitrary: u) simp_all
    then show ?thesis using that by (simp add: resetAllSelection_def Let_def inner_simps)
  qed
  moreover have "i_getItems F (inner (setAllItems F items s)) = []" if "i_getItems F (inner s) = []" for s
    using that by (simp add: setAllItems_def Let_def)
  ultimately have "i_getItems F (inner (ms_sel st')) = []"
    using t by (simp add: assms(3) ms_items_effect_def kept)
  then show ?thesis using selected_items [of "fst (f (inner (ms_sel st')))" k] user_items [OF assms(4)] by auto
qed

end

interpretation ref_items: item_selection "fabric_ref it_key" r_susp "\<lambda>i. r_changed i \<and> 0 < r_susp i"
  by unfold_locales (simp add: fabric_ref_def)



end
