(* ===== verification/ResourceManager.thy ===== *)
theory ResourceManager
  imports ClientRequest JsString
begin

text \<open>
  \<open>apps/ResourceManager\<close>: the total of the resource units, the two cards that estimate the capacity of the cluster over
  the request hook of \<open>ClientRequest\<close>, and the counter of loading charts that the pages with metrics share.
\<close>

subsection \<open>Totals and the warning\<close>

record resource_group =
  rg_name :: string
  rg_ru :: string

text \<open>Groups whose units are not a number, such as the unlimited ones, do not count.\<close>

definition totalRU :: "resource_group list option \<Rightarrow> jsnum" where
  "totalRU info =
     foldl (\<lambda>acc cur. let ru = js_Number (rg_ru cur) in if ru \<noteq> NaN then acc + ru else acc) 0
       (filter (\<lambda>item. rg_name item \<noteq> ''default'') (case info of None \<Rightarrow> [] | Some i \<Rightarrow> i))"

definition CapacityWarning :: "jsnum \<Rightarrow> jsnum \<Rightarrow> bool" where
  "CapacityWarning total_ru estimatedRU = (0 < estimatedRU \<and> estimatedRU < total_ru)"

subsection \<open>The cards\<close>

text \<open>
  \<open>HardwareCalibrate\<close> and \<open>WorkloadCalibrate\<close>: one request hook, and an effect that sends again when the choice, a workload
  or a time range, has changed. \<open>cb_asked\<close> is the choice a request was made for: the hook calls the factory of the last
  rendering.
\<close>

record ('k, 'd, 'e) calibrate =
  cb_req :: "('d, 'e) req"
  cb_choice :: 'k
  cb_asked :: "nat \<Rightarrow> 'k option"

definition cb_send :: "('k, 'd, 'e) calibrate \<Rightarrow> ('k, 'd, 'e) calibrate" where
  "cb_send st =
     (let r = sendRequest True (cb_req st)
      in st\<lparr>cb_req := r,
            cb_asked := (if pending r = pending (cb_req st) then cb_asked st
                         else (cb_asked st)(nextToken (cb_req st) := Some (cb_choice st)))\<rparr>)"

text \<open>Mounting: the hook sends its first request, then the effect of the card runs.\<close>

definition cb_open :: "'k \<Rightarrow> ('k, 'd, 'e) calibrate" where
  "cb_open k = cb_send (cb_send \<lparr>cb_req = (init_req True)\<lparr>mounted := True\<rparr>, cb_choice = k, cb_asked = (\<lambda>_. None)\<rparr>)"

datatype ('k, 'd, 'e) cb_event = Choose 'k | Arrives nat "'e + 'd" | Leave

fun cb_step :: "('k, 'd, 'e) calibrate \<Rightarrow> ('k, 'd, 'e) cb_event \<Rightarrow> ('k, 'd, 'e) calibrate" where
  "cb_step st (Choose k) = (if k = cb_choice st then st else cb_send (st\<lparr>cb_choice := k\<rparr>))"
| "cb_step st (Arrives t r) = st\<lparr>cb_req := settle t r (cb_req st)\<rparr>"
| "cb_step st Leave = st\<lparr>cb_req := on_unmount (cb_req st)\<rparr>"

definition estimatedRU :: "('k, 'k \<times> jsnum option, 'e) calibrate \<Rightarrow> jsnum" where
  "estimatedRU st = (case resp (cb_req st) of Some (k, Some c) \<Rightarrow> c | _ \<Rightarrow> 0)"

subsection \<open>Charts that are loading\<close>

text \<open>\<open>onLoadingStateChange\<close> of the pages with metrics: the counter never falls below zero.\<close>

definition onLoadingStateChange :: "nat \<Rightarrow> bool \<Rightarrow> nat" where
  "onLoadingStateChange n loading = (if loading then n + 1 else if n > 0 then n - 1 else n)"

text \<open>When every chart reports the end of each loading it has reported, the counter is the number of charts loading.\<close>

fun chart_reports :: "'c set \<Rightarrow> ('c \<times> bool) list \<Rightarrow> 'c set option" where
  "chart_reports S [] = Some S"
| "chart_reports S ((c, loading) # es) =
     (if loading = (c \<in> S) then None else chart_reports (if loading then insert c S else S - {c}) es)"

lemma loading_counter:
  "finite S \<Longrightarrow> chart_reports S es = Some S' \<Longrightarrow> foldl onLoadingStateChange (card S) (map snd es) = card S'"
proof (induction S es rule: chart_reports.induct)
  case (2 S c loading es)
  have "onLoadingStateChange (card S) loading = card (if loading then insert c S else S - {c})"
    using 2(2,3) by (cases loading) (auto simp: onLoadingStateChange_def card_gt_0_iff split: if_splits)
  then show ?case using 2 by (simp split: if_splits)
qed simp

subsection \<open>What the cards show\<close>

text \<open>
  An answer carries the choice it was computed for. A patient user changes the choice only while nothing is loading.
\<close>

fun cb_honest :: "('k, 'k \<times> 'v, 'e) calibrate \<Rightarrow> ('k, 'k \<times> 'v, 'e) cb_event \<Rightarrow> bool" where
  "cb_honest st (Arrives t (Inr (k, v))) = (cb_asked st t = Some k)"
| "cb_honest st _ = True"

fun cb_patient :: "('k, 'd, 'e) calibrate \<Rightarrow> ('k, 'd, 'e) cb_event \<Rightarrow> bool" where
  "cb_patient st (Choose k) = (\<not> isLoading (cb_req st))"
| "cb_patient st _ = True"

fun cb_run_ok :: "('k, 'k \<times> 'v, 'e) calibrate \<Rightarrow> ('k, 'k \<times> 'v, 'e) cb_event list \<Rightarrow> bool" where
  "cb_run_ok st [] = True"
| "cb_run_ok st (e # es) = (cb_honest st e \<and> cb_patient st e \<and> cb_run_ok (cb_step st e) es)"

definition cb_inv :: "('k, 'k \<times> 'v, 'e) calibrate \<Rightarrow> bool" where
  "cb_inv st \<longleftrightarrow> req_inv (cb_req st) \<and> (\<forall>t \<in> set (pending (cb_req st)). t < nextToken (cb_req st)) \<and>
     (mounted (cb_req st) \<longrightarrow>
       (\<forall>t \<in> set (pending (cb_req st)). cb_asked st t = Some (cb_choice st)) \<and>
       (pending (cb_req st) = [] \<longrightarrow> (\<forall>k v. resp (cb_req st) = Some (k, v) \<longrightarrow> k = cb_choice st)))"

lemma cb_send_busy: "\<not> mounted (cb_req st) \<or> cancelTokenSource (cb_req st) \<noteq> None \<Longrightarrow> cb_send st = st"
  by (auto simp: cb_send_def sendRequest_def)

lemma cb_send_idle:
  assumes "mounted (cb_req st)" "cancelTokenSource (cb_req st) = None"
  shows "pending (cb_req (cb_send st)) = pending (cb_req st) @ [nextToken (cb_req st)]"
    "nextToken (cb_req (cb_send st)) = Suc (nextToken (cb_req st))" "cb_choice (cb_send st) = cb_choice st"
    "cb_asked (cb_send st) = (cb_asked st)(nextToken (cb_req st) := Some (cb_choice st))"
    "mounted (cb_req (cb_send st))" "isLoading (cb_req (cb_send st))" "resp (cb_req (cb_send st)) = resp (cb_req st)"
  using assms by (simp_all add: cb_send_def sendRequest_def Let_def)

lemma req_inv_cb_send: "req_inv (cb_req st) \<Longrightarrow> req_inv (cb_req (cb_send st))"
  by (simp add: cb_send_def Let_def req_inv_send)

lemma cb_inv_choose:
  assumes "cb_inv st" "\<not> isLoading (cb_req st)"
  shows "cb_inv (cb_step st (Choose k))"
proof (cases "k = cb_choice st \<or> \<not> mounted (cb_req st)")
  case True
  then show ?thesis using assms(1) by (auto simp: cb_send_busy cb_inv_def)
next
  case False
  let ?st = "st\<lparr>cb_choice := k\<rparr>"
  have idle: "pending (cb_req st) = []" "cancelTokenSource (cb_req st) = None"
    using assms False by (simp_all add: cb_inv_def req_inv_def)
  note s = cb_send_idle [of ?st] req_inv_cb_send [of ?st]
  show ?thesis using False assms(1) idle s by (simp add: cb_inv_def)
qed

lemma cb_inv_arrives:
  assumes "cb_inv st" "cb_honest st (Arrives t r)"
  shows "cb_inv (cb_step st (Arrives t r))"
proof (cases "t \<in> set (pending (cb_req st))")
  case False
  then show ?thesis using assms(1) by (simp add: settle_def)
next
  case True
  have inv: "req_inv (settle t r (cb_req st))" using assms(1) by (simp add: cb_inv_def req_inv_settle)
  have "pending (cb_req st) = [t]"
    using True assms(1) by (cases "pending (cb_req st)") (auto simp: cb_inv_def req_inv_def)
  then show ?thesis
    using assms inv by (cases r) (auto simp: cb_inv_def settle_def Let_def split: if_splits)
qed

lemma cb_inv_step:
  assumes "cb_inv st" "cb_honest st e" "cb_patient st e"
  shows "cb_inv (cb_step st e)"
proof (cases e)
  case Leave
  then show ?thesis using assms(1) req_inv_unmount [of "cb_req st"]
    by (auto simp: cb_inv_def on_unmount_def Let_def split: option.splits)
qed (use assms cb_inv_choose [of st] cb_inv_arrives [of st] in \<open>simp_all del: cb_step.simps\<close>)

lemma cb_inv_open: "cb_inv (cb_open k)"
  by (simp add: cb_open_def cb_send_def init_req_def sendRequest_def cb_inv_def req_inv_def)

lemma cb_inv_run: "cb_inv st \<Longrightarrow> cb_run_ok st es \<Longrightarrow> cb_inv (foldl cb_step st es)"
  by (induction es arbitrary: st) (simp_all add: cb_inv_step)

text \<open>
  A card of the capacity estimate shows the capacity of the chosen workload or time range, when the choice is changed
  only while no estimate is loading: whatever is chosen then and however the answers come, an estimate that is not marked
  as loading was computed for the choice on the screen.
\<close>

theorem estimate_matches_choice:
  fixes k :: 'k and es :: "('k, 'k \<times> 'v, 'e) cb_event list"
  assumes "cb_run_ok (cb_open k) es" "st = foldl cb_step (cb_open k) es"
    and "mounted (cb_req st)" "\<not> isLoading (cb_req st)" "resp (cb_req st) = Some (k', v)"
  shows "k' = cb_choice st"
  using cb_inv_run [OF cb_inv_open assms(1)] assms(2-5) by (auto simp: cb_inv_def req_inv_def)

theorem estimate_matches_choice_witness:
  "let st = foldl cb_step (cb_open ''tpcc'')
        [Arrives 0 (Inr (''tpcc'', 1 :: nat)), Choose ''oltp_read_only'', Arrives 1 (Inr (''oltp_read_only'', 2))] ::
        (string, string \<times> nat, unit) calibrate
   in resp (cb_req st) = Some (''oltp_read_only'', 2) \<and> ''oltp_read_only'' = cb_choice st"
proof -
  let ?es = "[Arrives 0 (Inr (''tpcc'', 1)), Choose ''oltp_read_only'', Arrives 1 (Inr (''oltp_read_only'', 2))] ::
    (string, string \<times> nat, unit) cb_event list"
  let ?st = "foldl cb_step (cb_open ''tpcc'') ?es"
  have ok: "cb_run_ok (cb_open ''tpcc'') ?es" "mounted (cb_req ?st)" "\<not> isLoading (cb_req ?st)"
    "resp (cb_req ?st) = Some (''oltp_read_only'', 2)"
    by (simp_all add: cb_open_def cb_send_def init_req_def sendRequest_def settle_def)
  show ?thesis using estimate_matches_choice [OF ok(1) refl ok(2-4)] ok(4) unfolding Let_def by simp
qed

text \<open>
  A choice made while an estimate is loading is lost: the hook sends nothing while a request is under way, and the
  estimate for the old choice stays on the screen under the new one.
\<close>

lemma estimate_lost_choice:
  assumes "k' \<noteq> k" "st = foldl cb_step (cb_open k) [Choose k', Arrives 0 (Inr (k, v))]"
  shows "cb_choice st = k' \<and> resp (cb_req st) = Some (k, v) \<and> \<not> isLoading (cb_req st) \<and> pending (cb_req st) = []"
  using assms by (simp add: cb_open_def cb_send_def init_req_def sendRequest_def settle_def)

text \<open>The total is a finite number, the sum of the finite units of all groups but the default one.\<close>

lemma totalRU_sum:
  assumes "list_all (\<lambda>g. js_Number (rg_ru g) \<in> range Fin \<union> {NaN}) info"
  shows "totalRU (Some info) =
    Fin (\<Sum>g\<leftarrow>filter (\<lambda>g. rg_name g \<noteq> ''default'') info. case js_Number (rg_ru g) of Fin x \<Rightarrow> x | _ \<Rightarrow> 0)"
proof -
  have "foldl (\<lambda>acc cur. let ru = js_Number (rg_ru cur) in if ru \<noteq> NaN then acc + ru else acc) (Fin a) gs =
      Fin (a + (\<Sum>g\<leftarrow>gs. case js_Number (rg_ru g) of Fin x \<Rightarrow> x | _ \<Rightarrow> 0))"
    if "list_all (\<lambda>g. js_Number (rg_ru g) \<in> range Fin \<union> {NaN}) gs" for a gs
    using that by (induction gs arbitrary: a) (auto simp: Let_def)
  from this [of "filter (\<lambda>g. rg_name g \<noteq> ''default'') info" 0] show ?thesis
    using assms by (simp add: totalRU_def list_all_iff zero_jsnum_def)
qed

end
