(* ===== verification/DetailPages.thy ===== *)
theory DetailPages
  imports JsSort JsString
begin

text \<open>
  The detail pages: the order of the plans of a statement and the binding of a plan (\<open>apps/Statement/pages/Detail\<close>), and
  the plan and the switches of a slow query (\<open>apps/SlowQuery/pages/Detail\<close>).
\<close>

subsection \<open>The plans of a statement\<close>

record plan_row =
  pl_digest :: string
  pl_exec_count :: rat
  pl_avg_latency :: rat
  pl_can_be_bound :: bool

definition compareFn :: "plan_row \<Rightarrow> plan_row \<Rightarrow> jsnum" where
  "compareFn a b =
     (if pl_exec_count a = pl_exec_count b then Fin (pl_avg_latency b - pl_avg_latency a)
      else Fin (pl_exec_count b - pl_exec_count a))"

text \<open>The effect of loaded plans: all of them are selected, and then sorted in place.\<close>

definition plans_effect :: "plan_row list option \<Rightarrow> plan_row list option \<times> string list option" where
  "plans_effect plans =
     (case plans of
        None \<Rightarrow> (None, None)
      | Some ps \<Rightarrow> if ps = [] then (Some ps, None) else (Some (js_sort compareFn ps), Some (map pl_digest ps)))"

text \<open>More executions come first, and of the same number the slower plan.\<close>

definition plan_before :: "plan_row \<Rightarrow> plan_row \<Rightarrow> bool" where
  "plan_before a b \<longleftrightarrow>
     pl_exec_count b < pl_exec_count a \<or> pl_exec_count a = pl_exec_count b \<and> pl_avg_latency b \<le> pl_avg_latency a"

lemma plans_sorted:
  assumes "plans_effect (Some ps) = (Some qs, sel)"
  shows "mset qs = mset ps" "sorted_wrt plan_before qs" "ps \<noteq> [] \<Longrightarrow> sel = Some (map pl_digest ps)"
proof -
  have "sorted_wrt plan_before (js_sort compareFn ps)"
  proof (rule js_sort_wrt [where A = UNIV])
    show "plan_before a c" if "plan_before a b" "plan_before b c" for a b c
      using that by (auto simp: plan_before_def)
    show "if compareFn a b < 0 then plan_before a b else plan_before b a" for a b
      by (auto simp: plan_before_def compareFn_def zero_jsnum_def)
  qed simp
  then show "mset qs = mset ps" "sorted_wrt plan_before qs" "ps \<noteq> [] \<Longrightarrow> sel = Some (map pl_digest ps)"
    using assms by (auto simp: plans_effect_def split: if_splits)
qed

subsection \<open>Binding a plan\<close>

text \<open>
  \<open>PlanBind\<close> and its dialog. \<open>pb_status\<close> is the request of the status: \<^term>\<open>None\<close> when it is answered, else whether the server
  has handled it and with which binding. \<open>pb_flight\<close> is the request of the buttons, with its outcome once the server has
  handled it. \<open>pb_server\<close> is the binding on the server.
\<close>

datatype bind_op = BindPlan string | DropPlan

record plan_bind =
  pb_bound :: "string option"
  pb_modal :: bool
  pb_selected :: "string option"
  pb_loading :: bool
  pb_status :: "string option option option"
  pb_flight :: "(bind_op \<times> bool option) option"
  pb_server :: "string option"

datatype bind_event =
    OpenBind | CloseBind | SelectPlans "string list"
  | ClickBind | ClickDrop
  | ServeStatus | StatusAnswer | StatusFails
  | ServeOp bool | OpAnswer

text \<open>Empty digests count as none.\<close>

definition digest_of :: "string option \<Rightarrow> string option" where
  "digest_of d = (case d of Some s \<Rightarrow> if s = [] then None else Some s | None \<Rightarrow> None)"

definition new_bind :: "string option \<Rightarrow> plan_bind" where
  "new_bind srv = \<lparr>pb_bound = None, pb_modal = False, pb_selected = None, pb_loading = False, pb_status = Some None,
     pb_flight = None, pb_server = srv\<rparr>"

definition handleSelectedPlanChange :: "string list \<Rightarrow> plan_bind \<Rightarrow> plan_bind" where
  "handleSelectedPlanChange plan s =
     (case plan of [] \<Rightarrow> s\<lparr>pb_selected := None\<rparr> | p # _ \<Rightarrow> s\<lparr>pb_selected := Some p\<rparr>)"

definition handlePlanBind :: "plan_bind \<Rightarrow> plan_bind" where
  "handlePlanBind s =
     (case digest_of (pb_selected s) of
        Some p \<Rightarrow>
          if pb_modal s \<and> digest_of (pb_bound s) = None \<and> \<not> pb_loading s
          then s\<lparr>pb_loading := True, pb_flight := Some (BindPlan p, None)\<rparr> else s
      | None \<Rightarrow> s)"

definition handleDropPlan :: "plan_bind \<Rightarrow> plan_bind" where
  "handleDropPlan s =
     (if pb_modal s \<and> digest_of (pb_bound s) \<noteq> None \<and> \<not> pb_loading s
      then s\<lparr>pb_loading := True, pb_flight := Some (DropPlan, None)\<rparr> else s)"

definition op_answered :: "plan_bind \<Rightarrow> plan_bind" where
  "op_answered s =
     (case pb_flight s of
        Some (BindPlan p, Some ok) \<Rightarrow>
          (if ok then s\<lparr>pb_bound := Some p\<rparr> else s)\<lparr>pb_loading := False, pb_flight := None\<rparr>
      | Some (DropPlan, Some ok) \<Rightarrow>
          (if ok then s\<lparr>pb_selected := None, pb_bound := None\<rparr> else s)\<lparr>pb_loading := False, pb_flight := None\<rparr>
      | _ \<Rightarrow> s)"

text \<open>The server carries out an operation or fails.\<close>

definition serve_op :: "bool \<Rightarrow> plan_bind \<Rightarrow> plan_bind" where
  "serve_op ok s =
     (case pb_flight s of
        Some (BindPlan p, None) \<Rightarrow> s\<lparr>pb_flight := Some (BindPlan p, Some ok), pb_server := (if ok then Some p else pb_server s)\<rparr>
      | Some (DropPlan, None) \<Rightarrow> s\<lparr>pb_flight := Some (DropPlan, Some ok), pb_server := (if ok then None else pb_server s)\<rparr>
      | _ \<Rightarrow> s)"

fun bind_step :: "bool \<Rightarrow> plan_bind \<Rightarrow> bind_event \<Rightarrow> plan_bind" where
  "bind_step canBind s OpenBind = (if canBind then s\<lparr>pb_modal := True\<rparr> else s)"
| "bind_step canBind s CloseBind = s\<lparr>pb_modal := False\<rparr>"
| "bind_step canBind s (SelectPlans ps) = (if pb_modal s \<and> \<not> pb_loading s then handleSelectedPlanChange ps s else s)"
| "bind_step canBind s ClickBind = handlePlanBind s"
| "bind_step canBind s ClickDrop = handleDropPlan s"
| "bind_step canBind s ServeStatus = (if pb_status s = Some None then s\<lparr>pb_status := Some (Some (pb_server s))\<rparr> else s)"
| "bind_step canBind s StatusAnswer =
     (case pb_status s of
        Some (Some d) \<Rightarrow> s\<lparr>pb_status := None, pb_bound := (case d of None \<Rightarrow> Some [] | Some p \<Rightarrow> Some p)\<rparr>
      | _ \<Rightarrow> s)"
| "bind_step canBind s StatusFails = (if pb_status s = None then s else s\<lparr>pb_status := None\<rparr>)"
| "bind_step canBind s (ServeOp ok) = serve_op ok s"
| "bind_step canBind s OpAnswer = op_answered s"

text \<open>
  What the page knows: nothing is under way that it does not show, and once the status has arrived what it shows as bound
  is the binding on the server, unless an operation is between the server and the page.
\<close>

fun told :: "(bind_op \<times> bool option) option \<Rightarrow> string option \<Rightarrow> string option" where
  "told (Some (BindPlan p, Some True)) b = Some p"
| "told (Some (DropPlan, Some True)) b = None"
| "told _ b = digest_of b"

definition bind_inv :: "plan_bind \<Rightarrow> bool" where
  "bind_inv s \<longleftrightarrow>
     pb_server s \<noteq> Some [] \<and> (pb_loading s \<longleftrightarrow> pb_flight s \<noteq> None) \<and>
     (\<forall>p r. pb_flight s = Some (BindPlan p, r) \<longrightarrow> p \<noteq> []) \<and>
     (pb_status s = None \<longrightarrow> told (pb_flight s) (pb_bound s) = pb_server s) \<and>
     (pb_status s \<noteq> None \<longrightarrow> pb_flight s = None \<and> (\<forall>d. pb_status s = Some (Some d) \<longrightarrow> d = pb_server s))"

text \<open>The user waits for the status before he uses the buttons, and the status arrives.\<close>

fun bind_patient :: "plan_bind \<Rightarrow> bind_event \<Rightarrow> bool" where
  "bind_patient s ClickBind = (pb_status s = None)"
| "bind_patient s ClickDrop = (pb_status s = None)"
| "bind_patient s StatusFails = False"
| "bind_patient s _ = True"

fun bind_run_ok :: "bool \<Rightarrow> plan_bind \<Rightarrow> bind_event list \<Rightarrow> bool" where
  "bind_run_ok canBind s [] = True"
| "bind_run_ok canBind s (e # es) = (bind_patient s e \<and> bind_run_ok canBind (bind_step canBind s e) es)"

lemma bind_inv_other: "bind_inv s \<Longrightarrow> bind_inv (s\<lparr>pb_modal := m\<rparr>)" "bind_inv s \<Longrightarrow> bind_inv (s\<lparr>pb_selected := d\<rparr>)"
  by (simp_all add: bind_inv_def)

lemma bind_inv_idle:
  assumes "bind_inv s" "\<not> pb_loading s" "pb_status s = None" "op = BindPlan [] \<Longrightarrow> False"
  shows "bind_inv (s\<lparr>pb_loading := True, pb_flight := Some (op, None)\<rparr>)"
  using assms by (cases op; cases "pb_flight s") (auto simp: bind_inv_def)

lemma bind_inv_click:
  assumes "bind_inv s" "pb_status s = None"
  shows "bind_inv (handlePlanBind s)" "bind_inv (handleDropPlan s)"
  using assms bind_inv_idle [OF assms(1)]
  by (auto simp: handlePlanBind_def handleDropPlan_def digest_of_def split: option.splits if_splits)

lemma bind_inv_flight:
  assumes "bind_inv s"
  shows "bind_inv (serve_op ok s)" "bind_inv (op_answered s)"
proof -
  show "bind_inv (serve_op ok s)"
  proof (cases "pb_flight s")
    case (Some f)
    then show ?thesis using assms by (cases f; cases "fst f"; cases "snd f"; cases ok) (simp_all add: bind_inv_def serve_op_def)
  qed (use assms in \<open>simp add: serve_op_def\<close>)
  show "bind_inv (op_answered s)"
  proof (cases "pb_flight s")
    case (Some f)
    then show ?thesis using assms
      by (cases f; cases "fst f"; cases "snd f"; cases "the (snd f)") (auto simp: bind_inv_def op_answered_def digest_of_def split: option.splits)
  qed (use assms in \<open>simp add: op_answered_def\<close>)
qed

lemma bind_inv_status:
  assumes "bind_inv s"
  shows "bind_inv (bind_step canBind s ServeStatus)" "bind_inv (bind_step canBind s StatusAnswer)"
proof -
  show "bind_inv (bind_step canBind s ServeStatus)" using assms by (auto simp: bind_inv_def)
  show "bind_inv (bind_step canBind s StatusAnswer)"
  proof (cases "pb_status s")
    case (Some d)
    then show ?thesis using assms by (cases d; cases "pb_server s") (auto simp: bind_inv_def digest_of_def)
  qed (use assms in simp)
qed

lemma bind_inv_step:
  assumes "bind_inv s" "bind_patient s e"
  shows "bind_inv (bind_step canBind s e)"
proof (cases e)
  case (SelectPlans ps)
  then show ?thesis using assms(1) bind_inv_other(2) by (cases ps) (simp_all add: handleSelectedPlanChange_def)
next
  case ServeStatus
  then show ?thesis using bind_inv_status(1) [OF assms(1)] by blast
next
  case StatusAnswer
  then show ?thesis using bind_inv_status(2) [OF assms(1)] by blast
qed (use assms bind_inv_other(1) bind_inv_click bind_inv_flight in simp_all)

lemma bind_inv_run: "bind_inv s \<Longrightarrow> bind_run_ok canBind s es \<Longrightarrow> bind_inv (foldl (bind_step canBind) s es)"
  by (induction es arbitrary: s) (simp_all add: bind_inv_step)

lemma bind_inv_shown: "bind_inv s \<Longrightarrow> pb_status s = None \<Longrightarrow> \<not> pb_loading s \<Longrightarrow> digest_of (pb_bound s) = pb_server s"
  by (cases "pb_flight s") (simp_all add: bind_inv_def)



text \<open>
  The status of the server before a binding may arrive after it: the page then shows a bound statement as not bound, and
  offers to bind it again.
\<close>

lemma late_status_hides_binding:
  "let s = foldl (bind_step True) (new_bind None)
        [ServeStatus, OpenBind, SelectPlans [''p1''], ClickBind, ServeOp True, OpAnswer, StatusAnswer]
   in pb_server s = Some ''p1'' \<and> digest_of (pb_bound s) = None \<and> \<not> pb_loading s"
  by code_simp

subsection \<open>A slow query\<close>

text \<open>
  The request and the key of its answer, the text of the plan, and the switches of the page, which are kept in the local
  storage.
\<close>

record detail_state =
  dt_digest :: string
  dt_connectionId :: string
  dt_timestamp :: jsnum

definition detail_key :: "detail_state \<Rightarrow> string list \<times> rat option" where
  "detail_key d =
     ([''slow_query'', ''detail'', dt_digest d, dt_connectionId d], case dt_timestamp d of Fin x \<Rightarrow> Some x | _ \<Rightarrow> None)"

definition detail_request :: "detail_state \<Rightarrow> string \<times> string \<times> jsnum" where
  "detail_request d = (dt_connectionId d, dt_digest d, dt_timestamp d)"

definition binary_plan_text :: "string option \<Rightarrow> string option \<Rightarrow> string option" where
  "binary_plan_text binary_plan_json binary_plan =
     (let json = (case binary_plan_json of Some j \<Rightarrow> Some j | None \<Rightarrow> binary_plan) in digest_of json)"

record detail_expand =
  prev_query :: bool
  query_expand :: bool
  plan_expand :: bool

definition togglePrevQuery :: "detail_expand \<Rightarrow> detail_expand" where
  "togglePrevQuery e = e\<lparr>prev_query := \<not> prev_query e\<rparr>"

definition toggleQuery :: "detail_expand \<Rightarrow> detail_expand" where
  "toggleQuery e = e\<lparr>query_expand := \<not> query_expand e\<rparr>"

definition detail_back :: "bool option \<Rightarrow> string option" where
  "detail_back historyBack = (if historyBack = Some True then None else Some ''/slow_query'')"

lemma detail_key_request:
  assumes "detail_key d = detail_key d'" "dt_timestamp d \<in> range Fin" "dt_timestamp d' \<in> range Fin"
  shows "detail_request d = detail_request d'"
  using assms by (auto simp: detail_key_def detail_request_def)

lemma toggles_commute:
  "togglePrevQuery (toggleQuery e) = toggleQuery (togglePrevQuery e)" "toggleQuery (toggleQuery e) = e"
  "plan_expand (toggleQuery e) = plan_expand e"
  by (simp_all add: togglePrevQuery_def toggleQuery_def)

text \<open>An empty JSON plan hides the plan in the other format: the page takes the first one that is not missing.\<close>

lemma empty_json_plan: "binary_plan_text (Some []) (Some p) = None"
  by (simp add: binary_plan_text_def digest_of_def)

end
