(* ===== verification/Spec2Isabelle.thy ===== *)
theory Spec2Isabelle
  imports Cache ListUrlState ClientRequest InstanceTable Prometheus PlanParser Selection HeatmapChart
    SlowQueryController StatementController StoreLocation AutoRefresh TopSql MetricPanels
    InstanceSelect BinaryPlan Session SearchLogs OptimizerTrace Configuration CardTable Profiling
    KeyVizPage QueryPagesV2 MetricChartsV2 SignIn TableColumns QueryKeys ListPages Deadlock SettingForms
    SelectInputs ResourceManager DetailPages
begin

text \<open>
  A verification development for the user interfaces of TiDB Dashboard: the component library
  \<open>src/ui/packages/tidb-dashboard-lib\<close> (called the library below) and its successor
  \<open>src/ui-v2/packages/libs\<close> (ui-v2), both in TypeScript.

  \<^bold>\<open>The program.\<close> The interface is a set of pages over a backend. A page keeps its query in the URL,
  turns it into requests, caches the answers, polls, and shows tables, charts and plans. The logic of
  that lies in hooks and plain functions: the URL state (\<open>url-state.ts\<close> and its relatives), time ranges
  (\<open>TimeRangeSelector\<close>), the request hooks (\<open>useClientRequest.ts\<close>), the response cache
  (\<open>useCache.ts\<close>), the controllers of the statement and slow query lists, selections of instances
  (\<open>selectionWithFilter.ts\<close>, \<open>instanceTable.ts\<close>), time series (\<open>utils/prometheus\<close>), execution plans
  (\<open>plan-table/parser.ts\<close>) and the heatmap of the key visualizer (\<open>apps/KeyViz/heatmap\<close>).

  \<^bold>\<open>Theories.\<close>
  \<^item> \<open>Prelude\<close>: collections of rules, lists and maps. \<open>JsNum\<close>: the numbers of JavaScript as exact
    rationals with the infinities and NaN. \<open>JsString\<close>: \<open>indexOf\<close>, \<open>slice\<close>, \<open>split\<close>, \<open>join\<close>, \<open>trim\<close>,
    \<open>replace\<close>, \<open>String\<close>, \<open>Number\<close>, \<open>parseInt\<close> and \<open>parseFloat\<close>. \<open>UrlCodec\<close>: \<open>encodeURIComponent\<close> and
    \<open>URLSearchParams\<close>. \<open>Json\<close>: \<open>JSON.stringify\<close>, and that it is injective on plain data. \<open>JsObject\<close>: objects with
    their order of keys. \<open>JsSort\<close>: \<open>sort\<close> with a comparator.
  \<^item> \<open>Cache\<close> (\<open>utils/useCache.ts\<close>): the manager with its expiring entries and bounded list of keys.
    Its locale \<open>expiring_store\<close> is what clients rely on; the interpretation \<open>cs\<close> proves it for the
    manager. Lemmas: the invariant in every reachable state, eviction of exactly the oldest entries,
    lookup after store.
  \<^item> \<open>TimeRange\<close> (\<open>TimeRangeSelector\<close>, \<open>1-utils/src/time-range.ts\<close>): ranges, their value at a clock time
    and their form in the URL, for both generations.
  \<^item> \<open>UrlState\<close> (\<open>1-utils/src/url-state\<close>) and \<open>ListUrlState\<close> (the state of the list pages of both
    generations): every reader and setter over the query string; round trips of each of them, and that
    a setter touches no other parameter.
  \<^item> \<open>ClientRequest\<close> (\<open>utils/useClientRequest.ts\<close>): both hooks as states and events; at most one
    request in flight, nothing after unmounting, polls that never overlap.
  \<^item> \<open>ListLoader\<close>, \<open>SlowQueryController\<close>, \<open>StatementController\<close>
    (\<open>useSlowQueryTableController.ts\<close>, \<open>useStatementTableController.ts\<close>, \<open>useOrderState.ts\<close>,
    \<open>useCacheItemIndex.ts\<close>, \<open>getSelectedFields\<close>): the two controllers with every order of answers. What they
    share is proved once in the locale \<open>list_loader\<close> over the cache's interface, and interpreted by
    both (\<open>sq\<close>, \<open>st\<close>): the list shown is an answer to the current options, and loading ends when the
    answers are in.
  \<^item> \<open>InstanceTable\<close> (\<open>utils/instanceTable.ts\<close>) and \<open>Selection\<close> (\<open>utils/selectionWithFilter.ts\<close>): the
    table of instances with its groups and filter, and the selection that survives filtering. The
    \<open>Selection\<close> class of the UI framework is a parameter with the laws of the locale
    \<open>fabric_selection\<close>; \<open>fabric_ref\<close> instantiates it. The selection refines a plain set of keys.
  \<^item> \<open>Prometheus\<close> (\<open>utils/prometheus\<close>, \<open>utils/charts\<close>, \<open>1-utils/src/prom.ts\<close>): query templates, steps
    and aligned ranges, and the filling of gaps in time series.
  \<^item> \<open>PlanParser\<close> (\<open>3-biz-ui/src/plan-table/parser.ts\<close>): both plan formats; parsing what the printer of
    the format prints gives back its rows.
  \<^item> \<open>HeatmapAxis\<close> and \<open>HeatmapChart\<close> (\<open>apps/KeyViz/heatmap\<close>): the layout of the axes, the levels and
    colours of the cells, and the chart as a state machine over the events of mouse, zoom, brush and
    window. d3's zoom transform is a parameter with the laws of the locale \<open>d3_zoom\<close>, and \<open>d3_ref\<close>
    instantiates it.
  \<^item> \<open>TopSql\<close> (\<open>apps/TopSQL\<close>): the request of the page and the clean-up of its answer, the rows of the table,
    the series of the chart, plans, instances, brushing and the selected record. Table and chart agree
    with sums over the points of the answer, whatever arrays are missing in it.
  \<^item> \<open>StoreLocation\<close> (\<open>apps/ClusterInfo/components/StoreLocationTree\<close>): the short names of stores and the tree
    of their locations, which has exactly the routes of the stores.
  \<^item> \<open>AutoRefresh\<close> (\<open>components/AutoRefreshButton\<close>, \<open>3-biz-ui/src/auto-refresh-button\<close>): both buttons as state
    machines; the locale \<open>countdown\<close> counts the refreshes of a countdown once for both.
  \<^item> \<open>MetricPanels\<close> (\<open>metricsQueries.ts\<close> of the operator and cloud distributions, \<open>metricQueries.ts\<close> of the
    resource manager): every panel as data, and a check of their queries and legends that is lifted
    to the queries sent for any step.
  \<^item> \<open>InstanceSelect\<close> (\<open>components/InstanceSelect\<close>): the drop-down that composes \<open>InstanceTable\<close> and \<open>Selection\<close>. The
    locale \<open>instance_selection\<close> extends \<open>fabric_selection\<close> by what this client needs; the chosen value
    and the selected rows agree in every state.
  \<^item> \<open>BinaryPlan\<close> (\<open>components/BinaryPlanTable\<close>): the library's own parser of fixed-width plans, equal to the
    one of ui-v2 on every text.
  \<^item> \<open>Session\<close> (\<open>utils/auth.ts\<close>, \<open>authSSO.ts\<close>, \<open>store.ts\<close>, \<open>registry.ts\<close>, \<open>client/index.tsx\<close> and
    \<open>dashboardApp/main.tsx\<close> of the operator distribution, \<open>utils/routing.ts\<close>): the token and its events, single
    sign-on, the handling of failed requests and the registry of applications.
  \<^item> \<open>SearchLogs\<close> (\<open>apps/SearchLogs\<close>): the search form, which a restored search sends again unchanged, and the tree of
    its progress. It uses \<open>InstanceSelect\<close> for the targets and \<open>TimeRange\<close> for the times.
  \<^item> \<open>OptimizerTrace\<close> (\<open>apps/OptimizerTrace\<close>): the trees of the trace as nodes and lines of Graphviz, the candidates of
    an operator, and the tree of costs, which is built in place on a heap of shared parameters. Its recursion takes the
    depth of the call stack that is left; building is shown to end for every trace whose costs are well founded.
  \<^item> \<open>Configuration\<close> (\<open>apps/Configuration\<close>): the inline editor as a state machine over edits and answers, and the table
    of the items with one group for each kind of component.
  \<^item> \<open>CardTable\<close> (\<open>components/CardTable\<close>, \<open>components/ColumnsSelector\<close>): sorted rows, visible columns and the check boxes
    of the selector.
  \<^item> \<open>Profiling\<close> (\<open>apps/InstanceProfiling\<close>, \<open>apps/ContinuousProfiling\<close>): the request that starts a profile, the progress
    of its tasks, both tables grouped by kind with one proof for their common loop, and the links to the views.
  \<^item> \<open>KeyVizPage\<close> (\<open>apps/KeyViz/components\<close>, \<open>utils/api.ts\<close>, \<open>heatmap/index.tsx\<close>): the page around the chart of
    \<open>HeatmapChart\<close> as a state machine over clicks, answers in any order and events of the chart: controls, requests,
    chart and brightness agree, loading ends, and answers in order show the heatmap of the controls.
  \<^item> \<open>SignIn\<close> (\<open>dashboardApp/layout/signin\<close> of the operator distribution): the forms over the token of \<open>Session\<close>, with
    logins that outlive their form; a password is sent encrypted when the server has a key.
  \<^item> \<open>QueryPagesV2\<close> (\<open>3-biz-ui/src\<close>, \<open>4-apps/src/slow-query\<close>, \<open>4-apps/src/statement\<close>): columns and advanced filters, chosen in
    drop-downs and a dialog, written to the search string and read back through the contract \<open>url_store\<close>; the window of the
    slow query list and its alert; the limits of a custom range.
  \<^item> \<open>MetricChartsV2\<close> (\<open>4-apps/src/metric\<close>, \<open>1-charts/src/series-chart.tsx\<close>): a chart that fetches while it is visible, its
    aligned request on the steps of \<open>Prometheus\<close>, brushing through the search string, and the hidden charts.
  \<^item> \<open>TableColumns\<close> (\<open>utils/tableColumnFactory.tsx\<close>, \<open>components/Bar\<close>, \<open>tableColumns.tsx\<close> of the statement and slow query
    lists): every column with its cell and the bars it draws, against the fields \<open>StatementController\<close> and
    \<open>SlowQueryController\<close> request for it.
  \<^item> \<open>QueryKeys\<close> (the \<open>use-data.ts\<close> of \<open>4-apps\<close> and of its shared cards): the keys, requests and mutations of ui-v2. The store
    of React Query is a parameter with the laws of the locale \<open>keyed_query\<close>, which shows that a page finds only answers to
    its own state whenever equal keys mean equal requests; \<open>vq\<close> proves that for these keys.
  \<^item> \<open>ListPages\<close> (\<open>apps/SlowQuery/pages/List\<close>, \<open>apps/TopSlowQuery/pages\<close>, \<open>apps/Statement/pages/List\<close>, \<open>hooks/useQueryParams.ts\<close>):
    the pages around the lists, over the same locale (\<open>sqp\<close>, \<open>tsq\<close>) and the contract \<open>url_store\<close> of the search string;
    the link from one page to the next is read back by the other.
  \<^item> \<open>Deadlock\<close> (\<open>apps/Deadlock\<close>): chains kept in \<open>Cache\<close>, their summary, and the layout of the graph over the reals.
  \<^item> \<open>SettingForms\<close> (\<open>StatementSettingForm.tsx\<close>, \<open>ConProfSettingForm.tsx\<close>, \<open>SettingsForm.tsx\<close> of Top SQL, \<open>Form.Session.tsx\<close>): the
    locale \<open>switch_form\<close> shows once for three forms that nothing is switched off unconfirmed; sharing of a session, signing out.
  \<^item> \<open>SelectInputs\<close> (\<open>components/BaseSelect\<close>, \<open>components/MultiSelect\<close>): the drop-down box as a state machine, and the multiple
    choice over \<open>Selection\<close>, whose items may change. The locale \<open>item_selection\<close> extends \<open>fabric_selection\<close>; \<open>ref_items\<close> instantiates it.
  \<^item> \<open>ResourceManager\<close> (\<open>apps/ResourceManager\<close>): totals, and the cards of the capacity estimate over the hook of \<open>ClientRequest\<close>,
    which loses a choice made while a request is under way.
  \<^item> \<open>DetailPages\<close> (\<open>apps/Statement/pages/Detail\<close>, \<open>apps/SlowQuery/pages/Detail\<close>): the order of plans, and the binding of a plan
    together with the server: the page never misreports it once the status has arrived.

  \<^bold>\<open>Conventions.\<close> A hook is a record of its state cells and a function from events to states; an
  asynchronous call is an entry in a list of unanswered requests and a later event answers any of them.
  Clocks are arguments. Code outside the repository is an argument, with its documented behaviour as the
  assumptions of a locale. Errors and exceptions are values of sum or option types. Loops are recursive
  functions with a termination proof; the one loop that may not end, the filling of gaps in a time
  series, is a partial function with values in option, and that it returns is a theorem. The only fuel is the
  depth of the call stack in the tree of costs; the theorem on it says that enough depth gives the tree.

  \<^bold>\<open>Not modelled.\<close> The Go backend, the generated API clients, markup and styles, drawing on canvas,
  translations, the formatting of values and SQL, and the pages for diagnosis.
  Numbers are exact: rounding of doubles is not modelled.
\<close>

end
